(* ===== verification/Prelude.thy ===== *)
theory Prelude
  imports Main "HOL-Library.Word" "HOL-Library.List_Lexorder" "HOL-Library.Char_ord"
    "HOL-Library.Product_Lexorder" "HOL-Library.Option_ord" "HOL-Library.Multiset"
begin

text \<open>
  What every component of the domain crate shares: machine integers with Rust's checked and
  saturating operations, the string identifiers the macros \<open>typed_id!\<close>, \<open>string_id!\<close> and
  \<open>model_id!\<close> generate, the outcome of a computation that may panic, loops that stop at the
  first error, and the sort-then-dedup idiom.
\<close>

section \<open>Lemma collections\<close>

named_theorems domain_simps \<open>unfolding of the small predicates of the model\<close>
named_theorems canon_simps \<open>sorting, deduplication and canonical forms\<close>

section \<open>Machine integers\<close>

type_synonym u8 = "8 word"
type_synonym u32 = "32 word"
type_synonym u64 = "64 word"

text \<open>\<open>TimestampMs\<close> and the revision newtypes are transparent wrappers of \<open>u64\<close>.\<close>

type_synonym TimestampMs = u64
type_synonym Revision = u64
type_synonym EntityRevision = u64
type_synonym ProofRevision = u64
type_synonym Fence = u64

text \<open>An addition overflowed when the wrapped sum is below a summand.\<close>

definition checked_add_u64 :: "u64 \<Rightarrow> u64 \<Rightarrow> u64 option" where
  "checked_add_u64 a b = (let c = a + b in if c < a then None else Some c)"

definition saturating_mul_u64 :: "u64 \<Rightarrow> u64 \<Rightarrow> u64" where
  "saturating_mul_u64 a b =
     (if uint a * uint b < 18446744073709551616 then a * b else 18446744073709551615)"

text \<open>\<open>checked_shl\<close> refuses a shift by the width or more; bits shifted out are lost.\<close>

definition checked_shl_u64 :: "u64 \<Rightarrow> nat \<Rightarrow> u64 option" where
  "checked_shl_u64 a n = (if n < 64 then Some (push_bit n a) else None)"

lemma checked_shl_one: "n < 64 \<Longrightarrow> \<exists>m. checked_shl_u64 1 n = Some m \<and> unat m = 2 ^ n"
proof -
  assume "n < 64"
  then have small: "(2::nat) ^ n < 2 ^ 64" by (intro power_strict_increasing) simp_all
  have "(push_bit n 1 :: u64) = of_nat (2 ^ n)" by simp
  then have "unat (push_bit n 1 :: u64) = take_bit 64 (2 ^ n)"
    by (simp only: unsigned_of_nat) simp
  then have "unat (push_bit n 1 :: u64) = 2 ^ n"
    using small by (simp only: take_bit_nat_eq_self)
  with \<open>n < 64\<close> show ?thesis by (simp add: checked_shl_u64_def)
qed

lemma unat_u64_less: "unat (a :: u64) < 18446744073709551616"
proof -
  have "unat a < 2 ^ LENGTH(64)" by (rule unsigned_less)
  then show ?thesis by simp
qed

lemma unat_add_cases:
  fixes a b :: u64
  shows "if a + b < a then 2 ^ 64 \<le> unat a + unat b else unat (a + b) = unat a + unat b"
proof (cases "unat a + unat b < 2 ^ 64")
  case True
  then have "unat (a + b) = unat a + unat b" by (simp add: unat_word_ariths)
  moreover from this have "\<not> a + b < a" by (simp add: word_less_nat_alt)
  ultimately show ?thesis by simp
next
  case False
  have "unat a < 2 ^ 64" "unat b < 2 ^ 64"
    using unat_u64_less [of a] unat_u64_less [of b] by simp_all
  with False have "unat (a + b) = unat a + unat b - 2 ^ 64"
    by (simp add: unat_word_ariths mod_if)
  with False \<open>unat b < 2 ^ 64\<close> have "a + b < a" by (simp add: word_less_nat_alt)
  with False show ?thesis by simp
qed

lemma checked_add_None_iff:
  "checked_add_u64 a b = None \<longleftrightarrow> 2 ^ 64 \<le> unat a + unat b"
  using unat_add_cases [of a b] unat_u64_less [of "a + b"]
  by (simp add: checked_add_u64_def Let_def split: if_splits)

lemma checked_add_Some_iff:
  "checked_add_u64 a b = Some c \<longleftrightarrow> unat c = unat a + unat b"
proof (cases "checked_add_u64 a b")
  case None
  then show ?thesis using checked_add_None_iff [of a b] unat_u64_less [of c] by simp
next
  case (Some d)
  then have "unat d = unat a + unat b"
    using unat_add_cases [of a b] by (simp add: checked_add_u64_def Let_def split: if_splits)
  then show ?thesis using Some by (auto simp: word_unat_eq_iff)
qed

lemma checked_add_le: "checked_add_u64 a b = Some c \<Longrightarrow> a \<le> c"
  by (simp add: checked_add_Some_iff word_le_nat_alt)

lemma checked_add_less_iff: "checked_add_u64 a b = Some c \<Longrightarrow> a < c \<longleftrightarrow> b \<noteq> 0"
  by (auto simp: checked_add_Some_iff word_less_nat_alt unat_gt_0)

lemma unat_saturating_mul:
  "unat (saturating_mul_u64 a b) = min (unat a * unat b) (2 ^ 64 - 1)"
proof -
  have "uint a * uint b < 18446744073709551616 \<longleftrightarrow> unat a * unat b < 2 ^ 64"
  proof -
    have small: "int x < 18446744073709551616 \<longleftrightarrow> x < 2 ^ 64" for x by simp
    have eq: "uint a * uint b = int (unat a * unat b)" by simp
    show ?thesis unfolding eq by (rule small)
  qed
  then show ?thesis
    by (cases "unat a * unat b < 2 ^ 64") (simp_all add: saturating_mul_u64_def unat_word_ariths)
qed

section \<open>Identifiers\<close>

text \<open>
  Each identifier newtype wraps a \<open>String\<close> and derives its order from it.  The phantom argument
  keeps the newtypes apart, as the macro's generated structs are; a \<open>string\<close> is the list of the
  value's UTF-8 bytes, whose lexicographic order is Rust's string order.
\<close>

datatype 'k ident = Ident (as_str: string)

instantiation ident :: (type) linorder
begin

definition less_eq_ident :: "'a ident \<Rightarrow> 'a ident \<Rightarrow> bool" where
  "less_eq_ident a b \<longleftrightarrow> as_str a \<le> as_str b"

definition less_ident :: "'a ident \<Rightarrow> 'a ident \<Rightarrow> bool" where
  "less_ident a b \<longleftrightarrow> as_str a < as_str b"

instance
  by standard (auto simp: less_eq_ident_def less_ident_def intro: ident.expand)

end

datatype project_tag = ProjectTag
datatype work_tag = WorkTag
datatype attempt_tag = AttemptTag
datatype actor_tag = ActorTag
datatype harness_tag = HarnessTag
datatype session_tag = SessionTag
datatype gate_tag = GateTag
datatype profile_tag = ProfileTag
datatype receipt_tag = ReceiptTag
datatype operation_tag = OperationTag
datatype source_tag = SourceTag
datatype config_tag = ConfigTag
datatype dependency_tag = DependencyTag
datatype decision_tag = DecisionTag
datatype digest_tag = DigestTag
datatype cycle_tag = CycleTag
datatype disposition_tag = DispositionTag

type_synonym ProjectId = "project_tag ident"
type_synonym WorkId = "work_tag ident"
type_synonym AttemptId = "attempt_tag ident"
type_synonym ActorId = "actor_tag ident"
type_synonym HarnessId = "harness_tag ident"
type_synonym SessionId = "session_tag ident"
type_synonym GateId = "gate_tag ident"
type_synonym ProfileId = "profile_tag ident"
type_synonym ReceiptId = "receipt_tag ident"
type_synonym OperationId = "operation_tag ident"
type_synonym SourceVersionId = "source_tag ident"
type_synonym ConfigIdentity = "config_tag ident"
type_synonym DependencyId = "dependency_tag ident"
type_synonym DecisionId = "decision_tag ident"
type_synonym ContentDigest = "digest_tag ident"
type_synonym CycleId = "cycle_tag ident"
type_synonym CloseoutDispositionId = "disposition_tag ident"

section \<open>Characters of a string\<close>

text \<open>\<open>chars\<close> decodes the UTF-8 bytes of a valid Rust string into code points.\<close>

definition utf8_continue :: "nat \<Rightarrow> string \<Rightarrow> nat" where
  "utf8_continue lead bs = foldl (\<lambda>acc b. acc * 64 + of_char b mod 64) lead bs"

fun utf8_chars :: "string \<Rightarrow> nat list" where
  "utf8_chars [] = []"
| "utf8_chars (b # bs) =
     (let n = of_char b :: nat in
      if n < 128 then n # utf8_chars bs
      else if n < 224 then utf8_continue (n mod 32) (take 1 bs) # utf8_chars (drop 1 bs)
      else if n < 240 then utf8_continue (n mod 16) (take 2 bs) # utf8_chars (drop 2 bs)
      else utf8_continue (n mod 8) (take 3 bs) # utf8_chars (drop 3 bs))"

definition is_control :: "nat \<Rightarrow> bool" where
  "is_control c \<longleftrightarrow> c < 32 \<or> 127 \<le> c \<and> c < 160"

definition is_whitespace :: "nat \<Rightarrow> bool" where
  "is_whitespace c \<longleftrightarrow> 9 \<le> c \<and> c \<le> 13 \<or> c = 32 \<or> c = 133 \<or> c = 160 \<or> c = 5760
     \<or> 8192 \<le> c \<and> c \<le> 8202 \<or> c = 8232 \<or> c = 8233 \<or> c = 8239 \<or> c = 8287 \<or> c = 12288"

text \<open>\<open>value.trim().is_empty()\<close>: nothing but white space.\<close>

definition trim_is_empty :: "string \<Rightarrow> bool" where
  "trim_is_empty s \<longleftrightarrow> list_all is_whitespace (utf8_chars s)"

lemma trim_is_empty_Nil [simp]: "trim_is_empty []"
  by (simp add: trim_is_empty_def)

text \<open>\<open>Display\<close> of an unsigned integer: its decimal digits, most significant first.\<close>

fun decimal :: "nat \<Rightarrow> string" where
  "decimal n =
     (if n < 10 then [char_of (48 + n)] else decimal (n div 10) @ [char_of (48 + n mod 10)])"

declare decimal.simps [simp del]

section \<open>Outcomes: panics and exhausted fuel\<close>

text \<open>
  A Rust function that calls \<open>expect\<close> or indexes a map may panic, and a recursion with no
  structural argument is given fuel; both stay visible in the result until a theorem excludes
  them.
\<close>

datatype 'a run = Return 'a | Panic | OutOfFuel

primrec returns :: "'a run \<Rightarrow> bool" where
  "returns (Return x) = True"
| "returns Panic = False"
| "returns OutOfFuel = False"

lemma returns_iff: "returns r \<longleftrightarrow> (\<exists>x. r = Return x)"
  by (cases r) auto

primrec run_bind :: "'a run \<Rightarrow> ('a \<Rightarrow> 'b run) \<Rightarrow> 'b run" where
  "run_bind (Return x) f = f x"
| "run_bind Panic f = Panic"
| "run_bind OutOfFuel f = OutOfFuel"

lemma run_bind_Return_iff: "run_bind r f = Return y \<longleftrightarrow> (\<exists>x. r = Return x \<and> f x = Return y)"
  by (cases r) auto

text \<open>\<open>iter.any(...)\<close> with a closure that updates a captured state: it stops at the first true.\<close>

primrec any_run :: "('s \<Rightarrow> 'a \<Rightarrow> (bool \<times> 's) run) \<Rightarrow> 's \<Rightarrow> 'a list \<Rightarrow> (bool \<times> 's) run" where
  "any_run f s [] = Return (False, s)"
| "any_run f s (x # xs) = run_bind (f s x) (\<lambda>(b, t). if b then Return (True, t) else any_run f t xs)"

text \<open>\<open>for x in xs { if let Some(r) = ... { return Some(r) } }\<close> with a loop-carried state.\<close>

primrec first_run :: "('s \<Rightarrow> 'a \<Rightarrow> ('r option \<times> 's) run) \<Rightarrow> 's \<Rightarrow> 'a list \<Rightarrow> ('r option \<times> 's) run" where
  "first_run f s [] = Return (None, s)"
| "first_run f s (x # xs) = run_bind (f s x)
     (\<lambda>(r, t). case r of Some y \<Rightarrow> Return (Some y, t) | None \<Rightarrow> first_run f t xs)"

text \<open>The rule for such loops: an invariant on the processed prefix, or a good early result.\<close>

lemma first_run_rule:
  assumes step: "\<And>ys s x. x \<in> set xs \<Longrightarrow> I ys s \<Longrightarrow>
      \<exists>r t. f s x = Return (r, t) \<and> (case r of Some y \<Rightarrow> Q y | None \<Rightarrow> I (ys @ [x]) t)"
    and start: "I ys s"
  shows "\<exists>r t. first_run f s xs = Return (r, t) \<and> (case r of Some y \<Rightarrow> Q y | None \<Rightarrow> I (ys @ xs) t)"
  using step start
proof (induction xs arbitrary: ys s)
  case (Cons x xs)
  obtain r t where r: "f s x = Return (r, t)" "case r of Some y \<Rightarrow> Q y | None \<Rightarrow> I (ys @ [x]) t"
    using Cons.prems(1) [OF _ Cons.prems(2), of x] by auto
  show ?case
  proof (cases r)
    case None
    with r(2) have "I (ys @ [x]) t" by simp
    then obtain r' t' where "first_run f t xs = Return (r', t')"
      "case r' of Some y \<Rightarrow> Q y | None \<Rightarrow> I ((ys @ [x]) @ xs) t'"
      using Cons.IH [of "ys @ [x]" t] Cons.prems(1) by auto
    with r None show ?thesis by (simp split: option.splits)
  next
    case (Some y)
    with r show ?thesis by simp
  qed
qed simp

text \<open>\<open>iter().map(...).collect()\<close> with a closure that updates captured state.\<close>

primrec map_state :: "('s \<Rightarrow> 'a \<Rightarrow> 'b \<times> 's) \<Rightarrow> 's \<Rightarrow> 'a list \<Rightarrow> 'b list \<times> 's" where
  "map_state f s [] = ([], s)"
| "map_state f s (x # xs) =
     (let (y, t) = f s x; (ys, u) = map_state f t xs in (y # ys, u))"

text \<open>\<open>iter().position(...)\<close>.\<close>

primrec position :: "('a \<Rightarrow> bool) \<Rightarrow> 'a list \<Rightarrow> nat option" where
  "position P [] = None"
| "position P (x # xs) = (if P x then Some 0 else map_option Suc (position P xs))"

lemma position_Some: "position P xs = Some i \<Longrightarrow> i < length xs \<and> P (xs ! i)"
  by (induction xs arbitrary: i) (auto split: if_splits)

lemma position_None: "position P xs = None \<longleftrightarrow> (\<forall>x \<in> set xs. \<not> P x)"
  by (induction xs) auto

section \<open>Loops that stop at the first error\<close>

text \<open>\<open>for x in xs { ...; return Err(e) }\<close> with a loop-carried state.\<close>

primrec try_fold :: "('s \<Rightarrow> 'a \<Rightarrow> 'e + 's) \<Rightarrow> 's \<Rightarrow> 'a list \<Rightarrow> 'e + 's" where
  "try_fold f s [] = Inr s"
| "try_fold f s (x # xs) = (case f s x of Inl e \<Rightarrow> Inl e | Inr s' \<Rightarrow> try_fold f s' xs)"

lemma try_fold_append:
  "try_fold f s (xs @ ys) = (case try_fold f s xs of Inl e \<Rightarrow> Inl e | Inr s' \<Rightarrow> try_fold f s' ys)"
  by (induction xs arbitrary: s) (auto split: sum.splits)

text \<open>
  The general shape of the validation loops: a step accepts exactly when a condition on the
  prefix holds and then appends the element to what the state summarises.
\<close>

lemma try_fold_prefix:
  assumes step: "\<And>ys s x. P ys s \<Longrightarrow>
      (if ok ys x then \<exists>s'. f s x = Inr s' \<and> P (ys @ [x]) s' else \<exists>e. f s x = Inl e)"
    and start: "P ys s"
  shows "if (\<forall>i < length xs. ok (ys @ take i xs) (xs ! i))
     then \<exists>s'. try_fold f s xs = Inr s' \<and> P (ys @ xs) s'
     else \<exists>e. try_fold f s xs = Inl e"
  using start
proof (induction xs arbitrary: ys s)
  case Nil
  then show ?case by simp
next
  case (Cons x xs)
  have split: "(\<forall>i < length (x # xs). ok (ys @ take i (x # xs)) ((x # xs) ! i)) \<longleftrightarrow>
      ok ys x \<and> (\<forall>i < length xs. ok ((ys @ [x]) @ take i xs) (xs ! i))"
    by (auto simp: less_Suc_eq_0_disj)
  show ?case
  proof (cases "ok ys x")
    case True
    then obtain s' where s': "f s x = Inr s'" "P (ys @ [x]) s'"
      using step [OF Cons.prems, of x] by auto
    show ?thesis
      unfolding split using Cons.IH [OF s'(2)] s'(1) True by (simp add: if_bool_eq_conj)
  next
    case False
    then obtain e where "f s x = Inl e"
      using step [OF Cons.prems, of x] by auto
    then show ?thesis
      unfolding split using False by simp
  qed
qed

text \<open>A loop whose body only checks.\<close>

lemma try_fold_check: "try_fold (\<lambda>_. f) () xs = Inr () \<longleftrightarrow> (\<forall>x \<in> set xs. f x = Inr ())"
  by (induction xs) (auto split: sum.splits)

text \<open>The \<open>?\<close> operator.\<close>

definition sum_bind :: "'e + 'a \<Rightarrow> ('a \<Rightarrow> 'e + 'b) \<Rightarrow> 'e + 'b" where
  "sum_bind r f = (case r of Inl e \<Rightarrow> Inl e | Inr x \<Rightarrow> f x)"

lemma sum_bind_simps [simp]: "sum_bind (Inl e) f = Inl e" "sum_bind (Inr x) f = f x"
  by (simp_all add: sum_bind_def)

lemma sum_bind_Inr_iff: "sum_bind r f = Inr y \<longleftrightarrow> (\<exists>x. r = Inr x \<and> f x = Inr y)"
  by (cases r) simp_all

lemma sum_bind_Inl_iff: "sum_bind r f = Inl e \<longleftrightarrow> r = Inl e \<or> (\<exists>x. r = Inr x \<and> f x = Inl e)"
  by (cases r) simp_all

lemma map_sum_id_Inr_iff: "map_sum f id r = Inr y \<longleftrightarrow> r = Inr y"
  by (cases r) simp_all

text \<open>No element repeats the key of an earlier one.\<close>

lemma distinct_prefixes:
  "(\<forall>i < length xs. f (xs ! i) \<notin> f ` set (take i xs)) \<longleftrightarrow> distinct (map f xs)"
proof (induction xs rule: rev_induct)
  case (snoc x xs)
  have "(\<forall>i < length (xs @ [x]). f ((xs @ [x]) ! i) \<notin> f ` set (take i (xs @ [x]))) \<longleftrightarrow>
      (\<forall>i < length xs. f (xs ! i) \<notin> f ` set (take i xs)) \<and> f x \<notin> f ` set xs"
    by (auto simp: less_Suc_eq nth_append)
  with snoc show ?case by auto
qed simp

section \<open>Sorting and deduplication\<close>

text \<open>\<open>xs.sort(); xs.dedup();\<close>: \<open>dedup\<close> removes equal neighbours only.\<close>

definition sort_dedup :: "'a::linorder list \<Rightarrow> 'a list" where
  "sort_dedup xs = remdups_adj (sort xs)"

lemma set_sort_dedup [simp]: "set (sort_dedup xs) = set xs"
  by (simp add: sort_dedup_def)

lemma sorted_sort_dedup [simp]: "sorted (sort_dedup xs)"
  by (simp add: sort_dedup_def)

lemma distinct_remdups_adj_sorted: "sorted xs \<Longrightarrow> distinct (remdups_adj xs)"
proof (induction xs rule: remdups_adj.induct)
  case (3 x y xs)
  then have rest: "distinct (remdups_adj (y # xs))" by (cases "x = y") auto
  show ?case
  proof (cases "x = y")
    case True
    with rest show ?thesis by simp
  next
    case False
    with "3.prems" have "x \<notin> set (y # xs)" by (fastforce dest: order.antisym)
    with False rest show ?thesis by simp
  qed
qed simp_all

lemma distinct_sort_dedup [simp]: "distinct (sort_dedup xs)"
  by (simp add: sort_dedup_def distinct_remdups_adj_sorted)

lemma sort_dedup_unique:
  "sorted ys \<Longrightarrow> distinct ys \<Longrightarrow> set ys = set xs \<Longrightarrow> sort_dedup xs = ys"
  by (rule sorted_distinct_set_unique) simp_all

lemma sort_dedup_cong: "set xs = set ys \<Longrightarrow> sort_dedup xs = sort_dedup ys"
  by (rule sort_dedup_unique) simp_all

lemma sort_dedup_Nil_iff [simp]: "sort_dedup xs = [] \<longleftrightarrow> xs = []"
  by (metis set_empty set_sort_dedup)

lemma sort_dedup_idem [simp]: "sort_dedup (sort_dedup xs) = sort_dedup xs"
  by (rule sort_dedup_unique) simp_all

text \<open>A stable sort by a key that is injective on the list depends on the multiset only.\<close>

lemma sort_key_canonical:
  assumes "mset xs = mset ys" and inj: "inj_on k (set xs)"
  shows "sort_key k xs = sort_key k ys"
proof (rule map_inj_on [of k])
  have "set xs = set ys" using assms(1) by (rule mset_eq_setD)
  then show "inj_on k (set (sort_key k xs) \<union> set (sort_key k ys))"
    using inj by simp
  have "sort (map k ys) = map k (sort_key k zs)" if "mset zs = mset ys" for zs
    by (rule properties_for_sort) (simp_all add: that)
  then show "map k (sort_key k xs) = map k (sort_key k ys)"
    using assms(1) by metis
qed

end
