(* ===== verification/Graph_Search.thy ===== *)
theory Graph_Search
  imports Prelude
begin

text \<open>
  The graph facts behind every search of the domain crate: the cycle search of the dependency
  graph, the reachability checks of both dependency validators and the breadth-first walks of
  the impact preview.  The locale fixes the successor lists a search follows; a search is
  correct because the set it has finished is closed under successors.
\<close>

section \<open>Distances\<close>

text \<open>\<open>n\<close> is the least number of arcs from a root to \<open>w\<close>.\<close>

definition hops :: "('n \<times> 'n) set \<Rightarrow> 'n set \<Rightarrow> 'n \<Rightarrow> nat \<Rightarrow> bool" where
  "hops A R w n \<longleftrightarrow> (\<exists>r \<in> R. (r, w) \<in> A ^^ n) \<and> (\<forall>m < n. \<forall>r \<in> R. (r, w) \<notin> A ^^ m)"

text \<open>
  Distances that are witnessed by a walk, give every root the base value and grow by at most one
  along an arc are the shortest ones, whatever order a work list computed them in.
\<close>

lemma hops_of_closed:
  assumes sound: "\<And>w d. dist w = Some d \<Longrightarrow> b \<le> d \<and> (\<exists>r \<in> R. (r, w) \<in> A ^^ (d - b))"
    and roots: "\<And>r. r \<in> R \<Longrightarrow> dist r = Some b"
    and closed: "\<And>u v d. dist u = Some d \<Longrightarrow> (u, v) \<in> A \<Longrightarrow> \<exists>d'. dist v = Some d' \<and> d' \<le> d + 1"
  shows "dist w = Some d \<longleftrightarrow> b \<le> d \<and> hops A R w (d - b)"
proof -
  have upper: "\<exists>d'. dist w = Some d' \<and> d' \<le> b + n" if "r \<in> R" "(r, w) \<in> A ^^ n" for r w n
    using that(2)
  proof (induction n arbitrary: w)
    case 0
    with that(1) roots show ?case by simp
  next
    case (Suc n)
    then obtain y where "(r, y) \<in> A ^^ n" "(y, w) \<in> A" by auto
    with Suc.IH obtain e where "dist y = Some e" "e \<le> b + n" by blast
    with closed \<open>(y, w) \<in> A\<close> show ?case by fastforce
  qed
  show ?thesis
  proof
    assume d: "dist w = Some d"
    have "(r, w) \<notin> A ^^ m" if "m < d - b" "r \<in> R" for m r
      using upper [OF that(2), of w m] that(1) d by auto
    with sound [OF d] show "b \<le> d \<and> hops A R w (d - b)" by (simp add: hops_def)
  next
    assume d: "b \<le> d \<and> hops A R w (d - b)"
    then obtain r where r: "r \<in> R" "(r, w) \<in> A ^^ (d - b)" by (auto simp: hops_def)
    obtain e where e: "dist w = Some e" "e \<le> d" using upper [OF r] d by auto
    have "\<not> e - b < d - b" using d sound [OF e(1)] by (auto simp: hops_def)
    then have "e = d" using d e(2) sound [OF e(1)] by linarith
    with e show "dist w = Some d" by simp
  qed
qed

lemma hops_reach: "(\<exists>n. hops A R w n) \<longleftrightarrow> (\<exists>r \<in> R. (r, w) \<in> A\<^sup>*)"
proof
  assume "\<exists>r \<in> R. (r, w) \<in> A\<^sup>*"
  then have ex: "\<exists>n. \<exists>r \<in> R. (r, w) \<in> A ^^ n" by (metis rtrancl_imp_relpow)
  have "hops A R w (LEAST n. \<exists>r \<in> R. (r, w) \<in> A ^^ n)"
    unfolding hops_def using LeastI_ex [OF ex] by (blast dest: not_less_Least)
  then show "\<exists>n. hops A R w n" by blast
next
  assume "\<exists>n. hops A R w n"
  then show "\<exists>r \<in> R. (r, w) \<in> A\<^sup>*" unfolding hops_def by (meson relpow_imp_rtrancl)
qed

section \<open>Depth-first searches\<close>

locale succ_graph =
  fixes succs :: "'n \<Rightarrow> 'n list"
begin

definition arcs :: "('n \<times> 'n) set" where
  "arcs = {(u, v). v \<in> set (succs u)}"

definition closed :: "'n set \<Rightarrow> bool" where
  "closed D \<longleftrightarrow> (\<forall>u \<in> D. set (succs u) \<subseteq> D)"

text \<open>A finished set: nothing leaves it and no cycle lies inside it.\<close>

definition finished :: "'n set \<Rightarrow> bool" where
  "finished D \<longleftrightarrow> closed D \<and> acyclic (arcs \<inter> D \<times> D)"

lemma closed_empty: "closed {}"
  by (simp add: closed_def)

lemma closed_reach: "closed D \<Longrightarrow> u \<in> D \<Longrightarrow> (u, v) \<in> arcs\<^sup>* \<Longrightarrow> v \<in> D"
  by (rotate_tac 2, induction rule: rtrancl_induct) (auto simp: closed_def arcs_def)

lemma closed_arcs_trancl:
  assumes "closed D" and "(u, v) \<in> arcs\<^sup>+" and "u \<in> D"
  shows "(u, v) \<in> (arcs \<inter> D \<times> D)\<^sup>+ \<and> v \<in> D"
  using assms(2,3)
proof (induction rule: trancl_induct)
  case (base y)
  then have "y \<in> D" using assms(1) by (auto simp: closed_def arcs_def)
  with base show ?case by auto
next
  case (step y z)
  then have "z \<in> D" using assms(1) by (auto simp: closed_def arcs_def)
  with step show ?case by (auto intro: trancl_into_trancl)
qed

lemma finished_empty: "finished {}"
  by (simp add: finished_def closed_empty acyclic_def)

lemma finished_closed: "finished D \<Longrightarrow> closed D"
  by (simp add: finished_def)

lemma finished_insert:
  assumes fin: "finished D" and out: "set (succs u) \<subseteq> D" and new: "u \<notin> D"
  shows "finished (insert u D)"
proof -
  have cl: "closed (insert u D)"
    using fin out by (auto simp: finished_def closed_def)
  have "acyclic (arcs \<inter> insert u D \<times> insert u D)"
  proof (rule acyclicI, rule allI, rule notI)
    fix x assume cyc: "(x, x) \<in> (arcs \<inter> insert u D \<times> insert u D)\<^sup>+"
    then have arcs_cyc: "(x, x) \<in> arcs\<^sup>+" by (rule trancl_mono) auto
    from cyc have "x \<in> insert u D" by (induction rule: converse_trancl_induct) auto
    have not_D: "x \<notin> D"
    proof
      assume "x \<in> D"
      then have "(x, x) \<in> (arcs \<inter> D \<times> D)\<^sup>+"
        using closed_arcs_trancl [OF finished_closed [OF fin] arcs_cyc] by simp
      then show False using fin by (auto simp: finished_def acyclic_def)
    qed
    with \<open>x \<in> insert u D\<close> have "x = u" by simp
    with arcs_cyc obtain y where "(u, y) \<in> arcs" and "(y, u) \<in> arcs\<^sup>*"
      by (metis tranclD)
    then have "y \<in> D" using out by (auto simp: arcs_def)
    then have "u \<in> D" using closed_reach [OF finished_closed [OF fin]] \<open>(y, u) \<in> arcs\<^sup>*\<close> by blast
    with new show False by simp
  qed
  with cl show ?thesis by (simp add: finished_def)
qed

text \<open>When everything that has a successor is finished, the whole graph is acyclic.\<close>

lemma finished_acyclic:
  assumes "finished D" and "\<And>u. succs u \<noteq> [] \<Longrightarrow> u \<in> D"
  shows "acyclic arcs"
proof (rule acyclicI, rule allI, rule notI)
  fix x assume cyc: "(x, x) \<in> arcs\<^sup>+"
  then obtain y where "(x, y) \<in> arcs" by (metis tranclD)
  then have "x \<in> D" using assms(2) [of x] by (cases "succs x") (auto simp: arcs_def)
  then have "(x, x) \<in> (arcs \<inter> D \<times> D)\<^sup>+"
    using closed_arcs_trancl [OF finished_closed [OF assms(1)] cyc] by simp
  then show False using assms(1) by (auto simp: finished_def acyclic_def)
qed

text \<open>A walk along arcs that returns to its start is a cycle.\<close>

lemma walk_trancl:
  assumes "\<And>i. Suc i < length ws \<Longrightarrow> (ws ! i, ws ! Suc i) \<in> arcs"
    and "i < j" and "j < length ws"
  shows "(ws ! i, ws ! j) \<in> arcs\<^sup>+"
  using assms(2,3)
proof (induction j)
  case (Suc j)
  have arc: "(ws ! j, ws ! Suc j) \<in> arcs" using assms(1) Suc.prems(2) by simp
  show ?case
  proof (cases "i = j")
    case True
    with arc show ?thesis by auto
  next
    case False
    with Suc have "(ws ! i, ws ! j) \<in> arcs\<^sup>+" by simp
    then show ?thesis using arc by (rule trancl_into_trancl)
  qed
qed simp

text \<open>
  A search for \<open>t\<close> that started with the nodes \<open>D\<close> visited and ends with \<open>E\<close>: every node it
  added has all its successors in \<open>E\<close>, and the target is not among them.
\<close>

definition explored :: "'n \<Rightarrow> 'n set \<Rightarrow> 'n set \<Rightarrow> bool" where
  "explored t D E \<longleftrightarrow> D \<subseteq> E \<and> t \<notin> E - D \<and> (\<forall>u \<in> E - D. set (succs u) \<subseteq> E)"

lemma explored_refl: "explored t D D"
  by (simp add: explored_def)

lemma explored_trans: "explored t D E \<Longrightarrow> explored t E F \<Longrightarrow> explored t D F"
  unfolding explored_def by blast

lemma explored_node:
  "explored t (insert u D) E \<Longrightarrow> set (succs u) \<subseteq> E \<Longrightarrow> u \<noteq> t \<Longrightarrow> explored t D E"
  unfolding explored_def by blast

lemma explored_unreachable:
  assumes "explored t {} E" and "u \<in> E"
  shows "(u, t) \<notin> arcs\<^sup>*"
proof
  assume "(u, t) \<in> arcs\<^sup>*"
  moreover have "closed E" using assms(1) by (simp add: explored_def closed_def)
  ultimately have "t \<in> E" using closed_reach assms(2) by blast
  then show False using assms(1) by (simp add: explored_def)
qed

text \<open>
  What one call of a depth-first search answers: true only for a reachable target, and when
  false the nodes it added, the start among them, were explored.
\<close>

definition answers :: "'n \<Rightarrow> 'n list \<Rightarrow> 'n \<Rightarrow> (bool \<times> 'n list) run \<Rightarrow> bool" where
  "answers t D u r \<longleftrightarrow> (\<exists>b E. r = Return (b, E) \<and>
     (if b then (u, t) \<in> arcs\<^sup>* else explored t (set D) (set E) \<and> u \<in> set E))"

lemma answers_found: "(u, t) \<in> arcs\<^sup>* \<Longrightarrow> answers t D u (Return (True, E))"
  unfolding answers_def by (intro exI conjI, rule refl) simp

lemma answers_missed:
  "explored t (set D) (set E) \<Longrightarrow> u \<in> set E \<Longrightarrow> answers t D u (Return (False, E))"
  by (auto simp: answers_def)

lemma any_run_answers:
  assumes step: "\<And>D x. x \<in> set xs \<Longrightarrow> P (set D) \<Longrightarrow> answers t D (g x) (f D x)"
    and mono: "\<And>D E. P D \<Longrightarrow> D \<subseteq> E \<Longrightarrow> P E"
    and start: "P (set D)"
  shows "\<exists>b E. any_run f D xs = Return (b, E) \<and>
     (if b then \<exists>x \<in> set xs. (g x, t) \<in> arcs\<^sup>* else explored t (set D) (set E) \<and> g ` set xs \<subseteq> set E)"
  using step start
proof (induction xs arbitrary: D)
  case Nil
  then show ?case by (auto intro!: exI [of _ False] simp: explored_refl)
next
  case (Cons x xs)
  have "answers t D (g x) (f D x)" using Cons.prems by simp
  then obtain b E where r: "f D x = Return (b, E)"
    and ans: "if b then (g x, t) \<in> arcs\<^sup>* else explored t (set D) (set E) \<and> g x \<in> set E"
    by (auto simp: answers_def)
  show ?case
  proof (cases b)
    case True
    with r ans show ?thesis by auto
  next
    case False
    with ans have ex: "explored t (set D) (set E)" and x: "g x \<in> set E" by simp_all
    then have "P (set E)" using mono [OF Cons.prems(2)] by (simp add: explored_def)
    then obtain b' F where r': "any_run f E xs = Return (b', F)"
      and ans': "if b' then \<exists>x \<in> set xs. (g x, t) \<in> arcs\<^sup>*
        else explored t (set E) (set F) \<and> g ` set xs \<subseteq> set F"
      using Cons.IH [of E] Cons.prems(1) by auto
    have "g x \<in> set F" if "\<not> b'"
      using that ans' x by (auto simp: explored_def)
    with r r' ans' False show ?thesis by (auto intro: explored_trans [OF ex])
  qed
qed

end

end
