(* ===== verification/Machines.thy ===== *)
theory Machines
  imports Prelude
begin

text \<open>
  Contracts shared by the state machines of the crate.  A guarded step either refuses with a
  typed error, leaving the state unchanged, or returns the next state.  A machine may keep a
  frame (fields no step writes), rank its states so that no step goes back, and have terminal
  states that refuse every step.
\<close>

locale framed_steps =
  fixes step :: "'s \<Rightarrow> 'op \<Rightarrow> 'e + 's"
    and frame :: "'s \<Rightarrow> 'f"
  assumes step_frame: "step s x = Inr s' \<Longrightarrow> frame s' = frame s"
begin

lemma run_frame: "try_fold step s xs = Inr s' \<Longrightarrow> frame s' = frame s"
  by (induction xs arbitrary: s) (auto split: sum.splits dest: step_frame)

end

locale ranked_machine = framed_steps step frame
  for step :: "'s \<Rightarrow> 'op \<Rightarrow> 'e + 's" and frame :: "'s \<Rightarrow> 'f" +
  fixes rank :: "'s \<Rightarrow> nat"
    and final :: "'s \<Rightarrow> bool"
  assumes step_rank: "step s x = Inr s' \<Longrightarrow> rank s \<le> rank s'"
    and final_refuses: "final s \<Longrightarrow> \<exists>e. step s x = Inl e"
begin

lemma run_rank: "try_fold step s xs = Inr s' \<Longrightarrow> rank s \<le> rank s'"
proof (induction xs arbitrary: s)
  case (Cons x xs)
  then show ?case by (auto split: sum.splits dest: step_rank intro: order_trans)
qed simp

lemma run_from_final: "final s \<Longrightarrow> try_fold step s xs = Inr s' \<Longrightarrow> xs = [] \<and> s' = s"
proof (cases xs)
  case (Cons x ys)
  assume "final s" "try_fold step s xs = Inr s'"
  with final_refuses [of s x] Cons show ?thesis by auto
qed simp

text \<open>A run that reaches a final state stops there.\<close>

lemma run_stops:
  "try_fold step s (xs @ ys) = Inr s' \<Longrightarrow> try_fold step s xs = Inr t \<Longrightarrow> final t \<Longrightarrow> ys = []"
  using run_from_final by (auto simp: try_fold_append)

end

end
