(* ===== verification/Lifecycle.thy ===== *)
theory Lifecycle
  imports Machines
begin

text \<open>
  The core value types of \<open>crates/domain/src/lib.rs\<close>: work lifecycle, execution attempts with
  their lease and hard deadline, acceptance gates and close readiness, receipts and fences.
  Enumerations keep the source's constructors and are written qualified, as in Rust.  A method
  that takes \<open>&mut self\<close> returns the new value, or the error it leaves the value unchanged with.
\<close>

section \<open>Types\<close>

definition DEFAULT_HARD_TIME_LIMIT_MS :: u64 where
  "DEFAULT_HARD_TIME_LIMIT_MS = 2 * 60 * 60 * 1000"

definition DEFAULT_LEASE_TTL_MS :: u64 where
  "DEFAULT_LEASE_TTL_MS = 30 * 60 * 1000"

record IdentifierError =
  ie_type_name :: string
  ie_value :: string

definition parse_ident :: "string \<Rightarrow> string \<Rightarrow> IdentifierError + 'k ident" where
  "parse_ident type_name v =
     (if v = [] \<or> 255 < length v \<or> list_ex (\<lambda>c. is_control c \<or> is_whitespace c) (utf8_chars v)
      then Inl \<lparr>ie_type_name = type_name, ie_value = v\<rparr>
      else Inr (Ident v))"

datatype PersistedLifecycle = Draft | Open | Closed | Cancelled

fun lifecycle_is_terminal :: "PersistedLifecycle \<Rightarrow> bool" where
  "lifecycle_is_terminal PersistedLifecycle.Closed = True"
| "lifecycle_is_terminal PersistedLifecycle.Cancelled = True"
| "lifecycle_is_terminal _ = False"

datatype DerivedStatus = Draft | Queued | Ready | Claimed | InProgress | NeedsVerification
  | AwaitingReview | Complete | Closed | Blocked | Paused | RetryWait | Scheduled
  | ExpiredReview | Cancelled

datatype WorkKind = Milestone | Sprint | Task

datatype DispatchPolicy = Automatic | OperatorOnly | Paused

datatype ActorRole = Agent | Reviewer | Operator | Publisher

record ActorContext =
  ac_actor_id :: ActorId
  ac_role :: ActorRole

datatype AttemptPhase = Claimed | Accepted | Running | Verifying | ExpiryPending
  | Completed | Failed | Released | Expired | Cancelled

fun attempt_phase_is_terminal :: "AttemptPhase \<Rightarrow> bool" where
  "attempt_phase_is_terminal AttemptPhase.Completed = True"
| "attempt_phase_is_terminal AttemptPhase.Failed = True"
| "attempt_phase_is_terminal AttemptPhase.Released = True"
| "attempt_phase_is_terminal AttemptPhase.Expired = True"
| "attempt_phase_is_terminal AttemptPhase.Cancelled = True"
| "attempt_phase_is_terminal _ = False"

datatype DeadlineSource = DefaultTwoHours | Explicit

datatype ExpiryReason = LeaseElapsed | HardBudgetElapsed

record Attempt =
  a_work_id :: WorkId
  a_attempt_id :: AttemptId
  a_actor_id :: ActorId
  a_harness_id :: "HarnessId option"
  a_session_id :: "SessionId option"
  a_fence :: Fence
  a_phase :: AttemptPhase
  a_claimed_at :: TimestampMs
  a_accepted_at :: "TimestampMs option"
  a_lease_deadline :: TimestampMs
  a_max_attempt_deadline :: TimestampMs
  a_deadline_source :: DeadlineSource
  a_last_heartbeat_at :: "TimestampMs option"
  a_last_checkpoint_at :: "TimestampMs option"
  a_review_required_after_expiry :: bool

record Reservation =
  r_work_id :: WorkId
  r_attempt_id :: AttemptId
  r_actor_id :: ActorId
  r_session_id :: "SessionId option"
  r_harness_id :: "HarnessId option"
  r_fence :: Fence
  r_lease_deadline :: TimestampMs

record DeadlineView =
  dv_lease_deadline :: TimestampMs
  dv_hard_deadline :: TimestampMs
  dv_expiry_reason :: "ExpiryReason option"

datatype AttemptOperation = Accept TimestampMs | Start | Submit | RecordReceipt | AcceptReview
  | RejectReview | Release | Fail | ExpiryPending | Expire | Cancel

datatype WorkOperation = Publish | Close | Cancel | Reopen

datatype DomainError =
    TimestampOverflow
  | FenceOverflow
  | StaleFence
  | LeaseExpired
  | InvalidLeaseRenewal
  | ReviewerCannotReviewOwnAttempt
  | ReceiptSubjectMismatch
  | DerivedStatusReadOnly DerivedStatus
  | IllegalLifecycleTransition PersistedLifecycle WorkOperation
  | IllegalAttemptTransition AttemptPhase AttemptOperation
  | ParentRequired WorkId WorkKind
  | MissingParent WorkId
  | MissingWork WorkId
  | InvalidParentKind WorkKind WorkKind
  | CrossProjectReference WorkId WorkId
  | DependencyCycle WorkId WorkId

definition timestamp_checked_add :: "TimestampMs \<Rightarrow> u64 \<Rightarrow> DomainError + TimestampMs" where
  "timestamp_checked_add t d =
     (case checked_add_u64 t d of Some r \<Rightarrow> Inr r | None \<Rightarrow> Inl TimestampOverflow)"

definition fence_next :: "Fence \<Rightarrow> DomainError + Fence" where
  "fence_next f = (case checked_add_u64 f 1 of Some r \<Rightarrow> Inr r | None \<Rightarrow> Inl FenceOverflow)"

section \<open>Attempts\<close>

definition claim ::
  "WorkId \<Rightarrow> AttemptId \<Rightarrow> ActorId \<Rightarrow> Fence \<Rightarrow> TimestampMs \<Rightarrow> u64 option \<Rightarrow> u64 option \<Rightarrow>
     DomainError + Attempt" where
  "claim work_id attempt_id actor_id fence claimed_at lease_ttl hard_limit =
     (let lease_ttl_ms = case_option DEFAULT_LEASE_TTL_MS id lease_ttl;
          hard_limit_ms = case_option DEFAULT_HARD_TIME_LIMIT_MS id hard_limit in
      case timestamp_checked_add claimed_at lease_ttl_ms of
        Inl e \<Rightarrow> Inl e
      | Inr lease_deadline \<Rightarrow>
          (case timestamp_checked_add claimed_at hard_limit_ms of
             Inl e \<Rightarrow> Inl e
           | Inr max_deadline \<Rightarrow> Inr
               \<lparr>a_work_id = work_id, a_attempt_id = attempt_id, a_actor_id = actor_id,
                a_harness_id = None, a_session_id = None, a_fence = fence,
                a_phase = AttemptPhase.Claimed, a_claimed_at = claimed_at,
                a_accepted_at = None, a_lease_deadline = lease_deadline,
                a_max_attempt_deadline = max_deadline,
                a_deadline_source = (if hard_limit_ms = DEFAULT_HARD_TIME_LIMIT_MS
                  then DefaultTwoHours else Explicit),
                a_last_heartbeat_at = None, a_last_checkpoint_at = None,
                a_review_required_after_expiry = False\<rparr>))"

definition with_identity :: "Attempt \<Rightarrow> SessionId \<Rightarrow> HarnessId \<Rightarrow> Attempt" where
  "with_identity a session_id harness_id =
     a\<lparr>a_session_id := Some session_id, a_harness_id := Some harness_id\<rparr>"

definition reservation_from_attempt :: "Attempt \<Rightarrow> Reservation" where
  "reservation_from_attempt a =
     \<lparr>r_work_id = a_work_id a, r_attempt_id = a_attempt_id a, r_actor_id = a_actor_id a,
      r_session_id = a_session_id a, r_harness_id = a_harness_id a, r_fence = a_fence a,
      r_lease_deadline = a_lease_deadline a\<rparr>"

fun next_phase :: "AttemptPhase \<Rightarrow> AttemptOperation \<Rightarrow> AttemptPhase option" where
  "next_phase AttemptPhase.Claimed (Accept at) = Some AttemptPhase.Accepted"
| "next_phase AttemptPhase.Accepted Start = Some AttemptPhase.Running"
| "next_phase AttemptPhase.Running Submit = Some AttemptPhase.Verifying"
| "next_phase AttemptPhase.Verifying RecordReceipt = Some AttemptPhase.Verifying"
| "next_phase AttemptPhase.Verifying AcceptReview = Some AttemptPhase.Completed"
| "next_phase AttemptPhase.Verifying RejectReview = Some AttemptPhase.Verifying"
| "next_phase p Release =
     (if p \<in> {AttemptPhase.Claimed, AttemptPhase.Accepted, AttemptPhase.Running,
              AttemptPhase.Verifying} then Some AttemptPhase.Released else None)"
| "next_phase p Fail =
     (if p \<in> {AttemptPhase.Running, AttemptPhase.Verifying} then Some AttemptPhase.Failed
      else None)"
| "next_phase p AttemptOperation.ExpiryPending =
     (if p \<in> {AttemptPhase.Claimed, AttemptPhase.Accepted, AttemptPhase.Running,
              AttemptPhase.Verifying} then Some AttemptPhase.ExpiryPending else None)"
| "next_phase AttemptPhase.ExpiryPending Expire = Some AttemptPhase.Expired"
| "next_phase p AttemptOperation.Cancel =
     (if p \<in> {AttemptPhase.Claimed, AttemptPhase.Accepted, AttemptPhase.Running,
              AttemptPhase.Verifying, AttemptPhase.ExpiryPending}
      then Some AttemptPhase.Cancelled else None)"
| "next_phase _ _ = None"

definition transition_attempt :: "Attempt \<Rightarrow> AttemptOperation \<Rightarrow> DomainError + Attempt" where
  "transition_attempt a operation =
     (case next_phase (a_phase a) operation of
        None \<Rightarrow> Inl (IllegalAttemptTransition (a_phase a) operation)
      | Some next \<Rightarrow>
          let a' = (case operation of Accept at \<Rightarrow> a\<lparr>a_accepted_at := Some at\<rparr> | _ \<Rightarrow> a)
          in Inr (a'\<lparr>a_phase := next\<rparr>))"

definition attempt_accept :: "Attempt \<Rightarrow> TimestampMs \<Rightarrow> DomainError + Attempt" where
  "attempt_accept a at = transition_attempt a (Accept at)"

definition attempt_start :: "Attempt \<Rightarrow> DomainError + Attempt" where
  "attempt_start a = transition_attempt a Start"

definition attempt_submit :: "Attempt \<Rightarrow> DomainError + Attempt" where
  "attempt_submit a = transition_attempt a Submit"

definition expiry_reason :: "Attempt \<Rightarrow> TimestampMs \<Rightarrow> ExpiryReason option" where
  "expiry_reason a as_of =
     (if a_max_attempt_deadline a \<le> as_of then Some HardBudgetElapsed
      else if a_lease_deadline a \<le> as_of then Some LeaseElapsed
      else None)"

definition deadlines_at :: "Attempt \<Rightarrow> TimestampMs \<Rightarrow> DeadlineView" where
  "deadlines_at a as_of =
     \<lparr>dv_lease_deadline = a_lease_deadline a, dv_hard_deadline = a_max_attempt_deadline a,
      dv_expiry_reason = expiry_reason a as_of\<rparr>"

definition heartbeat :: "Attempt \<Rightarrow> TimestampMs \<Rightarrow> DomainError + Attempt \<times> DeadlineView" where
  "heartbeat a at =
     (if attempt_phase_is_terminal (a_phase a) \<or> a_lease_deadline a \<le> at then Inl LeaseExpired
      else let a' = a\<lparr>a_last_heartbeat_at := Some at\<rparr> in Inr (a', deadlines_at a' at))"

definition attempt_renew_lease ::
  "Attempt \<Rightarrow> TimestampMs \<Rightarrow> u64 \<Rightarrow> DomainError + Attempt \<times> DeadlineView" where
  "attempt_renew_lease a at lease_ttl_ms =
     (if attempt_phase_is_terminal (a_phase a) \<or> a_lease_deadline a \<le> at then Inl LeaseExpired
      else case timestamp_checked_add at lease_ttl_ms of
        Inl e \<Rightarrow> Inl e
      | Inr candidate \<Rightarrow>
          if candidate \<le> at \<or> candidate < a_lease_deadline a then Inl InvalidLeaseRenewal
          else let a' = a\<lparr>a_lease_deadline := candidate\<rparr> in Inr (a', deadlines_at a' at))"

section \<open>Work lifecycle\<close>

fun transition_lifecycle :: "PersistedLifecycle \<Rightarrow> WorkOperation \<Rightarrow> DomainError + PersistedLifecycle"
where
  "transition_lifecycle PersistedLifecycle.Draft Publish = Inr PersistedLifecycle.Open"
| "transition_lifecycle PersistedLifecycle.Open Publish = Inr PersistedLifecycle.Open"
| "transition_lifecycle PersistedLifecycle.Open Close = Inr PersistedLifecycle.Closed"
| "transition_lifecycle PersistedLifecycle.Draft WorkOperation.Cancel =
     Inr PersistedLifecycle.Cancelled"
| "transition_lifecycle PersistedLifecycle.Open WorkOperation.Cancel =
     Inr PersistedLifecycle.Cancelled"
| "transition_lifecycle PersistedLifecycle.Closed Reopen = Inr PersistedLifecycle.Open"
| "transition_lifecycle PersistedLifecycle.Cancelled Reopen = Inr PersistedLifecycle.Open"
| "transition_lifecycle l operation = Inl (IllegalLifecycleTransition l operation)"

definition reject_derived_status_write :: "DerivedStatus \<Rightarrow> DomainError + unit" where
  "reject_derived_status_write status = Inl (DerivedStatusReadOnly status)"

section \<open>Gates, reviews and receipts\<close>

datatype GateKind = Checkpoint | Verification | Review | OperatorApproval | Summary | Audit

datatype GateState = Open | Satisfied | Failed

record GateRequirement =
  gr_id :: GateId
  gr_kind :: GateKind
  gr_required :: bool
  gr_state :: GateState

definition gate_required :: "GateId \<Rightarrow> GateKind \<Rightarrow> GateRequirement" where
  "gate_required i kind =
     \<lparr>gr_id = i, gr_kind = kind, gr_required = True, gr_state = GateState.Open\<rparr>"

definition gate_satisfied :: "GateRequirement \<Rightarrow> GateRequirement" where
  "gate_satisfied g = g\<lparr>gr_state := Satisfied\<rparr>"

record AcceptanceProfile =
  ap_id :: ProfileId
  ap_version :: string
  ap_gates :: "GateRequirement list"

definition focused :: AcceptanceProfile where
  "focused = \<lparr>ap_id = Ident ''focused'', ap_version = ''1'',
     ap_gates = [gate_required (Ident ''checkpoint'') Checkpoint,
                 gate_required (Ident ''verification'') Verification,
                 gate_required (Ident ''summary'') Summary]\<rparr>"

definition reviewed :: AcceptanceProfile where
  "reviewed = focused\<lparr>ap_id := Ident ''reviewed'',
     ap_gates := ap_gates focused @ [gate_required (Ident ''review'') Review]\<rparr>"

definition requires_review :: "AcceptanceProfile \<Rightarrow> bool" where
  "requires_review p = list_ex (\<lambda>g. gr_required g \<and> gr_kind g = Review) (ap_gates p)"

record ReviewRecord =
  rr_reviewer_actor_id :: ActorId
  rr_attempt_actor_id :: ActorId
  rr_accepted :: bool

definition validate_independent_review :: "ReviewRecord \<Rightarrow> DomainError + unit" where
  "validate_independent_review r =
     (if rr_reviewer_actor_id r = rr_attempt_actor_id r then Inl ReviewerCannotReviewOwnAttempt
      else Inr ())"

record ReceiptSubject =
  rs_work_id :: WorkId
  rs_attempt_id :: AttemptId
  rs_fence :: Fence
  rs_gate_id :: GateId

record ReceiptIdentity =
  ri_receipt_id :: ReceiptId
  ri_operation_id :: OperationId
  ri_subject :: ReceiptSubject
  ri_source_snapshot :: SourceVersionId
  ri_config_identity :: ConfigIdentity
  ri_policy_version :: string

definition validate_receipt_subject ::
  "ReceiptIdentity \<Rightarrow> WorkId \<Rightarrow> AttemptId \<Rightarrow> Fence \<Rightarrow> DomainError + unit" where
  "validate_receipt_subject receipt work_id attempt_id fence =
     (if rs_work_id (ri_subject receipt) \<noteq> work_id then Inl ReceiptSubjectMismatch
      else if rs_attempt_id (ri_subject receipt) \<noteq> attempt_id
            \<or> rs_fence (ri_subject receipt) \<noteq> fence then Inl StaleFence
      else Inr ())"

definition validate_fence :: "Fence \<Rightarrow> Fence \<Rightarrow> DomainError + unit" where
  "validate_fence expected current = (if expected = current then Inr () else Inl StaleFence)"

datatype CloseGap = CloseIntentMissing | GateUnsatisfied | ReviewRequired | ReviewRejected
  | StaleFence | AttemptNotVerifying

primrec close_gap_index :: "CloseGap \<Rightarrow> nat" where
  "close_gap_index CloseIntentMissing = 0"
| "close_gap_index GateUnsatisfied = 1"
| "close_gap_index ReviewRequired = 2"
| "close_gap_index ReviewRejected = 3"
| "close_gap_index CloseGap.StaleFence = 4"
| "close_gap_index AttemptNotVerifying = 5"

lemma close_gap_index_inj: "close_gap_index a = close_gap_index b \<Longrightarrow> a = b"
  by (cases a; cases b) simp_all

instantiation CloseGap :: linorder
begin

definition less_eq_CloseGap :: "CloseGap \<Rightarrow> CloseGap \<Rightarrow> bool" where
  "less_eq_CloseGap a b \<longleftrightarrow> close_gap_index a \<le> close_gap_index b"

definition less_CloseGap :: "CloseGap \<Rightarrow> CloseGap \<Rightarrow> bool" where
  "less_CloseGap a b \<longleftrightarrow> close_gap_index a < close_gap_index b"

instance
  by standard (auto simp: less_eq_CloseGap_def less_CloseGap_def intro: close_gap_index_inj)

end

datatype CloseReadiness = ReadyToClose | NotReady "CloseGap list"

text \<open>The loop body of \<open>evaluate_close\<close>: the gaps one required declared gate contributes.\<close>

definition gate_gaps_of ::
  "GateRequirement list \<Rightarrow> ReviewRecord option \<Rightarrow> GateRequirement \<Rightarrow> CloseGap list" where
  "gate_gaps_of gates review required =
     (let state = map_option gr_state (find (\<lambda>gate. gr_id gate = gr_id required) gates) in
      if state \<noteq> Some Satisfied then
        if gr_kind required = Review then
          (case review of
             Some r \<Rightarrow>
               if validate_independent_review r \<noteq> Inr () \<or> \<not> rr_accepted r
               then [ReviewRejected] else []
           | None \<Rightarrow> [ReviewRequired])
        else [GateUnsatisfied]
      else [])"

definition evaluate_close ::
  "AcceptanceProfile \<Rightarrow> GateRequirement list \<Rightarrow> ReviewRecord option \<Rightarrow> bool \<Rightarrow> Attempt \<Rightarrow> Fence \<Rightarrow>
     CloseReadiness" where
  "evaluate_close profile gates review close_intent attempt expected_fence =
     (let gaps =
        (if a_fence attempt \<noteq> expected_fence then [CloseGap.StaleFence] else [])
        @ (if a_phase attempt \<in> {AttemptPhase.Verifying, AttemptPhase.Completed} then []
           else [AttemptNotVerifying])
        @ (if close_intent then [] else [CloseIntentMissing])
        @ concat (map (gate_gaps_of gates review) (filter gr_required (ap_gates profile)));
        gaps = sort_dedup gaps
      in if gaps = [] then ReadyToClose else NotReady gaps)"

section \<open>Attempts as a ranked machine\<close>

text \<open>
  The phases in the order an attempt passes through them, and the fields no transition writes:
  who works on what, under which fence, from when, and until when.
\<close>

fun phase_rank :: "AttemptPhase \<Rightarrow> nat" where
  "phase_rank AttemptPhase.Claimed = 0"
| "phase_rank AttemptPhase.Accepted = 1"
| "phase_rank AttemptPhase.Running = 2"
| "phase_rank AttemptPhase.Verifying = 3"
| "phase_rank AttemptPhase.ExpiryPending = 4"
| "phase_rank _ = 5"

definition attempt_frame ::
  "Attempt \<Rightarrow> (WorkId \<times> AttemptId \<times> ActorId \<times> Fence) \<times> (TimestampMs \<times> TimestampMs \<times> TimestampMs)"
where
  "attempt_frame a = ((a_work_id a, a_attempt_id a, a_actor_id a, a_fence a),
     (a_claimed_at a, a_lease_deadline a, a_max_attempt_deadline a))"

definition run_attempt :: "Attempt \<Rightarrow> AttemptOperation list \<Rightarrow> DomainError + Attempt" where
  "run_attempt = try_fold transition_attempt"

lemma next_phase_rank: "next_phase p x = Some q \<Longrightarrow> phase_rank p \<le> phase_rank q"
  by (cases p; cases x) (auto split: if_splits)

lemma next_phase_terminal: "attempt_phase_is_terminal p \<Longrightarrow> next_phase p x = None"
  by (cases p; cases x) auto

lemma transition_attempt_Inr:
  "transition_attempt a x = Inr a' \<longleftrightarrow>
     (\<exists>q. next_phase (a_phase a) x = Some q \<and>
        a' = (case x of Accept at \<Rightarrow> a\<lparr>a_accepted_at := Some at\<rparr> | _ \<Rightarrow> a)\<lparr>a_phase := q\<rparr>)"
  by (auto simp: transition_attempt_def Let_def split: option.splits)

lemma transition_attempt_phase:
  "transition_attempt a x = Inr a' \<Longrightarrow> next_phase (a_phase a) x = Some (a_phase a')"
  by (auto simp: transition_attempt_Inr)

lemma transition_attempt_frame: "transition_attempt a x = Inr a' \<Longrightarrow> attempt_frame a' = attempt_frame a"
  by (auto simp: transition_attempt_Inr attempt_frame_def split: AttemptOperation.splits)

interpretation attempt: ranked_machine transition_attempt attempt_frame
  "\<lambda>a. phase_rank (a_phase a)" "\<lambda>a. attempt_phase_is_terminal (a_phase a)"
proof unfold_locales
  fix s x s' assume "transition_attempt s x = Inr s'"
  then show "phase_rank (a_phase s) \<le> phase_rank (a_phase s')"
    by (rule next_phase_rank [OF transition_attempt_phase])
next
  fix s :: Attempt and x assume "attempt_phase_is_terminal (a_phase s)"
  then show "\<exists>e. transition_attempt s x = Inl e"
    by (simp add: transition_attempt_def next_phase_terminal)
qed (rule transition_attempt_frame)

text \<open>The runs that lead from each live phase to \<open>Completed\<close>.\<close>

definition review_loop :: "AttemptOperation \<Rightarrow> bool" where
  "review_loop x \<longleftrightarrow> x = RecordReceipt \<or> x = RejectReview"

fun completes_from :: "AttemptPhase \<Rightarrow> AttemptOperation list \<Rightarrow> bool" where
  "completes_from AttemptPhase.Completed [] = True"
| "completes_from AttemptPhase.Verifying (x # xs) =
     (if x = AcceptReview then xs = []
      else review_loop x \<and> completes_from AttemptPhase.Verifying xs)"
| "completes_from AttemptPhase.Running (x # xs) =
     (x = Submit \<and> completes_from AttemptPhase.Verifying xs)"
| "completes_from AttemptPhase.Accepted (x # xs) =
     (x = Start \<and> completes_from AttemptPhase.Running xs)"
| "completes_from AttemptPhase.Claimed (x # xs) =
     ((\<exists>at. x = Accept at) \<and> completes_from AttemptPhase.Accepted xs)"
| "completes_from _ _ = False"

text \<open>A phase that is neither live nor completed never completes.\<close>

lemma run_attempt_lost:
  "a_phase a \<in> {AttemptPhase.ExpiryPending, AttemptPhase.Failed, AttemptPhase.Released,
     AttemptPhase.Expired, AttemptPhase.Cancelled} \<Longrightarrow>
   run_attempt a xs = Inr a' \<Longrightarrow> a_phase a' \<noteq> AttemptPhase.Completed"
proof (induction xs arbitrary: a)
  case Nil
  then show ?case by (auto simp: run_attempt_def)
next
  case (Cons x xs)
  from Cons.prems(2) obtain b where b: "transition_attempt a x = Inr b" "run_attempt b xs = Inr a'"
    by (auto simp: run_attempt_def split: sum.splits)
  have "a_phase b \<in> {AttemptPhase.ExpiryPending, AttemptPhase.Failed, AttemptPhase.Released,
     AttemptPhase.Expired, AttemptPhase.Cancelled}"
    using transition_attempt_phase [OF b(1)] Cons.prems(1) by (cases x) auto
  then show ?case using b(2) by (rule Cons.IH)
qed

lemma review_loop_cases: "review_loop x \<Longrightarrow> x = RecordReceipt \<or> x = RejectReview"
  by (simp add: review_loop_def)

lemma run_attempt_Nil [simp]: "run_attempt a [] = Inr a"
  by (simp add: run_attempt_def)

lemma run_attempt_Cons:
  "run_attempt a (x # xs) =
     (case transition_attempt a x of Inl e \<Rightarrow> Inl e | Inr b \<Rightarrow> run_attempt b xs)"
  unfolding run_attempt_def by simp

lemma run_attempt_completes:
  "(\<exists>a'. run_attempt a xs = Inr a' \<and> a_phase a' = AttemptPhase.Completed)
     \<longleftrightarrow> completes_from (a_phase a) xs"
proof (induction xs arbitrary: a)
  case Nil
  then show ?case by (cases "a_phase a") auto
next
  case (Cons x xs)
  show ?case
  proof (cases "transition_attempt a x")
    case (Inl e)
    then have "next_phase (a_phase a) x = None"
      by (simp add: transition_attempt_def Let_def split: option.splits)
    with Inl show ?thesis
      by (cases "a_phase a"; cases x) (auto simp: run_attempt_Cons review_loop_def)
  next
    case (Inr b)
    note step = transition_attempt_phase [OF Inr]
    have lost: "\<not> completes_from (a_phase b) xs"
      if "a_phase b \<in> {AttemptPhase.ExpiryPending, AttemptPhase.Failed, AttemptPhase.Released,
        AttemptPhase.Expired, AttemptPhase.Cancelled}"
      using that Cons.IH [of b] run_attempt_lost [of b xs] by blast
    have "completes_from (a_phase b) xs \<longleftrightarrow> completes_from (a_phase a) (x # xs)"
    proof (cases xs)
      case Nil
      with step show ?thesis
        by (cases "a_phase a"; cases x) (auto simp: review_loop_def split: if_splits)
    next
      case (Cons y ys)
      with step lost show ?thesis
        by (cases "a_phase a"; cases x) (auto simp: review_loop_def split: if_splits)
    qed
    with Cons.IH [of b] show ?thesis by (simp add: run_attempt_Cons Inr)
  qed
qed

lemma completes_from_Verifying:
  "completes_from AttemptPhase.Verifying xs \<longleftrightarrow>
     (\<exists>mid. xs = mid @ [AcceptReview] \<and> set mid \<subseteq> {RecordReceipt, RejectReview})"
proof (induction xs)
  case (Cons x xs)
  show ?case
  proof
    assume run: "completes_from AttemptPhase.Verifying (x # xs)"
    show "\<exists>mid. x # xs = mid @ [AcceptReview] \<and> set mid \<subseteq> {RecordReceipt, RejectReview}"
    proof (cases "x = AcceptReview")
      case True
      with run show ?thesis by (intro exI [of _ "[]"]) simp
    next
      case False
      with run Cons.IH obtain mid where "xs = mid @ [AcceptReview]"
        and "set mid \<subseteq> {RecordReceipt, RejectReview}" by auto
      with False run show ?thesis by (intro exI [of _ "x # mid"]) (auto simp: review_loop_def)
    qed
  next
    assume "\<exists>mid. x # xs = mid @ [AcceptReview] \<and> set mid \<subseteq> {RecordReceipt, RejectReview}"
    then obtain mid where mid: "x # xs = mid @ [AcceptReview]"
      and loops: "set mid \<subseteq> {RecordReceipt, RejectReview}" by blast
    show "completes_from AttemptPhase.Verifying (x # xs)"
    proof (cases mid)
      case Nil
      with mid show ?thesis by simp
    next
      case (Cons y ys)
      with mid loops Cons.IH show ?thesis by (auto simp: review_loop_def)
    qed
  qed
qed simp

lemma completes_from_Claimed:
  "completes_from AttemptPhase.Claimed xs \<longleftrightarrow>
     (\<exists>at mid. xs = [Accept at, Start, Submit] @ mid @ [AcceptReview]
        \<and> set mid \<subseteq> {RecordReceipt, RejectReview})"
proof -
  have "completes_from AttemptPhase.Claimed xs \<longleftrightarrow>
      (\<exists>at ys. xs = Accept at # Start # Submit # ys \<and> completes_from AttemptPhase.Verifying ys)"
    by (cases xs; cases "tl xs"; cases "tl (tl xs)") (auto split: if_splits)
  then show ?thesis by (auto simp: completes_from_Verifying)
qed

lemma claim_phase: "claim w i ac f t lt hl = Inr a \<Longrightarrow> a_phase a = AttemptPhase.Claimed"
  by (auto simp: claim_def Let_def split: sum.splits)

section \<open>The lease\<close>

text \<open>Heartbeats and renewals as the events of the lease machine.\<close>

datatype LeaseEvent = Beat TimestampMs | Renew TimestampMs u64

primrec event_time :: "LeaseEvent \<Rightarrow> TimestampMs" where
  "event_time (Beat at) = at"
| "event_time (Renew at ttl) = at"

primrec lease_step :: "Attempt \<Rightarrow> LeaseEvent \<Rightarrow> DomainError + Attempt" where
  "lease_step a (Beat at) = map_sum id fst (heartbeat a at)"
| "lease_step a (Renew at ttl) = map_sum id fst (attempt_renew_lease a at ttl)"

text \<open>The whole attempt but the two fields the lease machine may change, and what each event leaves in
  these two.\<close>

definition lease_frame :: "Attempt \<Rightarrow> Attempt" where
  "lease_frame a = a\<lparr>a_lease_deadline := 0, a_last_heartbeat_at := None\<rparr>"

primrec lease_after :: "TimestampMs \<Rightarrow> LeaseEvent \<Rightarrow> TimestampMs" where
  "lease_after lease (Beat at) = lease"
| "lease_after lease (Renew at ttl) = at + ttl"

primrec heartbeat_after :: "TimestampMs option \<Rightarrow> LeaseEvent \<Rightarrow> TimestampMs option" where
  "heartbeat_after beat (Beat at) = Some at"
| "heartbeat_after beat (Renew at ttl) = beat"

lemma map_sum_Inr_iff: "map_sum id f r = Inr b \<longleftrightarrow> (\<exists>x. r = Inr x \<and> b = f x)"
  by (cases r) auto

lemma timestamp_checked_add_Inr:
  "timestamp_checked_add t d = Inr r \<longleftrightarrow> unat r = unat t + unat d"
  by (auto simp: timestamp_checked_add_def checked_add_Some_iff [symmetric] split: option.splits)

lemma heartbeat_Inr:
  "heartbeat a at = Inr (a', view) \<longleftrightarrow> \<not> attempt_phase_is_terminal (a_phase a)
     \<and> at < a_lease_deadline a \<and> a' = a\<lparr>a_last_heartbeat_at := Some at\<rparr>
     \<and> view = deadlines_at a' at"
  by (auto simp: heartbeat_def Let_def not_le)

lemma attempt_renew_lease_Inr:
  "attempt_renew_lease a at ttl = Inr (a', view) \<longleftrightarrow> \<not> attempt_phase_is_terminal (a_phase a)
     \<and> at < a_lease_deadline a
     \<and> (\<exists>c. unat c = unat at + unat ttl \<and> at < c \<and> a_lease_deadline a \<le> c
          \<and> a' = a\<lparr>a_lease_deadline := c\<rparr>) \<and> view = deadlines_at a' at"
proof (cases "timestamp_checked_add at ttl")
  case (Inl e)
  have no: "unat c \<noteq> unat at + unat ttl" for c :: u64
    using timestamp_checked_add_Inr [of at ttl c] Inl by simp
  show ?thesis
    unfolding attempt_renew_lease_def using Inl no by simp
next
  case (Inr r)
  then have uniq: "unat c = unat at + unat ttl \<longleftrightarrow> c = r" for c :: u64
    by (auto simp: timestamp_checked_add_Inr word_unat_eq_iff)
  show ?thesis
    unfolding uniq attempt_renew_lease_def Let_def using Inr by (auto simp: not_le not_less)
qed

lemma lease_step_Inr:
  assumes "lease_step a ev = Inr b"
  shows "lease_frame b = lease_frame a" "a_lease_deadline a \<le> a_lease_deadline b"
    "event_time ev < a_lease_deadline a" "a_lease_deadline b = lease_after (a_lease_deadline a) ev"
    "a_last_heartbeat_at b = heartbeat_after (a_last_heartbeat_at a) ev"
proof -
  have sum: "c = at + ttl" if "unat c = unat at + unat ttl" for at ttl c :: u64
  proof -
    have "word_of_nat (unat c) = (word_of_nat (unat at + unat ttl) :: u64)" using that by simp
    then show ?thesis by simp
  qed
  obtain view where "case ev of Beat at \<Rightarrow> heartbeat a at = Inr (b, view)
      | Renew at ttl \<Rightarrow> attempt_renew_lease a at ttl = Inr (b, view)"
    using assms by (cases ev) (auto simp: map_sum_Inr_iff)
  then show "lease_frame b = lease_frame a" "a_lease_deadline a \<le> a_lease_deadline b"
    "event_time ev < a_lease_deadline a" "a_lease_deadline b = lease_after (a_lease_deadline a) ev"
    "a_last_heartbeat_at b = heartbeat_after (a_last_heartbeat_at a) ev"
    by (auto simp: lease_frame_def heartbeat_Inr attempt_renew_lease_Inr sum
        split: LeaseEvent.splits)
qed

interpretation lease: framed_steps lease_step lease_frame
  by unfold_locales (rule lease_step_Inr(1))

lemma lease_run_fields:
  "try_fold lease_step a evs = Inr b \<Longrightarrow> a_lease_deadline b = foldl lease_after (a_lease_deadline a) evs
     \<and> a_last_heartbeat_at b = foldl heartbeat_after (a_last_heartbeat_at a) evs"
  by (induction evs arbitrary: a) (auto split: sum.splits simp: lease_step_Inr(4,5))

lemma lease_frame_eq:
  assumes "lease_frame b = lease_frame a"
  shows "b = a\<lparr>a_lease_deadline := a_lease_deadline b, a_last_heartbeat_at := a_last_heartbeat_at b\<rparr>"
  using assms by (cases a; cases b) (simp add: lease_frame_def)

lemma lease_run_mono: "try_fold lease_step a evs = Inr b \<Longrightarrow> a_lease_deadline a \<le> a_lease_deadline b"
  by (induction evs arbitrary: a) (auto split: sum.splits dest: lease_step_Inr(2) intro: order_trans)

lemma lease_run_times:
  "try_fold lease_step a evs = Inr b \<Longrightarrow> ev \<in> set evs \<Longrightarrow> event_time ev < a_lease_deadline b"
proof (induction evs arbitrary: a)
  case (Cons x xs)
  then obtain c where c: "lease_step a x = Inr c" "try_fold lease_step c xs = Inr b"
    by (auto split: sum.splits)
  show ?case
  proof (cases "ev = x")
    case True
    then show ?thesis
      using lease_step_Inr(2,3) [OF c(1)] lease_run_mono [OF c(2)] by simp
  next
    case False
    with Cons c(2) show ?thesis by simp
  qed
qed simp

section \<open>Close readiness\<close>

text \<open>What the profile asks of one required gate, stated without the loop.\<close>

definition gate_accepted :: "GateRequirement list \<Rightarrow> ReviewRecord option \<Rightarrow> GateRequirement \<Rightarrow> bool" where
  "gate_accepted gates review g \<longleftrightarrow>
     (\<exists>h. find (\<lambda>x. gr_id x = gr_id g) gates = Some h \<and> gr_state h = Satisfied)
     \<or> gr_kind g = Review \<and> (\<exists>r. review = Some r \<and> rr_accepted r
          \<and> rr_reviewer_actor_id r \<noteq> rr_attempt_actor_id r)"

lemma independent_review_iff:
  "validate_independent_review r = Inr () \<longleftrightarrow> rr_reviewer_actor_id r \<noteq> rr_attempt_actor_id r"
  by (simp add: validate_independent_review_def)

lemma gate_gaps_of_Nil: "gate_gaps_of gates review g = [] \<longleftrightarrow> gate_accepted gates review g"
  by (auto simp: gate_gaps_of_def gate_accepted_def independent_review_iff Let_def
      split: option.splits)

lemma evaluate_close_ready:
  "evaluate_close profile gates review intent a f = ReadyToClose \<longleftrightarrow>
     a_fence a = f \<and> a_phase a \<in> {AttemptPhase.Verifying, AttemptPhase.Completed} \<and> intent
     \<and> (\<forall>g \<in> set (ap_gates profile). gr_required g \<longrightarrow> gate_accepted gates review g)"
  by (auto simp: evaluate_close_def Let_def gate_gaps_of_Nil [symmetric])

lemma evaluate_close_gaps:
  "evaluate_close profile gates review intent a f = NotReady gaps \<Longrightarrow>
     sorted gaps \<and> distinct gaps \<and> gaps \<noteq> []"
  by (auto simp: evaluate_close_def Let_def split: if_splits)

section \<open>Properties\<close>

text \<open>C38: An attempt reaches \<open>Completed\<close> by exactly one kind of run: it is accepted, started and
  submitted, then receipts and rejected reviews may repeat while it is verified, and the run ends
  with an accepted review.  No other sequence of operations completes a fresh claim.\<close>

theorem attempt_completes_iff:
  assumes "claim w i ac f t lease_ttl hard_limit = Inr a"
  shows "(\<exists>b. run_attempt a ops = Inr b \<and> a_phase b = AttemptPhase.Completed) \<longleftrightarrow>
    (\<exists>at mid. ops = [Accept at, Start, Submit] @ mid @ [AcceptReview]
       \<and> set mid \<subseteq> {RecordReceipt, RejectReview})"
  by (simp only: run_attempt_completes claim_phase [OF assms] completes_from_Claimed)

theorem attempt_completes_iff_witness:
  "\<exists>a b. claim (Ident ''w'') (Ident ''a'') (Ident ''agent'') 1 1000 None None = Inr a
     \<and> run_attempt a [Accept 1001, Start, Submit, RejectReview, AcceptReview] = Inr b
     \<and> a_phase b = AttemptPhase.Completed"
proof -
  let ?c = "claim (Ident ''w'') (Ident ''a'') (Ident ''agent'') 1 1000 None None"
  have c: "?c = Inr (projr ?c)" by code_simp
  note runs = attempt_completes_iff [OF c,
      of "[Accept 1001, Start, Submit, RejectReview, AcceptReview]"]
  have "[Accept 1001, Start, Submit, RejectReview, AcceptReview]
      = [Accept 1001, Start, Submit] @ [RejectReview] @ [AcceptReview]" by simp
  then have "\<exists>at mid. [Accept 1001, Start, Submit, RejectReview, AcceptReview]
      = [Accept at, Start, Submit] @ mid @ [AcceptReview]
        \<and> set mid \<subseteq> {RecordReceipt, RejectReview}"
    by (intro exI [of _ 1001] exI [of _ "[RejectReview]"]) simp
  then have "\<exists>b. run_attempt (projr ?c) [Accept 1001, Start, Submit, RejectReview, AcceptReview]
      = Inr b \<and> a_phase b = AttemptPhase.Completed" by (rule iffD2 [OF runs])
  then obtain b where "run_attempt (projr ?c) [Accept 1001, Start, Submit, RejectReview, AcceptReview]
      = Inr b" and "a_phase b = AttemptPhase.Completed" by (elim exE conjE)
  with c show ?thesis by (intro exI conjI)
qed

text \<open>No run of attempt operations touches the attempt's identity, its actor, its fence, or any of
  its claim and deadline timestamps; phases only move forward, and a terminal attempt accepts no
  further operation.\<close>

theorem attempt_run_frame:
  assumes "run_attempt a ops = Inr b"
  shows "attempt_frame b = attempt_frame a \<and> phase_rank (a_phase a) \<le> phase_rank (a_phase b)
    \<and> (attempt_phase_is_terminal (a_phase a) \<longrightarrow> ops = [] \<and> b = a)"
  using attempt.run_frame attempt.run_rank attempt.run_from_final assms
  unfolding run_attempt_def by blast

theorem attempt_run_frame_witness:
  "\<exists>a b. claim (Ident ''w'') (Ident ''a'') (Ident ''agent'') 1 1000 None None = Inr a
     \<and> run_attempt a [Accept 1001, AttemptOperation.ExpiryPending, Expire] = Inr b
     \<and> attempt_frame b = attempt_frame a \<and> a_phase b = AttemptPhase.Expired"
proof -
  let ?c = "claim (Ident ''w'') (Ident ''a'') (Ident ''agent'') 1 1000 None None"
  let ?ops = "[Accept 1001, AttemptOperation.ExpiryPending, Expire]"
  have c: "?c = Inr (projr ?c)" by code_simp
  have r: "run_attempt (projr ?c) ?ops = Inr (projr (run_attempt (projr ?c) ?ops))" by code_simp
  have e: "a_phase (projr (run_attempt (projr ?c) ?ops)) = AttemptPhase.Expired" by code_simp
  show ?thesis
    by (intro exI conjI, rule c, rule r, rule conjunct1 [OF attempt_run_frame [OF r]], rule e)
qed

text \<open>A claim fixes both deadlines exactly: with no overflow of the 64-bit clock they are the claim
  time plus the lease and the hard budget (half an hour and two hours by default), the attempt
  starts unaccepted in phase \<open>Claimed\<close>, and the only error is an overflow of one of the sums.\<close>

theorem claim_deadlines:
  "case claim w i ac f t lease_ttl hard_limit of
     Inr a \<Rightarrow>
       unat (a_lease_deadline a) = unat t + unat (case_option (30 * 60 * 1000) id lease_ttl)
       \<and> unat (a_max_attempt_deadline a)
           = unat t + unat (case_option (2 * 60 * 60 * 1000) id hard_limit)
       \<and> a_phase a = AttemptPhase.Claimed \<and> a_accepted_at a = None \<and> a_fence a = f
   | Inl e \<Rightarrow> e = TimestampOverflow
       \<and> (2 ^ 64 \<le> unat t + unat (case_option (30 * 60 * 1000) id lease_ttl)
          \<or> 2 ^ 64 \<le> unat t + unat (case_option (2 * 60 * 60 * 1000) id hard_limit))"
proof -
  define lease where "lease = case_option (30 * 60 * 1000) id lease_ttl"
  define hard where "hard = case_option (2 * 60 * 60 * 1000) id hard_limit"
  have defaults: "case_option DEFAULT_LEASE_TTL_MS id lease_ttl = lease"
    "case_option DEFAULT_HARD_TIME_LIMIT_MS id hard_limit = hard"
    by (simp_all only: lease_def hard_def DEFAULT_LEASE_TTL_MS_def DEFAULT_HARD_TIME_LIMIT_MS_def)
  have over: "timestamp_checked_add t d = Inl e \<longleftrightarrow> e = TimestampOverflow \<and> 2 ^ 64 \<le> unat t + unat d"
    for d e
    using checked_add_None_iff [of t d] by (auto simp: timestamp_checked_add_def split: option.splits)
  show ?thesis
    unfolding lease_def [symmetric] hard_def [symmetric] claim_def Let_def defaults
    by (auto simp: over timestamp_checked_add_Inr split: sum.splits)
qed

text \<open>C39: In any run of heartbeats and renewals the lease deadline never moves back and is the one of the
  last renewal, the last heartbeat is that of the run, and everything else of the attempt, its
  identities, actor, session, fence, phase, hard deadline and the rest, stays as it was; every accepted
  event happened strictly before the lease it ends with, so that once the lease has elapsed no later
  event revives it.\<close>

theorem lease_run_safe:
  assumes "try_fold lease_step a evs = Inr b"
  shows "b = a\<lparr>a_lease_deadline := foldl lease_after (a_lease_deadline a) evs,
        a_last_heartbeat_at := foldl heartbeat_after (a_last_heartbeat_at a) evs\<rparr>
    \<and> a_lease_deadline a \<le> a_lease_deadline b
    \<and> (\<forall>ev \<in> set evs. event_time ev < a_lease_deadline b)
    \<and> (\<forall>ev. a_lease_deadline b \<le> event_time ev \<longrightarrow> isl (try_fold lease_step a (evs @ [ev])))"
proof -
  have "isl (lease_step b ev)" if "a_lease_deadline b \<le> event_time ev" for ev
    using that lease_step_Inr(3) [of b ev] by (cases "lease_step b ev") (auto simp: not_le)
  then have "isl (try_fold lease_step a (evs @ [ev]))" if "a_lease_deadline b \<le> event_time ev" for ev
    using that assms by (fastforce simp: try_fold_append isl_def)
  moreover have "b = a\<lparr>a_lease_deadline := foldl lease_after (a_lease_deadline a) evs,
        a_last_heartbeat_at := foldl heartbeat_after (a_last_heartbeat_at a) evs\<rparr>"
    using lease_frame_eq [OF lease.run_frame [OF assms]] lease_run_fields [OF assms] by simp
  ultimately show ?thesis using lease_run_mono [OF assms] lease_run_times [OF assms] by blast
qed

theorem lease_run_safe_witness:
  "\<exists>a b. claim (Ident ''w'') (Ident ''a'') (Ident ''agent'') 1 1000 (Some 50) None = Inr a
     \<and> try_fold lease_step a [Beat 1010, Renew 1040 60, Beat 1090] = Inr b
     \<and> a_lease_deadline b = 1100 \<and> isl (try_fold lease_step a
          ([Beat 1010, Renew 1040 60, Beat 1090] @ [Renew 1100 50]))"
proof -
  let ?a = "projr (claim (Ident ''w'') (Ident ''a'') (Ident ''agent'') 1 1000 (Some 50) None)"
  let ?evs = "[Beat 1010, Renew 1040 60, Beat 1090]"
  have c: "claim (Ident ''w'') (Ident ''a'') (Ident ''agent'') 1 1000 (Some 50) None = Inr ?a"
    by code_simp
  have r: "try_fold lease_step ?a ?evs = Inr (projr (try_fold lease_step ?a ?evs))" by code_simp
  have d: "a_lease_deadline (projr (try_fold lease_step ?a ?evs)) = 1100" by code_simp
  then have "a_lease_deadline (projr (try_fold lease_step ?a ?evs)) \<le> event_time (Renew 1100 50)"
    by simp
  with lease_run_safe [OF r] have "isl (try_fold lease_step ?a (?evs @ [Renew 1100 50]))"
    by (elim conjE allE [of _ "Renew 1100 50"]) (rule mp)
  with c r d show ?thesis by (intro exI conjI)
qed

text \<open>C40: Closing is ready exactly when the fence is the attempt's, the attempt is being verified or
  completed, the close is intended, and every required gate of the pinned profile is satisfied by
  the gate row of that identity or, for a review gate, by an accepted review of someone else; when
  it is not ready, the reported gaps are a nonempty, sorted list without repetition.\<close>

theorem evaluate_close_spec:
  "(evaluate_close profile gates review intent a f = ReadyToClose \<longleftrightarrow>
     a_fence a = f \<and> a_phase a \<in> {AttemptPhase.Verifying, AttemptPhase.Completed} \<and> intent
     \<and> (\<forall>g \<in> set (ap_gates profile). gr_required g \<longrightarrow> gate_accepted gates review g))
   \<and> (\<forall>gaps. evaluate_close profile gates review intent a f = NotReady gaps \<longrightarrow>
        sorted gaps \<and> distinct gaps \<and> gaps \<noteq> [])"
  using evaluate_close_ready evaluate_close_gaps by blast

theorem evaluate_close_spec_witness:
  "\<exists>a. claim (Ident ''w'') (Ident ''a'') (Ident ''agent'') 1 1000 None None = Inr a
     \<and> evaluate_close reviewed (map gate_satisfied (ap_gates focused))
         (Some \<lparr>rr_reviewer_actor_id = Ident ''agent'', rr_attempt_actor_id = Ident ''agent'',
            rr_accepted = True\<rparr>) True a 1 = NotReady [ReviewRejected, AttemptNotVerifying]
     \<and> evaluate_close reviewed (map gate_satisfied (ap_gates focused))
         (Some \<lparr>rr_reviewer_actor_id = Ident ''lead'', rr_attempt_actor_id = Ident ''agent'',
            rr_accepted = True\<rparr>) True (a\<lparr>a_phase := AttemptPhase.Verifying\<rparr>) 1 = ReadyToClose"
proof -
  let ?a = "projr (claim (Ident ''w'') (Ident ''a'') (Ident ''agent'') 1 1000 None None)"
  let ?gates = "map gate_satisfied (ap_gates focused)"
  let ?r = "Some \<lparr>rr_reviewer_actor_id = Ident ''lead'', rr_attempt_actor_id = Ident ''agent'',
            rr_accepted = True\<rparr>"
  have c: "claim (Ident ''w'') (Ident ''a'') (Ident ''agent'') 1 1000 None None = Inr ?a"
    by code_simp
  have n: "evaluate_close reviewed ?gates
      (Some \<lparr>rr_reviewer_actor_id = Ident ''agent'', rr_attempt_actor_id = Ident ''agent'',
         rr_accepted = True\<rparr>) True ?a 1 = NotReady [ReviewRejected, AttemptNotVerifying]"
    by code_simp
  have "a_fence (?a\<lparr>a_phase := AttemptPhase.Verifying\<rparr>) = 1
     \<and> a_phase (?a\<lparr>a_phase := AttemptPhase.Verifying\<rparr>)
         \<in> {AttemptPhase.Verifying, AttemptPhase.Completed} \<and> True
     \<and> (\<forall>g \<in> set (ap_gates reviewed). gr_required g \<longrightarrow> gate_accepted ?gates ?r g)"
    by (simp add: claim_def timestamp_checked_add_def checked_add_u64_def DEFAULT_LEASE_TTL_MS_def
        DEFAULT_HARD_TIME_LIMIT_MS_def reviewed_def focused_def gate_required_def gate_accepted_def
        gate_satisfied_def)
  then have "evaluate_close reviewed ?gates ?r True (?a\<lparr>a_phase := AttemptPhase.Verifying\<rparr>) 1
      = ReadyToClose"
    by (rule iffD2 [OF conjunct1 [OF evaluate_close_spec]])
  with c n show ?thesis by (intro exI conjI)
qed

end
