(* ===== verification/Work_Items.thy ===== *)
theory Work_Items
  imports Graph_Search Lifecycle
begin

text \<open>
  Work items, the containment hierarchy and the close-only dependency edges of
  \<open>crates/domain/src/lib.rs\<close>: \<open>WorkItem\<close>, \<open>validate_parent\<close>, \<open>validate_hierarchy\<close>,
  \<open>validate_dependency_edges\<close> with its recursive \<open>reaches\<close>, the status decision and the exact
  roll-up counts.  The recursion of \<open>reaches\<close> is bounded by fuel; the section on the search shows
  that one more than the number of distinct nodes always suffices.
\<close>

section \<open>Types\<close>

datatype ReasonCode =
    TerminalClosed
  | TerminalCancelled
  | ExpiryReviewRequired
  | HardHold string
  | NotPublished
  | AttemptUnaccepted
  | AttemptActive
  | VerificationRequired
  | ReviewRequired
  | CloseoutPending
  | PrerequisiteOpen WorkId
  | Paused
  | RetryNotBefore TimestampMs
  | ScheduledStart TimestampMs
  | ExternalWaitOpen string
  | Eligible
  | OperatorOnly
  | NonExecutableContainer
  | LeaseElapsed
  | HardBudgetElapsed
  | GateOpen GateId
  | GateFailed GateId
  | GateMissing GateId
  | GateInvalid GateId
  | ReviewRejected GateId
  | RoleDenied
  | AttemptSubjectMismatch
  | ContainerPlanning

definition call_code :: "string \<Rightarrow> string \<Rightarrow> string" where
  "call_code name argument = name @ ''('' @ argument @ '')''"

fun stable_code :: "ReasonCode \<Rightarrow> string" where
  "stable_code TerminalClosed = ''terminal_closed''"
| "stable_code TerminalCancelled = ''terminal_cancelled''"
| "stable_code ExpiryReviewRequired = ''expiry_review_required''"
| "stable_code (HardHold reason) = reason"
| "stable_code NotPublished = ''not_published''"
| "stable_code AttemptUnaccepted = ''attempt_unaccepted''"
| "stable_code AttemptActive = ''attempt_active''"
| "stable_code VerificationRequired = ''verification_required''"
| "stable_code ReasonCode.ReviewRequired = ''review_required''"
| "stable_code CloseoutPending = ''closeout_pending''"
| "stable_code (PrerequisiteOpen i) = call_code ''prerequisite_open'' (as_str i)"
| "stable_code ReasonCode.Paused = ''paused''"
| "stable_code (RetryNotBefore at) = call_code ''retry_not_before'' (decimal (unat at))"
| "stable_code (ScheduledStart at) = call_code ''scheduled_start'' (decimal (unat at))"
| "stable_code (ExternalWaitOpen i) = call_code ''external_wait_open'' i"
| "stable_code Eligible = ''eligible''"
| "stable_code ReasonCode.OperatorOnly = ''operator_only''"
| "stable_code NonExecutableContainer = ''non_executable_container''"
| "stable_code ReasonCode.LeaseElapsed = ''lease_elapsed''"
| "stable_code ReasonCode.HardBudgetElapsed = ''hard_budget_elapsed''"
| "stable_code (GateOpen i) = call_code ''gate_open'' (as_str i)"
| "stable_code (GateFailed i) = call_code ''gate_failed'' (as_str i)"
| "stable_code (GateMissing i) = call_code ''gate_missing'' (as_str i)"
| "stable_code (GateInvalid i) = call_code ''gate_invalid'' (as_str i)"
| "stable_code (ReasonCode.ReviewRejected i) = call_code ''review_rejected'' (as_str i)"
| "stable_code RoleDenied = ''role_denied''"
| "stable_code AttemptSubjectMismatch = ''attempt_subject_mismatch''"
| "stable_code ContainerPlanning = ''container_planning''"

record WorkItem =
  wi_id :: WorkId
  wi_project_id :: ProjectId
  wi_kind :: WorkKind
  wi_parent_id :: "WorkId option"
  wi_title :: string
  wi_description :: string
  wi_lifecycle :: PersistedLifecycle
  wi_priority :: u8
  wi_dispatch_policy :: DispatchPolicy
  wi_hard_holds :: "ReasonCode list"
  wi_acceptance_profile :: AcceptanceProfile

definition work_item_new ::
  "ProjectId \<Rightarrow> WorkId \<Rightarrow> WorkKind \<Rightarrow> WorkId option \<Rightarrow> string \<Rightarrow> WorkItem" where
  "work_item_new project_id i kind parent_id title =
     \<lparr>wi_id = i, wi_project_id = project_id, wi_kind = kind, wi_parent_id = parent_id,
      wi_title = title, wi_description = [], wi_lifecycle = PersistedLifecycle.Draft,
      wi_priority = 0, wi_dispatch_policy = Automatic, wi_hard_holds = [],
      wi_acceptance_profile = focused\<rparr>"

definition work_item_open :: "WorkItem \<Rightarrow> WorkItem" where
  "work_item_open w = w\<lparr>wi_lifecycle := PersistedLifecycle.Open\<rparr>"

record BlockingDependency =
  bd_blocker_id :: WorkId
  bd_blocked_id :: WorkId

datatype DependencyPolicy = ClosedOnly

record DependencyEdge =
  de_blocker_id :: WorkId
  de_blocked_id :: WorkId
  de_policy :: DependencyPolicy

definition close_only :: "WorkId \<Rightarrow> WorkId \<Rightarrow> DependencyEdge" where
  "close_only blocker blocked =
     \<lparr>de_blocker_id = blocker, de_blocked_id = blocked, de_policy = ClosedOnly\<rparr>"

fun dependency_satisfied :: "DependencyPolicy \<Rightarrow> WorkItem \<Rightarrow> bool" where
  "dependency_satisfied ClosedOnly blocker \<longleftrightarrow> wi_lifecycle blocker = PersistedLifecycle.Closed"

datatype DomainAction = PublishWork | Claim | AcceptAttempt | ResumeAttempt | ProvideEvidence
  | RequestReview | FinishClose | WaitForPrerequisite | ResolveHold | ResumePolicy | WaitUntil
  | ReviewExpiry | RequestOperatorClaim

record CurrentAttempt =
  ca_attempt_id :: AttemptId
  ca_fence :: Fence
  ca_phase :: AttemptPhase

record StatusDecision =
  sd_work_id :: WorkId
  sd_project_revision :: Revision
  sd_as_of :: TimestampMs
  sd_next_status_change_at :: "TimestampMs option"
  sd_due_today :: bool
  sd_overdue :: bool
  sd_blocking_external_wait_ids :: "string list"
  sd_follow_up_due_wait_ids :: "string list"
  sd_display_status :: DerivedStatus
  sd_primary_reason :: ReasonCode
  sd_reason_codes :: "ReasonCode list"
  sd_claimable_for_actor :: bool
  sd_next_action :: "DomainAction option"
  sd_current_attempt :: "CurrentAttempt option"
  sd_gate_gaps :: "GateId list"
  sd_affected_dependents :: "WorkId list"

section \<open>Roll-up counts\<close>

text \<open>\<open>usize\<close> counters of in-memory rows: a count cannot exceed the address space.\<close>

record RollupCounts =
  rc_total :: nat
  rc_draft :: nat
  rc_queued :: nat
  rc_ready :: nat
  rc_claimed :: nat
  rc_in_progress :: nat
  rc_needs_verification :: nat
  rc_awaiting_review :: nat
  rc_complete :: nat
  rc_closed :: nat
  rc_blocked :: nat
  rc_paused :: nat
  rc_retry_wait :: nat
  rc_scheduled :: nat
  rc_expired_review :: nat
  rc_cancelled :: nat

definition rollup_counts_default :: RollupCounts where
  "rollup_counts_default =
     \<lparr>rc_total = 0, rc_draft = 0, rc_queued = 0, rc_ready = 0, rc_claimed = 0,
      rc_in_progress = 0, rc_needs_verification = 0, rc_awaiting_review = 0, rc_complete = 0,
      rc_closed = 0, rc_blocked = 0, rc_paused = 0, rc_retry_wait = 0, rc_scheduled = 0,
      rc_expired_review = 0, rc_cancelled = 0\<rparr>"

fun record_status :: "DerivedStatus \<Rightarrow> RollupCounts \<Rightarrow> RollupCounts" where
  "record_status DerivedStatus.Draft c = c\<lparr>rc_draft := rc_draft c + 1\<rparr>"
| "record_status Queued c = c\<lparr>rc_queued := rc_queued c + 1\<rparr>"
| "record_status Ready c = c\<lparr>rc_ready := rc_ready c + 1\<rparr>"
| "record_status DerivedStatus.Claimed c = c\<lparr>rc_claimed := rc_claimed c + 1\<rparr>"
| "record_status InProgress c = c\<lparr>rc_in_progress := rc_in_progress c + 1\<rparr>"
| "record_status NeedsVerification c = c\<lparr>rc_needs_verification := rc_needs_verification c + 1\<rparr>"
| "record_status AwaitingReview c = c\<lparr>rc_awaiting_review := rc_awaiting_review c + 1\<rparr>"
| "record_status Complete c = c\<lparr>rc_complete := rc_complete c + 1\<rparr>"
| "record_status DerivedStatus.Closed c = c\<lparr>rc_closed := rc_closed c + 1\<rparr>"
| "record_status Blocked c = c\<lparr>rc_blocked := rc_blocked c + 1\<rparr>"
| "record_status DerivedStatus.Paused c = c\<lparr>rc_paused := rc_paused c + 1\<rparr>"
| "record_status RetryWait c = c\<lparr>rc_retry_wait := rc_retry_wait c + 1\<rparr>"
| "record_status Scheduled c = c\<lparr>rc_scheduled := rc_scheduled c + 1\<rparr>"
| "record_status ExpiredReview c = c\<lparr>rc_expired_review := rc_expired_review c + 1\<rparr>"
| "record_status DerivedStatus.Cancelled c = c\<lparr>rc_cancelled := rc_cancelled c + 1\<rparr>"

definition rollup_record :: "RollupCounts \<Rightarrow> DerivedStatus \<Rightarrow> RollupCounts" where
  "rollup_record c status = record_status status (c\<lparr>rc_total := rc_total c + 1\<rparr>)"

definition evaluate_rollup :: "StatusDecision list \<Rightarrow> RollupCounts" where
  "evaluate_rollup statuses =
     foldl (\<lambda>counts status. rollup_record counts (sd_display_status status))
       rollup_counts_default statuses"

section \<open>Hierarchy\<close>

definition validate_parent :: "WorkItem \<Rightarrow> WorkItem option \<Rightarrow> DomainError + unit" where
  "validate_parent child parent =
     (case parent of
        None \<Rightarrow>
          if wi_kind child \<in> {Milestone, Task} then Inr ()
          else Inl (ParentRequired (wi_id child) (wi_kind child))
      | Some parent \<Rightarrow>
          if wi_project_id child \<noteq> wi_project_id parent
          then Inl (CrossProjectReference (wi_id child) (wi_id parent))
          else if (wi_kind parent, wi_kind child) \<in> {(Milestone, Sprint), (Sprint, Task)}
          then Inr ()
          else Inl (InvalidParentKind (wi_kind child) (wi_kind parent)))"

definition find_item :: "WorkItem list \<Rightarrow> WorkId \<Rightarrow> WorkItem option" where
  "find_item items i = find (\<lambda>item. wi_id item = i) items"

definition validate_child :: "WorkItem list \<Rightarrow> WorkItem \<Rightarrow> DomainError + unit" where
  "validate_child items child =
     (case map_option (find_item items) (wi_parent_id child) of
        Some (Some parent) \<Rightarrow> validate_parent child (Some parent)
      | Some None \<Rightarrow> Inl (MissingParent (wi_id child))
      | None \<Rightarrow> validate_parent child None)"

definition validate_hierarchy :: "WorkItem list \<Rightarrow> DomainError + unit" where
  "validate_hierarchy items = try_fold (\<lambda>_. validate_child items) () items"

section \<open>Dependency edges\<close>

primrec reaches_fuel ::
  "nat \<Rightarrow> DependencyEdge list \<Rightarrow> WorkId \<Rightarrow> WorkId \<Rightarrow> WorkId list \<Rightarrow> (bool \<times> WorkId list) run" where
  "reaches_fuel 0 edges start target visited = OutOfFuel"
| "reaches_fuel (Suc fuel) edges start target visited =
     (if start = target then Return (True, visited)
      else if start \<in> set visited then Return (False, visited)
      else any_run (\<lambda>visited edge. reaches_fuel fuel edges (de_blocked_id edge) target visited)
             (visited @ [start]) (filter (\<lambda>edge. de_blocker_id edge = start) edges))"

definition reaches :: "DependencyEdge list \<Rightarrow> WorkId \<Rightarrow> WorkId \<Rightarrow> (bool \<times> WorkId list) run" where
  "reaches edges start target = reaches_fuel (length edges + 2) edges start target []"

definition validate_dependency_edge ::
  "WorkItem list \<Rightarrow> DependencyEdge list \<Rightarrow> DependencyEdge \<Rightarrow> (DomainError + unit) run" where
  "validate_dependency_edge items dependencies dependency =
     (case find_item items (de_blocker_id dependency) of
        None \<Rightarrow> Return (Inl (MissingWork (de_blocker_id dependency)))
      | Some blocker \<Rightarrow>
          (case find_item items (de_blocked_id dependency) of
             None \<Rightarrow> Return (Inl (MissingWork (de_blocked_id dependency)))
           | Some blocked \<Rightarrow>
               if wi_project_id blocker \<noteq> wi_project_id blocked
               then Return (Inl (CrossProjectReference (wi_id blocker) (wi_id blocked)))
               else if wi_id blocker = wi_id blocked
               then Return (Inl (DependencyCycle (wi_id blocker) (wi_id blocked)))
               else run_bind (reaches dependencies (wi_id blocked) (wi_id blocker))
                 (\<lambda>(found, _). Return
                    (if found then Inl (DependencyCycle (wi_id blocker) (wi_id blocked))
                     else Inr ()))))"

primrec validate_each_edge ::
  "WorkItem list \<Rightarrow> DependencyEdge list \<Rightarrow> DependencyEdge list \<Rightarrow> (DomainError + unit) run" where
  "validate_each_edge items dependencies [] = Return (Inr ())"
| "validate_each_edge items dependencies (d # ds) =
     run_bind (validate_dependency_edge items dependencies d)
       (case_sum (\<lambda>e. Return (Inl e)) (\<lambda>_. validate_each_edge items dependencies ds))"

definition validate_dependency_edges ::
  "WorkItem list \<Rightarrow> DependencyEdge list \<Rightarrow> (DomainError + unit) run" where
  "validate_dependency_edges items dependencies = validate_each_edge items dependencies dependencies"

definition validate_dependencies ::
  "WorkItem list \<Rightarrow> BlockingDependency list \<Rightarrow> (DomainError + unit) run" where
  "validate_dependencies items dependencies =
     validate_dependency_edges items
       (map (\<lambda>d. close_only (bd_blocker_id d) (bd_blocked_id d)) dependencies)"

section \<open>The search behind the cycle check\<close>

definition dep_succs :: "DependencyEdge list \<Rightarrow> WorkId \<Rightarrow> WorkId list" where
  "dep_succs edges u = map de_blocked_id (filter (\<lambda>edge. de_blocker_id edge = u) edges)"

definition dep_arcs :: "DependencyEdge list \<Rightarrow> (WorkId \<times> WorkId) set" where
  "dep_arcs edges = (\<lambda>e. (de_blocker_id e, de_blocked_id e)) ` set edges"

interpretation deps: succ_graph "dep_succs edges" for edges .

lemma deps_arcs: "deps.arcs edges = dep_arcs edges"
  by (auto simp: deps.arcs_def dep_arcs_def dep_succs_def)

lemma dep_succs_blocked: "set (dep_succs edges u) \<subseteq> de_blocked_id ` set edges"
  by (auto simp: dep_succs_def)

lemma reaches_fuel_answers:
  assumes N: "finite N" "de_blocked_id ` set edges \<subseteq> N"
  shows "start \<in> N \<Longrightarrow> card (N - set visited) < fuel \<Longrightarrow>
    deps.answers edges target visited start (reaches_fuel fuel edges start target visited)"
proof (induction fuel arbitrary: start visited)
  case (Suc fuel)
  let ?es = "filter (\<lambda>edge. de_blocker_id edge = start) edges"
  let ?f = "\<lambda>visited edge. reaches_fuel fuel edges (de_blocked_id edge) target visited"
  consider "start = target" | "start \<noteq> target" "start \<in> set visited"
    | "start \<noteq> target" "start \<notin> set visited" by blast
  then show ?case
  proof cases
    case 1
    have "reaches_fuel (Suc fuel) edges start target visited = Return (True, visited)"
      using 1 by simp
    then show ?thesis using 1 by (simp only: deps.answers_found rtrancl.rtrancl_refl)
  next
    case 2
    then have "reaches_fuel (Suc fuel) edges start target visited = Return (False, visited)"
      by simp
    then show ?thesis using 2(2) by (simp only: deps.answers_missed deps.explored_refl)
  next
    case 3
    have less: "card (N - set (visited @ [start])) < fuel"
    proof -
      have "N - set (visited @ [start]) \<subset> N - set visited" using Suc.prems(1) 3(2) by auto
      then have "card (N - set (visited @ [start])) < card (N - set visited)"
        by (rule psubset_card_mono [OF finite_Diff [OF N(1)]])
      with Suc.prems(2) show ?thesis by simp
    qed
    have mono: "card (N - E) < fuel" if "card (N - D) < fuel" "D \<subseteq> E" for D E
    proof -
      have "N - E \<subseteq> N - D" using that(2) by blast
      then have "card (N - E) \<le> card (N - D)" by (rule card_mono [OF finite_Diff [OF N(1)]])
      with that(1) show ?thesis by simp
    qed
    have step: "deps.answers edges target D (de_blocked_id x) (?f D x)"
      if "x \<in> set ?es" "card (N - set D) < fuel" for D x
      using that N(2) by (intro Suc.IH) auto
    have "\<exists>b E. any_run ?f (visited @ [start]) ?es = Return (b, E) \<and>
      (if b then \<exists>x \<in> set ?es. (de_blocked_id x, target) \<in> (deps.arcs edges)\<^sup>*
       else deps.explored edges target (set (visited @ [start])) (set E)
         \<and> de_blocked_id ` set ?es \<subseteq> set E)"
      by (rule deps.any_run_answers [where P = "\<lambda>D. card (N - D) < fuel"],
          erule (1) step, erule (1) mono, rule less)
    then obtain b E where r: "any_run ?f (visited @ [start]) ?es = Return (b, E)"
      and ans: "if b then \<exists>x \<in> set ?es. (de_blocked_id x, target) \<in> (deps.arcs edges)\<^sup>*
        else deps.explored edges target (set (visited @ [start])) (set E)
          \<and> de_blocked_id ` set ?es \<subseteq> set E" by blast
    have res: "reaches_fuel (Suc fuel) edges start target visited = Return (b, E)"
      using 3 r by simp
    show ?thesis
    proof (cases b)
      case True
      then obtain x where "x \<in> set ?es" "(de_blocked_id x, target) \<in> (deps.arcs edges)\<^sup>*"
        using ans by auto
      then have "(start, target) \<in> (deps.arcs edges)\<^sup>*"
        by (intro converse_rtrancl_into_rtrancl [of start "de_blocked_id x"])
          (auto simp: deps_arcs dep_arcs_def)
      with True show ?thesis unfolding res by (simp add: deps.answers_found)
    next
      case False
      then have ex: "deps.explored edges target (insert start (set visited)) (set E)"
        and out: "set (dep_succs edges start) \<subseteq> set E"
        using ans by (simp_all add: dep_succs_def)
      have "deps.explored edges target (set visited) (set E)"
        by (rule deps.explored_node [OF ex out 3(1)])
      moreover have "start \<in> set E" using ex by (simp add: deps.explored_def)
      ultimately show ?thesis unfolding res using False by (simp add: deps.answers_missed)
    qed
  qed
qed simp

lemma reaches_correct:
  "\<exists>visited. reaches edges start target =
     Return ((start, target) \<in> (dep_arcs edges)\<^sup>*, visited)"
proof -
  let ?N = "insert start (de_blocked_id ` set edges)"
  have "card ?N \<le> Suc (length edges)"
    by (metis card_insert_le_m1 card_image_le card_length finite_set le_trans Suc_le_mono
        card_insert_if finite_imageI le_Suc_eq)
  then have "card (?N - set []) < length edges + 2" by simp
  then have "deps.answers edges target [] start (reaches edges start target)"
    unfolding reaches_def by (intro reaches_fuel_answers [where N = ?N]) auto
  then obtain b E where r: "reaches edges start target = Return (b, E)"
    and ans: "if b then (start, target) \<in> (deps.arcs edges)\<^sup>*
       else deps.explored edges target {} (set E) \<and> start \<in> set E"
    unfolding deps.answers_def list.set(1) by blast
  have "b \<longleftrightarrow> (start, target) \<in> (dep_arcs edges)\<^sup>*"
    using ans deps.explored_unreachable [of edges target "set E" start]
    by (auto simp: deps_arcs split: if_splits)
  with r show ?thesis by blast
qed

section \<open>Validation of the edges\<close>

definition edge_known :: "WorkItem list \<Rightarrow> DependencyEdge \<Rightarrow> bool" where
  "edge_known items d \<longleftrightarrow> (\<exists>a b. find_item items (de_blocker_id d) = Some a
     \<and> find_item items (de_blocked_id d) = Some b \<and> wi_project_id a = wi_project_id b)"

lemma find_item_id: "find_item items i = Some w \<Longrightarrow> wi_id w = i \<and> w \<in> set items"
  by (auto simp: find_item_def find_Some_iff)

text \<open>One edge: the check returns, accepts exactly the good edges, and blames a cycle only for one.\<close>

lemma validate_dependency_edge_correct:
  "\<exists>r. validate_dependency_edge items edges d = Return r
     \<and> (r = Inr () \<longleftrightarrow> edge_known items d \<and> (de_blocked_id d, de_blocker_id d) \<notin> (dep_arcs edges)\<^sup>*)
     \<and> (\<forall>a b. r = Inl (DependencyCycle a b) \<longrightarrow>
          a = de_blocker_id d \<and> b = de_blocked_id d \<and> (b, a) \<in> (dep_arcs edges)\<^sup>*)"
proof (cases "find_item items (de_blocker_id d)")
  case None
  then show ?thesis by (simp add: validate_dependency_edge_def edge_known_def)
next
  case (Some a)
  note a = this find_item_id [OF this]
  show ?thesis
  proof (cases "find_item items (de_blocked_id d)")
    case None
    with a show ?thesis by (simp add: validate_dependency_edge_def edge_known_def)
  next
    case (Some b)
    note b = this find_item_id [OF this]
    obtain v where "reaches edges (de_blocked_id d) (de_blocker_id d)
        = Return ((de_blocked_id d, de_blocker_id d) \<in> (dep_arcs edges)\<^sup>*, v)"
      using reaches_correct by blast
    with a b show ?thesis
      by (simp add: validate_dependency_edge_def edge_known_def)
  qed
qed

lemma validate_each_edge_correct:
  "\<exists>r. validate_each_edge items edges ds = Return r
     \<and> (r = Inr () \<longleftrightarrow> (\<forall>d \<in> set ds. edge_known items d
          \<and> (de_blocked_id d, de_blocker_id d) \<notin> (dep_arcs edges)\<^sup>*))
     \<and> (\<forall>a b. r = Inl (DependencyCycle a b) \<longrightarrow> (\<exists>d \<in> set ds.
          a = de_blocker_id d \<and> b = de_blocked_id d \<and> (b, a) \<in> (dep_arcs edges)\<^sup>*))"
proof (induction ds)
  case (Cons d ds)
  obtain r where "validate_dependency_edge items edges d = Return r"
    and "r = Inr () \<longleftrightarrow> edge_known items d \<and> (de_blocked_id d, de_blocker_id d) \<notin> (dep_arcs edges)\<^sup>*"
    and "\<forall>a b. r = Inl (DependencyCycle a b) \<longrightarrow>
          a = de_blocker_id d \<and> b = de_blocked_id d \<and> (b, a) \<in> (dep_arcs edges)\<^sup>*"
    using validate_dependency_edge_correct by blast
  with Cons.IH show ?case by (cases r) auto
qed simp

lemma acyclic_dep_arcs_iff:
  "acyclic (dep_arcs edges) \<longleftrightarrow>
     (\<forall>d \<in> set edges. (de_blocked_id d, de_blocker_id d) \<notin> (dep_arcs edges)\<^sup>*)"
proof -
  have arc: "(de_blocker_id d, de_blocked_id d) \<in> dep_arcs edges" if "d \<in> set edges" for d
    using that by (auto simp: dep_arcs_def)
  have "(de_blocked_id d, de_blocker_id d) \<notin> (dep_arcs edges)\<^sup>*"
    if "acyclic (dep_arcs edges)" "d \<in> set edges" for d
  proof
    assume "(de_blocked_id d, de_blocker_id d) \<in> (dep_arcs edges)\<^sup>*"
    with arc [OF that(2)] have "(de_blocker_id d, de_blocker_id d) \<in> (dep_arcs edges)\<^sup>+"
      by (rule rtrancl_into_trancl2)
    with that(1) show False by (simp add: acyclic_def)
  qed
  moreover have "\<exists>d \<in> set edges. (de_blocked_id d, de_blocker_id d) \<in> (dep_arcs edges)\<^sup>*"
    if cyc: "\<not> acyclic (dep_arcs edges)"
  proof -
    obtain x where "(x, x) \<in> (dep_arcs edges)\<^sup>+" using cyc by (auto simp: acyclic_def)
    then obtain y where "(x, y) \<in> dep_arcs edges" "(y, x) \<in> (dep_arcs edges)\<^sup>*" by (metis tranclD)
    then show ?thesis by (auto simp: dep_arcs_def)
  qed
  ultimately show ?thesis by blast
qed

section \<open>The shape of a validated hierarchy\<close>

definition parent_of :: "WorkItem list \<Rightarrow> WorkItem \<Rightarrow> WorkItem option" where
  "parent_of items c = Option.bind (wi_parent_id c) (find_item items)"

text \<open>
  A milestone is a root; a sprint hangs under a root milestone of its project; a task is a root or
  hangs under such a sprint of its project.
\<close>

definition is_root_milestone :: "WorkItem \<Rightarrow> bool" where
  "is_root_milestone m \<longleftrightarrow> wi_kind m = Milestone \<and> wi_parent_id m = None"

definition is_placed_sprint :: "WorkItem list \<Rightarrow> WorkItem \<Rightarrow> bool" where
  "is_placed_sprint items s \<longleftrightarrow> wi_kind s = Sprint \<and> (\<exists>m. parent_of items s = Some m
     \<and> is_root_milestone m \<and> wi_project_id m = wi_project_id s)"

definition is_placed_task :: "WorkItem list \<Rightarrow> WorkItem \<Rightarrow> bool" where
  "is_placed_task items t \<longleftrightarrow> wi_kind t = Task \<and> (wi_parent_id t = None \<or>
     (\<exists>s. parent_of items t = Some s \<and> is_placed_sprint items s
        \<and> wi_project_id s = wi_project_id t))"

definition placed :: "WorkItem list \<Rightarrow> WorkItem \<Rightarrow> bool" where
  "placed items c \<longleftrightarrow> is_root_milestone c \<or> is_placed_sprint items c \<or> is_placed_task items c"

lemma validate_child_iff:
  "validate_child items c = Inr () \<longleftrightarrow>
     (case wi_parent_id c of
        None \<Rightarrow> wi_kind c \<in> {Milestone, Task}
      | Some i \<Rightarrow> (\<exists>p. find_item items i = Some p \<and> wi_project_id c = wi_project_id p
          \<and> (wi_kind p, wi_kind c) \<in> {(Milestone, Sprint), (Sprint, Task)}))"
  by (auto simp: validate_child_def validate_parent_def split: option.splits)

lemma placed_validates: "placed items c \<Longrightarrow> validate_child items c = Inr ()"
  by (auto simp: placed_def is_root_milestone_def is_placed_sprint_def is_placed_task_def
      parent_of_def validate_child_iff bind_eq_Some_conv split: option.splits)

lemma validated_milestone:
  "validate_child items c = Inr () \<Longrightarrow> wi_kind c = Milestone \<Longrightarrow> is_root_milestone c"
  by (auto simp: validate_child_iff is_root_milestone_def split: option.splits)

lemma validated_sprint:
  assumes "\<forall>c \<in> set items. validate_child items c = Inr ()" "c \<in> set items" "wi_kind c = Sprint"
  shows "is_placed_sprint items c"
proof -
  obtain i p where p: "wi_parent_id c = Some i" "find_item items i = Some p"
    "wi_project_id c = wi_project_id p" "wi_kind p = Milestone"
    using assms(1) [rule_format, OF assms(2)] assms(3)
    by (auto simp: validate_child_iff split: option.splits)
  then have "is_root_milestone p"
    using assms(1) find_item_id [OF p(2)] by (intro validated_milestone) auto
  with p assms(3) show ?thesis by (auto simp: is_placed_sprint_def parent_of_def)
qed

lemma validated_placed:
  assumes all: "\<forall>c \<in> set items. validate_child items c = Inr ()" and c: "c \<in> set items"
  shows "placed items c"
proof (cases "wi_kind c")
  case Milestone
  with validated_milestone [OF all [rule_format, OF c]] show ?thesis by (simp add: placed_def)
next
  case Sprint
  with validated_sprint [OF all c] show ?thesis by (simp add: placed_def)
next
  case Task
  note ok = all [rule_format, OF c, unfolded validate_child_iff]
  show ?thesis
  proof (cases "wi_parent_id c")
    case None
    with Task show ?thesis by (simp add: placed_def is_placed_task_def)
  next
    case (Some i)
    then obtain p where p: "find_item items i = Some p" "wi_project_id c = wi_project_id p"
      "wi_kind p = Sprint"
      using ok Task by auto
    then have "is_placed_sprint items p"
      using find_item_id [OF p(1)] by (intro validated_sprint [OF all]) auto
    with p Some Task show ?thesis by (auto simp: placed_def is_placed_task_def parent_of_def)
  qed
qed

section \<open>Counting statuses\<close>

fun rc_of :: "DerivedStatus \<Rightarrow> RollupCounts \<Rightarrow> nat" where
  "rc_of DerivedStatus.Draft c = rc_draft c"
| "rc_of Queued c = rc_queued c"
| "rc_of Ready c = rc_ready c"
| "rc_of DerivedStatus.Claimed c = rc_claimed c"
| "rc_of InProgress c = rc_in_progress c"
| "rc_of NeedsVerification c = rc_needs_verification c"
| "rc_of AwaitingReview c = rc_awaiting_review c"
| "rc_of Complete c = rc_complete c"
| "rc_of DerivedStatus.Closed c = rc_closed c"
| "rc_of Blocked c = rc_blocked c"
| "rc_of DerivedStatus.Paused c = rc_paused c"
| "rc_of RetryWait c = rc_retry_wait c"
| "rc_of Scheduled c = rc_scheduled c"
| "rc_of ExpiredReview c = rc_expired_review c"
| "rc_of DerivedStatus.Cancelled c = rc_cancelled c"

definition all_statuses :: "DerivedStatus list" where
  "all_statuses = [DerivedStatus.Draft, Queued, Ready, DerivedStatus.Claimed, InProgress,
     NeedsVerification, AwaitingReview, Complete, DerivedStatus.Closed, Blocked,
     DerivedStatus.Paused, RetryWait, Scheduled, ExpiredReview, DerivedStatus.Cancelled]"

lemma rc_of_record: "rc_of s (rollup_record c t) = rc_of s c + (if s = t then 1 else 0)"
  by (cases t; cases s) (simp_all add: rollup_record_def)

lemma rc_total_record: "rc_total (rollup_record c t) = rc_total c + 1"
  by (cases t) (simp_all add: rollup_record_def)

lemma rc_foldl:
  "rc_of s (foldl (\<lambda>c d. rollup_record c (sd_display_status d)) c ds)
     = rc_of s c + length (filter (\<lambda>d. sd_display_status d = s) ds)
   \<and> rc_total (foldl (\<lambda>c d. rollup_record c (sd_display_status d)) c ds) = rc_total c + length ds"
  by (induction ds arbitrary: c) (auto simp: rc_of_record rc_total_record)

lemma rc_of_default: "rc_of s rollup_counts_default = 0 \<and> rc_total rollup_counts_default = 0"
  by (cases s) (simp_all add: rollup_counts_default_def)

lemma sum_all_statuses:
  "(\<Sum>s\<leftarrow>all_statuses. length (filter (\<lambda>d. sd_display_status d = s) ds)) = length ds"
proof (induction ds)
  case (Cons d ds)
  then show ?case by (cases "sd_display_status d") (simp_all add: all_statuses_def)
qed (simp add: all_statuses_def)

section \<open>Properties\<close>

text \<open>C12: The recursive dependency check always returns (the fuel \<open>length edges + 2\<close> is never exhausted),
  accepts exactly the edge lists whose endpoints exist, lie in one project per edge and form an
  acyclic graph, and when it reports a cycle the named edge lies on one.\<close>

theorem dependency_edges_valid:
  "\<exists>r. validate_dependency_edges items edges = Return r
     \<and> (r = Inr () \<longleftrightarrow> (\<forall>d \<in> set edges. edge_known items d) \<and> acyclic (dep_arcs edges))
     \<and> (\<forall>a b. r = Inl (DependencyCycle a b) \<longrightarrow>
          (a, b) \<in> dep_arcs edges \<and> (b, a) \<in> (dep_arcs edges)\<^sup>*)"
proof -
  obtain r where "validate_dependency_edges items edges = Return r"
    and ok: "r = Inr () \<longleftrightarrow> (\<forall>d \<in> set edges. edge_known items d
          \<and> (de_blocked_id d, de_blocker_id d) \<notin> (dep_arcs edges)\<^sup>*)"
    and err: "\<forall>a b. r = Inl (DependencyCycle a b) \<longrightarrow> (\<exists>d \<in> set edges.
          a = de_blocker_id d \<and> b = de_blocked_id d \<and> (b, a) \<in> (dep_arcs edges)\<^sup>*)"
    unfolding validate_dependency_edges_def using validate_each_edge_correct by blast
  moreover have "(a, b) \<in> dep_arcs edges \<and> (b, a) \<in> (dep_arcs edges)\<^sup>*"
    if "r = Inl (DependencyCycle a b)" for a b
    using err that by (auto simp: dep_arcs_def)
  ultimately show ?thesis unfolding acyclic_dep_arcs_iff by blast
qed

theorem dependency_edges_valid_witness:
  "\<exists>items. let i = (\<lambda>n. Ident n); e = (\<lambda>a b. close_only (i a) (i b)) in
     validate_dependency_edges items [e ''a'' ''b'', e ''b'' ''c'', e ''a'' ''c''] = Return (Inr ())
     \<and> acyclic (dep_arcs [e ''a'' ''b'', e ''b'' ''c'', e ''a'' ''c''])
     \<and> validate_dependency_edges items [e ''a'' ''b'', e ''b'' ''c'', e ''c'' ''a'']
         = Return (Inl (DependencyCycle (i ''a'') (i ''b'')))"
proof -
  let ?t = "\<lambda>n. work_item_new (Ident ''p'') (Ident n) Task None n"
  let ?e = "\<lambda>a b. close_only (Ident a) (Ident b)"
  let ?items = "[?t ''a'', ?t ''b'', ?t ''c'']"
  let ?es = "[?e ''a'' ''b'', ?e ''b'' ''c'', ?e ''a'' ''c'']"
  have ok: "validate_dependency_edges ?items ?es = Return (Inr ())" by code_simp
  have bad: "validate_dependency_edges ?items [?e ''a'' ''b'', ?e ''b'' ''c'', ?e ''c'' ''a'']
      = Return (Inl (DependencyCycle (Ident ''a'') (Ident ''b'')))" by code_simp
  have "acyclic (dep_arcs ?es)" using dependency_edges_valid [of ?items ?es] ok by auto
  with ok bad show ?thesis unfolding Let_def by blast
qed

text \<open>A validated hierarchy has exactly the documented shape: every milestone is a root, every
  sprint hangs under a root milestone of its project, and every task is a root or hangs under
  such a sprint of its project.  So containment is acyclic and at most three levels deep.\<close>

theorem hierarchy_shape:
  "validate_hierarchy items = Inr () \<longleftrightarrow> (\<forall>c \<in> set items. placed items c)"
  unfolding validate_hierarchy_def try_fold_check
  using validated_placed placed_validates by blast

theorem hierarchy_shape_witness:
  "\<exists>items t. t \<in> set items \<and> wi_kind t = Task \<and> wi_parent_id t = Some (Ident ''s'')
     \<and> validate_hierarchy items = Inr () \<and> placed items t"
proof -
  let ?w = "\<lambda>n k p. work_item_new (Ident ''p'') (Ident n) k p n"
  let ?t = "?w ''t'' Task (Some (Ident ''s''))"
  let ?items = "[?t, ?w ''s'' Sprint (Some (Ident ''m'')), ?w ''m'' Milestone None, ?w ''r'' Task None]"
  have v: "validate_hierarchy ?items = Inr ()" by code_simp
  then have "\<forall>c \<in> set ?items. placed ?items c" by (rule iffD1 [OF hierarchy_shape])
  then have "placed ?items ?t" by simp
  with v show ?thesis
    by (intro exI [of _ ?items] exI [of _ ?t]) (simp add: work_item_new_def)
qed

text \<open>The roll-up counts are exact: the total is the number of rows, each status counter is the
  number of rows showing that status, and the fifteen counters add up to the total.\<close>

theorem rollup_counts_exact:
  "rc_total (evaluate_rollup ds) = length ds
   \<and> (\<forall>s. rc_of s (evaluate_rollup ds) = length (filter (\<lambda>d. sd_display_status d = s) ds))
   \<and> (\<Sum>s\<leftarrow>all_statuses. rc_of s (evaluate_rollup ds)) = rc_total (evaluate_rollup ds)"
  unfolding evaluate_rollup_def by (simp add: rc_foldl rc_of_default sum_all_statuses)

end
