(* ===== verification/Ordered_Map.thy ===== *)
theory Ordered_Map
  imports Prelude
begin

text \<open>
  Rust's \<open>BTreeMap\<close> and \<open>BTreeSet\<close> as the sources use them: lookup, insertion (which returns the
  previous value), removal, and iteration in key order.  The locale states the laws the clients
  rely on; the model keeps a map as its entries in key order and interprets the locale.
\<close>

section \<open>The interface\<close>

locale ordered_map =
  fixes empty :: "'m"
    and put :: "'k::linorder \<Rightarrow> 'v \<Rightarrow> 'm \<Rightarrow> 'm"
    and lookup :: "'m \<Rightarrow> 'k \<Rightarrow> 'v option"
    and keys :: "'m \<Rightarrow> 'k list"
    and invar :: "'m \<Rightarrow> bool"
  assumes lookup_empty: "lookup empty k = None"
    and lookup_put: "invar m \<Longrightarrow> lookup (put k v m) j = (if j = k then Some v else lookup m j)"
    and set_keys: "invar m \<Longrightarrow> set (keys m) = dom (lookup m)"
    and sorted_keys: "invar m \<Longrightarrow> sorted (keys m) \<and> distinct (keys m)"
    and invar_empty: "invar empty"
    and invar_put: "invar m \<Longrightarrow> invar (put k v m)"
begin

lemma dom_put: "invar m \<Longrightarrow> dom (lookup (put k v m)) = insert k (dom (lookup m))"
  by (auto simp: lookup_put dom_def)

lemma set_keys_put: "invar m \<Longrightarrow> set (keys (put k v m)) = insert k (set (keys m))"
  by (simp add: set_keys invar_put dom_put)

lemma finite_dom: "invar m \<Longrightarrow> finite (dom (lookup m))"
  using set_keys by (metis finite_set)

text \<open>Iteration order is determined by the set of keys alone.\<close>

lemma keys_eqI: "invar m \<Longrightarrow> invar n \<Longrightarrow> dom (lookup m) = dom (lookup n) \<Longrightarrow> keys m = keys n"
  by (rule sorted_distinct_set_unique) (simp_all add: sorted_keys set_keys)

lemma length_keys: "invar m \<Longrightarrow> length (keys m) = card (dom (lookup m))"
  using sorted_keys set_keys distinct_card by metis

text \<open>Building an index by inserting every element of a list: the last element with a key wins.\<close>

lemma invar_fold_put: "invar m \<Longrightarrow> invar (fold (\<lambda>x. put (f x) (g x)) xs m)"
  by (induction xs arbitrary: m) (simp_all add: invar_put)

lemma dom_fold_put:
  "invar m \<Longrightarrow> dom (lookup (fold (\<lambda>x. put (f x) (g x)) xs m)) = f ` set xs \<union> dom (lookup m)"
  by (induction xs arbitrary: m) (auto simp: invar_put dom_put)

lemma lookup_fold_put_notin:
  "invar m \<Longrightarrow> k \<notin> f ` set xs \<Longrightarrow> lookup (fold (\<lambda>x. put (f x) (g x)) xs m) k = lookup m k"
  by (induction xs arbitrary: m) (auto simp: invar_put lookup_put)

lemma lookup_fold_put_distinct:
  "invar m \<Longrightarrow> distinct (map f xs) \<Longrightarrow> x \<in> set xs \<Longrightarrow>
     lookup (fold (\<lambda>x. put (f x) (g x)) xs m) (f x) = Some (g x)"
proof (induction xs arbitrary: m)
  case (Cons y ys)
  show ?case
  proof (cases "x = y")
    case True
    with Cons.prems show ?thesis
      by (simp add: lookup_fold_put_notin invar_put lookup_put)
  next
    case False
    with Cons show ?thesis by (simp add: invar_put)
  qed
qed simp

end

section \<open>The model: entries in key order\<close>

type_synonym ('k, 'v) btree_map = "('k \<times> 'v) list"

primrec bt_insert :: "'k::linorder \<Rightarrow> 'v \<Rightarrow> ('k, 'v) btree_map \<Rightarrow> ('k, 'v) btree_map" where
  "bt_insert k v [] = [(k, v)]"
| "bt_insert k v (e # m) =
     (if k < fst e then (k, v) # e # m
      else if k = fst e then (k, v) # m
      else e # bt_insert k v m)"

definition bt_get :: "('k, 'v) btree_map \<Rightarrow> 'k \<Rightarrow> 'v option" where
  "bt_get m k = map_of m k"

definition bt_keys :: "('k, 'v) btree_map \<Rightarrow> 'k list" where
  "bt_keys m = map fst m"

definition bt_contains :: "('k, 'v) btree_map \<Rightarrow> 'k \<Rightarrow> bool" where
  "bt_contains m k \<longleftrightarrow> bt_get m k \<noteq> None"

definition bt_remove :: "'k \<Rightarrow> ('k, 'v) btree_map \<Rightarrow> ('k, 'v) btree_map" where
  "bt_remove k m = filter (\<lambda>e. fst e \<noteq> k) m"

definition bt_wf :: "('k::linorder, 'v) btree_map \<Rightarrow> bool" where
  "bt_wf m \<longleftrightarrow> sorted (map fst m) \<and> distinct (map fst m)"

lemma bt_wf_Nil [simp]: "bt_wf []"
  by (simp add: bt_wf_def)

lemma bt_wf_Cons: "bt_wf (e # m) \<longleftrightarrow> (\<forall>k \<in> set (map fst m). fst e < k) \<and> bt_wf m"
  by (auto simp: bt_wf_def less_le)

lemma set_bt_insert_keys: "fst ` set (bt_insert k v m) = insert k (fst ` set m)"
  by (induction m) auto

lemma bt_wf_insert [simp]: "bt_wf m \<Longrightarrow> bt_wf (bt_insert k v m)"
proof (induction m)
  case (Cons e m)
  then show ?case
    by (cases "k < fst e"; cases "k = fst e") (auto simp: bt_wf_Cons set_bt_insert_keys)
qed (simp add: bt_wf_Cons)

lemma bt_get_insert: "bt_wf m \<Longrightarrow> bt_get (bt_insert k v m) j = (if j = k then Some v else bt_get m j)"
  by (induction m) (auto simp: bt_wf_Cons bt_get_def)

lemma bt_get_Nil [simp]: "bt_get [] k = None"
  by (simp add: bt_get_def)

lemma set_bt_keys: "set (bt_keys m) = dom (bt_get m)"
  by (simp add: bt_keys_def dom_map_of_conv_image_fst bt_get_def [abs_def])

interpretation bt: ordered_map "[] :: ('k::linorder, 'v) btree_map" bt_insert bt_get bt_keys bt_wf
  by unfold_locales (simp_all add: bt_get_insert set_bt_keys, simp add: bt_wf_def bt_keys_def)

lemma bt_contains_insert:
  "bt_wf m \<Longrightarrow> bt_contains (bt_insert k v m) j \<longleftrightarrow> j = k \<or> bt_contains m j"
  by (simp add: bt_contains_def bt_get_insert)

lemma bt_contains_Nil [simp]: "\<not> bt_contains [] k"
  by (simp add: bt_contains_def)

lemma bt_contains_iff_dom: "bt_contains m k \<longleftrightarrow> k \<in> dom (bt_get m)"
  by (simp add: bt_contains_def dom_def)

lemma bt_get_in_set: "bt_wf m \<Longrightarrow> (k, v) \<in> set m \<longleftrightarrow> bt_get m k = Some v"
  by (simp add: bt_get_def bt_wf_def)

lemma bt_get_remove: "bt_get (bt_remove k m) j = (if j = k then None else bt_get m j)"
  by (induction m) (auto simp: bt_get_def bt_remove_def)

lemma bt_wf_remove [simp]: "bt_wf m \<Longrightarrow> bt_wf (bt_remove k m)"
  by (induction m) (auto simp: bt_wf_Cons bt_remove_def)

section \<open>Sets\<close>

text \<open>A \<open>BTreeSet\<close> is a map to unit; \<open>insert\<close> tells whether the value was new.\<close>

type_synonym 'k btree_set = "('k, unit) btree_map"

abbreviation bs_insert :: "'k::linorder \<Rightarrow> 'k btree_set \<Rightarrow> 'k btree_set" where
  "bs_insert k s \<equiv> bt_insert k () s"

definition bs_elems :: "'k btree_set \<Rightarrow> 'k set" where
  "bs_elems s = dom (bt_get s)"

lemma bs_elems_Nil [simp]: "bs_elems [] = {}"
  by (simp add: bs_elems_def dom_def)

lemma bs_elems_insert [simp]: "bt_wf s \<Longrightarrow> bs_elems (bs_insert k s) = insert k (bs_elems s)"
  by (simp add: bs_elems_def bt.dom_put)

lemma bt_contains_bs: "bt_contains s k \<longleftrightarrow> k \<in> bs_elems s"
  by (simp add: bs_elems_def bt_contains_iff_dom)

lemma bt_keys_bs: "set (bt_keys s) = bs_elems s"
  by (simp add: bs_elems_def set_bt_keys)

lemma bt_keys_bs_sorted: "bt_wf s \<Longrightarrow> bt_keys s = sort_dedup (bt_keys s)"
  by (rule sort_dedup_unique [symmetric]) (simp_all add: bt.sorted_keys)

end
