(* ===== verification/Dep_Graph.thy ===== *)
theory Dep_Graph
  imports Work_Items Ordered_Map
begin

text \<open>
  The executable dependency graph of \<open>crates/domain/src/dependencies.rs\<close>: canonicalisation and
  validation of endpoints and edges (\<open>validate_dependency_graph\<close>) and the depth-first cycle search
  with its explicit path (\<open>find_cycle\<close>, \<open>visit_cycle\<close>).  The recursion is bounded by fuel and the
  source's \<open>expect\<close> and slice accesses are \<open>Panic\<close>; the lemmas show that neither happens.
  The edge type is called \<open>GraphEdge\<close> because the crate root has a \<open>DependencyEdge\<close> too.
\<close>

section \<open>Types\<close>

datatype DependencyEndpointKind = DirectTask | Milestone | ContainerTask | CompatibilitySprint

primrec endpoint_kind_index :: "DependencyEndpointKind \<Rightarrow> nat" where
  "endpoint_kind_index DirectTask = 0"
| "endpoint_kind_index DependencyEndpointKind.Milestone = 1"
| "endpoint_kind_index ContainerTask = 2"
| "endpoint_kind_index CompatibilitySprint = 3"

record DependencyEndpoint =
  dep_project_id :: ProjectId
  dep_work_id :: WorkId
  dep_kind :: DependencyEndpointKind

definition direct_task :: "ProjectId \<Rightarrow> WorkId \<Rightarrow> DependencyEndpoint" where
  "direct_task project_id work_id =
     \<lparr>dep_project_id = project_id, dep_work_id = work_id, dep_kind = DirectTask\<rparr>"

definition endpoint_new ::
  "ProjectId \<Rightarrow> WorkId \<Rightarrow> DependencyEndpointKind \<Rightarrow> DependencyEndpoint" where
  "endpoint_new project_id work_id kind =
     \<lparr>dep_project_id = project_id, dep_work_id = work_id, dep_kind = kind\<rparr>"

text \<open>The derived order of an endpoint compares its fields in the order they are declared.\<close>

definition endpoint_key :: "DependencyEndpoint \<Rightarrow> ProjectId \<times> WorkId \<times> nat" where
  "endpoint_key n = (dep_project_id n, dep_work_id n, endpoint_kind_index (dep_kind n))"

record GraphEdge =
  ge_id :: DependencyId
  ge_project_id :: ProjectId
  ge_predecessor :: WorkId
  ge_successor :: WorkId
  ge_policy :: DependencyPolicy
  ge_revision :: EntityRevision

definition closed_only ::
  "DependencyId \<Rightarrow> ProjectId \<Rightarrow> WorkId \<Rightarrow> WorkId \<Rightarrow> EntityRevision \<Rightarrow> GraphEdge" where
  "closed_only i project_id predecessor successor revision =
     \<lparr>ge_id = i, ge_project_id = project_id, ge_predecessor = predecessor,
      ge_successor = successor, ge_policy = ClosedOnly, ge_revision = revision\<rparr>"

text \<open>\<open>edge_order\<close> compares these five fields in turn.\<close>

definition edge_order ::
  "GraphEdge \<Rightarrow> DependencyId \<times> WorkId \<times> WorkId \<times> ProjectId \<times> EntityRevision" where
  "edge_order e = (ge_id e, ge_predecessor e, ge_successor e, ge_project_id e, ge_revision e)"

record DependencyGraph =
  dg_project_id :: ProjectId
  dg_nodes :: "DependencyEndpoint list"
  dg_edges :: "GraphEdge list"

definition graph_edge :: "DependencyGraph \<Rightarrow> DependencyId \<Rightarrow> GraphEdge option" where
  "graph_edge g i = find (\<lambda>edge. ge_id edge = i) (dg_edges g)"

definition has_work :: "DependencyGraph \<Rightarrow> WorkId \<Rightarrow> bool" where
  "has_work g i = list_ex (\<lambda>node. dep_work_id node = i) (dg_nodes g)"

definition outgoing :: "DependencyGraph \<Rightarrow> WorkId \<Rightarrow> GraphEdge list" where
  "outgoing g predecessor = filter (\<lambda>edge. ge_predecessor edge = predecessor) (dg_edges g)"

datatype DependencyGraphError =
    DuplicateNode WorkId
  | NodeProjectScopeMismatch WorkId ProjectId ProjectId
  | EdgeProjectScopeMismatch DependencyId ProjectId ProjectId
  | DuplicateEdge DependencyId
  | MissingEndpoint DependencyId WorkId
  | EndpointNotDirect DependencyId WorkId DependencyEndpointKind
  | DuplicateEndpoints WorkId WorkId DependencyId DependencyId
  | SelfDependency DependencyId WorkId
  | DependencyCycle "WorkId list" "DependencyId list"

fun graph_error_code :: "DependencyGraphError \<Rightarrow> string" where
  "graph_error_code (DuplicateNode _) = ''duplicate_dependency_node''"
| "graph_error_code (NodeProjectScopeMismatch _ _ _) = ''cross_project_dependency''"
| "graph_error_code (EdgeProjectScopeMismatch _ _ _) = ''cross_project_dependency''"
| "graph_error_code (DuplicateEdge _) = ''duplicate_dependency''"
| "graph_error_code (DuplicateEndpoints _ _ _ _) = ''duplicate_dependency''"
| "graph_error_code (MissingEndpoint _ _) = ''missing_dependency_endpoint''"
| "graph_error_code (EndpointNotDirect _ _ _) = ''dependency_endpoint_not_direct''"
| "graph_error_code (SelfDependency _ _) = ''dependency_self_edge''"
| "graph_error_code (DependencyGraphError.DependencyCycle _ _) = ''dependency_cycle''"

section \<open>The cycle search\<close>

datatype VisitState = Visiting | Done

type_synonym cycle = "WorkId list \<times> DependencyId list"

type_synonym adjacency = "(WorkId, GraphEdge list) btree_map"

record CycleSearch =
  cs_states :: "(WorkId, VisitState) btree_map"
  cs_path_nodes :: "WorkId list"
  cs_path_edges :: "DependencyId list"

definition push_edge :: "adjacency \<Rightarrow> GraphEdge \<Rightarrow> adjacency" where
  "push_edge m e =
     bt_insert (ge_predecessor e) (case_option [] id (bt_get m (ge_predecessor e)) @ [e]) m"

definition adjacency_of :: "GraphEdge list \<Rightarrow> adjacency" where
  "adjacency_of edges = map (map_prod id (sort_key edge_order)) (foldl push_edge [] edges)"

text \<open>The cycle found at an edge back to a node of the path; a slice past the end panics.\<close>

definition close_cycle :: "CycleSearch \<Rightarrow> GraphEdge \<Rightarrow> (cycle option \<times> CycleSearch) run" where
  "close_cycle s e =
     (case position (\<lambda>w. w = ge_successor e) (cs_path_nodes s) of
        None \<Rightarrow> Panic
      | Some start \<Rightarrow>
          if length (cs_path_edges s) < start then Panic
          else Return (Some (drop start (cs_path_nodes s) @ [ge_successor e],
                             drop start (cs_path_edges s) @ [ge_id e]), s))"

text \<open>The loop body of \<open>visit_cycle\<close>; \<open>visit\<close> is the recursive call.\<close>

definition visit_edge ::
  "(WorkId \<Rightarrow> CycleSearch \<Rightarrow> (cycle option \<times> CycleSearch) run) \<Rightarrow> CycleSearch \<Rightarrow> GraphEdge \<Rightarrow>
     (cycle option \<times> CycleSearch) run" where
  "visit_edge visit s e =
     (case bt_get (cs_states s) (ge_successor e) of
        Some Visiting \<Rightarrow> close_cycle s e
      | Some Done \<Rightarrow> Return (None, s)
      | None \<Rightarrow>
          run_bind (visit (ge_successor e) (s\<lparr>cs_path_edges := cs_path_edges s @ [ge_id e]\<rparr>))
            (\<lambda>(found, t). case found of
               Some c \<Rightarrow> Return (Some c, t)
             | None \<Rightarrow> Return (None, t\<lparr>cs_path_edges := butlast (cs_path_edges t)\<rparr>)))"

primrec visit_cycle ::
  "nat \<Rightarrow> adjacency \<Rightarrow> WorkId \<Rightarrow> CycleSearch \<Rightarrow> (cycle option \<times> CycleSearch) run" where
  "visit_cycle 0 adjacency current s = OutOfFuel"
| "visit_cycle (Suc fuel) adjacency current s =
     run_bind
       (first_run (visit_edge (visit_cycle fuel adjacency))
          (s\<lparr>cs_states := bt_insert current Visiting (cs_states s),
             cs_path_nodes := cs_path_nodes s @ [current]\<rparr>)
          (case_option [] id (bt_get adjacency current)))
       (\<lambda>(found, t). case found of
          Some c \<Rightarrow> Return (Some c, t)
        | None \<Rightarrow> Return (None, t\<lparr>cs_path_nodes := butlast (cs_path_nodes t),
                                    cs_states := bt_insert current Done (cs_states t)\<rparr>))"

definition find_cycle ::
  "(WorkId, DependencyEndpoint) btree_map \<Rightarrow> GraphEdge list \<Rightarrow> cycle option run" where
  "find_cycle nodes edges =
     run_bind
       (first_run
          (\<lambda>s work_id.
             if bt_contains (cs_states s) work_id then Return (None, s)
             else visit_cycle (length nodes + length edges + 1) (adjacency_of edges) work_id s)
          \<lparr>cs_states = [], cs_path_nodes = [], cs_path_edges = []\<rparr>
          (bt_keys nodes))
       (\<lambda>(found, _). Return found)"

section \<open>Validation\<close>

definition node_step ::
  "ProjectId \<Rightarrow> (WorkId, DependencyEndpoint) btree_map \<Rightarrow> DependencyEndpoint \<Rightarrow>
     DependencyGraphError + (WorkId, DependencyEndpoint) btree_map" where
  "node_step project_id node_by_id node =
     (if dep_project_id node \<noteq> project_id
      then Inl (NodeProjectScopeMismatch (dep_work_id node) project_id (dep_project_id node))
      else if bt_get node_by_id (dep_work_id node) \<noteq> None
      then Inl (DuplicateNode (dep_work_id node))
      else Inr (bt_insert (dep_work_id node) node node_by_id))"

definition endpoint_direct :: "GraphEdge \<Rightarrow> DependencyEndpoint \<Rightarrow> DependencyGraphError + unit" where
  "endpoint_direct edge endpoint =
     (if dep_kind endpoint \<noteq> DirectTask
      then Inl (EndpointNotDirect (ge_id edge) (dep_work_id endpoint) (dep_kind endpoint))
      else Inr ())"

type_synonym edge_index = "DependencyId btree_set \<times> (WorkId \<times> WorkId, DependencyId) btree_map"

definition edge_step ::
  "ProjectId \<Rightarrow> (WorkId, DependencyEndpoint) btree_map \<Rightarrow> edge_index \<Rightarrow> GraphEdge \<Rightarrow>
     DependencyGraphError + edge_index" where
  "edge_step project_id node_by_id index edge =
     (if ge_project_id edge \<noteq> project_id
      then Inl (EdgeProjectScopeMismatch (ge_id edge) project_id (ge_project_id edge))
      else if bt_contains (fst index) (ge_id edge) then Inl (DuplicateEdge (ge_id edge))
      else if ge_predecessor edge = ge_successor edge
      then Inl (SelfDependency (ge_id edge) (ge_predecessor edge))
      else case bt_get node_by_id (ge_predecessor edge) of
        None \<Rightarrow> Inl (MissingEndpoint (ge_id edge) (ge_predecessor edge))
      | Some predecessor \<Rightarrow>
          (case bt_get node_by_id (ge_successor edge) of
             None \<Rightarrow> Inl (MissingEndpoint (ge_id edge) (ge_successor edge))
           | Some successor \<Rightarrow>
               (case try_fold (\<lambda>_. endpoint_direct edge) () [predecessor, successor] of
                  Inl e \<Rightarrow> Inl e
                | Inr _ \<Rightarrow>
                    (case bt_get (snd index) (ge_predecessor edge, ge_successor edge) of
                       Some first_edge \<Rightarrow>
                         Inl (DuplicateEndpoints (ge_predecessor edge) (ge_successor edge)
                                first_edge (ge_id edge))
                     | None \<Rightarrow>
                         Inr (bs_insert (ge_id edge) (fst index),
                              bt_insert (ge_predecessor edge, ge_successor edge) (ge_id edge)
                                (snd index))))))"

definition validate_dependency_graph ::
  "ProjectId \<Rightarrow> DependencyEndpoint list \<Rightarrow> GraphEdge list \<Rightarrow>
     (DependencyGraphError + DependencyGraph) run" where
  "validate_dependency_graph project_id nodes edges =
     (let canonical_nodes = sort_key endpoint_key nodes;
          canonical_edges = sort_key edge_order edges in
      case try_fold (node_step project_id) [] canonical_nodes of
        Inl e \<Rightarrow> Return (Inl e)
      | Inr node_by_id \<Rightarrow>
          (case try_fold (edge_step project_id node_by_id) ([], []) canonical_edges of
             Inl e \<Rightarrow> Return (Inl e)
           | Inr _ \<Rightarrow>
               run_bind (find_cycle node_by_id canonical_edges)
                 (\<lambda>found. case found of
                    Some (work_ids, edge_ids) \<Rightarrow>
                      Return (Inl (DependencyGraphError.DependencyCycle work_ids edge_ids))
                  | None \<Rightarrow>
                      Return (Inr \<lparr>dg_project_id = project_id, dg_nodes = canonical_nodes,
                                   dg_edges = canonical_edges\<rparr>))))"

section \<open>The search is correct\<close>

lemma foldl_push_edge:
  "bt_wf m \<Longrightarrow> bt_wf (foldl push_edge m es)
   \<and> case_option [] id (bt_get (foldl push_edge m es) u)
       = case_option [] id (bt_get m u) @ filter (\<lambda>e. ge_predecessor e = u) es"
  by (induction es arbitrary: m) (simp_all add: push_edge_def bt_get_insert)

lemma adjacency_of_get:
  "case_option [] id (bt_get (adjacency_of edges) u)
     = sort_key edge_order (filter (\<lambda>e. ge_predecessor e = u) edges)"
proof -
  have mapped: "bt_get (adjacency_of edges) u
      = map_option (sort_key edge_order) (bt_get (foldl push_edge [] edges) u)"
    by (simp add: adjacency_of_def bt_get_def map_prod_def map_of_map)
  have "case_option [] id (bt_get (foldl push_edge [] edges) u)
      = filter (\<lambda>e. ge_predecessor e = u) edges"
    using foldl_push_edge [of "[]" edges u] by simp
  then show ?thesis
    by (cases "bt_get (foldl push_edge [] edges) u") (simp_all add: mapped)
qed

definition graph_succs :: "GraphEdge list \<Rightarrow> WorkId \<Rightarrow> WorkId list" where
  "graph_succs edges u = map ge_successor (case_option [] id (bt_get (adjacency_of edges) u))"

definition graph_arcs :: "GraphEdge list \<Rightarrow> (WorkId \<times> WorkId) set" where
  "graph_arcs edges = (\<lambda>e. (ge_predecessor e, ge_successor e)) ` set edges"

interpretation gr: succ_graph "graph_succs edges" for edges .

lemma set_graph_succs:
  "set (graph_succs edges u) = ge_successor ` {e \<in> set edges. ge_predecessor e = u}"
  by (simp add: graph_succs_def adjacency_of_get)

lemma gr_arcs: "gr.arcs edges = graph_arcs edges"
  by (auto simp: gr.arcs_def graph_arcs_def set_graph_succs)

text \<open>A walk: the edges named by \<open>es\<close> join consecutive nodes of \<open>ws\<close>.\<close>

definition walk :: "GraphEdge list \<Rightarrow> WorkId list \<Rightarrow> DependencyId list \<Rightarrow> bool" where
  "walk edges ws es \<longleftrightarrow> length ws = Suc (length es) \<and> (\<forall>i < length es. \<exists>e \<in> set edges.
     ge_id e = es ! i \<and> ge_predecessor e = ws ! i \<and> ge_successor e = ws ! Suc i)"

definition genuine_cycle :: "GraphEdge list \<Rightarrow> cycle \<Rightarrow> bool" where
  "genuine_cycle edges c \<longleftrightarrow> (case c of (ws, es) \<Rightarrow>
     walk edges ws es \<and> es \<noteq> [] \<and> hd ws = last ws \<and> distinct (butlast ws))"

lemma walk_snoc:
  assumes "walk edges (ws @ [u]) es" and "e \<in> set edges" and "ge_predecessor e = u"
  shows "walk edges ((ws @ [u]) @ [ge_successor e]) (es @ [ge_id e])"
  unfolding walk_def
proof (intro conjI allI impI)
  have len: "length ws = length es" using assms(1) by (simp add: walk_def)
  then show "length ((ws @ [u]) @ [ge_successor e]) = Suc (length (es @ [ge_id e]))" by simp
  fix i assume i: "i < length (es @ [ge_id e])"
  show "\<exists>d \<in> set edges. ge_id d = (es @ [ge_id e]) ! i
      \<and> ge_predecessor d = ((ws @ [u]) @ [ge_successor e]) ! i
      \<and> ge_successor d = ((ws @ [u]) @ [ge_successor e]) ! Suc i"
  proof (cases "i < length es")
    case True
    then have "\<exists>d \<in> set edges. ge_id d = es ! i \<and> ge_predecessor d = (ws @ [u]) ! i
        \<and> ge_successor d = (ws @ [u]) ! Suc i"
      using assms(1) by (simp only: walk_def)
    with True len show ?thesis by (cases "Suc i < length es") (simp_all add: nth_append)
  next
    case False
    with i have "i = length es" by simp
    with len assms(2,3) show ?thesis by (auto simp: nth_append intro!: bexI [of _ e])
  qed
qed

lemma walk_drop:
  assumes "walk edges ws es" and "k \<le> length es"
  shows "walk edges (drop k ws) (drop k es)"
  using assms by (auto simp: walk_def)

lemma genuine_cycle_not_acyclic:
  assumes "genuine_cycle edges (ws, es)"
  shows "\<not> acyclic (graph_arcs edges)"
proof -
  have w: "walk edges ws es" "es \<noteq> []" "hd ws = last ws"
    using assms by (simp_all add: genuine_cycle_def)
  then have len: "length ws = Suc (length es)" by (simp add: walk_def)
  have arc: "(ws ! i, ws ! Suc i) \<in> gr.arcs edges" if "Suc i < length ws" for i
  proof -
    have "\<exists>e \<in> set edges. ge_id e = es ! i \<and> ge_predecessor e = ws ! i \<and> ge_successor e = ws ! Suc i"
      using w(1) that len by (simp add: walk_def)
    then show ?thesis unfolding gr_arcs graph_arcs_def by force
  qed
  have "(ws ! 0, ws ! length es) \<in> (gr.arcs edges)\<^sup>+"
    by (rule gr.walk_trancl [of ws]) (use w len in \<open>auto intro: arc\<close>)
  moreover have "ws ! 0 = ws ! length es"
    using w(3) len by (metis diff_Suc_1 hd_conv_nth last_conv_nth length_0_conv nat.distinct(1))
  ultimately show ?thesis by (auto simp: gr_arcs acyclic_def)
qed

text \<open>The search state: the path is what is being visited, and the finished nodes are \<open>D\<close>.\<close>

definition searching ::
  "GraphEdge list \<Rightarrow> WorkId list \<Rightarrow> DependencyId list \<Rightarrow> WorkId set \<Rightarrow> CycleSearch \<Rightarrow> bool" where
  "searching edges P E D s \<longleftrightarrow> cs_path_nodes s = P \<and> cs_path_edges s = E \<and> bt_wf (cs_states s)
     \<and> (\<forall>w. bt_get (cs_states s) w =
          (if w \<in> set P then Some Visiting else if w \<in> D then Some Done else None))
     \<and> set P \<inter> D = {} \<and> distinct P \<and> gr.finished edges D"

lemma close_cycle_genuine:
  assumes s: "searching edges (P @ [u]) E D s" and w: "walk edges (P @ [u]) E"
    and e: "e \<in> set edges" "ge_predecessor e = u" "ge_successor e \<in> set (P @ [u])"
  shows "\<exists>c. close_cycle s e = Return (Some c, s) \<and> genuine_cycle edges c"
proof -
  let ?p = "\<lambda>w. w = ge_successor e"
  obtain k where k: "position ?p (P @ [u]) = Some k"
    using e(3) position_None [of ?p "P @ [u]"] by (cases "position ?p (P @ [u])") auto
  note at_k = position_Some [OF k]
  have len: "length (P @ [u]) = Suc (length E)" using w by (simp add: walk_def)
  then have kE: "k \<le> length E" using at_k by simp
  let ?ws = "drop k (P @ [u])"
  have ws: "?ws = drop k P @ [u]" using kE len by simp
  have "walk edges ?ws (drop k E)" using walk_drop [OF w kE] .
  then have "walk edges (?ws @ [ge_successor e]) (drop k E @ [ge_id e])"
    using walk_snoc [of edges "drop k P" u "drop k E" e] e(1,2) unfolding ws by blast
  moreover have "hd (?ws @ [ge_successor e]) = last (?ws @ [ge_successor e])"
  proof -
    have "hd ?ws = (P @ [u]) ! k" using at_k by (intro hd_drop_conv_nth) simp
    then have "hd (drop k P @ [u]) = ge_successor e" using at_k unfolding ws by simp
    then show ?thesis unfolding ws by (cases "drop k P") simp_all
  qed
  moreover have "distinct (butlast (?ws @ [ge_successor e]))"
    using s by (simp add: searching_def del: drop_append)
  ultimately have "genuine_cycle edges (?ws @ [ge_successor e], drop k E @ [ge_id e])"
    unfolding genuine_cycle_def by simp
  moreover have "close_cycle s e = Return (Some (?ws @ [ge_successor e], drop k E @ [ge_id e]), s)"
    using s k kE by (simp add: close_cycle_def searching_def)
  ultimately show ?thesis by blast
qed

lemma searching_push:
  assumes "searching edges P E D s" and "u \<notin> set P \<union> D"
  shows "searching edges (P @ [u]) E D
    (s\<lparr>cs_states := bt_insert u Visiting (cs_states s), cs_path_nodes := cs_path_nodes s @ [u]\<rparr>)"
  using assms by (auto simp: searching_def bt_get_insert)

lemma searching_pop:
  assumes "searching edges (P @ [u]) E D s" and "set (graph_succs edges u) \<subseteq> D"
  shows "searching edges P E (insert u D)
    (s\<lparr>cs_path_nodes := butlast (cs_path_nodes s), cs_states := bt_insert u Done (cs_states s)\<rparr>)"
proof -
  have "gr.finished edges (insert u D)"
    using assms by (intro gr.finished_insert) (auto simp: searching_def)
  with assms(1) show ?thesis by (auto simp: searching_def bt_get_insert)
qed

definition visited_well ::
  "GraphEdge list \<Rightarrow> WorkId list \<Rightarrow> DependencyId list \<Rightarrow> WorkId set \<Rightarrow>
     (cycle option \<times> CycleSearch) run \<Rightarrow> bool" where
  "visited_well edges P E D result \<longleftrightarrow> (\<exists>r t. result = Return (r, t) \<and>
     (case r of Some c \<Rightarrow> genuine_cycle edges c
      | None \<Rightarrow> \<exists>D'. D \<subseteq> D' \<and> searching edges P E D' t))"

text \<open>
  One edge of the loop over \<open>u\<close>'s edges, when the recursive call is good on unvisited nodes.
\<close>

lemma visit_edge_step:
  assumes t: "searching edges (P @ [u]) E D t" and w: "walk edges (P @ [u]) E"
    and e: "e \<in> set edges" "ge_predecessor e = u"
    and rec: "\<And>s. ge_successor e \<notin> set (P @ [u]) \<union> D \<Longrightarrow>
      searching edges (P @ [u]) (E @ [ge_id e]) D s \<Longrightarrow>
      visited_well edges (P @ [u]) (E @ [ge_id e]) (insert (ge_successor e) D) (visit (ge_successor e) s)"
  shows "visited_well edges (P @ [u]) E (insert (ge_successor e) D) (visit_edge visit t e)"
proof -
  let ?v = "ge_successor e"
  consider "?v \<in> set (P @ [u])" | "?v \<notin> set (P @ [u])" "?v \<in> D" | "?v \<notin> set (P @ [u]) \<union> D" by blast
  then show ?thesis
  proof cases
    case 1
    then have "bt_get (cs_states t) ?v = Some Visiting" using t by (simp add: searching_def)
    moreover obtain c where "close_cycle t e = Return (Some c, t)" "genuine_cycle edges c"
      using close_cycle_genuine [OF t w e 1] by blast
    ultimately show ?thesis by (simp add: visit_edge_def visited_well_def)
  next
    case 2
    then have "bt_get (cs_states t) ?v = Some Done" using t by (simp add: searching_def)
    with t 2 show ?thesis by (auto simp: visit_edge_def visited_well_def)
  next
    case 3
    let ?t1 = "t\<lparr>cs_path_edges := cs_path_edges t @ [ge_id e]\<rparr>"
    have new: "bt_get (cs_states t) ?v = None" using t 3 by (auto simp: searching_def)
    have "searching edges (P @ [u]) (E @ [ge_id e]) D ?t1" using t by (simp add: searching_def)
    from rec [OF 3 this] obtain r t' where r: "visit ?v ?t1 = Return (r, t')"
      and res: "case r of Some c \<Rightarrow> genuine_cycle edges c
        | None \<Rightarrow> \<exists>D'. insert ?v D \<subseteq> D' \<and> searching edges (P @ [u]) (E @ [ge_id e]) D' t'"
      unfolding visited_well_def by blast
    show ?thesis
    proof (cases r)
      case None
      then obtain D' where D': "insert ?v D \<subseteq> D'"
        and t': "searching edges (P @ [u]) (E @ [ge_id e]) D' t'" using res by auto
      have "searching edges (P @ [u]) E D' (t'\<lparr>cs_path_edges := butlast (cs_path_edges t')\<rparr>)"
        using t' by (simp add: searching_def)
      with new r None D' show ?thesis by (auto simp: visit_edge_def visited_well_def)
    next
      case (Some c)
      with new r res show ?thesis by (simp add: visit_edge_def visited_well_def)
    qed
  qed
qed

text \<open>The whole loop, and the call around it.\<close>

lemma visit_loop:
  assumes "\<And>D' t e. D \<subseteq> D' \<Longrightarrow> e \<in> set es \<Longrightarrow> searching edges P E D' t \<Longrightarrow>
      visited_well edges P E (insert (g e) D') (f t e)"
    and "searching edges P E D s"
  shows "visited_well edges P E (D \<union> g ` set es) (first_run f s es)"
proof -
  let ?I = "\<lambda>ys t. \<exists>D'. D \<subseteq> D' \<and> g ` set ys \<subseteq> D' \<and> searching edges P E D' t"
  have step: "\<exists>r t'. f t e = Return (r, t') \<and>
      (case r of Some c \<Rightarrow> genuine_cycle edges c | None \<Rightarrow> ?I (ys @ [e]) t')"
    if in_es: "e \<in> set es" and loop: "?I ys t" for ys t e
  proof -
    obtain D' where D': "D \<subseteq> D'" "g ` set ys \<subseteq> D'" and t: "searching edges P E D' t"
      using loop by blast
    obtain r t' where r: "f t e = Return (r, t')" and res: "case r of Some c \<Rightarrow> genuine_cycle edges c
        | None \<Rightarrow> \<exists>D''. insert (g e) D' \<subseteq> D'' \<and> searching edges P E D'' t'"
      using assms(1) [OF D'(1) in_es t] unfolding visited_well_def by blast
    show ?thesis
    proof (cases r)
      case None
      then obtain D'' where "insert (g e) D' \<subseteq> D''" "searching edges P E D'' t'"
        using res by auto
      then have "?I (ys @ [e]) t'" using D' by (intro exI [of _ D'']) auto
      with r None show ?thesis by simp
    qed (use r res in simp)
  qed
  have "\<exists>r t. first_run f s es = Return (r, t)
    \<and> (case r of Some c \<Rightarrow> genuine_cycle edges c | None \<Rightarrow> ?I ([] @ es) t)"
    by (rule first_run_rule [where I = ?I], erule (1) step) (use assms(2) in auto)
  then show ?thesis unfolding visited_well_def Un_subset_iff append_Nil conj_assoc .
qed

lemma visit_cycle_correct:
  assumes N: "finite N" "ge_successor ` set edges \<subseteq> N"
  shows "u \<in> N \<Longrightarrow> searching edges P E D s \<Longrightarrow> walk edges (P @ [u]) E \<Longrightarrow> u \<notin> set P \<union> D \<Longrightarrow>
    card (N - (set P \<union> D)) < fuel \<Longrightarrow>
    visited_well edges P E (insert u D) (visit_cycle fuel (adjacency_of edges) u s)"
proof (induction fuel arbitrary: u P E D s)
  case (Suc fuel)
  let ?out = "case_option [] id (bt_get (adjacency_of edges) u)"
  let ?s1 = "s\<lparr>cs_states := bt_insert u Visiting (cs_states s),
    cs_path_nodes := cs_path_nodes s @ [u]\<rparr>"
  have edge: "visited_well edges (P @ [u]) E (insert (ge_successor e) D')
      (visit_edge (visit_cycle fuel (adjacency_of edges)) t e)"
    if "D \<subseteq> D'" "e \<in> set ?out" and t: "searching edges (P @ [u]) E D' t" for D' t e
  proof -
    have e: "e \<in> set edges" "ge_predecessor e = u" using that(2) by (auto simp: adjacency_of_get)
    have "N - (set (P @ [u]) \<union> D') \<subset> N - (set P \<union> D)" using Suc.prems(1,4) that(1) by auto
    then have "card (N - (set (P @ [u]) \<union> D')) < card (N - (set P \<union> D))"
      by (rule psubset_card_mono [OF finite_Diff [OF N(1)]])
    then have less: "card (N - (set (P @ [u]) \<union> D')) < fuel" using Suc.prems(5) by linarith
    have "ge_successor e \<in> N" using N(2) e(1) by auto
    then show ?thesis
      by (intro visit_edge_step [OF t Suc.prems(3) e])
        (rule Suc.IH [OF _ _ walk_snoc [OF Suc.prems(3) e] _ less])
  qed
  have "visited_well edges (P @ [u]) E (D \<union> ge_successor ` set ?out)
      (first_run (visit_edge (visit_cycle fuel (adjacency_of edges))) ?s1 ?out)"
    by (rule visit_loop [where g = ge_successor, OF _ searching_push [OF Suc.prems(2,4)]]) (erule (2) edge)
  then obtain r t where
    r: "first_run (visit_edge (visit_cycle fuel (adjacency_of edges))) ?s1 ?out = Return (r, t)"
    and res: "case r of Some c \<Rightarrow> genuine_cycle edges c
      | None \<Rightarrow> \<exists>D'. D \<union> ge_successor ` set ?out \<subseteq> D' \<and> searching edges (P @ [u]) E D' t"
    unfolding visited_well_def by blast
  show ?case
  proof (cases r)
    case None
    then obtain D' where D': "D \<union> ge_successor ` set ?out \<subseteq> D'"
      and t: "searching edges (P @ [u]) E D' t" using res by auto
    then have "searching edges P E (insert u D')
        (t\<lparr>cs_path_nodes := butlast (cs_path_nodes t), cs_states := bt_insert u Done (cs_states t)\<rparr>)"
      by (intro searching_pop) (simp_all add: graph_succs_def)
    with r None D' show ?thesis by (auto simp: visited_well_def)
  next
    case (Some c)
    with r res show ?thesis by (simp add: visited_well_def)
  qed
qed simp

lemma find_cycle_correct:
  assumes pred: "ge_predecessor ` set edges \<subseteq> set (bt_keys nodes)"
  shows "\<exists>r. find_cycle nodes edges = Return r \<and>
    (case r of Some c \<Rightarrow> genuine_cycle edges c | None \<Rightarrow> acyclic (graph_arcs edges))"
proof -
  let ?N = "set (bt_keys nodes) \<union> ge_successor ` set edges"
  let ?fuel = "length nodes + length edges + 1"
  let ?s0 = "\<lparr>cs_states = [], cs_path_nodes = [], cs_path_edges = []\<rparr>"
  let ?f = "\<lambda>s w. if bt_contains (cs_states s) w then Return (None, s)
     else visit_cycle ?fuel (adjacency_of edges) w s"
  have card: "card (?N - (set [] \<union> D)) < ?fuel" for D
  proof -
    have "card (?N - (set [] \<union> D)) \<le> card ?N" by (intro card_mono) auto
    also have "\<dots> \<le> card (set (bt_keys nodes)) + card (ge_successor ` set edges)" by (rule card_Un_le)
    also have "\<dots> \<le> length nodes + length edges"
      by (intro add_mono order_trans [OF card_image_le] order_trans [OF card_length])
        (simp_all add: bt_keys_def card_length)
    finally show ?thesis by simp
  qed
  have visit: "visited_well edges [] [] (insert w D) (?f s w)"
    if "w \<in> set (bt_keys nodes)" and s: "searching edges [] [] D s" for D s w
  proof (cases "w \<in> D")
    case True
    with s show ?thesis by (auto simp: searching_def bt_contains_def visited_well_def insert_absorb)
  next
    case False
    then have "\<not> bt_contains (cs_states s) w" using s by (simp add: searching_def bt_contains_def)
    moreover have "visited_well edges [] [] (insert w D) (visit_cycle ?fuel (adjacency_of edges) w s)"
      by (rule visit_cycle_correct [where N = ?N]) (use that False card in \<open>auto simp: walk_def\<close>)
    ultimately show ?thesis by simp
  qed
  have "searching edges [] [] {} ?s0" by (simp add: searching_def gr.finished_empty)
  then have "visited_well edges [] [] ({} \<union> (\<lambda>w. w) ` set (bt_keys nodes)) (first_run ?f ?s0 (bt_keys nodes))"
    by (rule visit_loop [rotated]) (rule visit)
  then obtain r t where r: "first_run ?f ?s0 (bt_keys nodes) = Return (r, t)"
    and res: "case r of Some c \<Rightarrow> genuine_cycle edges c
      | None \<Rightarrow> \<exists>D. set (bt_keys nodes) \<subseteq> D \<and> searching edges [] [] D t"
    unfolding visited_well_def image_ident Un_empty_left by (elim exE conjE)
  have "acyclic (graph_arcs edges)"
    if "set (bt_keys nodes) \<subseteq> D" "searching edges [] [] D t" for D
  proof -
    have "u \<in> D" if "graph_succs edges u \<noteq> []" for u
    proof -
      have "set (graph_succs edges u) \<noteq> {}" using that by simp
      then show ?thesis using pred \<open>set (bt_keys nodes) \<subseteq> D\<close> by (auto simp: set_graph_succs)
    qed
    then have "acyclic (gr.arcs edges)"
      using that(2) by (intro gr.finished_acyclic [of edges D]) (auto simp: searching_def)
    then show ?thesis by (simp add: gr_arcs)
  qed
  with res have "case r of Some c \<Rightarrow> genuine_cycle edges c | None \<Rightarrow> acyclic (graph_arcs edges)"
    by (auto split: option.splits)
  with r show ?thesis by (simp add: find_cycle_def)
qed

section \<open>The validation loops\<close>

text \<open>The index of the accepted nodes: each node under its work id.\<close>

definition node_index :: "DependencyEndpoint list \<Rightarrow> (WorkId, DependencyEndpoint) btree_map \<Rightarrow> bool" where
  "node_index ns m \<longleftrightarrow> bt_wf m \<and> distinct (map dep_work_id ns)
     \<and> (\<forall>w n. bt_get m w = Some n \<longleftrightarrow> n \<in> set ns \<and> dep_work_id n = w)"

lemma node_index_None: "node_index ns m \<Longrightarrow> bt_get m w = None \<longleftrightarrow> w \<notin> dep_work_id ` set ns"
  by (auto simp: node_index_def simp flip: not_Some_eq)

lemma node_index_Nil: "node_index [] []"
  by (simp add: node_index_def)

lemma node_index_keys: "node_index ns m \<Longrightarrow> set (bt_keys m) = dep_work_id ` set ns"
  unfolding set_bt_keys by (auto simp: dom_def node_index_def)

lemma node_index_insert:
  assumes "node_index ns m" and "dep_work_id n \<notin> dep_work_id ` set ns"
  shows "node_index (ns @ [n]) (bt_insert (dep_work_id n) n m)"
  using assms unfolding node_index_def by (auto simp: bt_get_insert image_iff)

lemma node_loop:
  "if (\<forall>n \<in> set ns. dep_project_id n = p) \<and> distinct (map dep_work_id ns)
   then \<exists>m. try_fold (node_step p) [] ns = Inr m \<and> node_index ns m
   else \<exists>e. try_fold (node_step p) [] ns = Inl e"
proof -
  let ?ok = "\<lambda>ys n. dep_project_id n = p \<and> dep_work_id n \<notin> dep_work_id ` set ys"
  have step: "if ?ok ys n then \<exists>m'. node_step p m n = Inr m' \<and> node_index (ys @ [n]) m'
      else \<exists>e. node_step p m n = Inl e" if "node_index ys m" for ys m n
    using that by (auto simp: node_step_def node_index_None node_index_insert)
  have "(\<forall>i < length ns. ?ok ([] @ take i ns) (ns ! i)) \<longleftrightarrow>
      (\<forall>n \<in> set ns. dep_project_id n = p) \<and> distinct (map dep_work_id ns)"
    using distinct_prefixes [of ns dep_work_id] by (auto simp: all_set_conv_all_nth)
  moreover have "if (\<forall>i < length ns. ?ok ([] @ take i ns) (ns ! i))
     then \<exists>m. try_fold (node_step p) [] ns = Inr m \<and> node_index ([] @ ns) m
     else \<exists>e. try_fold (node_step p) [] ns = Inl e"
    by (rule try_fold_prefix [where P = node_index and ok = ?ok], erule step, rule node_index_Nil)
  ultimately show ?thesis by (simp only: append_Nil)
qed

lemma node_loop_error:
  "try_fold (node_step p) m ns = Inl err \<Longrightarrow> err \<noteq> DependencyGraphError.DependencyCycle ws ids"
  by (induction ns arbitrary: m) (auto simp: node_step_def split: if_splits sum.splits)

definition edge_fits :: "ProjectId \<Rightarrow> DependencyEndpoint list \<Rightarrow> GraphEdge \<Rightarrow> bool" where
  "edge_fits p ns e \<longleftrightarrow> ge_project_id e = p \<and> ge_predecessor e \<noteq> ge_successor e
     \<and> (\<forall>w \<in> {ge_predecessor e, ge_successor e}.
          \<exists>n \<in> set ns. dep_work_id n = w \<and> dep_kind n = DirectTask)"

definition edge_pair :: "GraphEdge \<Rightarrow> WorkId \<times> WorkId" where
  "edge_pair e = (ge_predecessor e, ge_successor e)"

definition edge_indexed :: "GraphEdge list \<Rightarrow> edge_index \<Rightarrow> bool" where
  "edge_indexed es x \<longleftrightarrow> bt_wf (fst x) \<and> bt_wf (snd x) \<and> bs_elems (fst x) = ge_id ` set es
     \<and> dom (bt_get (snd x)) = edge_pair ` set es"

lemma edge_indexed_iff:
  "edge_indexed es x \<Longrightarrow> bt_contains (fst x) i \<longleftrightarrow> i \<in> ge_id ` set es"
  "edge_indexed es x \<Longrightarrow> bt_get (snd x) q = None \<longleftrightarrow> q \<notin> edge_pair ` set es"
  by (simp add: edge_indexed_def bt_contains_bs, simp only: edge_indexed_def) blast

lemma edge_indexed_insert:
  "edge_indexed es x \<Longrightarrow> edge_indexed (es @ [e])
     (bs_insert (ge_id e) (fst x), bt_insert (edge_pair e) (ge_id e) (snd x))"
  by (auto simp: edge_indexed_def bt.dom_put)

lemma node_direct:
  assumes "node_index ns m"
  shows "(\<exists>n \<in> set ns. dep_work_id n = w \<and> dep_kind n = DirectTask)
     \<longleftrightarrow> (\<exists>n. bt_get m w = Some n \<and> dep_kind n = DirectTask)"
  using assms by (auto simp: node_index_def)

lemma edge_step_iff:
  assumes m: "node_index ns m" and x: "edge_indexed es x"
  shows "if edge_fits p ns e \<and> ge_id e \<notin> ge_id ` set es \<and> edge_pair e \<notin> edge_pair ` set es
     then \<exists>x'. edge_step p m x e = Inr x' \<and> edge_indexed (es @ [e]) x'
     else \<exists>err. edge_step p m x e = Inl err"
proof -
  have pair: "bt_get (snd x) (ge_predecessor e, ge_successor e) = None \<longleftrightarrow> edge_pair e \<notin> edge_pair ` set es"
    using edge_indexed_iff(2) [OF x, of "edge_pair e"] by (simp add: edge_pair_def)
  note insert = edge_indexed_insert [OF x, of e, unfolded edge_pair_def]
  show ?thesis
    unfolding edge_fits_def ball_simps node_direct [OF m] edge_step_def
    using pair by (cases "bt_get (snd x) (ge_predecessor e, ge_successor e)")
      (auto simp: edge_indexed_iff(1) [OF x] endpoint_direct_def insert split: option.splits)
qed

lemma edge_loop:
  assumes m: "node_index ns m"
  shows "if (\<forall>e \<in> set es. edge_fits p ns e) \<and> distinct (map ge_id es) \<and> distinct (map edge_pair es)
   then \<exists>x. try_fold (edge_step p m) ([], []) es = Inr x
   else \<exists>err. try_fold (edge_step p m) ([], []) es = Inl err"
proof -
  let ?ok = "\<lambda>ys e. edge_fits p ns e \<and> ge_id e \<notin> ge_id ` set ys \<and> edge_pair e \<notin> edge_pair ` set ys"
  have "(\<forall>i < length es. ?ok ([] @ take i es) (es ! i)) \<longleftrightarrow>
      (\<forall>e \<in> set es. edge_fits p ns e) \<and> distinct (map ge_id es) \<and> distinct (map edge_pair es)"
    using distinct_prefixes [of es ge_id] distinct_prefixes [of es edge_pair]
    by (auto simp: all_set_conv_all_nth)
  moreover have "edge_indexed [] ([], [])" by (simp add: edge_indexed_def dom_def)
  ultimately show ?thesis
    using try_fold_prefix [where f = "edge_step p m" and P = edge_indexed and ok = ?ok and ys = "[]"
        and s = "([], [])" and xs = es, OF edge_step_iff [OF m]] by (auto split: if_splits)
qed

lemma edge_step_error:
  "edge_step p m x e = Inl err \<Longrightarrow> err \<noteq> DependencyGraphError.DependencyCycle ws ids"
  by (auto simp: edge_step_def endpoint_direct_def split: if_splits option.splits)

lemma edge_loop_error:
  "try_fold (edge_step p m) x es = Inl err \<Longrightarrow> err \<noteq> DependencyGraphError.DependencyCycle ws ids"
  by (induction es arbitrary: x) (use edge_step_error in \<open>fastforce split: sum.splits\<close>)+

section \<open>What validation decides\<close>

definition graph_valid :: "ProjectId \<Rightarrow> DependencyEndpoint list \<Rightarrow> GraphEdge list \<Rightarrow> bool" where
  "graph_valid p ns es \<longleftrightarrow>
     (\<forall>n \<in> set ns. dep_project_id n = p) \<and> distinct (map dep_work_id ns)
     \<and> (\<forall>e \<in> set es. edge_fits p ns e) \<and> distinct (map ge_id es) \<and> distinct (map edge_pair es)
     \<and> acyclic (graph_arcs es)"

definition canonical_graph :: "ProjectId \<Rightarrow> DependencyEndpoint list \<Rightarrow> GraphEdge list \<Rightarrow> DependencyGraph"
where
  "canonical_graph p ns es = \<lparr>dg_project_id = p, dg_nodes = sort_key endpoint_key ns,
     dg_edges = sort_key edge_order es\<rparr>"

lemma edge_order_inj: "edge_order a = edge_order b \<Longrightarrow> a = b"
proof -
  have "ge_policy a = ge_policy b" by (cases "ge_policy a"; cases "ge_policy b") simp
  then show "edge_order a = edge_order b \<Longrightarrow> a = b" by (simp add: edge_order_def)
qed

lemma endpoint_key_inj: "endpoint_key a = endpoint_key b \<Longrightarrow> a = b"
proof -
  have "endpoint_kind_index k = endpoint_kind_index l \<Longrightarrow> k = l" for k l
    by (cases k; cases l) simp_all
  then show "endpoint_key a = endpoint_key b \<Longrightarrow> a = b" by (simp add: endpoint_key_def)
qed

lemma graph_valid_sorted:
  "graph_valid p (sort_key k ns) (sort_key l es) \<longleftrightarrow> graph_valid p ns es"
  by (simp add: graph_valid_def distinct_map edge_fits_def graph_arcs_def)

lemma genuine_cycle_sorted: "genuine_cycle (sort_key l es) c \<longleftrightarrow> genuine_cycle es c"
  by (simp add: genuine_cycle_def walk_def)

lemma edge_fits_pred:
  "\<forall>e \<in> set es. edge_fits p ns e \<Longrightarrow> ge_predecessor ` set es \<subseteq> dep_work_id ` set ns"
  by (force simp: edge_fits_def)

text \<open>The three stages on canonical input.\<close>

lemma validate_canonical:
  fixes p nodes edges
  defines "ns \<equiv> sort_key endpoint_key nodes" and "es \<equiv> sort_key edge_order edges"
  shows "\<exists>r. validate_dependency_graph p nodes edges = Return r
    \<and> (if graph_valid p ns es then r = Inr (canonical_graph p nodes edges)
       else \<exists>err. r = Inl err \<and> (\<forall>ws ids. err = DependencyGraphError.DependencyCycle ws ids \<longrightarrow>
         genuine_cycle es (ws, ids)))"
proof (cases "(\<forall>n \<in> set ns. dep_project_id n = p) \<and> distinct (map dep_work_id ns)")
  case False
  then obtain err where err: "try_fold (node_step p) [] ns = Inl err"
    using node_loop [of ns p, unfolded if_not_P [OF False]] by blast
  have "\<not> graph_valid p ns es" using False by (auto simp: graph_valid_def)
  moreover have "err \<noteq> DependencyGraphError.DependencyCycle ws ids" for ws ids
    using node_loop_error [OF err] by simp
  ultimately show ?thesis using err by (simp add: validate_dependency_graph_def ns_def)
next
  case nodes_ok: True
  then obtain m where m: "try_fold (node_step p) [] ns = Inr m" "node_index ns m"
    using node_loop [of ns p, unfolded if_P [OF nodes_ok]] by blast
  show ?thesis
  proof (cases "(\<forall>e \<in> set es. edge_fits p ns e) \<and> distinct (map ge_id es) \<and> distinct (map edge_pair es)")
    case False
    then obtain err where err: "try_fold (edge_step p m) ([], []) es = Inl err"
      using edge_loop [OF m(2), of es p, unfolded if_not_P [OF False]] by blast
    have "\<not> graph_valid p ns es" using False by (auto simp: graph_valid_def)
    moreover have "err \<noteq> DependencyGraphError.DependencyCycle ws ids" for ws ids
      using edge_loop_error [OF err] by simp
    ultimately show ?thesis using m(1) err by (simp add: validate_dependency_graph_def ns_def es_def)
  next
    case edges_ok: True
    then obtain x where x: "try_fold (edge_step p m) ([], []) es = Inr x"
      using edge_loop [OF m(2), of es p, unfolded if_P [OF edges_ok]] by blast
    have "ge_predecessor ` set es \<subseteq> set (bt_keys m)"
      unfolding node_index_keys [OF m(2)] using edges_ok by (intro edge_fits_pred [of es p]) simp
    then obtain r where r: "find_cycle m es = Return r" and
      res: "case r of Some c \<Rightarrow> genuine_cycle es c | None \<Rightarrow> acyclic (graph_arcs es)"
      using find_cycle_correct by blast
    have valid: "graph_valid p ns es \<longleftrightarrow> acyclic (graph_arcs es)"
      using nodes_ok edges_ok by (simp add: graph_valid_def)
    show ?thesis
    proof (cases r)
      case None
      with m x r res valid show ?thesis
        by (simp add: validate_dependency_graph_def ns_def es_def canonical_graph_def)
    next
      case (Some c)
      with res have "\<not> acyclic (graph_arcs es)"
        using genuine_cycle_not_acyclic by (cases c) simp
      with m x r res valid Some show ?thesis
        by (cases c) (simp add: validate_dependency_graph_def ns_def es_def)
    qed
  qed
qed

lemma validated_canonical:
  assumes "validate_dependency_graph p nodes edges = Return (Inr g)"
  shows "graph_valid p nodes edges \<and> g = canonical_graph p nodes edges"
  using validate_canonical [of p nodes edges] assms
  unfolding graph_valid_sorted by (auto split: if_splits)

lemma graph_valid_ids: "graph_valid p ns es \<Longrightarrow> distinct (map ge_id es)"
  by (simp add: graph_valid_def)

section \<open>Properties\<close>

text \<open>C7: Graph validation always returns: no panic, no exhausted fuel.  It accepts exactly the graphs
  whose nodes and edges lie in the project, whose work ids, edge ids and endpoint pairs are
  distinct, whose endpoints are known direct tasks and whose arcs are acyclic, and the accepted
  graph is the input in canonical order.  A reported cycle is a closed simple walk along edges of
  the input, named node by node and edge by edge.\<close>

theorem graph_validation_correct:
  "\<exists>r. validate_dependency_graph p nodes edges = Return r
     \<and> (\<forall>g. r = Inr g \<longleftrightarrow> graph_valid p nodes edges \<and> g = canonical_graph p nodes edges)
     \<and> (\<forall>ws ids. r = Inl (DependencyGraphError.DependencyCycle ws ids) \<longrightarrow>
          genuine_cycle edges (ws, ids) \<and> \<not> acyclic (graph_arcs edges))"
proof -
  obtain r where "validate_dependency_graph p nodes edges = Return r"
    and r: "if graph_valid p nodes edges then r = Inr (canonical_graph p nodes edges)
       else \<exists>err. r = Inl err \<and> (\<forall>ws ids. err = DependencyGraphError.DependencyCycle ws ids \<longrightarrow>
         genuine_cycle edges (ws, ids))"
    using validate_canonical [of p nodes edges]
    unfolding graph_valid_sorted genuine_cycle_sorted by blast
  moreover have "\<forall>g. r = Inr g \<longleftrightarrow> graph_valid p nodes edges \<and> g = canonical_graph p nodes edges"
    using r by (cases "graph_valid p nodes edges") auto
  moreover have "genuine_cycle edges (ws, ids) \<and> \<not> acyclic (graph_arcs edges)"
    if "r = Inl (DependencyGraphError.DependencyCycle ws ids)" for ws ids
    using r that genuine_cycle_not_acyclic [of edges ws ids] by (auto split: if_splits)
  ultimately show ?thesis by blast
qed

theorem graph_validation_correct_witness:
  "\<exists>ns es es' ws ids. validate_dependency_graph (Ident ''p'') ns es
       = Return (Inr (canonical_graph (Ident ''p'') ns es))
     \<and> graph_valid (Ident ''p'') ns es
     \<and> validate_dependency_graph (Ident ''p'') ns es'
       = Return (Inl (DependencyGraphError.DependencyCycle ws ids))
     \<and> genuine_cycle es' (ws, ids) \<and> length ids = 2"
proof -
  let ?ns = "map (\<lambda>n. direct_task (Ident ''p'') (Ident n)) [''c'', ''a'', ''b'']"
  let ?e = "\<lambda>i a b. closed_only (Ident i) (Ident ''p'') (Ident a) (Ident b) 1"
  let ?es = "[?e ''2'' ''b'' ''c'', ?e ''1'' ''a'' ''b'']"
  let ?es' = "?es @ [?e ''3'' ''c'' ''b'']"
  have ok: "validate_dependency_graph (Ident ''p'') ?ns ?es
      = Return (Inr (canonical_graph (Ident ''p'') ?ns ?es))" by code_simp
  have bad: "validate_dependency_graph (Ident ''p'') ?ns ?es' = Return (Inl
      (DependencyGraphError.DependencyCycle [Ident ''b'', Ident ''c'', Ident ''b''] [Ident ''2'', Ident ''3'']))"
    by code_simp
  have "graph_valid (Ident ''p'') ?ns ?es"
    using graph_validation_correct [of "Ident ''p''" ?ns ?es] unfolding ok by blast
  moreover have "genuine_cycle ?es' ([Ident ''b'', Ident ''c'', Ident ''b''], [Ident ''2'', Ident ''3''])"
    using graph_validation_correct [of "Ident ''p''" ?ns ?es'] unfolding bad by blast
  ultimately show ?thesis using ok bad
    by (intro exI [of _ ?ns] exI [of _ ?es] exI [of _ ?es'] exI conjI) (assumption | simp)+
qed

text \<open>C30: The outcome of validation, the selected error included, does not depend on the order in which
  nodes and edges are supplied.\<close>

theorem graph_validation_order_independent:
  assumes "mset nodes = mset nodes'" and "mset edges = mset edges'"
  shows "validate_dependency_graph p nodes edges = validate_dependency_graph p nodes' edges'"
proof -
  have "sort_key endpoint_key nodes = sort_key endpoint_key nodes'"
    by (rule sort_key_canonical [OF assms(1)]) (auto intro: inj_onI endpoint_key_inj)
  moreover have "sort_key edge_order edges = sort_key edge_order edges'"
    by (rule sort_key_canonical [OF assms(2)]) (auto intro: inj_onI edge_order_inj)
  ultimately show ?thesis unfolding validate_dependency_graph_def by simp
qed

theorem graph_validation_order_independent_witness:
  "let ns = map (\<lambda>n. direct_task (Ident ''p'') (Ident n)) [''b'', ''a'']; es =
     [closed_only (Ident ''2'') (Ident ''p'') (Ident ''a'') (Ident ''b'') 1,
      closed_only (Ident ''1'') (Ident ''q'') (Ident ''b'') (Ident ''a'') 1] in
   validate_dependency_graph (Ident ''p'') ns es
     = validate_dependency_graph (Ident ''p'') (rev ns) (rev es)"
  unfolding Let_def by (rule graph_validation_order_independent) simp_all

end
