(* ===== verification/Dep_Eval.thy ===== *)
theory Dep_Eval
  imports Dep_Graph
begin

text \<open>
  Satisfaction of the edges of a validated graph (\<open>evaluate_dependencies\<close> of
  \<open>crates/domain/src/dependencies.rs\<close>): waivers, upstream outcomes, observations and their
  diagnostics.  The source orders observations by the \<open>Debug\<close> text of their outcome, so that text
  is modelled too; which code points beyond ASCII Rust prints unescaped is a table of its core
  library and enters as the parameter \<open>printable\<close>.  No theorem depends on it.
\<close>

section \<open>Types\<close>

record EntityIdentity =
  ei_project_id :: ProjectId
  ei_work_id :: WorkId
  ei_revision :: EntityRevision

definition entity_key :: "EntityIdentity \<Rightarrow> ProjectId \<times> WorkId \<times> EntityRevision" where
  "entity_key i = (ei_project_id i, ei_work_id i, ei_revision i)"

datatype UnreadableReason = Corrupt | UnsupportedVersion | MissingReference | PermissionDenied

record EdgeWaiver =
  ew_decision_id :: DecisionId
  ew_edge_id :: DependencyId
  ew_edge_revision :: EntityRevision
  ew_project_id :: ProjectId
  ew_successor :: WorkId
  ew_valid_from :: EntityRevision
  ew_revoked_at :: "EntityRevision option"

record RawPrerequisiteContext =
  rp_edge_id :: DependencyId
  rp_edge_revision :: EntityRevision
  rp_predecessor :: EntityIdentity
  rp_payload :: string

definition raw_context_new ::
  "DependencyId \<Rightarrow> EntityRevision \<Rightarrow> EntityIdentity \<Rightarrow> string \<Rightarrow> RawPrerequisiteContext" where
  "raw_context_new edge_id edge_revision predecessor payload =
     \<lparr>rp_edge_id = edge_id, rp_edge_revision = edge_revision, rp_predecessor = predecessor,
      rp_payload = payload\<rparr>"

record UnreadablePrerequisite =
  up_reason :: UnreadableReason
  up_raw :: RawPrerequisiteContext

record CorruptPrerequisite =
  cp_detail :: string
  cp_raw :: RawPrerequisiteContext

record StalePrerequisite =
  sp_expected :: EntityRevision
  sp_observed :: EntityRevision
  sp_raw :: RawPrerequisiteContext

datatype ClosedOutcome =
    Unaccepted "EntityIdentity option"
  | Accepted EntityIdentity ProofRevision
  | Revoked EntityIdentity ProofRevision

datatype UpstreamOutcome =
    Open | Complete | Verified | Cancelled | Failed
  | Closed ClosedOutcome
  | Unreadable UnreadablePrerequisite
  | Corrupt CorruptPrerequisite
  | Stale StalePrerequisite

record DependencyObservation =
  do_edge_id :: DependencyId
  do_edge_revision :: EntityRevision
  do_predecessor :: EntityIdentity
  do_outcome :: UpstreamOutcome
  do_waiver :: "EdgeWaiver option"

datatype DependencyEvaluationError =
    UnknownObservationEdge DependencyId
  | DuplicateObservation DependencyId
  | ObservationEdgeRevisionMismatch DependencyId EntityRevision EntityRevision
  | ObservationPredecessorMismatch DependencyId WorkId WorkId
  | ObservationProjectScopeMismatch DependencyId ProjectId ProjectId
  | WaiverOutOfScope DependencyId
  | InvalidWaiverWindow DependencyId

fun evaluation_error_code :: "DependencyEvaluationError \<Rightarrow> string" where
  "evaluation_error_code (UnknownObservationEdge _) = ''unknown_dependency_edge''"
| "evaluation_error_code (DuplicateObservation _) = ''duplicate_dependency_observation''"
| "evaluation_error_code (ObservationEdgeRevisionMismatch _ _ _) = ''stale_dependency_edge''"
| "evaluation_error_code (ObservationPredecessorMismatch _ _ _) = ''dependency_predecessor_mismatch''"
| "evaluation_error_code (ObservationProjectScopeMismatch _ _ _) = ''cross_project_dependency''"
| "evaluation_error_code (WaiverOutOfScope _) = ''dependency_waiver_scope_mismatch''"
| "evaluation_error_code (InvalidWaiverWindow _) = ''dependency_waiver_window_invalid''"

datatype UnmetReason =
    ObservationMissing
  | MalformedObservation DependencyEvaluationError
  | NotAcceptedClosedOutcome
  | ClosedOutcomeUnaccepted
  | ClosedOutcomeRevoked
  | ClosedIdentityMismatch
  | PrerequisiteUnreadable UnreadablePrerequisite
  | PrerequisiteCorrupt CorruptPrerequisite
  | PrerequisiteStale StalePrerequisite
  | WaiverNotYetValid
  | WaiverRevoked

datatype EdgeSatisfaction =
    AcceptedClosed EntityIdentity ProofRevision
  | Waived EdgeWaiver
  | Unmet UnmetReason

fun is_satisfied :: "EdgeSatisfaction \<Rightarrow> bool" where
  "is_satisfied (AcceptedClosed _ _) = True"
| "is_satisfied (Waived _) = True"
| "is_satisfied (Unmet _) = False"

record DependencyObservationDiagnostic =
  dd_error :: DependencyEvaluationError
  dd_raw :: DependencyObservation

record EdgeEvaluation =
  ee_edge :: GraphEdge
  ee_predecessor :: "EntityIdentity option"
  ee_outcome :: "UpstreamOutcome option"
  ee_waiver :: "EdgeWaiver option"
  ee_raw_observations :: "DependencyObservation list"
  ee_diagnostic :: "DependencyObservationDiagnostic option"
  ee_satisfaction :: EdgeSatisfaction

record DependencyEvaluation =
  de_edges :: "EdgeEvaluation list"
  de_diagnostics :: "DependencyObservationDiagnostic list"

definition evaluation_satisfied :: "DependencyEvaluation \<Rightarrow> bool" where
  "evaluation_satisfied ev \<longleftrightarrow>
     de_diagnostics ev = [] \<and> list_all (\<lambda>edge. is_satisfied (ee_satisfaction edge)) (de_edges ev)"

definition evaluation_unmet :: "DependencyEvaluation \<Rightarrow> EdgeEvaluation list" where
  "evaluation_unmet ev = filter (\<lambda>edge. \<not> is_satisfied (ee_satisfaction edge)) (de_edges ev)"

section \<open>Waivers and one observation\<close>

definition applies_to :: "EdgeWaiver \<Rightarrow> GraphEdge \<Rightarrow> EntityRevision \<Rightarrow> bool" where
  "applies_to w edge at_revision \<longleftrightarrow>
     ew_edge_id w = ge_id edge \<and> ew_edge_revision w = ge_revision edge
     \<and> ew_project_id w = ge_project_id edge \<and> ew_successor w = ge_successor edge
     \<and> ew_valid_from w \<le> at_revision
     \<and> (case ew_revoked_at w of None \<Rightarrow> True | Some revoked_at \<Rightarrow> at_revision < revoked_at)"

definition scope_matches :: "EdgeWaiver \<Rightarrow> GraphEdge \<Rightarrow> bool" where
  "scope_matches w edge \<longleftrightarrow>
     ew_edge_id w = ge_id edge \<and> ew_edge_revision w = ge_revision edge
     \<and> ew_project_id w = ge_project_id edge \<and> ew_successor w = ge_successor edge"

definition validity_error :: "EdgeWaiver \<Rightarrow> DependencyEvaluationError option" where
  "validity_error w =
     (case ew_revoked_at w of
        None \<Rightarrow> None
      | Some revoked_at \<Rightarrow>
          if revoked_at \<le> ew_valid_from w then Some (InvalidWaiverWindow (ew_edge_id w)) else None)"

definition validate_observation ::
  "DependencyGraph \<Rightarrow> GraphEdge \<Rightarrow> DependencyObservation \<Rightarrow> DependencyEvaluationError option" where
  "validate_observation graph edge obs =
     (if do_edge_revision obs \<noteq> ge_revision edge
      then Some (ObservationEdgeRevisionMismatch (do_edge_id obs) (ge_revision edge)
                   (do_edge_revision obs))
      else if ei_project_id (do_predecessor obs) \<noteq> dg_project_id graph
      then Some (ObservationProjectScopeMismatch (do_edge_id obs) (dg_project_id graph)
                   (ei_project_id (do_predecessor obs)))
      else if ei_work_id (do_predecessor obs) \<noteq> ge_predecessor edge
      then Some (ObservationPredecessorMismatch (do_edge_id obs) (ge_predecessor edge)
                   (ei_work_id (do_predecessor obs)))
      else case do_waiver obs of
        None \<Rightarrow> None
      | Some w \<Rightarrow>
          if \<not> scope_matches w edge then Some (WaiverOutOfScope (do_edge_id obs))
          else validity_error w)"

definition unmet_closed_reason ::
  "DependencyObservation \<Rightarrow> EntityRevision \<Rightarrow> ClosedOutcome option \<Rightarrow> UnmetReason" where
  "unmet_closed_reason obs at_revision closed =
     (case closed of
        Some (Unaccepted _) \<Rightarrow> ClosedOutcomeUnaccepted
      | Some (Revoked _ _) \<Rightarrow> ClosedOutcomeRevoked
      | Some (Accepted _ _) \<Rightarrow> ClosedIdentityMismatch
      | None \<Rightarrow>
          if case_option False (\<lambda>w. at_revision < ew_valid_from w) (do_waiver obs)
          then WaiverNotYetValid
          else if case_option False (\<lambda>revoked_at. revoked_at \<le> at_revision)
                    (Option.bind (do_waiver obs) ew_revoked_at)
          then WaiverRevoked
          else NotAcceptedClosedOutcome)"

definition closed_part :: "UpstreamOutcome \<Rightarrow> ClosedOutcome option" where
  "closed_part outcome = (case outcome of Closed closed \<Rightarrow> Some closed | _ \<Rightarrow> None)"

definition evaluate_edge ::
  "GraphEdge \<Rightarrow> DependencyObservation \<Rightarrow> EntityRevision \<Rightarrow> EdgeSatisfaction" where
  "evaluate_edge edge obs at_revision =
     (case do_outcome obs of
        Unreadable diagnostic \<Rightarrow> Unmet (PrerequisiteUnreadable diagnostic)
      | UpstreamOutcome.Corrupt diagnostic \<Rightarrow> Unmet (PrerequisiteCorrupt diagnostic)
      | Stale diagnostic \<Rightarrow> Unmet (PrerequisiteStale diagnostic)
      | outcome \<Rightarrow>
          let closed = closed_part outcome;
              rest =
                (case do_waiver obs of
                   Some w \<Rightarrow>
                     if applies_to w edge at_revision then Waived w
                     else Unmet (unmet_closed_reason obs at_revision closed)
                 | None \<Rightarrow> Unmet (unmet_closed_reason obs at_revision closed))
          in case closed of
               Some (Accepted identity proof_generation) \<Rightarrow>
                 if identity = do_predecessor obs \<and> ei_work_id identity = ge_predecessor edge
                 then AcceptedClosed identity proof_generation
                 else rest
             | _ \<Rightarrow> rest)"

section \<open>The \<open>Debug\<close> text of an outcome\<close>

fun hexadecimal :: "nat \<Rightarrow> string" where
  "hexadecimal n =
     (let digit = char_of (if n mod 16 < 10 then 48 + n mod 16 else 87 + n mod 16) in
      if n < 16 then [digit] else hexadecimal (n div 16) @ [digit])"

declare hexadecimal.simps [simp del]

definition utf8_encode :: "nat \<Rightarrow> string" where
  "utf8_encode c =
     (if c < 128 then [char_of c]
      else if c < 2048 then [char_of (192 + c div 64), char_of (128 + c mod 64)]
      else if c < 65536
      then [char_of (224 + c div 4096), char_of (128 + c div 64 mod 64), char_of (128 + c mod 64)]
      else [char_of (240 + c div 262144), char_of (128 + c div 4096 mod 64),
            char_of (128 + c div 64 mod 64), char_of (128 + c mod 64)])"

definition debug_char :: "(nat \<Rightarrow> bool) \<Rightarrow> nat \<Rightarrow> string" where
  "debug_char printable c =
     (if c = 0 then [CHR 0x5C, CHR ''0'']
      else if c = 9 then [CHR 0x5C, CHR ''t'']
      else if c = 10 then [CHR 0x5C, CHR ''n'']
      else if c = 13 then [CHR 0x5C, CHR ''r'']
      else if c = 34 then [CHR 0x5C, CHR 0x22]
      else if c = 92 then [CHR 0x5C, CHR 0x5C]
      else if (if c < 128 then 32 \<le> c \<and> c < 127 else printable c) then utf8_encode c
      else [CHR 0x5C] @ ''u{'' @ hexadecimal c @ ''}'')"

definition debug_str :: "(nat \<Rightarrow> bool) \<Rightarrow> string \<Rightarrow> string" where
  "debug_str printable s = [CHR 0x22] @ concat (map (debug_char printable) (utf8_chars s)) @ [CHR 0x22]"

fun join_fields :: "(string \<times> string) list \<Rightarrow> string" where
  "join_fields [] = []"
| "join_fields [(f, t)] = f @ '': '' @ t"
| "join_fields ((f, t) # rest) = f @ '': '' @ t @ '', '' @ join_fields rest"

definition debug_struct :: "string \<Rightarrow> (string \<times> string) list \<Rightarrow> string" where
  "debug_struct name parts = name @ '' { '' @ join_fields parts @ '' }''"

definition debug_ident :: "(nat \<Rightarrow> bool) \<Rightarrow> string \<Rightarrow> 'k ident \<Rightarrow> string" where
  "debug_ident printable name i = call_code name (debug_str printable (as_str i))"

definition debug_u64 :: "string \<Rightarrow> u64 \<Rightarrow> string" where
  "debug_u64 name r = call_code name (decimal (unat r))"

definition debug_entity :: "(nat \<Rightarrow> bool) \<Rightarrow> EntityIdentity \<Rightarrow> string" where
  "debug_entity printable i = debug_struct ''EntityIdentity''
     [(''project_id'', debug_ident printable ''ProjectId'' (ei_project_id i)),
      (''work_id'', debug_ident printable ''WorkId'' (ei_work_id i)),
      (''revision'', debug_u64 ''EntityRevision'' (ei_revision i))]"

definition debug_raw :: "(nat \<Rightarrow> bool) \<Rightarrow> RawPrerequisiteContext \<Rightarrow> string" where
  "debug_raw printable r = debug_struct ''RawPrerequisiteContext''
     [(''edge_id'', debug_ident printable ''DependencyId'' (rp_edge_id r)),
      (''edge_revision'', debug_u64 ''EntityRevision'' (rp_edge_revision r)),
      (''predecessor'', debug_entity printable (rp_predecessor r)),
      (''payload'', debug_str printable (rp_payload r))]"

primrec debug_unreadable_reason :: "UnreadableReason \<Rightarrow> string" where
  "debug_unreadable_reason UnreadableReason.Corrupt = ''Corrupt''"
| "debug_unreadable_reason UnsupportedVersion = ''UnsupportedVersion''"
| "debug_unreadable_reason MissingReference = ''MissingReference''"
| "debug_unreadable_reason PermissionDenied = ''PermissionDenied''"

fun debug_closed :: "(nat \<Rightarrow> bool) \<Rightarrow> ClosedOutcome \<Rightarrow> string" where
  "debug_closed printable (Unaccepted identity) = debug_struct ''Unaccepted''
     [(''identity'', case identity of None \<Rightarrow> ''None''
         | Some i \<Rightarrow> call_code ''Some'' (debug_entity printable i))]"
| "debug_closed printable (Accepted identity proof) = debug_struct ''Accepted''
     [(''identity'', debug_entity printable identity),
      (''proof_generation'', debug_u64 ''ProofRevision'' proof)]"
| "debug_closed printable (Revoked identity proof) = debug_struct ''Revoked''
     [(''identity'', debug_entity printable identity),
      (''proof_generation'', debug_u64 ''ProofRevision'' proof)]"

fun debug_outcome :: "(nat \<Rightarrow> bool) \<Rightarrow> UpstreamOutcome \<Rightarrow> string" where
  "debug_outcome printable Open = ''Open''"
| "debug_outcome printable Complete = ''Complete''"
| "debug_outcome printable Verified = ''Verified''"
| "debug_outcome printable Cancelled = ''Cancelled''"
| "debug_outcome printable Failed = ''Failed''"
| "debug_outcome printable (Closed c) = call_code ''Closed'' (debug_closed printable c)"
| "debug_outcome printable (Unreadable d) = call_code ''Unreadable''
     (debug_struct ''UnreadablePrerequisite''
       [(''reason'', debug_unreadable_reason (up_reason d)), (''raw'', debug_raw printable (up_raw d))])"
| "debug_outcome printable (UpstreamOutcome.Corrupt d) = call_code ''Corrupt''
     (debug_struct ''CorruptPrerequisite''
       [(''detail'', debug_str printable (cp_detail d)), (''raw'', debug_raw printable (cp_raw d))])"
| "debug_outcome printable (Stale d) = call_code ''Stale''
     (debug_struct ''StalePrerequisite''
       [(''expected'', debug_u64 ''EntityRevision'' (sp_expected d)),
        (''observed'', debug_u64 ''EntityRevision'' (sp_observed d)),
        (''raw'', debug_raw printable (sp_raw d))])"

section \<open>Evaluation of the graph\<close>

text \<open>The keys of the source's comparison functions.\<close>

definition waiver_key :: "EdgeWaiver \<Rightarrow> DecisionId \<times> DependencyId \<times> EntityRevision \<times> ProjectId
    \<times> WorkId \<times> EntityRevision \<times> EntityRevision option" where
  "waiver_key w = (ew_decision_id w, ew_edge_id w, ew_edge_revision w, ew_project_id w,
     ew_successor w, ew_valid_from w, ew_revoked_at w)"

definition observation_order :: "(nat \<Rightarrow> bool) \<Rightarrow> DependencyObservation \<Rightarrow>
    DependencyId \<times> EntityRevision \<times> (ProjectId \<times> WorkId \<times> EntityRevision) \<times> string
      \<times> (DecisionId \<times> DependencyId \<times> EntityRevision \<times> ProjectId \<times> WorkId \<times> EntityRevision
          \<times> EntityRevision option) option" where
  "observation_order printable obs = (do_edge_id obs, do_edge_revision obs,
     entity_key (do_predecessor obs), debug_outcome printable (do_outcome obs),
     map_option waiver_key (do_waiver obs))"

definition diagnostic_order :: "(nat \<Rightarrow> bool) \<Rightarrow> DependencyObservationDiagnostic \<Rightarrow> string
    \<times> DependencyId \<times> EntityRevision \<times> (ProjectId \<times> WorkId \<times> EntityRevision) \<times> string
      \<times> (DecisionId \<times> DependencyId \<times> EntityRevision \<times> ProjectId \<times> WorkId \<times> EntityRevision
          \<times> EntityRevision option) option" where
  "diagnostic_order printable d =
     (evaluation_error_code (dd_error d), observation_order printable (dd_raw d))"

type_synonym evaluation_state =
  "(DependencyId, DependencyObservation list) btree_map \<times> DependencyObservationDiagnostic list"

definition observe :: "DependencyGraph \<Rightarrow> evaluation_state \<Rightarrow> DependencyObservation \<Rightarrow> evaluation_state"
where
  "observe graph s obs = (case s of (by_edge, diagnostics) \<Rightarrow>
     (case graph_edge graph (do_edge_id obs) of
        None \<Rightarrow> (by_edge, diagnostics @
          [\<lparr>dd_error = UnknownObservationEdge (do_edge_id obs), dd_raw = obs\<rparr>])
      | Some edge \<Rightarrow>
          (bt_insert (do_edge_id obs)
             (case_option [] id (bt_get by_edge (do_edge_id obs)) @ [obs]) by_edge,
           diagnostics @ (case validate_observation graph edge obs of
              Some error \<Rightarrow> [\<lparr>dd_error = error, dd_raw = obs\<rparr>]
            | None \<Rightarrow> []))))"

definition unobserved :: "GraphEdge \<Rightarrow> EdgeEvaluation" where
  "unobserved edge = \<lparr>ee_edge = edge, ee_predecessor = None, ee_outcome = None, ee_waiver = None,
     ee_raw_observations = [], ee_diagnostic = None, ee_satisfaction = Unmet ObservationMissing\<rparr>"

definition evaluate_one ::
  "(nat \<Rightarrow> bool) \<Rightarrow> EntityRevision \<Rightarrow> evaluation_state \<Rightarrow> GraphEdge \<Rightarrow> EdgeEvaluation \<times> evaluation_state"
where
  "evaluate_one printable at_revision s edge = (case s of (by_edge, diagnostics) \<Rightarrow>
     (let raw = case_option [] id (bt_get by_edge (ge_id edge));
          by_edge = bt_remove (ge_id edge) by_edge in
      case raw of
        [] \<Rightarrow> (unobserved edge, (by_edge, diagnostics))
      | obs # others \<Rightarrow>
          let duplicates = (case others of
                second # _ \<Rightarrow> [\<lparr>dd_error = DuplicateObservation (ge_id edge), dd_raw = second\<rparr>]
              | [] \<Rightarrow> []);
              edge_diagnostics = sort_key (diagnostic_order printable)
                (filter (\<lambda>d. do_edge_id (dd_raw d) = ge_id edge) diagnostics @ duplicates);
              diagnostic = (case edge_diagnostics of d # _ \<Rightarrow> Some d | [] \<Rightarrow> None);
              satisfaction = (case diagnostic of
                None \<Rightarrow> evaluate_edge edge obs at_revision
              | Some d \<Rightarrow> Unmet (MalformedObservation (dd_error d)))
          in (\<lparr>ee_edge = edge, ee_predecessor = Some (do_predecessor obs),
               ee_outcome = Some (do_outcome obs), ee_waiver = do_waiver obs,
               ee_raw_observations = raw, ee_diagnostic = diagnostic,
               ee_satisfaction = satisfaction\<rparr>,
              (by_edge, diagnostics @ duplicates))))"

definition evaluate_dependencies ::
  "(nat \<Rightarrow> bool) \<Rightarrow> DependencyGraph \<Rightarrow> DependencyObservation list \<Rightarrow> EntityRevision \<Rightarrow>
     DependencyEvaluationError + DependencyEvaluation" where
  "evaluate_dependencies printable graph observations at_revision =
     (let ordered = sort_key (observation_order printable) observations;
          collected = foldl (observe graph) ([], []) ordered;
          (edges, _, diagnostics) =
            map_state (evaluate_one printable at_revision) collected (dg_edges graph)
      in Inr \<lparr>de_edges = edges,
              de_diagnostics = sort_key
                (\<lambda>d. (do_edge_id (dd_raw d), diagnostic_order printable d)) diagnostics\<rparr>)"

section \<open>The two passes in closed form\<close>

definition raw_of :: "(DependencyId, DependencyObservation list) btree_map \<Rightarrow> DependencyId \<Rightarrow>
    DependencyObservation list" where
  "raw_of m i = case_option [] id (bt_get m i)"

definition diagnosed :: "DependencyGraph \<Rightarrow> DependencyObservation \<Rightarrow> DependencyObservationDiagnostic list"
where
  "diagnosed g obs = (case graph_edge g (do_edge_id obs) of
     None \<Rightarrow> [\<lparr>dd_error = UnknownObservationEdge (do_edge_id obs), dd_raw = obs\<rparr>]
   | Some edge \<Rightarrow> (case validate_observation g edge obs of
        Some error \<Rightarrow> [\<lparr>dd_error = error, dd_raw = obs\<rparr>] | None \<Rightarrow> []))"

lemma observe_eq:
  "observe g (m, d) x = (if graph_edge g (do_edge_id x) = None then m
     else bt_insert (do_edge_id x) (raw_of m (do_edge_id x) @ [x]) m, d @ diagnosed g x)"
  by (auto simp: observe_def diagnosed_def raw_of_def split: option.splits)

lemma foldl_observe:
  assumes "bt_wf m"
  shows "snd (foldl (observe g) (m, d) obs) = d @ concat (map (diagnosed g) obs)
    \<and> bt_wf (fst (foldl (observe g) (m, d) obs))
    \<and> raw_of (fst (foldl (observe g) (m, d) obs)) i = raw_of m i
        @ (if graph_edge g i = None then [] else filter (\<lambda>x. do_edge_id x = i) obs)"
  using assms
proof (induction obs arbitrary: m d)
  case (Cons x xs)
  let ?m = "bt_insert (do_edge_id x) (raw_of m (do_edge_id x) @ [x]) m"
  have "raw_of ?m i = raw_of m i @ (if do_edge_id x = i then [x] else [])"
    using Cons.prems by (simp add: raw_of_def bt_get_insert)
  with Cons.IH [of ?m] Cons.IH [of m] Cons.prems show ?case
    by (auto simp: observe_eq)
qed simp

definition duplicate_of :: "(DependencyId, DependencyObservation list) btree_map \<Rightarrow> GraphEdge \<Rightarrow>
    DependencyObservationDiagnostic list" where
  "duplicate_of m e = (case raw_of m (ge_id e) of
     _ # second # _ \<Rightarrow> [\<lparr>dd_error = DuplicateObservation (ge_id e), dd_raw = second\<rparr>] | _ \<Rightarrow> [])"

lemma evaluate_one_state:
  "snd (evaluate_one printable at (m, d) e) = (bt_remove (ge_id e) m, d @ duplicate_of m e)"
  by (auto simp: evaluate_one_def duplicate_of_def raw_of_def Let_def split: list.splits)

lemma evaluate_one_raw:
  "ee_raw_observations (fst (evaluate_one printable at (m, d) e)) = raw_of m (ge_id e)"
  by (auto simp: evaluate_one_def raw_of_def unobserved_def Let_def split: list.splits)

text \<open>An edge's result depends on its own observations and diagnostics only.\<close>

lemma evaluate_one_cong:
  assumes "raw_of m (ge_id e) = raw_of m' (ge_id e)"
    and "filter (\<lambda>x. do_edge_id (dd_raw x) = ge_id e) d = filter (\<lambda>x. do_edge_id (dd_raw x) = ge_id e) d'"
  shows "fst (evaluate_one printable at (m, d) e) = fst (evaluate_one printable at (m', d') e)"
  using assms unfolding raw_of_def
  by (cases "bt_get m' (ge_id e)") (simp_all add: evaluate_one_def Let_def split: list.splits)

definition keyed :: "(DependencyId, DependencyObservation list) btree_map \<Rightarrow> bool" where
  "keyed m \<longleftrightarrow> (\<forall>i. \<forall>x \<in> set (raw_of m i). do_edge_id x = i)"

lemma raw_of_remove: "raw_of (bt_remove k m) i = (if i = k then [] else raw_of m i)"
  by (simp add: raw_of_def bt_get_remove)

lemma duplicate_of_keyed: "keyed m \<Longrightarrow> x \<in> set (duplicate_of m e) \<Longrightarrow> do_edge_id (dd_raw x) = ge_id e"
  by (auto simp: duplicate_of_def keyed_def split: list.splits) (metis list.set_intros)

lemma evaluate_all:
  assumes "distinct (map ge_id es)" and "keyed m"
  shows "map_state (evaluate_one printable at) (m, d) es =
    (map (\<lambda>e. fst (evaluate_one printable at (m, d) e)) es,
     fold (\<lambda>e. bt_remove (ge_id e)) es m, d @ concat (map (duplicate_of m) es))"
  using assms
proof (induction es arbitrary: m d)
  case (Cons e es)
  let ?m = "bt_remove (ge_id e) m" and ?d = "d @ duplicate_of m e"
  have km: "keyed ?m" using Cons.prems(2) by (simp add: keyed_def raw_of_remove)
  have other: "ge_id e' \<noteq> ge_id e" if "e' \<in> set es" for e'
    using Cons.prems(1) that by (metis distinct.simps(2) image_eqI list.set_map list.simps(9))
  have res: "fst (evaluate_one printable at (?m, ?d) e') = fst (evaluate_one printable at (m, d) e')"
    if "e' \<in> set es" for e'
  proof (rule evaluate_one_cong)
    show "raw_of ?m (ge_id e') = raw_of m (ge_id e')" using other [OF that] by (simp add: raw_of_remove)
    have "filter (\<lambda>x. do_edge_id (dd_raw x) = ge_id e') (duplicate_of m e) = []"
      using duplicate_of_keyed [OF Cons.prems(2)] other [OF that] by (auto simp: filter_empty_conv)
    then show "filter (\<lambda>x. do_edge_id (dd_raw x) = ge_id e') ?d
        = filter (\<lambda>x. do_edge_id (dd_raw x) = ge_id e') d" by simp
  qed
  have dup: "duplicate_of ?m e' = duplicate_of m e'" if "e' \<in> set es" for e'
    using other [OF that] by (simp add: duplicate_of_def raw_of_remove)
  have "map_state (evaluate_one printable at) (?m, ?d) es =
    (map (\<lambda>e. fst (evaluate_one printable at (m, d) e)) es,
     fold (\<lambda>e. bt_remove (ge_id e)) es ?m, ?d @ concat (map (duplicate_of m) es))"
    using Cons.IH [OF _ km, of ?d] Cons.prems(1) res dup by (simp cong: map_cong)
  then show ?case
    using evaluate_one_state [of printable at m d e]
    by (cases "evaluate_one printable at (m, d) e") simp
qed simp

text \<open>The observations of an edge in canonical order, and everything the evaluation returns.\<close>

definition observed :: "(nat \<Rightarrow> bool) \<Rightarrow> DependencyObservation list \<Rightarrow> DependencyId \<Rightarrow>
    DependencyObservation list" where
  "observed printable obs i = filter (\<lambda>x. do_edge_id x = i) (sort_key (observation_order printable) obs)"

lemma graph_edge_iff: "graph_edge g i = None \<longleftrightarrow> i \<notin> ge_id ` set (dg_edges g)"
  by (auto simp: graph_edge_def find_None_iff)

lemma graph_edge_distinct:
  assumes "distinct (map ge_id (dg_edges g))"
  shows "graph_edge g i = Some e \<longleftrightarrow> e \<in> set (dg_edges g) \<and> ge_id e = i"
proof -
  have "graph_edge g (ge_id e) = Some e" if e: "e \<in> set (dg_edges g)"
  proof -
    obtain e' where e': "graph_edge g (ge_id e) = Some e'"
      using e graph_edge_iff [of g "ge_id e"] by auto
    then have "e' \<in> set (dg_edges g)" "ge_id e' = ge_id e"
      by (auto simp: graph_edge_def find_Some_iff)
    with e assms have "e' = e" by (auto simp: distinct_map dest: inj_onD)
    with e' show ?thesis by simp
  qed
  moreover have "e \<in> set (dg_edges g) \<and> ge_id e = i" if "graph_edge g i = Some e"
    using that by (auto simp: graph_edge_def find_Some_iff)
  ultimately show ?thesis by blast
qed

definition collected :: "(nat \<Rightarrow> bool) \<Rightarrow> DependencyGraph \<Rightarrow> DependencyObservation list \<Rightarrow> evaluation_state"
where
  "collected printable g obs =
     foldl (observe g) ([], []) (sort_key (observation_order printable) obs)"

lemma raw_of_Nil: "raw_of [] i = []"
  by (simp add: raw_of_def)

lemma collected_diagnostics:
  "snd (collected printable g obs)
     = concat (map (diagnosed g) (sort_key (observation_order printable) obs))"
  using foldl_observe [of "[]" g "[]"] by (simp add: collected_def)

lemma collected_raw:
  "raw_of (fst (collected printable g obs)) i
     = (if graph_edge g i = None then [] else observed printable obs i)"
  using foldl_observe [of "[]" g "[]" "sort_key (observation_order printable) obs" i]
  by (simp add: collected_def observed_def raw_of_Nil)

lemma collected_keyed: "keyed (fst (collected printable g obs))"
  by (simp add: keyed_def collected_raw observed_def)

lemma evaluate_dependencies_eq:
  assumes "distinct (map ge_id (dg_edges g))"
  shows "evaluate_dependencies printable g obs at = Inr
    \<lparr>de_edges = map (\<lambda>e. fst (evaluate_one printable at (collected printable g obs) e)) (dg_edges g),
     de_diagnostics = sort_key (\<lambda>d. (do_edge_id (dd_raw d), diagnostic_order printable d))
       (snd (collected printable g obs)
        @ concat (map (duplicate_of (fst (collected printable g obs))) (dg_edges g)))\<rparr>"
proof -
  obtain m d where md: "collected printable g obs = (m, d)" by (cases "collected printable g obs")
  then have "keyed m" using collected_keyed [of printable g obs] by simp
  from evaluate_all [OF assms this, of printable at d] md show ?thesis
    by (simp add: evaluate_dependencies_def Let_def collected_def)
qed

section \<open>When an edge counts as satisfied\<close>

text \<open>
  The evidence an observation gives for an edge, stated without the code's early returns: a
  closed outcome accepted for exactly the observed predecessor, or an active waiver of this
  revision of the edge; never an unreadable, corrupt or stale prerequisite.
\<close>

definition edge_evidence :: "GraphEdge \<Rightarrow> DependencyObservation \<Rightarrow> EntityRevision \<Rightarrow> bool" where
  "edge_evidence e x at \<longleftrightarrow>
     \<not> (\<exists>d. do_outcome x = Unreadable d) \<and> \<not> (\<exists>d. do_outcome x = UpstreamOutcome.Corrupt d)
     \<and> \<not> (\<exists>d. do_outcome x = Stale d)
     \<and> ((\<exists>proof. do_outcome x = Closed (Accepted (do_predecessor x) proof))
          \<and> ei_work_id (do_predecessor x) = ge_predecessor e
        \<or> (\<exists>w. do_waiver x = Some w \<and> applies_to w e at))"

lemma evaluate_edge_satisfied: "is_satisfied (evaluate_edge e x at) \<longleftrightarrow> edge_evidence e x at"
proof (cases "do_outcome x")
  case (Closed c)
  then show ?thesis
    by (cases c) (auto simp: evaluate_edge_def edge_evidence_def closed_part_def Let_def split: option.splits)
qed (auto simp: evaluate_edge_def edge_evidence_def closed_part_def Let_def split: option.splits)

lemma evaluate_one_satisfied:
  assumes "d = []" and "duplicate_of m e = []"
  shows "is_satisfied (ee_satisfaction (fst (evaluate_one printable at (m, d) e))) \<longleftrightarrow>
    (\<exists>x. raw_of m (ge_id e) = [x] \<and> edge_evidence e x at)"
proof (cases "raw_of m (ge_id e)")
  case Nil
  then show ?thesis by (simp add: evaluate_one_def raw_of_def [symmetric] unobserved_def)
next
  case (Cons x xs)
  with assms(2) have "xs = []" by (cases xs) (simp_all add: duplicate_of_def)
  with Cons assms(1) show ?thesis
    by (simp add: evaluate_one_def raw_of_def [symmetric] Let_def evaluate_edge_satisfied)
qed

lemma duplicate_of_Nil: "duplicate_of m e = [] \<longleftrightarrow> length (raw_of m (ge_id e)) \<le> 1"
  by (auto simp: duplicate_of_def split: list.splits)

lemma diagnosed_Nil:
  assumes "distinct (map ge_id (dg_edges g))"
  shows "diagnosed g x = [] \<longleftrightarrow>
    (\<exists>e \<in> set (dg_edges g). ge_id e = do_edge_id x \<and> validate_observation g e x = None)"
proof (cases "graph_edge g (do_edge_id x)")
  case None
  then show ?thesis
    using None [unfolded graph_edge_iff] by (auto simp: diagnosed_def image_iff)
next
  case (Some e)
  have "e' = e" if "e' \<in> set (dg_edges g)" "ge_id e' = do_edge_id x" for e'
    using graph_edge_distinct [OF assms, of "do_edge_id x" e'] that Some by simp
  with Some graph_edge_distinct [OF assms, of "do_edge_id x" e] show ?thesis
    by (auto simp: diagnosed_def split: option.splits)
qed

lemma filter_sort_singleton: "filter P (sort_key k xs) = [x] \<longleftrightarrow> filter P xs = [x]"
proof -
  have "mset (filter P (sort_key k xs)) = mset (filter P xs)" by simp
  then show ?thesis by (metis mset_single_iff)
qed

lemma sort_key_Nil: "sort_key k xs = [] \<longleftrightarrow> xs = []"
  by (metis set_empty set_sort)

lemma evaluation_satisfied_iff:
  assumes dist: "distinct (map ge_id (dg_edges g))"
  shows "evaluate_dependencies printable g obs at = Inr ev \<Longrightarrow> evaluation_satisfied ev \<longleftrightarrow>
    (\<forall>x \<in> set obs. diagnosed g x = []) \<and>
    (\<forall>e \<in> set (dg_edges g). \<exists>x. filter (\<lambda>x. do_edge_id x = ge_id e) obs = [x] \<and> edge_evidence e x at)"
proof -
  assume ev: "evaluate_dependencies printable g obs at = Inr ev"
  obtain m d where md: "collected printable g obs = (m, d)" by (cases "collected printable g obs")
  have d: "d = [] \<longleftrightarrow> (\<forall>x \<in> set obs. diagnosed g x = [])"
    using collected_diagnostics [of printable g obs] by (auto simp: md)
  have raw: "raw_of m (ge_id e) = [x] \<longleftrightarrow> filter (\<lambda>x. do_edge_id x = ge_id e) obs = [x]"
    if "e \<in> set (dg_edges g)" for e x
  proof -
    have "raw_of m (ge_id e) = observed printable obs (ge_id e)"
      using that graph_edge_distinct [OF dist, of "ge_id e" e] collected_raw [of printable g obs "ge_id e"]
      by (simp add: md)
    then show ?thesis by (simp add: observed_def filter_sort_singleton)
  qed
  have single: "duplicate_of m e = []" if "raw_of m (ge_id e) = [x]" for e x
    using that by (simp add: duplicate_of_Nil)
  have "evaluation_satisfied ev \<longleftrightarrow> d = [] \<and> (\<forall>e \<in> set (dg_edges g). duplicate_of m e = [])
      \<and> (\<forall>e \<in> set (dg_edges g). is_satisfied (ee_satisfaction (fst (evaluate_one printable at (m, d) e))))"
    using ev [symmetric] unfolding evaluate_dependencies_eq [OF dist] md
    by (simp add: evaluation_satisfied_def list_all_iff sort_key_Nil conj_assoc)
  also have "\<dots> \<longleftrightarrow> d = [] \<and> (\<forall>e \<in> set (dg_edges g). \<exists>x. raw_of m (ge_id e) = [x] \<and> edge_evidence e x at)"
    using evaluate_one_satisfied single by blast
  also have "\<dots> \<longleftrightarrow> d = [] \<and> (\<forall>e \<in> set (dg_edges g).
      \<exists>x. filter (\<lambda>x. do_edge_id x = ge_id e) obs = [x] \<and> edge_evidence e x at)"
    using raw by auto
  finally show ?thesis unfolding d .
qed

section \<open>No observation is lost\<close>

definition is_unknown :: "DependencyObservationDiagnostic \<Rightarrow> bool" where
  "is_unknown d \<longleftrightarrow> (\<exists>i. dd_error d = UnknownObservationEdge i)"

lemma diagnosed_unknown:
  "map dd_raw (filter is_unknown (diagnosed g x)) = (if graph_edge g (do_edge_id x) = None then [x] else [])"
  by (auto simp: diagnosed_def is_unknown_def validate_observation_def validity_error_def
      split: option.splits if_splits)

lemma duplicate_not_unknown: "filter is_unknown (duplicate_of m e) = []"
  by (auto simp: duplicate_of_def is_unknown_def split: list.splits)

lemma mset_group:
  "distinct is \<Longrightarrow> mset (concat (map (\<lambda>i. filter (\<lambda>x. f x = i) xs) is)) = mset (filter (\<lambda>x. f x \<in> set is) xs)"
proof (induction "is")
  case (Cons i "is")
  have "mset (filter (\<lambda>x. f x = i \<or> f x \<in> set is) xs)
      = mset (filter (\<lambda>x. f x = i) xs) + mset (filter (\<lambda>x. f x \<in> set is) xs)"
    using Cons.prems by (induction xs) auto
  with Cons show ?case by simp
qed simp

lemma map_filter_concat:
  "map f (filter P (concat (map h xs))) = concat (map (\<lambda>x. map f (filter P (h x))) xs)"
  by (induction xs) simp_all

lemma filter_concat_if: "concat (map (\<lambda>x. if P x then [x] else []) xs) = filter P xs"
  by (induction xs) simp_all

lemma evaluation_raw:
  assumes dist: "distinct (map ge_id (dg_edges g))"
    and ev: "evaluate_dependencies printable g obs at = Inr ev"
  shows "map ee_raw_observations (de_edges ev) = map (\<lambda>e. observed printable obs (ge_id e)) (dg_edges g)"
proof -
  obtain m d where md: "collected printable g obs = (m, d)" by (cases "collected printable g obs")
  have "raw_of m (ge_id e) = observed printable obs (ge_id e)" if "e \<in> set (dg_edges g)" for e
    using that graph_edge_distinct [OF dist, of "ge_id e" e] collected_raw [of printable g obs "ge_id e"]
    by (simp add: md)
  with ev [symmetric] show ?thesis
    unfolding evaluate_dependencies_eq [OF dist] md by (simp add: evaluate_one_raw)
qed

lemma evaluation_unknown:
  assumes dist: "distinct (map ge_id (dg_edges g))"
    and ev: "evaluate_dependencies printable g obs at = Inr ev"
  shows "mset (map dd_raw (filter is_unknown (de_diagnostics ev)))
    = mset (filter (\<lambda>x. graph_edge g (do_edge_id x) = None) obs)"
proof -
  obtain m d where md: "collected printable g obs = (m, d)" by (cases "collected printable g obs")
  let ?dups = "concat (map (duplicate_of m) (dg_edges g))"
  have "filter is_unknown ?dups = []"
    by (simp add: filter_concat o_def duplicate_not_unknown)
  moreover have "map dd_raw (filter is_unknown d)
      = filter (\<lambda>x. graph_edge g (do_edge_id x) = None) (sort_key (observation_order printable) obs)"
    using collected_diagnostics [of printable g obs]
    by (simp add: md map_filter_concat diagnosed_unknown filter_concat_if)
  moreover have "mset (map dd_raw (filter is_unknown (de_diagnostics ev)))
      = mset (map dd_raw (filter is_unknown (d @ ?dups)))"
    using ev [symmetric] unfolding evaluate_dependencies_eq [OF dist] md by simp
  ultimately show ?thesis by simp
qed

lemma validated_graph_ids:
  assumes "validate_dependency_graph p nodes edges = Return (Inr g)"
  shows "distinct (map ge_id (dg_edges g)) \<and> set (dg_edges g) = set edges"
  using graph_valid_ids validated_canonical [OF assms] by (auto simp: canonical_graph_def distinct_map)

section \<open>Properties\<close>

text \<open>C10: Dependency evaluation fails closed: on a validated graph it always returns a result, and the
  result counts as satisfied exactly when every observation names a known edge and matches its
  revision, project, predecessor and waiver scope, and every edge has exactly one observation, which
  proves the accepted closed outcome of the exact predecessor or carries a waiver active at the
  revision.  A missing, duplicated, malformed, unknown, unreadable, corrupt or stale observation
  never satisfies.\<close>

theorem evaluation_fails_closed:
  assumes "validate_dependency_graph p nodes edges = Return (Inr g)"
  shows "\<exists>ev. evaluate_dependencies printable g obs at = Inr ev \<and>
    (evaluation_satisfied ev \<longleftrightarrow>
      (\<forall>x \<in> set obs. \<exists>e \<in> set edges. ge_id e = do_edge_id x \<and> validate_observation g e x = None)
      \<and> (\<forall>e \<in> set edges. \<exists>x. filter (\<lambda>x. do_edge_id x = ge_id e) obs = [x] \<and> edge_evidence e x at))"
proof -
  note ids = validated_graph_ids [OF assms]
  obtain ev where ev: "evaluate_dependencies printable g obs at = Inr ev"
    by (simp add: evaluate_dependencies_eq ids)
  from evaluation_satisfied_iff [OF conjunct1 [OF ids] ev] ev show ?thesis
    unfolding diagnosed_Nil [OF conjunct1 [OF ids]] conjunct2 [OF ids] by blast
qed

theorem evaluation_fails_closed_witness:
  "\<exists>g e x y. validate_dependency_graph (Ident ''p'') (dg_nodes g) [e] = Return (Inr g)
     \<and> do_edge_id x = ge_id e \<and> do_edge_id y = ge_id e
     \<and> (\<exists>ev. evaluate_dependencies (\<lambda>_. True) g [x] 7 = Inr ev \<and> evaluation_satisfied ev)
     \<and> (\<exists>ev. evaluate_dependencies (\<lambda>_. True) g [x, y] 7 = Inr ev \<and> \<not> evaluation_satisfied ev)"
proof -
  let ?ns = "map (\<lambda>n. direct_task (Ident ''p'') (Ident n)) [''a'', ''b'']"
  let ?e = "closed_only (Ident ''1'') (Ident ''p'') (Ident ''a'') (Ident ''b'') 3"
  let ?g = "canonical_graph (Ident ''p'') ?ns [?e]"
  let ?i = "\<lparr>ei_project_id = Ident ''p'', ei_work_id = Ident ''a'', ei_revision = 5\<rparr>"
  let ?x = "\<lparr>do_edge_id = Ident ''1'', do_edge_revision = 3, do_predecessor = ?i,
    do_outcome = Closed (Accepted ?i 2), do_waiver = None\<rparr>"
  have g: "validate_dependency_graph (Ident ''p'') ?ns [?e] = Return (Inr ?g)" by code_simp
  have ns: "dg_nodes ?g = ?ns" by code_simp
  note th = evaluation_fails_closed [OF g, of "\<lambda>_. True" _ 7]
  have "validate_observation ?g ?e ?x = None"
    by (simp add: validate_observation_def closed_only_def canonical_graph_def)
  moreover have "edge_evidence ?e ?x 7" by (simp add: edge_evidence_def closed_only_def)
  ultimately have one: "\<exists>ev. evaluate_dependencies (\<lambda>_. True) ?g [?x] 7 = Inr ev \<and> evaluation_satisfied ev"
    using th [of "[?x]"] by (simp add: closed_only_def)
  have two: "\<exists>ev. evaluate_dependencies (\<lambda>_. True) ?g [?x, ?x] 7 = Inr ev \<and> \<not> evaluation_satisfied ev"
    using th [of "[?x, ?x]"] by (auto simp: closed_only_def)
  have "do_edge_id ?x = ge_id ?e" by (simp add: closed_only_def)
  with g one two show ?thesis
    by (intro exI [of _ ?g] exI [of _ ?e] exI [of _ ?x] conjI) (simp_all only: ns)
qed

text \<open>No observation is lost: each one is retained either with the evaluation of its edge or in the
  diagnostic of an unknown edge, exactly once.\<close>

theorem observations_conserved:
  assumes "validate_dependency_graph p nodes edges = Return (Inr g)"
    and "evaluate_dependencies printable g obs at = Inr ev"
  shows "mset (concat (map ee_raw_observations (de_edges ev)))
    + mset (map dd_raw (filter is_unknown (de_diagnostics ev))) = mset obs"
proof -
  note ids = validated_graph_ids [OF assms(1)]
  let ?known = "\<lambda>x. do_edge_id x \<in> set (map ge_id (dg_edges g))"
  have known: "mset (concat (map ee_raw_observations (de_edges ev))) = mset (filter ?known obs)"
    using mset_group [OF conjunct1 [OF ids], of do_edge_id "sort_key (observation_order printable) obs"]
    unfolding evaluation_raw [OF conjunct1 [OF ids] assms(2)] by (simp add: observed_def comp_def)
  have "(\<lambda>x. graph_edge g (do_edge_id x) = None) = (\<lambda>x. \<not> ?known x)"
    by (rule ext) (simp add: graph_edge_iff)
  note unknown = evaluation_unknown [OF conjunct1 [OF ids] assms(2), unfolded this]
  show ?thesis unfolding known unknown by (induction obs) auto
qed

theorem observations_conserved_witness:
  "\<exists>g ev x. evaluate_dependencies (\<lambda>_. True) g [x] 7 = Inr ev
     \<and> mset (concat (map ee_raw_observations (de_edges ev)))
       + mset (map dd_raw (filter is_unknown (de_diagnostics ev))) = {#x#}"
proof -
  let ?g = "canonical_graph (Ident ''p'') [] []"
  let ?i = "\<lparr>ei_project_id = Ident ''p'', ei_work_id = Ident ''a'', ei_revision = 5\<rparr>"
  let ?x = "\<lparr>do_edge_id = Ident ''1'', do_edge_revision = 3, do_predecessor = ?i,
    do_outcome = Complete, do_waiver = None\<rparr>"
  have g: "validate_dependency_graph (Ident ''p'') [] [] = Return (Inr ?g)" by code_simp
  obtain ev where ev: "evaluate_dependencies (\<lambda>_. True) ?g [?x] 7 = Inr ev"
    by (simp add: evaluate_dependencies_def Let_def split_def)
  from observations_conserved [OF g ev] ev show ?thesis by auto
qed

end
