(* ===== verification/Dep_Impact.thy ===== *)
theory Dep_Impact
  imports Dep_Eval
begin

text \<open>
  The impact preview of \<open>crates/domain/src/dependencies.rs\<close>: the structural closure of the
  dependents of a set of roots (\<open>affected_subgraph\<close>, a breadth-first walk) and the propagation of
  an invalidated outcome or waiver along accepted-close edges (\<open>dependency_impact\<close>).  Both work
  lists run on fuel; \<open>distance[&current]\<close> panics when the key is missing.  The fuel of the walk is
  the number of roots and edges, the fuel of the propagation is quadratic in the number of edges;
  the lemmas show that it is never exhausted and that no index panics.
\<close>

section \<open>Types\<close>

record AffectedSubgraphNode =
  an_work_id :: WorkId
  an_distance :: nat

record AffectedSubgraph =
  as_roots :: "WorkId list"
  as_nodes :: "AffectedSubgraphNode list"
  as_edges :: "GraphEdge list"

datatype AffectedSubgraphError = UnknownRoot WorkId

datatype InvalidationKind = Reopened | Revoked

record InvalidatedOutcome =
  io_identity :: EntityIdentity
  io_proof_generation :: ProofRevision
  io_kind :: InvalidationKind

datatype DependencyInvalidation =
    Outcome InvalidatedOutcome
  | WaiverRevoked DependencyId EntityRevision ProjectId WorkId

datatype SuccessorImpactState = Pending | Active | HistoricallyClosed | HistoricallyCancelled
  | FactsUnavailable

record SuccessorFacts =
  sf_work_id :: WorkId
  sf_lifecycle :: PersistedLifecycle
  sf_active_attempt :: bool
  sf_pending_close_intent :: bool
  sf_pending_review :: bool

record SuccessorImpact =
  si_work_id :: WorkId
  si_distance :: nat
  si_via_edges :: "DependencyId list"
  si_state :: SuccessorImpactState
  si_active_attempt :: bool
  si_pending_close_intent :: bool
  si_pending_review :: bool
  si_requires_reconciliation :: bool
  si_history_preserved :: bool

record DependencyImpact =
  di_invalidation :: DependencyInvalidation
  di_affected_subgraph :: AffectedSubgraph
  di_invalidated_edges :: "DependencyId list"
  di_successors :: "SuccessorImpact list"

datatype DependencyImpactError =
    Evaluation DependencyEvaluationError
  | AffectedSubgraph AffectedSubgraphError
  | EvaluationDiagnostics "DependencyObservationDiagnostic list"
  | DuplicateSuccessorFacts WorkId
  | UnknownWaiverEdge DependencyId
  | WaiverNotCurrent DependencyId EntityRevision
  | InvalidationProjectScopeMismatch ProjectId

section \<open>The affected subgraph\<close>

type_synonym distances = "(WorkId, nat) btree_map"

definition reach_edge :: "nat \<Rightarrow> distances \<times> WorkId list \<Rightarrow> GraphEdge \<Rightarrow> distances \<times> WorkId list" where
  "reach_edge next_distance s edge = (case s of (distance, queue) \<Rightarrow>
     if bt_contains distance (ge_successor edge) then (distance, queue)
     else (bt_insert (ge_successor edge) next_distance distance, queue @ [ge_successor edge]))"

fun walk_affected :: "nat \<Rightarrow> DependencyGraph \<Rightarrow> distances \<Rightarrow> WorkId list \<Rightarrow> distances run" where
  "walk_affected fuel graph distance [] = Return distance"
| "walk_affected 0 graph distance (current # queue) = OutOfFuel"
| "walk_affected (Suc fuel) graph distance (current # queue) =
     (case bt_get distance current of
        None \<Rightarrow> Panic
      | Some d \<Rightarrow>
          let (distance, queue) =
            foldl (reach_edge (d + 1)) (distance, queue) (outgoing graph current)
          in walk_affected fuel graph distance queue)"

definition affected_subgraph ::
  "DependencyGraph \<Rightarrow> WorkId list \<Rightarrow> (AffectedSubgraphError + AffectedSubgraph) run" where
  "affected_subgraph graph roots =
     (let canonical_roots = sort_dedup roots in
      case find (\<lambda>root. \<not> has_work graph root) canonical_roots of
        Some root \<Rightarrow> Return (Inl (UnknownRoot root))
      | None \<Rightarrow>
          run_bind
            (walk_affected (length canonical_roots + length (dg_edges graph)) graph
               (foldl (\<lambda>distance root. bt_insert root 0 distance) [] canonical_roots)
               canonical_roots)
            (\<lambda>distance. Return (Inr
               \<lparr>as_roots = canonical_roots,
                as_nodes = map (\<lambda>(work_id, d). \<lparr>an_work_id = work_id, an_distance = d\<rparr>)
                  (filter (\<lambda>(work_id, _). work_id \<notin> set canonical_roots) distance),
                as_edges = filter (\<lambda>edge. bt_contains distance (ge_predecessor edge)
                    \<and> bt_contains distance (ge_successor edge)
                    \<and> ge_successor edge \<notin> set canonical_roots) (dg_edges graph)\<rparr>)))"

section \<open>The impact of an invalidation\<close>

definition facts_step ::
  "(WorkId, SuccessorFacts) btree_map \<Rightarrow> SuccessorFacts \<Rightarrow>
     DependencyImpactError + (WorkId, SuccessorFacts) btree_map" where
  "facts_step facts_by_id facts =
     (if bt_get facts_by_id (sf_work_id facts) \<noteq> None
      then Inl (DuplicateSuccessorFacts (sf_work_id facts))
      else Inr (bt_insert (sf_work_id facts) facts facts_by_id))"

definition invalidation_root ::
  "DependencyGraph \<Rightarrow> DependencyEvaluation \<Rightarrow> DependencyInvalidation \<Rightarrow> EntityRevision \<Rightarrow>
     DependencyImpactError + WorkId" where
  "invalidation_root graph evaluation invalidation at_revision =
     (case invalidation of
        Outcome outcome \<Rightarrow>
          if ei_project_id (io_identity outcome) \<noteq> dg_project_id graph
          then Inl (InvalidationProjectScopeMismatch (ei_project_id (io_identity outcome)))
          else Inr (ei_work_id (io_identity outcome))
      | WaiverRevoked edge_id edge_revision project_id successor \<Rightarrow>
          if project_id \<noteq> dg_project_id graph
          then Inl (InvalidationProjectScopeMismatch project_id)
          else case graph_edge graph edge_id of
            None \<Rightarrow> Inl (UnknownWaiverEdge edge_id)
          | Some edge \<Rightarrow>
              if ge_revision edge \<noteq> edge_revision \<or> ge_successor edge \<noteq> successor
              then Inl (UnknownWaiverEdge edge_id)
              else case find (\<lambda>ev. ge_id (ee_edge ev) = edge_id) (de_edges evaluation) of
                None \<Rightarrow> Inl (UnknownWaiverEdge edge_id)
              | Some ev \<Rightarrow>
                  (case ee_satisfaction ev of
                     Waived waiver \<Rightarrow>
                       if applies_to waiver edge at_revision then Inr (ge_successor edge)
                       else Inl (WaiverNotCurrent edge_id at_revision)
                   | _ \<Rightarrow> Inl (WaiverNotCurrent edge_id at_revision)))"

definition initially_invalidated ::
  "DependencyEvaluation \<Rightarrow> DependencyInvalidation \<Rightarrow> DependencyId btree_set" where
  "initially_invalidated evaluation invalidation =
     (case invalidation of
        Outcome outcome \<Rightarrow>
          foldl (\<lambda>s ev. case ee_satisfaction ev of
              AcceptedClosed identity proof_generation \<Rightarrow>
                if identity = io_identity outcome \<and> proof_generation = io_proof_generation outcome
                then bs_insert (ge_id (ee_edge ev)) s else s
            | _ \<Rightarrow> s) [] (de_edges evaluation)
      | WaiverRevoked edge_id _ _ _ \<Rightarrow> bs_insert edge_id [])"

definition seed_edge ::
  "DependencyId btree_set \<Rightarrow> distances \<times> WorkId list \<Rightarrow> EdgeEvaluation \<Rightarrow> distances \<times> WorkId list" where
  "seed_edge invalidated s ev = (case s of (node_distance, queue) \<Rightarrow>
     if bt_contains invalidated (ge_id (ee_edge ev))
     then (let succ = ge_successor (ee_edge ev) in
           (bt_insert succ (case bt_get node_distance succ of
              Some current \<Rightarrow> min current 1 | None \<Rightarrow> 1) node_distance, queue @ [succ]))
     else (node_distance, queue))"

definition is_accepted_closed :: "EdgeSatisfaction \<Rightarrow> bool" where
  "is_accepted_closed s = (case s of AcceptedClosed _ _ \<Rightarrow> True | _ \<Rightarrow> False)"

type_synonym propagation = "DependencyId btree_set \<times> distances \<times> WorkId list"

definition propagate_edge ::
  "(DependencyId, EdgeEvaluation) btree_map \<Rightarrow> nat \<Rightarrow> propagation \<Rightarrow> GraphEdge \<Rightarrow> propagation" where
  "propagate_edge evaluations predecessor_distance s edge =
     (case s of (invalidated, node_distance, queue) \<Rightarrow>
        (case bt_get evaluations (ge_id edge) of
           None \<Rightarrow> s
         | Some ev \<Rightarrow>
             if \<not> is_accepted_closed (ee_satisfaction ev) then s
             else
               let inserted = \<not> bt_contains invalidated (ge_id edge);
                   next_distance = predecessor_distance + 1;
                   distance_changed = (case bt_get node_distance (ge_successor edge) of
                     None \<Rightarrow> True | Some current \<Rightarrow> next_distance < current)
               in (bs_insert (ge_id edge) invalidated,
                   if distance_changed then bt_insert (ge_successor edge) next_distance node_distance
                   else node_distance,
                   if inserted \<or> distance_changed then queue @ [ge_successor edge] else queue)))"

fun propagate ::
  "nat \<Rightarrow> DependencyGraph \<Rightarrow> (DependencyId, EdgeEvaluation) btree_map \<Rightarrow> propagation \<Rightarrow>
     (DependencyId btree_set \<times> distances) run" where
  "propagate fuel graph evaluations (invalidated, node_distance, []) =
     Return (invalidated, node_distance)"
| "propagate 0 graph evaluations (invalidated, node_distance, predecessor # queue) = OutOfFuel"
| "propagate (Suc fuel) graph evaluations (invalidated, node_distance, predecessor # queue) =
     (case bt_get node_distance predecessor of
        None \<Rightarrow> Panic
      | Some d \<Rightarrow>
          propagate fuel graph evaluations
            (foldl (propagate_edge evaluations d) (invalidated, node_distance, queue)
               (outgoing graph predecessor)))"

definition impact_state :: "SuccessorFacts option \<Rightarrow> SuccessorImpactState" where
  "impact_state facts =
     (case facts of
        None \<Rightarrow> FactsUnavailable
      | Some f \<Rightarrow>
          (case sf_lifecycle f of
             PersistedLifecycle.Closed \<Rightarrow> HistoricallyClosed
           | PersistedLifecycle.Cancelled \<Rightarrow> HistoricallyCancelled
           | _ \<Rightarrow> if sf_active_attempt f \<or> sf_pending_close_intent f \<or> sf_pending_review f
                 then Active else Pending))"

definition successor_impact ::
  "DependencyEvaluation \<Rightarrow> DependencyId btree_set \<Rightarrow> (WorkId, SuccessorFacts) btree_map \<Rightarrow>
     WorkId \<times> nat \<Rightarrow> SuccessorImpact" where
  "successor_impact evaluation invalidated facts_by_id entry = (case entry of (work_id, distance) \<Rightarrow>
     let facts = bt_get facts_by_id work_id; state = impact_state facts in
     \<lparr>si_work_id = work_id, si_distance = distance,
      si_via_edges = sort_dedup (map (\<lambda>ev. ge_id (ee_edge ev))
        (filter (\<lambda>ev. ge_successor (ee_edge ev) = work_id
            \<and> bt_contains invalidated (ge_id (ee_edge ev))) (de_edges evaluation))),
      si_state = state,
      si_active_attempt = case_option False sf_active_attempt facts,
      si_pending_close_intent = case_option False sf_pending_close_intent facts,
      si_pending_review = case_option False sf_pending_review facts,
      si_requires_reconciliation = (state \<notin> {HistoricallyClosed, HistoricallyCancelled}),
      si_history_preserved = (facts \<noteq> None)\<rparr>)"

definition propagation_fuel :: "DependencyGraph \<Rightarrow> nat" where
  "propagation_fuel graph = (let n = length (dg_edges graph) in n * (n + 3))"

definition impact_of ::
  "DependencyGraph \<Rightarrow> DependencyEvaluation \<Rightarrow> (WorkId, SuccessorFacts) btree_map \<Rightarrow>
     DependencyInvalidation \<Rightarrow> AffectedSubgraph \<Rightarrow> DependencyImpact run" where
  "impact_of graph evaluation facts_by_id invalidation affected =
     (let evaluations = foldl (\<lambda>m ev. bt_insert (ge_id (ee_edge ev)) ev m) [] (de_edges evaluation);
          invalidated = initially_invalidated evaluation invalidation;
          (node_distance, queue) = foldl (seed_edge invalidated) ([], []) (de_edges evaluation)
      in run_bind
           (propagate (propagation_fuel graph) graph evaluations (invalidated, node_distance, queue))
           (\<lambda>(invalidated, node_distance). Return
              \<lparr>di_invalidation = invalidation, di_affected_subgraph = affected,
               di_invalidated_edges = bt_keys invalidated,
               di_successors = sort_key (\<lambda>s. (si_distance s, si_work_id s))
                 (map (successor_impact evaluation invalidated facts_by_id) node_distance)\<rparr>))"

definition dependency_impact ::
  "(nat \<Rightarrow> bool) \<Rightarrow> DependencyGraph \<Rightarrow> DependencyObservation list \<Rightarrow> SuccessorFacts list \<Rightarrow>
     DependencyInvalidation \<Rightarrow> EntityRevision \<Rightarrow> (DependencyImpactError + DependencyImpact) run" where
  "dependency_impact printable graph observations successor_facts invalidation at_revision =
     (case evaluate_dependencies printable graph observations at_revision of
        Inl error \<Rightarrow> Return (Inl (Evaluation error))
      | Inr evaluation \<Rightarrow>
          if de_diagnostics evaluation \<noteq> []
          then Return (Inl (EvaluationDiagnostics (de_diagnostics evaluation)))
          else case try_fold facts_step [] successor_facts of
            Inl error \<Rightarrow> Return (Inl error)
          | Inr facts_by_id \<Rightarrow>
              (case invalidation_root graph evaluation invalidation at_revision of
                 Inl error \<Rightarrow> Return (Inl error)
               | Inr root \<Rightarrow>
                   run_bind (affected_subgraph graph [root])
                     (case_sum (\<lambda>error. Return (Inl (AffectedSubgraph error)))
                        (\<lambda>affected. run_bind
                           (impact_of graph evaluation facts_by_id invalidation affected)
                           (\<lambda>impact. Return (Inr impact))))))"

section \<open>The walk computes shortest distances\<close>

text \<open>
  The state between two iterations.  Every recorded distance is witnessed by a walk; a node that
  left the queue has recorded successors; the queue is ordered by distance and nothing recorded is
  more than one above its head.
\<close>

definition dist_of :: "distances \<Rightarrow> WorkId \<Rightarrow> nat" where
  "dist_of m w = the (bt_get m w)"

definition reached :: "GraphEdge list \<Rightarrow> WorkId set \<Rightarrow> distances \<Rightarrow> bool" where
  "reached es R m \<longleftrightarrow> bt_wf m \<and> (\<forall>r \<in> R. bt_get m r = Some 0)
     \<and> (\<forall>w d. bt_get m w = Some d \<longrightarrow> (\<exists>r \<in> R. (r, w) \<in> graph_arcs es ^^ d))"

definition settled :: "GraphEdge list \<Rightarrow> distances \<Rightarrow> WorkId \<Rightarrow> bool" where
  "settled es m u \<longleftrightarrow> (\<forall>d v. bt_get m u = Some d \<longrightarrow> (u, v) \<in> graph_arcs es \<longrightarrow>
     (\<exists>d'. bt_get m v = Some d' \<and> d' \<le> d + 1))"

definition walk_head :: "GraphEdge list \<Rightarrow> WorkId set \<Rightarrow> distances \<Rightarrow> WorkId list \<Rightarrow> bool" where
  "walk_head es R m q \<longleftrightarrow> reached es R m \<and> set q \<subseteq> dom (bt_get m)
     \<and> (\<forall>w. w \<notin> set q \<longrightarrow> settled es m w)
     \<and> sorted (map (dist_of m) q)
     \<and> (q \<noteq> [] \<longrightarrow> (\<forall>w d. bt_get m w = Some d \<longrightarrow> d \<le> dist_of m (hd q) + 1))"

text \<open>The state while the edges \<open>ys\<close> of the node \<open>u\<close> at distance \<open>d\<close> have been handled.\<close>

definition walk_mid ::
  "GraphEdge list \<Rightarrow> WorkId set \<Rightarrow> WorkId \<Rightarrow> nat \<Rightarrow> GraphEdge list \<Rightarrow> distances \<times> WorkId list \<Rightarrow> bool" where
  "walk_mid es R u d ys s \<longleftrightarrow> (case s of (m, q) \<Rightarrow>
     reached es R m \<and> bt_get m u = Some d \<and> set q \<subseteq> dom (bt_get m)
     \<and> (\<forall>w. w \<notin> set q \<longrightarrow> w \<noteq> u \<longrightarrow> settled es m w)
     \<and> (\<forall>e \<in> set ys. \<exists>d'. bt_get m (ge_successor e) = Some d' \<and> d' \<le> d + 1)
     \<and> sorted (map (dist_of m) q) \<and> (\<forall>w \<in> set q. d \<le> dist_of m w)
     \<and> (\<forall>w d'. bt_get m w = Some d' \<longrightarrow> d' \<le> d + 1))"

lemma walk_mid_start:
  assumes "walk_head es R m (u # q)"
  shows "\<exists>d. bt_get m u = Some d \<and> walk_mid es R u d [] (m, q)"
proof -
  obtain d where d: "bt_get m u = Some d" using assms by (auto simp: walk_head_def)
  then have "dist_of m u = d" by (simp add: dist_of_def)
  with assms d show ?thesis by (auto simp: walk_head_def walk_mid_def)
qed

lemma reached_insert:
  assumes "reached es R m" and "bt_get m u = Some d" and "(u, v) \<in> graph_arcs es" and "bt_get m v = None"
  shows "reached es R (bt_insert v (d + 1) m)"
proof -
  have "\<exists>r \<in> R. (r, v) \<in> graph_arcs es ^^ (d + 1)"
    using assms(1-3) unfolding reached_def by fastforce
  with assms(1,4) show ?thesis by (auto simp: reached_def bt_get_insert)
qed

lemma walk_mid_step:
  assumes mid: "walk_mid es R u d ys s" and e: "e \<in> set es" "ge_predecessor e = u"
  shows "walk_mid es R u d (ys @ [e]) (reach_edge (d + 1) s e)"
proof (cases s)
  case (Pair m q)
  let ?v = "ge_successor e"
  note mid = mid [unfolded Pair walk_mid_def split_conv]
  show ?thesis
  proof (cases "bt_get m ?v")
    case (Some d')
    with mid show ?thesis by (auto simp: Pair reach_edge_def bt_contains_def walk_mid_def)
  next
    case None
    let ?m = "bt_insert ?v (d + 1) m"
    have wf: "bt_wf m" using mid by (simp add: reached_def)
    have arc: "(u, ?v) \<in> graph_arcs es" using e by (force simp: graph_arcs_def)
    note get = bt_get_insert [OF wf]
    have old: "w \<noteq> ?v" if "w \<in> set q" for w using that mid None by auto
    have keep: "dist_of ?m w = dist_of m w" if "w \<in> set q" for w
      using old [OF that] by (simp add: dist_of_def get)
    have "settled es ?m w" if "settled es m w" "w \<noteq> ?v" for w
      using that None unfolding settled_def get by fastforce
    moreover have "sorted (map (dist_of ?m) (q @ [?v]))"
    proof -
      have same: "map (dist_of ?m) q = map (dist_of m) q" using keep by simp
      have new: "dist_of ?m ?v = d + 1" by (simp add: dist_of_def get)
      have "dist_of m w \<le> d + 1" if "w \<in> set q" for w
        using that mid by (auto simp: dist_of_def)
      then show ?thesis using mid unfolding map_append same sorted_append by (auto simp: new [simplified])
    qed
    moreover have "reached es R ?m" using mid None arc by (intro reached_insert) auto
    ultimately have "walk_mid es R u d (ys @ [e]) (?m, q @ [?v])"
      using mid None keep unfolding walk_mid_def by (auto simp: get dist_of_def)
    then show ?thesis using None by (simp add: Pair reach_edge_def bt_contains_def)
  qed
qed

lemma walk_mid_loop:
  "walk_mid es R u d ys s \<Longrightarrow> (\<And>e. e \<in> set xs \<Longrightarrow> e \<in> set es \<and> ge_predecessor e = u) \<Longrightarrow>
     walk_mid es R u d (ys @ xs) (foldl (reach_edge (d + 1)) s xs)"
proof (induction xs arbitrary: ys s)
  case (Cons x xs)
  have "walk_mid es R u d (ys @ [x]) (reach_edge (d + 1) s x)"
    using Cons.prems by (intro walk_mid_step) auto
  from Cons.IH [OF this] Cons.prems(2) show ?case by simp
qed simp

lemma walk_mid_end:
  assumes mid: "walk_mid es R u d ys (m, q)" and all: "\<And>e. e \<in> set es \<Longrightarrow> ge_predecessor e = u \<Longrightarrow> e \<in> set ys"
  shows "walk_head es R m q"
proof -
  note mid = mid [unfolded walk_mid_def split_conv]
  have "settled es m u"
    using mid all by (auto simp: settled_def graph_arcs_def)
  moreover have "d' \<le> dist_of m (hd q) + 1" if "q \<noteq> []" "bt_get m w = Some d'" for w d'
    using mid that by (metis add_le_mono1 hd_in_set le_trans)
  ultimately show ?thesis using mid unfolding walk_head_def by blast
qed

text \<open>Each iteration removes one entry; an entry is added only with a new node.\<close>

definition successor_set :: "DependencyGraph \<Rightarrow> WorkId set" where
  "successor_set g = ge_successor ` set (dg_edges g)"

lemma finite_successor_set [simp]: "finite (successor_set g)"
  by (simp add: successor_set_def)

lemma card_successor_set: "card (successor_set g) \<le> length (dg_edges g)"
  unfolding successor_set_def by (rule order_trans [OF card_image_le card_length]) simp

definition walk_cost :: "DependencyGraph \<Rightarrow> distances \<times> WorkId list \<Rightarrow> nat" where
  "walk_cost g s = length (snd s) + card (successor_set g - dom (bt_get (fst s)))"

lemma reach_edge_cost:
  assumes "bt_wf (fst s)" and "e \<in> set (dg_edges g)"
  shows "walk_cost g (reach_edge n s e) = walk_cost g s \<and> bt_wf (fst (reach_edge n s e))"
proof (cases s)
  case (Pair m q)
  let ?v = "ge_successor e"
  show ?thesis
  proof (cases "bt_get m ?v")
    case None
    then have "?v \<in> successor_set g - dom (bt_get m)" using assms(2) by (auto simp: successor_set_def)
    then have "card (successor_set g - insert ?v (dom (bt_get m))) + 1
        = card (successor_set g - dom (bt_get m))"
      by (metis Diff_insert Suc_eq_plus1 card_Suc_Diff1 finite_Diff finite_successor_set)
    with None assms(1) show ?thesis
      by (simp add: Pair reach_edge_def bt_contains_def walk_cost_def bt.dom_put)
  next
    case (Some d)
    with assms(1) show ?thesis by (simp add: Pair reach_edge_def bt_contains_def)
  qed
qed

lemma reach_edges_cost:
  "bt_wf (fst s) \<Longrightarrow> set xs \<subseteq> set (dg_edges g) \<Longrightarrow>
     walk_cost g (foldl (reach_edge n) s xs) = walk_cost g s"
proof (induction xs arbitrary: s)
  case (Cons x xs)
  with reach_edge_cost [OF Cons.prems(1), of x g n] show ?case by simp
qed simp

lemma walk_affected_correct:
  "walk_head (dg_edges g) R m q \<Longrightarrow> walk_cost g (m, q) \<le> fuel \<Longrightarrow>
     \<exists>m'. walk_affected fuel g m q = Return m' \<and> walk_head (dg_edges g) R m' []"
proof (induction fuel arbitrary: m q)
  case 0
  then have "q = []" by (simp add: walk_cost_def)
  with 0 show ?case by simp
next
  case (Suc fuel)
  show ?case
  proof (cases q)
    case Nil
    with Suc show ?thesis by simp
  next
    case (Cons u rest)
    obtain d where d: "bt_get m u = Some d" "walk_mid (dg_edges g) R u d [] (m, rest)"
      using walk_mid_start [of "dg_edges g" R m u rest] Suc.prems(1) by (auto simp: Cons)
    let ?s = "foldl (reach_edge (d + 1)) (m, rest) (outgoing g u)"
    obtain m1 q1 where s: "?s = (m1, q1)" by (cases ?s)
    have "walk_mid (dg_edges g) R u d ([] @ outgoing g u) ?s"
      by (rule walk_mid_loop [OF d(2)]) (simp add: outgoing_def)
    then have head: "walk_head (dg_edges g) R m1 q1"
      unfolding s append_Nil by (rule walk_mid_end) (simp add: outgoing_def)
    have wf: "bt_wf m" using Suc.prems(1) by (simp add: walk_head_def reached_def)
    have "walk_cost g (m1, q1) = walk_cost g (m, rest)"
      using reach_edges_cost [of "(m, rest)" "outgoing g u" g "d + 1"] wf
      unfolding s by (auto simp: outgoing_def)
    then have "walk_cost g (m1, q1) \<le> fuel" using Suc.prems(2) by (simp add: Cons walk_cost_def)
    from Suc.IH [OF head this] d(1) s Cons show ?thesis by simp
  qed
qed

lemma walk_done:
  assumes "walk_head es R m []"
  shows "bt_get m w = Some d \<longleftrightarrow> hops (graph_arcs es) R w d"
proof -
  have "bt_get m w = Some d \<longleftrightarrow> 0 \<le> d \<and> hops (graph_arcs es) R w (d - 0)"
    by (rule hops_of_closed) (use assms in \<open>auto simp: walk_head_def reached_def settled_def\<close>)
  then show ?thesis by simp
qed

lemma walk_start:
  "walk_head es (set rs) (foldl (\<lambda>m r. bt_insert r 0 m) [] rs) rs"
proof -
  let ?m = "foldl (\<lambda>m r. bt_insert r 0 m) [] rs"
  have fold: "?m = fold (\<lambda>r. bt_insert r 0) rs []" by (simp add: foldl_conv_fold)
  have get: "bt_get ?m w = (if w \<in> set rs then Some 0 else None)" for w
    unfolding fold by (induction rs rule: rev_induct)
      (auto simp: bt_get_insert bt.invar_fold_put [where f = "\<lambda>r. r"])
  have "bt_wf ?m" unfolding fold using bt.invar_fold_put [of "[]" "\<lambda>r. r" "\<lambda>_. 0" rs] by simp
  moreover have "sorted (map (dist_of ?m) rs)"
  proof -
    have "map (dist_of ?m) rs = map (\<lambda>_. 0) rs" by (simp add: dist_of_def get)
    moreover have "sorted (map (\<lambda>_. 0 :: nat) rs)" by (induction rs) simp_all
    ultimately show ?thesis by (simp only:)
  qed
  ultimately show ?thesis
    by (auto simp: walk_head_def reached_def settled_def get dom_def split: if_splits)
qed

section \<open>The affected subgraph is the reachable part\<close>

definition affected_correct :: "DependencyGraph \<Rightarrow> WorkId list \<Rightarrow> AffectedSubgraph \<Rightarrow> bool" where
  "affected_correct g roots a \<longleftrightarrow> as_roots a = sort_dedup roots
     \<and> sorted (map an_work_id (as_nodes a)) \<and> distinct (map an_work_id (as_nodes a))
     \<and> (\<forall>n. n \<in> set (as_nodes a) \<longleftrightarrow> an_work_id n \<notin> set roots
          \<and> hops (graph_arcs (dg_edges g)) (set roots) (an_work_id n) (an_distance n))
     \<and> as_edges a = filter (\<lambda>e. ge_successor e \<notin> set roots
          \<and> (\<exists>r \<in> set roots. (r, ge_predecessor e) \<in> (graph_arcs (dg_edges g))\<^sup>*)) (dg_edges g)"

definition affected_of :: "DependencyGraph \<Rightarrow> WorkId list \<Rightarrow> distances \<Rightarrow> AffectedSubgraph" where
  "affected_of graph canonical_roots distance =
     \<lparr>as_roots = canonical_roots,
      as_nodes = map (\<lambda>(work_id, d). \<lparr>an_work_id = work_id, an_distance = d\<rparr>)
        (filter (\<lambda>(work_id, _). work_id \<notin> set canonical_roots) distance),
      as_edges = filter (\<lambda>edge. bt_contains distance (ge_predecessor edge)
          \<and> bt_contains distance (ge_successor edge)
          \<and> ge_successor edge \<notin> set canonical_roots) (dg_edges graph)\<rparr>"

lemma affected_nodes_sorted:
  assumes "bt_wf m"
  shows "sorted (map an_work_id (as_nodes (affected_of g rs m)))"
    "distinct (map an_work_id (as_nodes (affected_of g rs m)))"
proof -
  have keys: "map an_work_id (as_nodes (affected_of g rs m)) = filter (\<lambda>w. w \<notin> set rs) (map fst m)"
    by (simp add: affected_of_def filter_map o_def split_def)
  show "sorted (map an_work_id (as_nodes (affected_of g rs m)))"
    "distinct (map an_work_id (as_nodes (affected_of g rs m)))"
    unfolding keys using assms by (simp_all add: bt_wf_def sorted_filter [where f = id, simplified])
qed

lemma affected_of_correct:
  assumes head: "walk_head (dg_edges g) (set roots) m []"
  shows "affected_correct g roots (affected_of g (sort_dedup roots) m)"
proof -
  let ?A = "graph_arcs (dg_edges g)"
  have wf: "bt_wf m" using head by (simp add: walk_head_def reached_def)
  have reach: "bt_contains m w \<longleftrightarrow> (\<exists>r \<in> set roots. (r, w) \<in> ?A\<^sup>*)" for w
    using hops_reach [of ?A "set roots" w] walk_done [OF head] by (auto simp: bt_contains_def)
  have succ: "bt_contains m (ge_successor e)" if "e \<in> set (dg_edges g)" "bt_contains m (ge_predecessor e)" for e
  proof -
    have "(ge_predecessor e, ge_successor e) \<in> ?A" using that(1) by (auto simp: graph_arcs_def)
    then show ?thesis using that(2) unfolding reach by (meson rtrancl.rtrancl_into_rtrancl)
  qed
  have nodes: "n \<in> set (as_nodes (affected_of g (sort_dedup roots) m)) \<longleftrightarrow>
      an_work_id n \<notin> set roots \<and> hops ?A (set roots) (an_work_id n) (an_distance n)" for n
    unfolding walk_done [OF head, symmetric] bt_get_in_set [OF wf, symmetric]
    by (cases n) (force simp: affected_of_def)
  have edges: "as_edges (affected_of g (sort_dedup roots) m) = filter (\<lambda>e. ge_successor e \<notin> set roots
      \<and> (\<exists>r \<in> set roots. (r, ge_predecessor e) \<in> ?A\<^sup>*)) (dg_edges g)"
    unfolding reach [symmetric] by (auto simp: affected_of_def succ intro: filter_cong)
  show ?thesis
    using affected_nodes_sorted [OF wf] nodes edges
    by (simp add: affected_correct_def) (simp add: affected_of_def)
qed

lemma affected_subgraph_cases:
  "\<exists>r. affected_subgraph g roots = Return r \<and>
     (case r of Inl (UnknownRoot w) \<Rightarrow> w \<in> set roots \<and> \<not> has_work g w
      | Inr a \<Rightarrow> (\<forall>w \<in> set roots. has_work g w) \<and> affected_correct g roots a)"
proof (cases "find (\<lambda>root. \<not> has_work g root) (sort_dedup roots)")
  case (Some w)
  then have "w \<in> set (sort_dedup roots) \<and> \<not> has_work g w"
    by (auto simp: find_Some_iff simp del: set_sort_dedup)
  with Some show ?thesis by (simp add: affected_subgraph_def)
next
  case None
  let ?rs = "sort_dedup roots"
  let ?m = "foldl (\<lambda>m r. bt_insert r 0 m) [] ?rs"
  have "card (successor_set g - dom (bt_get ?m)) \<le> length (dg_edges g)"
    by (rule order_trans [OF card_mono card_successor_set]) auto
  then have "walk_cost g (?m, ?rs) \<le> length ?rs + length (dg_edges g)" by (simp add: walk_cost_def)
  from walk_affected_correct [OF walk_start [of "dg_edges g" ?rs] this] obtain m' where
    m': "walk_affected (length ?rs + length (dg_edges g)) g ?m ?rs = Return m'"
    "walk_head (dg_edges g) (set roots) m' []" by auto
  then have "affected_subgraph g roots = Return (Inr (affected_of g ?rs m'))"
    using None by (simp add: affected_subgraph_def affected_of_def)
  moreover have "\<forall>w \<in> set roots. has_work g w" using None by (auto simp: find_None_iff)
  ultimately show ?thesis using affected_of_correct [OF m'(2)] by simp
qed

section \<open>The propagation reaches a fixed point\<close>

type_synonym evaluation_index = "(DependencyId, EdgeEvaluation) btree_map"

definition edge_accepted :: "evaluation_index \<Rightarrow> GraphEdge \<Rightarrow> bool" where
  "edge_accepted evs e \<longleftrightarrow>
     (\<exists>ev. bt_get evs (ge_id e) = Some ev \<and> is_accepted_closed (ee_satisfaction ev))"

definition accepted_edges :: "evaluation_index \<Rightarrow> DependencyGraph \<Rightarrow> GraphEdge list" where
  "accepted_edges evs g = filter (edge_accepted evs) (dg_edges g)"

text \<open>What holds of every propagation state: seeds \<open>R\<close> are at distance one, recorded distances are
  witnessed by accepted walks and bounded by the number of recorded nodes, and an invalidated edge
  was invalid from the start or leaves a recorded node.\<close>

definition spreading ::
  "evaluation_index \<Rightarrow> DependencyGraph \<Rightarrow> WorkId set \<Rightarrow> DependencyId set \<Rightarrow> propagation \<Rightarrow> bool" where
  "spreading evs g R I s \<longleftrightarrow> (case s of (inv_edges, m, q) \<Rightarrow>
     bt_wf inv_edges \<and> bt_wf m \<and> (\<forall>r \<in> R. bt_get m r = Some 1)
     \<and> (\<forall>w d. bt_get m w = Some d \<longrightarrow> 1 \<le> d \<and> d \<le> card (dom (bt_get m))
          \<and> (\<exists>r \<in> R. (r, w) \<in> graph_arcs (accepted_edges evs g) ^^ (d - 1)))
     \<and> set q \<subseteq> dom (bt_get m) \<and> dom (bt_get m) \<subseteq> successor_set g \<and> I \<subseteq> bs_elems inv_edges
     \<and> bs_elems inv_edges \<subseteq>
         I \<union> {ge_id e | e. e \<in> set (accepted_edges evs g) \<and> ge_predecessor e \<in> dom (bt_get m)})"

definition spread :: "propagation \<Rightarrow> GraphEdge \<Rightarrow> bool" where
  "spread s e \<longleftrightarrow> (case s of (inv_edges, m, q) \<Rightarrow> ge_id e \<in> bs_elems inv_edges \<and>
     (\<forall>d. bt_get m (ge_predecessor e) = Some d \<longrightarrow>
        (\<exists>d'. bt_get m (ge_successor e) = Some d' \<and> d' \<le> d + 1)))"

definition spread_except :: "evaluation_index \<Rightarrow> DependencyGraph \<Rightarrow> WorkId set \<Rightarrow> propagation \<Rightarrow> bool" where
  "spread_except evs g X s \<longleftrightarrow> (\<forall>e \<in> set (accepted_edges evs g).
     ge_predecessor e \<in> dom (bt_get (fst (snd s))) \<longrightarrow> ge_predecessor e \<notin> X \<longrightarrow>
     ge_predecessor e \<notin> set (snd (snd s)) \<longrightarrow> spread s e)"

text \<open>One accepted edge, with the effect on the distances spelt out.\<close>

definition lowered :: "distances \<Rightarrow> WorkId \<Rightarrow> nat \<Rightarrow> bool" where
  "lowered m v n \<longleftrightarrow> (case bt_get m v of None \<Rightarrow> True | Some current \<Rightarrow> n < current)"

lemma propagate_edge_accepted:
  assumes "edge_accepted evs e"
  shows "propagate_edge evs d (inv_edges, m, q) e =
    (bs_insert (ge_id e) inv_edges,
     if lowered m (ge_successor e) (d + 1) then bt_insert (ge_successor e) (d + 1) m else m,
     if \<not> bt_contains inv_edges (ge_id e) \<or> lowered m (ge_successor e) (d + 1)
     then q @ [ge_successor e] else q)"
  using assms by (auto simp: edge_accepted_def propagate_edge_def lowered_def Let_def)

lemma propagate_edge_skipped:
  "\<not> edge_accepted evs e \<Longrightarrow> propagate_edge evs d s e = s"
  by (cases s) (auto simp: edge_accepted_def propagate_edge_def split: option.splits)

lemma spreading_step:
  assumes s: "spreading evs g R I (inv_edges, m, q)" and u: "bt_get m (ge_predecessor e) = Some d"
    and e: "e \<in> set (dg_edges g)" and acc: "edge_accepted evs e"
  shows "spreading evs g R I (propagate_edge evs d (inv_edges, m, q) e)"
proof -
  let ?v = "ge_successor e" and ?A = "graph_arcs (accepted_edges evs g)"
  let ?m = "if lowered m ?v (d + 1) then bt_insert ?v (d + 1) m else m"
  note s = s [unfolded spreading_def split_conv]
  have e': "e \<in> set (accepted_edges evs g)" using e acc by (simp add: accepted_edges_def)
  then have arc: "(ge_predecessor e, ?v) \<in> ?A" by (auto simp: graph_arcs_def)
  have wf: "bt_wf m" and fin: "finite (dom (bt_get m))" using s bt.finite_dom by auto
  have v_in: "lowered m ?v (d + 1) \<or> ?v \<in> dom (bt_get m)"
    by (auto simp: lowered_def split: option.splits)
  have get: "bt_get ?m w = (if w = ?v \<and> lowered m ?v (d + 1) then Some (d + 1) else bt_get m w)" for w
    using wf by (simp add: bt_get_insert)
  have dom: "dom (bt_get ?m) = insert ?v (dom (bt_get m))" using wf v_in by (auto simp: bt.dom_put)
  have walk: "\<exists>r \<in> R. (r, ?v) \<in> ?A ^^ d"
  proof -
    obtain r where "r \<in> R" "(r, ge_predecessor e) \<in> ?A ^^ (d - 1)" "1 \<le> d" using s u by blast
    then show ?thesis using arc by (cases d) auto
  qed
  have card: "d + 1 \<le> card (insert ?v (dom (bt_get m)))" if low: "lowered m ?v (d + 1)"
  proof (cases "bt_get m ?v")
    case None
    then have "card (insert ?v (dom (bt_get m))) = card (dom (bt_get m)) + 1"
      using fin by (simp add: domIff)
    then show ?thesis using s u by auto
  next
    case (Some c)
    then have "c \<le> card (dom (bt_get m))" "d + 1 < c" using s low by (auto simp: lowered_def)
    moreover have "insert ?v (dom (bt_get m)) = dom (bt_get m)" using Some by auto
    ultimately show ?thesis by simp
  qed
  have mono: "card (dom (bt_get m)) \<le> card (insert ?v (dom (bt_get m)))"
    using fin by (intro card_mono) auto
  have dist: "1 \<le> x \<and> x \<le> card (dom (bt_get ?m)) \<and> (\<exists>r \<in> R. (r, w) \<in> ?A ^^ (x - 1))"
    if "bt_get ?m w = Some x" for w x
  proof (cases "w = ?v \<and> lowered m ?v (d + 1)")
    case True
    then have "x = d + 1" using that unfolding get by simp
    with True walk card show ?thesis unfolding dom by auto
  next
    case False
    then have "bt_get m w = Some x" using that unfolding get by auto
    then show ?thesis unfolding dom using s mono by (meson le_trans)
  qed
  have "bt_get m r \<noteq> None \<and> \<not> (d + 1 < the (bt_get m r))" if "r \<in> R" for r using s that by auto
  then have roots: "\<forall>r \<in> R. bt_get ?m r = Some 1" using s unfolding get by (auto simp: lowered_def)
  have "?v \<in> successor_set g" using e by (auto simp: successor_set_def)
  then have nodes: "dom (bt_get ?m) \<subseteq> successor_set g" using s unfolding dom by blast
  have queue: "set (if P then q @ [?v] else q) \<subseteq> dom (bt_get ?m)" for P
    using s unfolding dom by auto
  have ins: "bs_elems (bs_insert (ge_id e) inv_edges) = insert (ge_id e) (bs_elems inv_edges)"
    using s by simp
  have "I \<subseteq> insert (ge_id e) (bs_elems inv_edges)" using s by blast
  moreover have "insert (ge_id e) (bs_elems inv_edges) \<subseteq> I \<union>
      {ge_id x | x. x \<in> set (accepted_edges evs g) \<and> ge_predecessor x \<in> dom (bt_get ?m)}"
  proof -
    have "ge_predecessor e \<in> dom (bt_get ?m)" using u unfolding dom by (simp add: domI)
    moreover have "dom (bt_get m) \<subseteq> dom (bt_get ?m)" unfolding dom by blast
    ultimately show ?thesis using s e' by blast
  qed
  ultimately show ?thesis
    unfolding propagate_edge_accepted [OF acc] spreading_def split_conv ins
    using s roots dist nodes queue by (intro conjI) simp_all
qed

text \<open>How one accepted edge changes the three parts of the state.\<close>

lemma propagate_edge_parts:
  assumes acc: "edge_accepted evs e" and wf: "bt_wf inv_edges" "bt_wf m"
    and s': "propagate_edge evs d (inv_edges, m, q) e = (inv_edges', m', q')"
  shows "bs_elems inv_edges' = insert (ge_id e) (bs_elems inv_edges)"
    "bt_get m' w = (if w = ge_successor e \<and> lowered m w (d + 1) then Some (d + 1) else bt_get m w)"
    "set q \<subseteq> set q'" "lowered m (ge_successor e) (d + 1) \<Longrightarrow> ge_successor e \<in> set q'"
  using s' wf unfolding propagate_edge_accepted [OF acc] by (auto simp: bt_get_insert)

lemma lowered_le: "\<not> lowered m v n \<Longrightarrow> \<exists>c. bt_get m v = Some c \<and> c \<le> n"
  by (auto simp: lowered_def split: option.splits)

lemma lowered_less: "lowered m v n \<Longrightarrow> bt_get m v = Some c \<Longrightarrow> n < c"
  by (simp add: lowered_def)

lemma propagate_edge_spread_mono:
  assumes acc: "edge_accepted evs e" and wf: "bt_wf inv_edges" "bt_wf m"
    and s': "propagate_edge evs d (inv_edges, m, q) e = (inv_edges', m', q')"
    and old: "spread (inv_edges, m, q) x"
    and same: "\<not> (ge_predecessor x = ge_successor e \<and> lowered m (ge_predecessor x) (d + 1))"
  shows "spread (inv_edges', m', q') x"
proof -
  note parts = propagate_edge_parts [OF acc wf s']
  have "bt_get m' (ge_predecessor x) = bt_get m (ge_predecessor x)" using same by (auto simp: parts(2))
  moreover have "\<exists>c'. bt_get m' w = Some c' \<and> c' \<le> c" if "bt_get m w = Some c" for w c
  proof (cases "w = ge_successor e \<and> lowered m w (d + 1)")
    case True
    then have "d + 1 < c" using that lowered_less by blast
    with True show ?thesis by (auto simp: parts(2))
  next
    case False
    with that show ?thesis by (auto simp: parts(2))
  qed
  ultimately show ?thesis
    using old parts(1) unfolding spread_def split_conv by (metis insertCI le_trans)
qed

definition spread_mid ::
  "evaluation_index \<Rightarrow> DependencyGraph \<Rightarrow> WorkId \<Rightarrow> nat \<Rightarrow> GraphEdge list \<Rightarrow> propagation \<Rightarrow> bool" where
  "spread_mid evs g u d ys s \<longleftrightarrow> bt_get (fst (snd s)) u = Some d \<and> spread_except evs g {u} s
     \<and> (\<forall>e \<in> set ys. edge_accepted evs e \<longrightarrow> spread s e)"

lemma spread_mid_step:
  assumes base: "spreading evs g R I s" and mid: "spread_mid evs g u d ys s"
    and ys: "\<forall>x \<in> set ys. ge_predecessor x = u"
    and e: "ge_predecessor e = u"
  shows "spread_mid evs g u d (ys @ [e]) (propagate_edge evs d s e)"
proof (cases "edge_accepted evs e")
  case False
  with mid show ?thesis by (simp add: propagate_edge_skipped spread_mid_def)
next
  case acc: True
  obtain inv_edges m q where s: "s = (inv_edges, m, q)" by (cases s)
  obtain inv_edges' m' q' where s': "propagate_edge evs d (inv_edges, m, q) e = (inv_edges', m', q')"
    by (cases "propagate_edge evs d (inv_edges, m, q) e")
  have wf: "bt_wf inv_edges" "bt_wf m" using base by (simp_all add: s spreading_def)
  note parts = propagate_edge_parts [OF acc wf s']
  note mono = propagate_edge_spread_mono [OF acc wf s']
  have u: "bt_get m u = Some d" using mid by (simp add: s spread_mid_def)
  have u_same: "\<not> lowered m u (d + 1)" using u by (simp add: lowered_def)
  have u': "bt_get m' u = Some d" using u u_same by (auto simp: parts(2))
  have handled: "spread (inv_edges', m', q') x" if "x \<in> set ys" "edge_accepted evs x" for x
    by (rule mono) (use that mid ys u_same in \<open>auto simp: s spread_mid_def\<close>)
  have "\<exists>c. bt_get m' (ge_successor e) = Some c \<and> c \<le> d + 1"
    using lowered_le [of m "ge_successor e" "d + 1"] by (auto simp: parts(2))
  then have this_edge: "spread (inv_edges', m', q') e" using u' e by (simp add: spread_def parts(1))
  have "spread (inv_edges', m', q') x"
    if "x \<in> set (accepted_edges evs g)" "ge_predecessor x \<in> dom (bt_get m')" "ge_predecessor x \<noteq> u"
      "ge_predecessor x \<notin> set q'" for x
  proof -
    have same: "\<not> (ge_predecessor x = ge_successor e \<and> lowered m (ge_predecessor x) (d + 1))"
      using that(4) parts(4) by auto
    then have "ge_predecessor x \<in> dom (bt_get m)" using that(2) by (auto simp: parts(2) split: if_splits)
    then have "spread (inv_edges, m, q) x"
      using mid that parts(3) unfolding s spread_mid_def spread_except_def by auto
    then show ?thesis by (rule mono [OF _ same])
  qed
  with u' handled this_edge show ?thesis
    by (auto simp: s s' spread_mid_def spread_except_def)
qed

lemma spread_loop:
  assumes "\<forall>x \<in> set (ys @ xs). ge_predecessor x = u \<and> x \<in> set (dg_edges g)"
    and "spreading evs g R I s" and "spread_mid evs g u d ys s"
  shows "spreading evs g R I (foldl (propagate_edge evs d) s xs)
    \<and> spread_mid evs g u d (ys @ xs) (foldl (propagate_edge evs d) s xs)"
  using assms
proof (induction xs arbitrary: ys s)
  case (Cons x xs)
  let ?s = "propagate_edge evs d s x"
  obtain inv_edges m q where s: "s = (inv_edges, m, q)" by (cases s)
  have x: "ge_predecessor x = u" "x \<in> set (dg_edges g)" using Cons.prems(1) by simp_all
  have "spreading evs g R I ?s"
  proof (cases "edge_accepted evs x")
    case True
    have "bt_get m (ge_predecessor x) = Some d" using Cons.prems(3) x by (simp add: s spread_mid_def)
    with True Cons.prems(2) x show ?thesis unfolding s by (intro spreading_step)
  next
    case False
    with Cons.prems(2) show ?thesis by (simp add: propagate_edge_skipped)
  qed
  moreover have "spread_mid evs g u d (ys @ [x]) ?s"
    by (rule spread_mid_step [OF Cons.prems(2,3)]) (use Cons.prems(1) in simp_all)
  ultimately show ?case using Cons.IH [of "ys @ [x]" ?s] Cons.prems(1) by simp
qed simp

section \<open>The propagation terminates within its fuel\<close>

definition node_cost :: "DependencyGraph \<Rightarrow> distances \<Rightarrow> WorkId \<Rightarrow> nat" where
  "node_cost g m v = (case bt_get m v of None \<Rightarrow> card (successor_set g) + 1 | Some c \<Rightarrow> c)"

definition uninvalidated :: "DependencyGraph \<Rightarrow> DependencyId btree_set \<Rightarrow> nat" where
  "uninvalidated g inv_edges = card (ge_id ` set (dg_edges g) - bs_elems inv_edges)"

definition propagation_cost :: "DependencyGraph \<Rightarrow> propagation \<Rightarrow> nat" where
  "propagation_cost g s = (case s of (inv_edges, m, q) \<Rightarrow>
     length q + uninvalidated g inv_edges + (\<Sum>v \<in> successor_set g. node_cost g m v))"

lemma uninvalidated_insert:
  assumes "bt_wf inv_edges" and "e \<in> set (dg_edges g)"
  shows "uninvalidated g (bs_insert (ge_id e) inv_edges)
    + (if bt_contains inv_edges (ge_id e) then 0 else 1) = uninvalidated g inv_edges"
proof (cases "bt_contains inv_edges (ge_id e)")
  case True
  then have "insert (ge_id e) (bs_elems inv_edges) = bs_elems inv_edges" by (auto simp: bt_contains_bs)
  with True assms(1) show ?thesis by (simp add: uninvalidated_def)
next
  case False
  then have "ge_id e \<in> ge_id ` set (dg_edges g) - bs_elems inv_edges"
    using assms(2) by (simp add: bt_contains_bs)
  then have card: "Suc (card (ge_id ` set (dg_edges g) - bs_elems inv_edges - {ge_id e}))
      = card (ge_id ` set (dg_edges g) - bs_elems inv_edges)"
    by (rule card_Suc_Diff1 [OF finite_Diff [OF finite_imageI [OF finite_set]]])
  have elems: "bs_elems (bs_insert (ge_id e) inv_edges) = insert (ge_id e) (bs_elems inv_edges)"
    using assms(1) by (rule bs_elems_insert)
  show ?thesis
    unfolding uninvalidated_def elems if_not_P [OF False]
    using card by (simp add: Diff_insert [of _ "ge_id e" "bs_elems inv_edges"])
qed

lemma node_cost_lowered:
  assumes "bt_wf m" and "v \<in> successor_set g" and "n < node_cost g m v"
  shows "(\<Sum>w \<in> successor_set g. node_cost g (bt_insert v n m) w) + 1
    \<le> (\<Sum>w \<in> successor_set g. node_cost g m w)"
proof -
  have new: "node_cost g (bt_insert v n m) w = (if w = v then n else node_cost g m w)" for w
    using assms(1) by (simp add: node_cost_def bt_get_insert)
  have "(\<Sum>w \<in> successor_set g. node_cost g (bt_insert v n m) w)
      = n + (\<Sum>w \<in> successor_set g - {v}. node_cost g m w)"
    by (subst sum.remove [OF finite_successor_set assms(2)]) (simp add: new)
  also have "\<dots> + 1 \<le> node_cost g m v + (\<Sum>w \<in> successor_set g - {v}. node_cost g m w)"
    using assms(3) by simp
  also have "\<dots> = (\<Sum>w \<in> successor_set g. node_cost g m w)"
    by (rule sum.remove [OF finite_successor_set assms(2), symmetric])
  finally show ?thesis by simp
qed

lemma lowered_cost:
  assumes base: "spreading evs g R I (inv_edges, m, q)" and u: "bt_get m u = Some d"
    and low: "lowered m v (d + 1)" and v: "v \<in> successor_set g"
  shows "d + 1 < node_cost g m v"
proof (cases "bt_get m v")
  case None
  note base = base [unfolded spreading_def split_conv]
  have "insert v (dom (bt_get m)) \<subseteq> successor_set g" using base v by blast
  then have "card (insert v (dom (bt_get m))) \<le> card (successor_set g)"
    by (intro card_mono) simp_all
  moreover have "card (insert v (dom (bt_get m))) = Suc (card (dom (bt_get m)))"
    by (rule card_insert_disjoint) (use None base bt.finite_dom in \<open>auto simp: domIff\<close>)
  moreover have "d \<le> card (dom (bt_get m))" using base u by blast
  ultimately show ?thesis by (simp add: node_cost_def None)
next
  case (Some c)
  with lowered_less [OF low Some] show ?thesis by (simp add: node_cost_def)
qed

lemma propagate_edge_cost:
  assumes base: "spreading evs g R I s" and u: "bt_get (fst (snd s)) (ge_predecessor e) = Some d"
    and e: "e \<in> set (dg_edges g)"
  shows "propagation_cost g (propagate_edge evs d s e) \<le> propagation_cost g s"
proof (cases "edge_accepted evs e")
  case False
  then show ?thesis by (simp add: propagate_edge_skipped)
next
  case acc: True
  obtain inv_edges m q where s: "s = (inv_edges, m, q)" by (cases s)
  have wf: "bt_wf inv_edges" "bt_wf m" using base by (simp_all add: s spreading_def)
  have v: "ge_successor e \<in> successor_set g" using e by (auto simp: successor_set_def)
  have low: "(\<Sum>w \<in> successor_set g. node_cost g (bt_insert (ge_successor e) (d + 1) m) w) + 1
      \<le> (\<Sum>w \<in> successor_set g. node_cost g m w)" if "lowered m (ge_successor e) (d + 1)"
    using lowered_cost [OF base [unfolded s] _ that v] u
    by (intro node_cost_lowered wf v) (simp add: s)
  show ?thesis
    using low uninvalidated_insert [OF wf(1) e]
    by (auto simp: s propagate_edge_accepted [OF acc] propagation_cost_def)
qed

lemma spread_loop_cost:
  assumes "\<forall>x \<in> set (ys @ xs). ge_predecessor x = u \<and> x \<in> set (dg_edges g)"
    and "spreading evs g R I s" and "spread_mid evs g u d ys s"
  shows "propagation_cost g (foldl (propagate_edge evs d) s xs) \<le> propagation_cost g s"
  using assms
proof (induction xs arbitrary: ys s)
  case (Cons x xs)
  let ?s = "propagate_edge evs d s x"
  have x: "ge_predecessor x = u" "x \<in> set (dg_edges g)" using Cons.prems(1) by simp_all
  have "spreading evs g R I ?s \<and> spread_mid evs g u d (ys @ [x]) ?s"
    using spread_loop [of ys "[x]"] Cons.prems by simp
  then have "propagation_cost g (foldl (propagate_edge evs d) ?s xs) \<le> propagation_cost g ?s"
    using Cons.IH [of "ys @ [x]" ?s] Cons.prems(1) by simp
  also have "\<dots> \<le> propagation_cost g s"
    by (rule propagate_edge_cost [OF Cons.prems(2) _ x(2)])
      (use Cons.prems(3) x(1) in \<open>simp add: spread_mid_def\<close>)
  finally show ?case by simp
qed simp

lemma propagate_correct:
  "spreading evs g R I s \<Longrightarrow> spread_except evs g {} s \<Longrightarrow> propagation_cost g s \<le> fuel \<Longrightarrow>
    \<exists>inv_edges m. propagate fuel g evs s = Return (inv_edges, m)
      \<and> spreading evs g R I (inv_edges, m, []) \<and> spread_except evs g {} (inv_edges, m, [])"
proof (induction fuel arbitrary: s)
  case 0
  then show ?case by (cases s) (simp add: propagation_cost_def)
next
  case (Suc fuel)
  obtain inv_edges m q where s: "s = (inv_edges, m, q)" by (cases s)
  show ?case
  proof (cases q)
    case Nil
    with Suc.prems show ?thesis by (simp add: s)
  next
    case (Cons u rest)
    let ?s0 = "(inv_edges, m, rest)"
    obtain d where d: "bt_get m u = Some d"
      using Suc.prems(1) by (auto simp: s Cons spreading_def)
    have base: "spreading evs g R I ?s0" using Suc.prems(1) by (simp add: s Cons spreading_def)
    have mid: "spread_mid evs g u d [] ?s0"
      using Suc.prems(2) d by (auto simp: s Cons spread_mid_def spread_except_def spread_def)
    have out: "\<forall>x \<in> set ([] @ outgoing g u). ge_predecessor x = u \<and> x \<in> set (dg_edges g)"
      by (simp add: outgoing_def)
    let ?s1 = "foldl (propagate_edge evs d) ?s0 (outgoing g u)"
    note loop = spread_loop [OF out base mid]
    have "spread_except evs g {} ?s1"
    proof -
      have "x \<in> set (outgoing g u)" if "x \<in> set (accepted_edges evs g)" "ge_predecessor x = u" for x
        using that by (simp add: outgoing_def accepted_edges_def)
      moreover have "edge_accepted evs x" if "x \<in> set (accepted_edges evs g)" for x
        using that by (simp add: accepted_edges_def)
      ultimately show ?thesis using loop unfolding spread_mid_def spread_except_def append_Nil by blast
    qed
    moreover have "propagation_cost g ?s1 \<le> fuel"
      using spread_loop_cost [OF out base mid] Suc.prems(3)
      by (simp add: s Cons propagation_cost_def)
    ultimately obtain inv' m' where "propagate fuel g evs ?s1 = Return (inv', m')"
      "spreading evs g R I (inv', m', [])" "spread_except evs g {} (inv', m', [])"
      using Suc.IH [OF conjunct1 [OF loop]] by blast
    then show ?thesis by (simp add: s Cons d)
  qed
qed

text \<open>What the fixed point says.\<close>

lemma propagated:
  assumes base: "spreading evs g R I (inv_edges, m, [])" and all: "spread_except evs g {} (inv_edges, m, [])"
  shows "bt_get m w = Some d \<longleftrightarrow> 1 \<le> d \<and> hops (graph_arcs (accepted_edges evs g)) R w (d - 1)"
    and "bs_elems inv_edges = I \<union> {ge_id e | e. e \<in> set (accepted_edges evs g)
      \<and> (\<exists>r \<in> R. (r, ge_predecessor e) \<in> (graph_arcs (accepted_edges evs g))\<^sup>*)}"
proof -
  let ?A = "graph_arcs (accepted_edges evs g)"
  note base = base [unfolded spreading_def split_conv]
  have closed: "\<exists>d'. bt_get m v = Some d' \<and> d' \<le> d + 1" if "bt_get m u = Some d" "(u, v) \<in> ?A" for u v d
    using that all by (auto simp: graph_arcs_def spread_except_def spread_def)
  have dist: "bt_get m w = Some d \<longleftrightarrow> 1 \<le> d \<and> hops ?A R w (d - 1)" for w d
    by (rule hops_of_closed [OF _ _ closed]) (use base in auto)
  then show "bt_get m w = Some d \<longleftrightarrow> 1 \<le> d \<and> hops ?A R w (d - 1)" .
  have dom: "w \<in> dom (bt_get m) \<longleftrightarrow> (\<exists>r \<in> R. (r, w) \<in> ?A\<^sup>*)" for w
  proof -
    have "w \<in> dom (bt_get m) \<longleftrightarrow> (\<exists>d. 1 \<le> d \<and> hops ?A R w (d - 1))" by (auto simp: dom_def dist)
    also have "\<dots> \<longleftrightarrow> (\<exists>n. hops ?A R w n)" by (metis add_diff_cancel_left' le_add1)
    finally show ?thesis by (simp add: hops_reach)
  qed
  have "ge_id e \<in> bs_elems inv_edges" if "e \<in> set (accepted_edges evs g)" "ge_predecessor e \<in> dom (bt_get m)" for e
    using that all by (auto simp: spread_except_def spread_def)
  then show "bs_elems inv_edges = I \<union> {ge_id e | e. e \<in> set (accepted_edges evs g)
      \<and> (\<exists>r \<in> R. (r, ge_predecessor e) \<in> ?A\<^sup>*)}"
    using base unfolding dom [symmetric] by blast
qed

section \<open>Seeding\<close>

lemma seed_fold:
  assumes "bt_wf m" and "\<forall>w d. bt_get m w = Some d \<longrightarrow> d = 1"
  shows "\<exists>m' q'. foldl (seed_edge inv_edges) (m, q) L = (m', q') \<and> bt_wf m'
    \<and> (\<forall>w. bt_get m' w = (if \<exists>ev \<in> set L. bt_contains inv_edges (ge_id (ee_edge ev))
          \<and> ge_successor (ee_edge ev) = w then Some 1 else bt_get m w))
    \<and> set q' = set q \<union> {ge_successor (ee_edge ev) | ev. ev \<in> set L \<and> bt_contains inv_edges (ge_id (ee_edge ev))}
    \<and> length q' \<le> length q + length L"
  using assms
proof (induction L arbitrary: m q)
  case (Cons ev L)
  let ?v = "ge_successor (ee_edge ev)"
  show ?case
  proof (cases "bt_contains inv_edges (ge_id (ee_edge ev))")
    case False
    with Cons.IH [OF Cons.prems, of q] show ?thesis by (simp add: seed_edge_def) force
  next
    case True
    have "(case bt_get m ?v of Some current \<Rightarrow> min current 1 | None \<Rightarrow> 1) = 1"
      using Cons.prems(2) by (auto split: option.splits)
    then have step: "seed_edge inv_edges (m, q) ev = (bt_insert ?v 1 m, q @ [?v])"
      using True by (simp add: seed_edge_def Let_def)
    have "bt_wf (bt_insert ?v 1 m)" "\<forall>w d. bt_get (bt_insert ?v 1 m) w = Some d \<longrightarrow> d = 1"
      using Cons.prems by (auto simp: bt_get_insert)
    from Cons.IH [OF this, of "q @ [?v]"] obtain m' q' where
      "foldl (seed_edge inv_edges) (bt_insert ?v 1 m, q @ [?v]) L = (m', q')" and m': "bt_wf m'"
      "\<forall>w. bt_get m' w = (if \<exists>ev \<in> set L. bt_contains inv_edges (ge_id (ee_edge ev))
          \<and> ge_successor (ee_edge ev) = w then Some 1 else bt_get (bt_insert ?v 1 m) w)"
      "set q' = set (q @ [?v]) \<union> {ge_successor (ee_edge ev) | ev. ev \<in> set L \<and> bt_contains inv_edges (ge_id (ee_edge ev))}"
      "length q' \<le> length (q @ [?v]) + length L" by blast
    then have "foldl (seed_edge inv_edges) (m, q) (ev # L) = (m', q')" by (simp add: step)
    then show ?thesis
      using m' True Cons.prems(1) by (intro exI [of _ m'] exI [of _ q']) (auto simp: bt_get_insert)
  qed
qed simp

section \<open>The impact of an invalidation in closed form\<close>

text \<open>The edges whose current satisfaction the invalidation withdraws, and the accepted edges.\<close>

definition invalidated_by :: "DependencyEvaluation \<Rightarrow> DependencyInvalidation \<Rightarrow> DependencyId set" where
  "invalidated_by ev invalidation = (case invalidation of
     Outcome out \<Rightarrow> {ge_id (ee_edge x) | x. x \<in> set (de_edges ev)
       \<and> ee_satisfaction x = AcceptedClosed (io_identity out) (io_proof_generation out)}
   | WaiverRevoked i _ _ _ \<Rightarrow> {i})"

definition accepted_links :: "DependencyEvaluation \<Rightarrow> GraphEdge list" where
  "accepted_links ev = map ee_edge (filter (\<lambda>x. is_accepted_closed (ee_satisfaction x)) (de_edges ev))"

definition seeds :: "DependencyGraph \<Rightarrow> DependencyId set \<Rightarrow> WorkId set" where
  "seeds g I = ge_successor ` {e \<in> set (dg_edges g). ge_id e \<in> I}"

lemma initially_invalidated_correct:
  "bt_wf (initially_invalidated ev invalidation)
   \<and> bs_elems (initially_invalidated ev invalidation) = invalidated_by ev invalidation"
proof (cases invalidation)
  case (Outcome out)
  let ?f = "\<lambda>s x. case ee_satisfaction x of
      AcceptedClosed identity proof_generation \<Rightarrow>
        if identity = io_identity out \<and> proof_generation = io_proof_generation out
        then bs_insert (ge_id (ee_edge x)) s else s
    | _ \<Rightarrow> s"
  have "bt_wf (foldl ?f s L) \<and> bs_elems (foldl ?f s L) = bs_elems s \<union> {ge_id (ee_edge x) | x. x \<in> set L
       \<and> ee_satisfaction x = AcceptedClosed (io_identity out) (io_proof_generation out)}"
    if "bt_wf s" for s L
    using that
  proof (induction L arbitrary: s)
    case (Cons x L)
    have "bt_wf (?f s x) \<and> bs_elems (?f s x) = bs_elems s \<union> (if ee_satisfaction x
        = AcceptedClosed (io_identity out) (io_proof_generation out) then {ge_id (ee_edge x)} else {})"
      using Cons.prems by (auto split: EdgeSatisfaction.splits)
    with Cons.IH [of "?f s x"] show ?case by (auto split: if_splits)
  qed simp
  from this [of "[]" "de_edges ev"] Outcome show ?thesis
    by (simp add: initially_invalidated_def invalidated_by_def)
next
  case (WaiverRevoked i rev p w)
  have "bt_wf (bs_insert i [])" "bs_elems (bs_insert i []) = {i}" by (simp_all del: bt_insert.simps)
  with WaiverRevoked show ?thesis
    by (simp add: initially_invalidated_def invalidated_by_def del: bt_insert.simps)
qed

lemma evaluate_one_edge: "ee_edge (fst (evaluate_one printable at s e)) = e"
  by (cases s) (auto simp: evaluate_one_def unobserved_def Let_def split: list.splits)

lemma evaluation_edges:
  assumes "distinct (map ge_id (dg_edges g))" and "evaluate_dependencies printable g obs at = Inr ev"
  shows "map ee_edge (de_edges ev) = dg_edges g"
  using assms(2) unfolding evaluate_dependencies_eq [OF assms(1)]
  by (auto simp: comp_def evaluate_one_edge)

definition evaluation_index :: "EdgeEvaluation list \<Rightarrow> evaluation_index" where
  "evaluation_index L = foldl (\<lambda>m ev. bt_insert (ge_id (ee_edge ev)) ev m) [] L"

lemma evaluation_index_get:
  assumes "distinct (map (\<lambda>x. ge_id (ee_edge x)) L)" and "x \<in> set L"
  shows "bt_get (evaluation_index L) (ge_id (ee_edge x)) = Some x"
  unfolding evaluation_index_def foldl_conv_fold
  using bt.lookup_fold_put_distinct [of "[]" "\<lambda>x. ge_id (ee_edge x)" L x "\<lambda>x. x"] assms by simp

lemma accepted_edges_links:
  assumes "distinct (map ge_id (dg_edges g))" and L: "map ee_edge (de_edges ev) = dg_edges g"
  shows "accepted_edges (evaluation_index (de_edges ev)) g = accepted_links ev"
proof -
  have "distinct (map (\<lambda>x. ge_id (ee_edge x)) (de_edges ev))"
    using assms(1) unfolding L [symmetric] by (simp add: comp_def)
  then have "edge_accepted (evaluation_index (de_edges ev)) (ee_edge x) \<longleftrightarrow> is_accepted_closed (ee_satisfaction x)"
    if "x \<in> set (de_edges ev)" for x
    using evaluation_index_get that by (auto simp: edge_accepted_def)
  then show ?thesis
    unfolding accepted_edges_def accepted_links_def L [symmetric]
    by (simp add: filter_map comp_def cong: filter_cong)
qed

lemma seeded:
  assumes L: "map ee_edge L = dg_edges g" and inv_edges: "bt_wf inv_edges" "bs_elems inv_edges = I"
  shows "\<exists>m q. foldl (seed_edge inv_edges) ([], []) L = (m, q)
    \<and> spreading evs g (seeds g I) I (inv_edges, m, q) \<and> spread_except evs g {} (inv_edges, m, q)
    \<and> length q \<le> length (dg_edges g)"
proof -
  obtain m q where fold: "foldl (seed_edge inv_edges) ([], []) L = (m, q)" and wf: "bt_wf m"
    and get: "\<forall>w. bt_get m w = (if \<exists>ev \<in> set L. bt_contains inv_edges (ge_id (ee_edge ev))
          \<and> ge_successor (ee_edge ev) = w then Some 1 else bt_get [] w)"
    and q: "set q = set [] \<union> {ge_successor (ee_edge ev) | ev. ev \<in> set L \<and> bt_contains inv_edges (ge_id (ee_edge ev))}"
    and len: "length q \<le> length ([] :: WorkId list) + length L"
    using seed_fold [of "[]" inv_edges "[]" L] by auto
  have edges: "set (dg_edges g) = ee_edge ` set L" unfolding L [symmetric] by simp
  have seeds: "w \<in> seeds g I \<longleftrightarrow> (\<exists>ev \<in> set L. bt_contains inv_edges (ge_id (ee_edge ev))
      \<and> ge_successor (ee_edge ev) = w)" for w
    by (auto simp: seeds_def edges bt_contains_bs inv_edges(2))
  have get': "bt_get m w = (if w \<in> seeds g I then Some 1 else None)" for w
    using get unfolding seeds by simp
  have dom: "dom (bt_get m) = seeds g I" by (auto simp: dom_def get' split: if_splits)
  have "finite (seeds g I)" by (simp add: seeds_def)
  then have card: "1 \<le> card (seeds g I)" if "w \<in> seeds g I" for w
    using that by (auto simp: Suc_le_eq card_gt_0_iff)
  have "set q = seeds g I" using q seeds by auto
  moreover have "seeds g I \<subseteq> successor_set g" by (auto simp: seeds_def successor_set_def)
  ultimately have "spreading evs g (seeds g I) I (inv_edges, m, q)"
    using wf inv_edges card by (auto simp: spreading_def get' dom split: if_splits)
  moreover have "spread_except evs g {} (inv_edges, m, q)"
    using \<open>set q = seeds g I\<close> by (simp add: spread_except_def dom)
  moreover have "length L = length (dg_edges g)" unfolding L [symmetric] by simp
  ultimately show ?thesis using fold len by auto
qed

lemma propagation_fuel_enough:
  assumes "spreading evs g R I (inv_edges, m, q)" and "length q \<le> length (dg_edges g)"
  shows "propagation_cost g (inv_edges, m, q) \<le> propagation_fuel g"
proof -
  let ?n = "length (dg_edges g)" and ?S = "successor_set g"
  have "card (ge_id ` set (dg_edges g) - bs_elems inv_edges) \<le> ?n"
    by (rule order_trans [OF card_mono [of "ge_id ` set (dg_edges g)"]])
      (auto intro: order_trans [OF card_image_le card_length])
  moreover have "node_cost g m v \<le> ?n + 1" for v
  proof (cases "bt_get m v")
    case None
    then show ?thesis using card_successor_set [of g] by (simp add: node_cost_def)
  next
    case (Some c)
    have "c \<le> card (dom (bt_get m))" "dom (bt_get m) \<subseteq> ?S"
      using assms(1) Some by (auto simp: spreading_def)
    then have "c \<le> card ?S" using card_mono [of ?S "dom (bt_get m)"] by simp
    with card_successor_set [of g] Some show ?thesis by (simp add: node_cost_def)
  qed
  then have "(\<Sum>v \<in> ?S. node_cost g m v) \<le> card ?S * (?n + 1)"
    using sum_bounded_above [of ?S "node_cost g m" "?n + 1"] by simp
  moreover have "card ?S * (?n + 1) \<le> ?n * (?n + 1)"
    using card_successor_set by (rule mult_le_mono1)
  ultimately show ?thesis
    using assms(2) by (simp add: propagation_cost_def uninvalidated_def propagation_fuel_def Let_def algebra_simps)
qed

definition impact_correct ::
  "DependencyGraph \<Rightarrow> DependencyEvaluation \<Rightarrow> DependencyInvalidation \<Rightarrow> DependencyImpact \<Rightarrow> bool" where
  "impact_correct g ev invalidation impact \<longleftrightarrow>
     (let I = invalidated_by ev invalidation; R = seeds g I; A = graph_arcs (accepted_links ev) in
      set (di_invalidated_edges impact) = I \<union> {ge_id e | e. e \<in> set (accepted_links ev)
          \<and> (\<exists>r \<in> R. (r, ge_predecessor e) \<in> A\<^sup>*)}
      \<and> sorted (di_invalidated_edges impact) \<and> distinct (di_invalidated_edges impact)
      \<and> (\<forall>w d. (\<exists>s \<in> set (di_successors impact). si_work_id s = w \<and> si_distance s = d)
            \<longleftrightarrow> 1 \<le> d \<and> hops A R w (d - 1))
      \<and> sorted (map (\<lambda>s. (si_distance s, si_work_id s)) (di_successors impact)))"

lemma successor_impact_keys:
  "si_work_id (successor_impact ev inv_edges fb x) = fst x"
  "si_distance (successor_impact ev inv_edges fb x) = snd x"
  by (simp_all add: successor_impact_def Let_def split_def)

lemma impact_of_correct:
  assumes dist: "distinct (map ge_id (dg_edges g))" and L: "map ee_edge (de_edges ev) = dg_edges g"
  shows "\<exists>impact. impact_of g ev fb invalidation affected = Return impact
    \<and> impact_correct g ev invalidation impact \<and> di_affected_subgraph impact = affected
    \<and> di_invalidation impact = invalidation"
proof -
  let ?I = "invalidated_by ev invalidation" and ?i0 = "initially_invalidated ev invalidation"
  let ?evs = "evaluation_index (de_edges ev)" and ?R = "seeds g (invalidated_by ev invalidation)"
  note init = initially_invalidated_correct [of ev invalidation]
  obtain m0 q0 where seed: "foldl (seed_edge ?i0) ([], []) (de_edges ev) = (m0, q0)"
    and s0: "spreading ?evs g ?R ?I (?i0, m0, q0)" "spread_except ?evs g {} (?i0, m0, q0)"
    and len: "length q0 \<le> length (dg_edges g)"
    using seeded [OF L conjunct1 [OF init] conjunct2 [OF init]] by blast
  obtain i m where run: "propagate (propagation_fuel g) g ?evs (?i0, m0, q0) = Return (i, m)"
    and s1: "spreading ?evs g ?R ?I (i, m, [])" "spread_except ?evs g {} (i, m, [])"
    using propagate_correct [OF s0 propagation_fuel_enough [OF s0(1) len]] by blast
  let ?succ = "map (successor_impact ev i fb) m"
  let ?impact = "\<lparr>di_invalidation = invalidation, di_affected_subgraph = affected,
    di_invalidated_edges = bt_keys i, di_successors = sort_key (\<lambda>s. (si_distance s, si_work_id s)) ?succ\<rparr>"
  have ret: "impact_of g ev fb invalidation affected = Return ?impact"
    using run seed by (simp add: impact_of_def evaluation_index_def [symmetric] Let_def)
  have wf: "bt_wf i" "bt_wf m" using s1(1) by (simp_all add: spreading_def)
  note fixed = propagated [OF s1, unfolded accepted_edges_links [OF dist L]]
  have "(\<exists>s \<in> set ?succ. si_work_id s = w \<and> si_distance s = d) \<longleftrightarrow> (w, d) \<in> set m" for w d
    by (force simp: successor_impact_keys)
  then have "(\<exists>s \<in> set (di_successors ?impact). si_work_id s = w \<and> si_distance s = d)
      \<longleftrightarrow> 1 \<le> d \<and> hops (graph_arcs (accepted_links ev)) ?R w (d - 1)" for w d
    using bt_get_in_set [OF wf(2), of w d] fixed(1) by simp
  moreover have "sorted (bt_keys i)" "distinct (bt_keys i)" using bt.sorted_keys [OF wf(1)] by simp_all
  moreover have "set (bt_keys i) = bs_elems i" by (rule bt_keys_bs)
  ultimately have "impact_correct g ev invalidation ?impact"
    unfolding impact_correct_def Let_def using fixed(2) by simp
  with ret show ?thesis by auto
qed

section \<open>Properties\<close>

text \<open>C19: The affected subgraph always returns, on any graph and any roots: an unknown root is the only
  error; otherwise the nodes are exactly the non-root works reachable from the roots, each once, in
  order, with the length of a shortest path, and the edges are exactly those that leave the
  reachable part towards a non-root.\<close>

theorem affected_subgraph_correct:
  "\<exists>r. affected_subgraph g roots = Return r \<and>
     (case r of Inl (UnknownRoot w) \<Rightarrow> w \<in> set roots \<and> \<not> has_work g w
      | Inr a \<Rightarrow> (\<forall>w \<in> set roots. has_work g w) \<and> affected_correct g roots a)"
  by (rule affected_subgraph_cases)

theorem affected_subgraph_correct_witness:
  "\<exists>g a. affected_subgraph g [Ident ''a''] = Return (Inr a) \<and> affected_correct g [Ident ''a''] a
     \<and> map an_distance (as_nodes a) = [1, 1, 2] \<and> length (as_edges a) = 4"
proof -
  let ?ns = "map (\<lambda>n. direct_task (Ident ''p'') (Ident n)) [''a'', ''b'', ''c'', ''d'']"
  let ?e = "\<lambda>i a b. closed_only (Ident i) (Ident ''p'') (Ident a) (Ident b) 1"
  let ?g = "canonical_graph (Ident ''p'') ?ns
    [?e ''1'' ''a'' ''b'', ?e ''2'' ''a'' ''c'', ?e ''3'' ''b'' ''d'', ?e ''4'' ''c'' ''d'']"
  let ?r = "affected_subgraph ?g [Ident ''a'']"
  let ?a = "case ?r of Return (Inr a) \<Rightarrow> a"
  have r: "?r = Return (Inr ?a)" by code_simp
  have d: "map an_distance (as_nodes ?a) = [1, 1, 2]" "length (as_edges ?a) = 4" by code_simp+
  have "affected_correct g rs a" if "affected_subgraph g rs = Return (Inr a)" for g rs a
    using affected_subgraph_correct [of g rs] that by auto
  from this [OF r] r d show ?thesis by (intro exI conjI)
qed

text \<open>C15: On a validated graph the impact preview always returns: neither work list runs out of fuel and
  no distance is missing.  The invalidated edges are the ones the invalidation withdraws, closed
  under acceptance: with an edge to a successor, every accepted edge out of it.  The successors are
  exactly the works those edges reach, with their shortest distance, in order.\<close>

theorem impact_preview_correct:
  assumes "validate_dependency_graph p nodes edges = Return (Inr g)"
  shows "\<exists>r. dependency_impact printable g obs facts invalidation at = Return r \<and>
    (\<forall>impact. r = Inr impact \<longrightarrow> (\<exists>ev root. evaluate_dependencies printable g obs at = Inr ev
       \<and> de_diagnostics ev = [] \<and> impact_correct g ev invalidation impact
       \<and> affected_correct g [root] (di_affected_subgraph impact)))"
proof -
  note dist = conjunct1 [OF validated_graph_ids [OF assms]]
  obtain ev where ev: "evaluate_dependencies printable g obs at = Inr ev"
    by (simp add: evaluate_dependencies_eq dist)
  note L = evaluation_edges [OF dist ev]
  show ?thesis
  proof (cases "de_diagnostics ev = [] \<and> (\<exists>fb. try_fold facts_step [] facts = Inr fb)
      \<and> (\<exists>root. invalidation_root g ev invalidation at = Inr root)")
    case False
    then show ?thesis using ev by (auto simp: dependency_impact_def split: sum.splits)
  next
    case True
    then obtain fb root where ok: "de_diagnostics ev = []" "try_fold facts_step [] facts = Inr fb"
      "invalidation_root g ev invalidation at = Inr root" by blast
    obtain r where r: "affected_subgraph g [root] = Return r"
      "case r of Inl (UnknownRoot w) \<Rightarrow> w \<in> set [root] \<and> \<not> has_work g w
        | Inr a \<Rightarrow> (\<forall>w \<in> set [root]. has_work g w) \<and> affected_correct g [root] a"
      using affected_subgraph_cases by blast
    show ?thesis
    proof (cases r)
      case (Inl e)
      with ev ok r show ?thesis by (simp add: dependency_impact_def)
    next
      case (Inr a)
      obtain impact where "impact_of g ev fb invalidation a = Return impact"
        "impact_correct g ev invalidation impact" "di_affected_subgraph impact = a"
        using impact_of_correct [OF dist L] by blast
      with ev ok r Inr show ?thesis by (auto simp: dependency_impact_def)
    qed
  qed
qed

theorem impact_preview_correct_witness:
  "\<exists>p ns es g obs impact. validate_dependency_graph p ns es = Return (Inr g)
     \<and> dependency_impact (\<lambda>_. True) g obs [] (WaiverRevoked (Ident ''1'') 3 p (Ident ''b'')) 7
         = Return (Inr impact)
     \<and> (\<exists>ev. impact_correct g ev (WaiverRevoked (Ident ''1'') 3 p (Ident ''b'')) impact)
     \<and> map si_distance (di_successors impact) = [1, 2]"
proof -
  let ?p = "Ident ''p'' :: ProjectId"
  let ?ns = "map (\<lambda>n. direct_task ?p (Ident n)) [''a'', ''b'', ''c'']"
  let ?e = "\<lambda>i a b. closed_only (Ident i) ?p (Ident a) (Ident b) 3"
  let ?es = "[?e ''1'' ''a'' ''b'', ?e ''2'' ''b'' ''c'']"
  let ?g = "canonical_graph ?p ?ns ?es"
  let ?i = "\<lambda>n. \<lparr>ei_project_id = ?p, ei_work_id = Ident n, ei_revision = 5\<rparr>"
  let ?w = "\<lparr>ew_decision_id = Ident ''x'', ew_edge_id = Ident ''1'', ew_edge_revision = 3,
    ew_project_id = ?p, ew_successor = Ident ''b'', ew_valid_from = 1, ew_revoked_at = None\<rparr>"
  let ?obs = "[\<lparr>do_edge_id = Ident ''1'', do_edge_revision = 3, do_predecessor = ?i ''a'',
      do_outcome = UpstreamOutcome.Open, do_waiver = Some ?w\<rparr>,
    \<lparr>do_edge_id = Ident ''2'', do_edge_revision = 3, do_predecessor = ?i ''b'',
      do_outcome = Closed (Accepted (?i ''b'') 2), do_waiver = None\<rparr>]"
  let ?inv = "WaiverRevoked (Ident ''1'') 3 ?p (Ident ''b'')"
  let ?r = "dependency_impact (\<lambda>_. True) ?g ?obs [] ?inv 7"
  let ?impact = "case ?r of Return (Inr x) \<Rightarrow> x"
  have g: "validate_dependency_graph ?p ?ns ?es = Return (Inr ?g)" by code_simp
  have r: "?r = Return (Inr ?impact)" by code_simp
  have d: "map si_distance (di_successors ?impact) = [1, 2]" by code_simp
  have "\<exists>ev. impact_correct h ev inv x"
    if "validate_dependency_graph p ns es = Return (Inr h)"
      "dependency_impact (\<lambda>_. True) h obs facts inv at = Return (Inr x)" for p ns es h obs facts inv at x
    using impact_preview_correct [OF that(1), of "\<lambda>_. True" obs facts inv at] that(2) by auto
  from this [OF g r] obtain ev where i: "impact_correct ?g ev ?inv ?impact" by (elim exE)
  from g r i d show ?thesis by (intro exI conjI)
qed

end
