(* ===== verification/Time_Policy.thy ===== *)
theory Time_Policy
  imports Lifecycle
begin

text \<open>
  Clock, lease, schedule and retry policy (\<open>crates/domain/src/time_policy.rs\<close>).  The module is
  pure: the caller supplies clock evidence and the persisted attempt.  Timestamps and delays stay
  64-bit words; every addition is checked and the backoff product saturates, as in the source.
\<close>

section \<open>Types\<close>

definition DEFAULT_RETRY_BASE_DELAY_MS :: u64 where
  "DEFAULT_RETRY_BASE_DELAY_MS = 1000"

definition DEFAULT_RETRY_MAX_DELAY_MS :: u64 where
  "DEFAULT_RETRY_MAX_DELAY_MS = 60 * 60 * 1000"

definition DEFAULT_MAX_RETRIES :: u32 where
  "DEFAULT_MAX_RETRIES = 8"

record RestartObservation =
  ro_persisted_at :: TimestampMs
  ro_monotonic_elapsed_ms :: "u64 option"

record PolicyClock =
  pc_observed_at :: TimestampMs
  pc_previous_observed_at :: "TimestampMs option"
  pc_restart :: "RestartObservation option"

definition clock_at :: "TimestampMs \<Rightarrow> PolicyClock" where
  "clock_at observed_at =
     \<lparr>pc_observed_at = observed_at, pc_previous_observed_at = None, pc_restart = None\<rparr>"

definition clock_after :: "TimestampMs \<Rightarrow> TimestampMs \<Rightarrow> PolicyClock" where
  "clock_after previous_observed_at observed_at =
     \<lparr>pc_observed_at = observed_at, pc_previous_observed_at = Some previous_observed_at,
      pc_restart = None\<rparr>"

definition clock_restarted :: "TimestampMs \<Rightarrow> TimestampMs \<Rightarrow> u64 option \<Rightarrow> PolicyClock" where
  "clock_restarted observed_at persisted_at monotonic_elapsed_ms =
     \<lparr>pc_observed_at = observed_at, pc_previous_observed_at = None,
      pc_restart = Some \<lparr>ro_persisted_at = persisted_at,
        ro_monotonic_elapsed_ms = monotonic_elapsed_ms\<rparr>\<rparr>"

datatype ClockValidity =
    Trusted
  | BackwardDiscontinuity TimestampMs TimestampMs
  | UnvalidatedRestart TimestampMs TimestampMs

fun allows_mutation :: "ClockValidity \<Rightarrow> bool" where
  "allows_mutation Trusted = True"
| "allows_mutation _ = False"

definition needs_reconciliation :: "ClockValidity \<Rightarrow> bool" where
  "needs_reconciliation v = (\<not> allows_mutation v)"

record ClockView =
  cv_observed_at :: TimestampMs
  cv_effective_at :: TimestampMs
  cv_validity :: ClockValidity

datatype DeadlineKind = Lease | HardBudget

datatype TimePolicyError =
    TimestampOverflow
  | DeadlineNotAfterClaim DeadlineKind TimestampMs TimestampMs
  | InvalidSchedule
  | InvalidBackoffBounds
  | BackoffOverflow
  | MissingExpiryReason
  | RenewalDeadlineNotAfterNow TimestampMs TimestampMs
  | RenewalShortensLease TimestampMs TimestampMs

definition max_timestamp :: "TimestampMs \<Rightarrow> TimestampMs \<Rightarrow> TimestampMs" where
  "max_timestamp left right = (if right \<le> left then left else right)"

definition add_timestamp :: "TimestampMs \<Rightarrow> u64 \<Rightarrow> TimePolicyError + TimestampMs" where
  "add_timestamp timestamp duration_ms =
     (case checked_add_u64 timestamp duration_ms of
        Some t \<Rightarrow> Inr t | None \<Rightarrow> Inl TimePolicyError.TimestampOverflow)"

section \<open>The clock\<close>

definition clock_resolve :: "PolicyClock \<Rightarrow> TimePolicyError + ClockView" where
  "clock_resolve c =
     (let observed = pc_observed_at c;
          (effective_at, validity) =
            (case pc_previous_observed_at c of
               Some previous \<Rightarrow>
                 if observed < previous then (previous, BackwardDiscontinuity previous observed)
                 else (observed, Trusted)
             | None \<Rightarrow> (observed, Trusted));
          view = (\<lambda>effective_at validity. Inr \<lparr>cv_observed_at = observed,
                    cv_effective_at = effective_at, cv_validity = validity\<rparr>)
      in case pc_restart c of
           None \<Rightarrow> view effective_at validity
         | Some restart \<Rightarrow>
             let effective_at = max_timestamp effective_at (ro_persisted_at restart) in
             (case ro_monotonic_elapsed_ms restart of
                Some elapsed \<Rightarrow>
                  sum_bind (add_timestamp (ro_persisted_at restart) elapsed)
                    (\<lambda>monotonic_at. view (max_timestamp effective_at monotonic_at) validity)
              | None \<Rightarrow>
                  view effective_at (UnvalidatedRestart (ro_persisted_at restart) observed)))"

section \<open>Attempt windows\<close>

record AttemptWindow =
  aw_claimed_at :: TimestampMs
  aw_lease_deadline :: TimestampMs
  aw_hard_deadline :: TimestampMs

definition window_new ::
  "TimestampMs \<Rightarrow> TimestampMs \<Rightarrow> TimestampMs \<Rightarrow> TimePolicyError + AttemptWindow" where
  "window_new claimed_at lease_deadline hard_deadline =
     (if lease_deadline \<le> claimed_at
      then Inl (DeadlineNotAfterClaim Lease claimed_at lease_deadline)
      else if hard_deadline \<le> claimed_at
      then Inl (DeadlineNotAfterClaim HardBudget claimed_at hard_deadline)
      else Inr \<lparr>aw_claimed_at = claimed_at, aw_lease_deadline = lease_deadline,
                aw_hard_deadline = hard_deadline\<rparr>)"

definition window_from_claim ::
  "TimestampMs \<Rightarrow> u64 option \<Rightarrow> u64 option \<Rightarrow> TimePolicyError + AttemptWindow" where
  "window_from_claim claimed_at lease_ttl_ms hard_time_limit_ms =
     sum_bind (add_timestamp claimed_at (case_option DEFAULT_LEASE_TTL_MS id lease_ttl_ms))
       (\<lambda>lease_deadline.
          sum_bind
            (add_timestamp claimed_at (case_option DEFAULT_HARD_TIME_LIMIT_MS id hard_time_limit_ms))
            (window_new claimed_at lease_deadline))"

definition window_from_attempt :: "Attempt \<Rightarrow> TimePolicyError + AttemptWindow" where
  "window_from_attempt a = window_new (a_claimed_at a) (a_lease_deadline a) (a_max_attempt_deadline a)"

definition window_lease_elapsed :: "AttemptWindow \<Rightarrow> TimestampMs \<Rightarrow> bool" where
  "window_lease_elapsed w as_of \<longleftrightarrow> aw_lease_deadline w \<le> as_of"

definition window_hard_budget_elapsed :: "AttemptWindow \<Rightarrow> TimestampMs \<Rightarrow> bool" where
  "window_hard_budget_elapsed w as_of \<longleftrightarrow> aw_hard_deadline w \<le> as_of"

definition window_expiry_reason :: "AttemptWindow \<Rightarrow> TimestampMs \<Rightarrow> ExpiryReason option" where
  "window_expiry_reason w as_of =
     (case (window_lease_elapsed w as_of, window_hard_budget_elapsed w as_of) of
        (False, False) \<Rightarrow> None
      | (True, False) \<Rightarrow> Some LeaseElapsed
      | (False, True) \<Rightarrow> Some HardBudgetElapsed
      | (True, True) \<Rightarrow>
          if aw_lease_deadline w < aw_hard_deadline w then Some LeaseElapsed
          else Some HardBudgetElapsed)"

definition future_deadlines :: "AttemptWindow \<Rightarrow> TimestampMs \<Rightarrow> TimestampMs list" where
  "future_deadlines w as_of =
     filter (\<lambda>deadline. as_of < deadline) [aw_lease_deadline w, aw_hard_deadline w]"

section \<open>Attempt decisions\<close>

datatype RecoveryState = NoRecovery | Pending

record AttemptSnapshot =
  snap_attempt :: Attempt
  snap_current :: bool
  snap_recovery :: RecoveryState
  snap_retained_expiry_reason :: "ExpiryReason option"

definition snapshot_current :: "Attempt \<Rightarrow> AttemptSnapshot" where
  "snapshot_current a = \<lparr>snap_attempt = a, snap_current = True,
     snap_recovery = NoRecovery, snap_retained_expiry_reason = None\<rparr>"

definition snapshot_current_with_recovery :: "Attempt \<Rightarrow> AttemptSnapshot" where
  "snapshot_current_with_recovery a = \<lparr>snap_attempt = a, snap_current = True,
     snap_recovery = Pending, snap_retained_expiry_reason = None\<rparr>"

definition snapshot_historical :: "Attempt \<Rightarrow> RecoveryState \<Rightarrow> AttemptSnapshot" where
  "snapshot_historical a recovery = \<lparr>snap_attempt = a, snap_current = False,
     snap_recovery = recovery, snap_retained_expiry_reason = None\<rparr>"

definition with_retained_expiry_reason :: "AttemptSnapshot \<Rightarrow> ExpiryReason \<Rightarrow> AttemptSnapshot" where
  "with_retained_expiry_reason s reason = s\<lparr>snap_retained_expiry_reason := Some reason\<rparr>"

definition timing_is_applicable :: "AttemptSnapshot \<Rightarrow> bool" where
  "timing_is_applicable s =
     (if snap_current s
      then a_phase (snap_attempt s) \<in> {AttemptPhase.Claimed, AttemptPhase.Accepted,
        AttemptPhase.Running, AttemptPhase.Verifying, AttemptPhase.ExpiryPending,
        AttemptPhase.Expired}
      else snap_recovery s = Pending)"

definition owns_execution :: "AttemptSnapshot \<Rightarrow> bool" where
  "owns_execution s \<longleftrightarrow> snap_current s
     \<and> a_phase (snap_attempt s) \<in> {AttemptPhase.Claimed, AttemptPhase.Accepted,
        AttemptPhase.Running, AttemptPhase.Verifying}"

record AuthorityToken =
  at_attempt_id :: AttemptId
  at_fence :: Fence

datatype AuthorityDecision = NotRequested | Authorized | StaleAttempt | StaleFence
  | HistoricalAttempt | TerminalAttempt | LeaseElapsed | HardBudgetElapsed
  | ClockDiscontinuity | ClockBeforeClaim

definition is_authorized :: "AuthorityDecision \<Rightarrow> bool" where
  "is_authorized d = (d = Authorized)"

record AttemptTimeDecision =
  td_current :: bool
  td_execution_owned :: bool
  td_lease_elapsed :: bool
  td_hard_budget_elapsed :: bool
  td_expired :: bool
  td_expiry_reason :: "ExpiryReason option"
  td_review_required :: bool
  td_authority :: AuthorityDecision
  td_next_reevaluation_at :: "TimestampMs option"

text \<open>\<open>into_iter().min()\<close>.\<close>

definition iter_min :: "TimestampMs list \<Rightarrow> TimestampMs option" where
  "iter_min ts = (if ts = [] then None else Some (fold min (tl ts) (hd ts)))"

text \<open>The \<open>match\<close> on the presented token, in the order of its arms.\<close>

definition decide_authority ::
  "AttemptSnapshot \<Rightarrow> ClockView \<Rightarrow> bool \<Rightarrow> bool \<Rightarrow> bool \<Rightarrow> AuthorityToken option \<Rightarrow> AuthorityDecision"
where
  "decide_authority snapshot clock before_claim hard_budget_elapsed lease_elapsed presented =
     (case presented of
        None \<Rightarrow> NotRequested
      | Some token \<Rightarrow>
          if \<not> snap_current snapshot then HistoricalAttempt
          else if before_claim then ClockBeforeClaim
          else if at_attempt_id token \<noteq> a_attempt_id (snap_attempt snapshot) then StaleAttempt
          else if at_fence token \<noteq> a_fence (snap_attempt snapshot) then AuthorityDecision.StaleFence
          else if \<not> owns_execution snapshot then TerminalAttempt
          else if \<not> allows_mutation (cv_validity clock) then ClockDiscontinuity
          else if hard_budget_elapsed then AuthorityDecision.HardBudgetElapsed
          else if lease_elapsed then AuthorityDecision.LeaseElapsed
          else Authorized)"

definition evaluate_attempt ::
  "AttemptSnapshot \<Rightarrow> PolicyClock \<Rightarrow> AuthorityToken option \<Rightarrow> TimePolicyError + AttemptTimeDecision"
where
  "evaluate_attempt snapshot policy_clock presented =
     sum_bind (clock_resolve policy_clock) (\<lambda>clock.
     sum_bind (window_from_attempt (snap_attempt snapshot)) (\<lambda>window.
       let now = cv_effective_at clock;
           phase = a_phase (snap_attempt snapshot);
           before_claim = now < aw_claimed_at window;
           applicable = timing_is_applicable snapshot;
           execution_owned = owns_execution snapshot;
           lease_elapsed = (applicable \<and> window_lease_elapsed window now);
           hard_budget_elapsed = (applicable \<and> window_hard_budget_elapsed window now);
           phase_requires_review = (snap_current snapshot
             \<and> phase \<in> {AttemptPhase.ExpiryPending, AttemptPhase.Expired});
           expired = (applicable \<and> (lease_elapsed \<or> hard_budget_elapsed \<or> phase_requires_review
             \<or> snap_recovery snapshot = Pending));
           review_required = (snap_recovery snapshot = Pending \<or> phase_requires_review);
           expiry_reason =
             (if \<not> expired then Inr None
              else case (case snap_retained_expiry_reason snapshot of
                  Some reason \<Rightarrow> Some reason | None \<Rightarrow> window_expiry_reason window now) of
                Some reason \<Rightarrow> Inr (Some reason)
              | None \<Rightarrow> Inl MissingExpiryReason)
       in sum_bind expiry_reason (\<lambda>reason. Inr
            \<lparr>td_current = snap_current snapshot, td_execution_owned = execution_owned,
             td_lease_elapsed = lease_elapsed, td_hard_budget_elapsed = hard_budget_elapsed,
             td_expired = expired, td_expiry_reason = reason,
             td_review_required = review_required,
             td_authority = decide_authority snapshot clock before_claim hard_budget_elapsed
               lease_elapsed presented,
             td_next_reevaluation_at =
               (if applicable \<and> \<not> needs_reconciliation (cv_validity clock) \<and> \<not> expired
                  \<and> \<not> review_required
                then iter_min (future_deadlines window now) else None)\<rparr>)))"

section \<open>Renewal\<close>

record LeaseRenewal =
  lr_previous_lease_deadline :: TimestampMs
  lr_new_lease_deadline :: TimestampMs
  lr_hard_deadline :: TimestampMs

datatype RenewalError = Authority AuthorityDecision | Time TimePolicyError

definition renew_lease ::
  "AttemptSnapshot \<Rightarrow> AuthorityToken \<Rightarrow> PolicyClock \<Rightarrow> u64 \<Rightarrow> RenewalError + LeaseRenewal" where
  "renew_lease snapshot token policy_clock lease_ttl_ms =
     sum_bind (map_sum Time id (evaluate_attempt snapshot policy_clock (Some token))) (\<lambda>decision.
     if \<not> is_authorized (td_authority decision) then Inl (Authority (td_authority decision)) else
     sum_bind (map_sum Time id (clock_resolve policy_clock)) (\<lambda>clock.
     sum_bind (map_sum Time id (window_from_attempt (snap_attempt snapshot))) (\<lambda>window.
     sum_bind (map_sum Time id (add_timestamp (cv_effective_at clock) lease_ttl_ms))
       (\<lambda>new_lease_deadline.
          if new_lease_deadline \<le> cv_effective_at clock
          then Inl (Time (RenewalDeadlineNotAfterNow (cv_effective_at clock) new_lease_deadline))
          else if new_lease_deadline < aw_lease_deadline window
          then Inl (Time (RenewalShortensLease (aw_lease_deadline window) new_lease_deadline))
          else Inr \<lparr>lr_previous_lease_deadline = aw_lease_deadline window,
                    lr_new_lease_deadline = new_lease_deadline,
                    lr_hard_deadline = aw_hard_deadline window\<rparr>))))"

section \<open>Schedules and retries\<close>

record WorkSchedule =
  ws_not_before_at :: "TimestampMs option"
  ws_due_at :: "TimestampMs option"
  ws_target_start_at :: "TimestampMs option"
  ws_target_end_at :: "TimestampMs option"

definition schedule_empty :: WorkSchedule where
  "schedule_empty = \<lparr>ws_not_before_at = None, ws_due_at = None,
     ws_target_start_at = None, ws_target_end_at = None\<rparr>"

record ScheduleDecision =
  sch_eligible :: bool
  sch_scheduled :: bool
  sch_overdue :: bool
  sch_next_change_at :: "TimestampMs option"

definition option_list :: "'a option \<Rightarrow> 'a list" where
  "option_list x = case_option [] (\<lambda>y. [y]) x"

definition evaluate_schedule ::
  "WorkSchedule \<Rightarrow> TimestampMs \<Rightarrow> bool \<Rightarrow> TimePolicyError + ScheduleDecision" where
  "evaluate_schedule schedule as_of terminal =
     (if (case (ws_target_start_at schedule, ws_target_end_at schedule) of
            (Some start, Some end_at) \<Rightarrow> end_at \<le> start | _ \<Rightarrow> False)
      then Inl InvalidSchedule
      else
        let scheduled = case_option False (\<lambda>at. as_of < at) (ws_not_before_at schedule) in
        Inr \<lparr>sch_eligible = (\<not> scheduled), sch_scheduled = scheduled,
             sch_overdue = (\<not> terminal \<and> case_option False (\<lambda>at. at \<le> as_of) (ws_due_at schedule)),
             sch_next_change_at =
               (if terminal then None
                else iter_min (filter (\<lambda>at. as_of < at)
                  (option_list (ws_not_before_at schedule) @ option_list (ws_due_at schedule))))\<rparr>)"

record RetryPolicy =
  rp_base_delay_ms :: u64
  rp_max_delay_ms :: u64
  rp_max_retries :: u32

definition retry_bounded :: "u64 \<Rightarrow> u64 \<Rightarrow> u32 \<Rightarrow> RetryPolicy" where
  "retry_bounded base_delay_ms max_delay_ms max_retries =
     \<lparr>rp_base_delay_ms = base_delay_ms, rp_max_delay_ms = max_delay_ms,
      rp_max_retries = max_retries\<rparr>"

definition retry_default :: RetryPolicy where
  "retry_default = retry_bounded DEFAULT_RETRY_BASE_DELAY_MS DEFAULT_RETRY_MAX_DELAY_MS
     DEFAULT_MAX_RETRIES"

definition retry_validate :: "RetryPolicy \<Rightarrow> TimePolicyError + unit" where
  "retry_validate p =
     (if rp_max_delay_ms p < rp_base_delay_ms p then Inl InvalidBackoffBounds else Inr ())"

definition delay_for :: "RetryPolicy \<Rightarrow> u32 \<Rightarrow> TimePolicyError + u64" where
  "delay_for p retry_index =
     sum_bind (retry_validate p) (\<lambda>_.
       let shift = min retry_index 63 in
       case checked_shl_u64 1 (unat shift) of
         None \<Rightarrow> Inl BackoffOverflow
       | Some multiplier \<Rightarrow>
           Inr (min (saturating_mul_u64 (rp_base_delay_ms p) multiplier) (rp_max_delay_ms p)))"

definition policy_retry_not_before ::
  "RetryPolicy \<Rightarrow> TimestampMs \<Rightarrow> u32 \<Rightarrow> TimePolicyError + TimestampMs" where
  "policy_retry_not_before p failed_at retry_index =
     sum_bind (delay_for p retry_index) (add_timestamp failed_at)"

record RetryInput =
  ri_failure_count :: u32
  ri_retry_not_before :: "TimestampMs option"

definition retry_input_none :: RetryInput where
  "retry_input_none = \<lparr>ri_failure_count = 0, ri_retry_not_before = None\<rparr>"

record RetryDecision =
  rd_exhausted :: bool
  rd_waiting :: bool
  rd_eligible :: bool
  rd_retry_not_before :: "TimestampMs option"
  rd_next_change_at :: "TimestampMs option"

definition evaluate_retry ::
  "RetryPolicy \<Rightarrow> RetryInput \<Rightarrow> TimestampMs \<Rightarrow> TimePolicyError + RetryDecision" where
  "evaluate_retry policy retry as_of =
     sum_bind (retry_validate policy) (\<lambda>_.
       let exhausted = rp_max_retries policy \<le> ri_failure_count retry;
           waiting = (\<not> exhausted
             \<and> case_option False (\<lambda>at. as_of < at) (ri_retry_not_before retry))
       in Inr \<lparr>rd_exhausted = exhausted, rd_waiting = waiting,
               rd_eligible = (\<not> exhausted \<and> \<not> waiting),
               rd_retry_not_before = ri_retry_not_before retry,
               rd_next_change_at = (case ri_retry_not_before retry of
                  Some at \<Rightarrow> if \<not> exhausted \<and> as_of < at then Some at else None
                | None \<Rightarrow> None)\<rparr>)"

section \<open>The combined policy\<close>

record TimePolicyInput =
  ti_clock :: PolicyClock
  ti_schedule :: WorkSchedule
  ti_terminal :: bool
  ti_retry_policy :: RetryPolicy
  ti_retry :: RetryInput
  ti_attempt :: "AttemptSnapshot option"
  ti_authority :: "AuthorityToken option"
  ti_exception_valid_until :: "TimestampMs option"
  ti_review_readback_at :: "TimestampMs option"

record TimePolicyDecision =
  pd_clock :: ClockView
  pd_schedule :: ScheduleDecision
  pd_retry :: RetryDecision
  pd_attempt :: "AttemptTimeDecision option"
  pd_exception_valid :: bool
  pd_overdue :: bool
  pd_next_reevaluation_at :: "TimestampMs option"

text \<open>\<open>Option::map(f).transpose()\<close>.\<close>

definition map_transpose :: "('a \<Rightarrow> 'e + 'b) \<Rightarrow> 'a option \<Rightarrow> 'e + 'b option" where
  "map_transpose f x = (case x of None \<Rightarrow> Inr None | Some y \<Rightarrow> map_sum id Some (f y))"

definition evaluate_time_policy :: "TimePolicyInput \<Rightarrow> TimePolicyError + TimePolicyDecision" where
  "evaluate_time_policy input =
     sum_bind (clock_resolve (ti_clock input)) (\<lambda>clock.
     sum_bind (evaluate_schedule (ti_schedule input) (cv_effective_at clock) (ti_terminal input))
       (\<lambda>schedule.
     sum_bind (evaluate_retry (ti_retry_policy input) (ti_retry input) (cv_effective_at clock))
       (\<lambda>retry.
     sum_bind (map_transpose (\<lambda>snapshot. evaluate_attempt snapshot (ti_clock input)
         (ti_authority input)) (ti_attempt input))
       (\<lambda>attempt.
     let now = cv_effective_at clock;
         expiry_review_active = case_option False td_review_required attempt;
         forward_progress_blocked =
           (needs_reconciliation (cv_validity clock) \<or> expiry_review_active);
         schedule =
           (if forward_progress_blocked
            then schedule\<lparr>sch_eligible := False, sch_next_change_at := None\<rparr> else schedule);
         retry =
           (if forward_progress_blocked
            then retry\<lparr>rd_eligible := False, rd_next_change_at := None\<rparr> else retry);
         exception_valid =
           (case ti_exception_valid_until input of None \<Rightarrow> True | Some until \<Rightarrow> now < until);
         timers =
           (if forward_progress_blocked then []
            else option_list (sch_next_change_at schedule)
              @ option_list (rd_next_change_at retry)
              @ filter (\<lambda>until. now < until) (option_list (ti_exception_valid_until input))
              @ filter (\<lambda>at. now < at) (option_list (ti_review_readback_at input))
              @ (case attempt of None \<Rightarrow> []
                 | Some d \<Rightarrow> option_list (td_next_reevaluation_at d)));
         timers = sort_dedup timers
     in Inr \<lparr>pd_clock = clock, pd_schedule = schedule, pd_retry = retry, pd_attempt = attempt,
             pd_exception_valid = exception_valid, pd_overdue = sch_overdue schedule,
             pd_next_reevaluation_at = (case timers of [] \<Rightarrow> None | t # _ \<Rightarrow> Some t)\<rparr>))))"

section \<open>Clock facts\<close>

lemma add_timestamp_Inr: "add_timestamp t d = Inr r \<longleftrightarrow> unat r = unat t + unat d"
  using checked_add_Some_iff [of t d r] by (auto simp: add_timestamp_def split: option.splits)

lemma add_timestamp_Inl:
  "add_timestamp t d = Inl e \<longleftrightarrow> e = TimePolicyError.TimestampOverflow \<and> 2 ^ 64 \<le> unat t + unat d"
  using checked_add_None_iff [of t d] by (auto simp: add_timestamp_def split: option.splits)

lemma max_timestamp_max: "max_timestamp a b = max a b"
  by (cases "a \<le> b"; cases "b \<le> a") (auto simp: max_timestamp_def max_def)

definition clock_floor :: "PolicyClock \<Rightarrow> TimestampMs \<Rightarrow> bool" where
  "clock_floor c t \<longleftrightarrow> t = pc_observed_at c \<or> pc_previous_observed_at c = Some t
     \<or> (\<exists>r. pc_restart c = Some r \<and> (t = ro_persisted_at r
          \<or> (\<exists>e. ro_monotonic_elapsed_ms r = Some e \<and> unat t = unat (ro_persisted_at r) + unat e)))"

definition clock_trusted :: "PolicyClock \<Rightarrow> bool" where
  "clock_trusted c \<longleftrightarrow> (\<forall>p. pc_previous_observed_at c = Some p \<longrightarrow> p \<le> pc_observed_at c)
     \<and> (\<forall>r. pc_restart c = Some r \<longrightarrow> ro_monotonic_elapsed_ms r \<noteq> None)"

definition restart_overflows :: "PolicyClock \<Rightarrow> bool" where
  "restart_overflows c \<longleftrightarrow> (\<exists>r e. pc_restart c = Some r \<and> ro_monotonic_elapsed_ms r = Some e
     \<and> 2 ^ 64 \<le> unat (ro_persisted_at r) + unat e)"

text \<open>The effective instant before the restart evidence is looked at.\<close>

definition sampled_at :: "PolicyClock \<Rightarrow> TimestampMs" where
  "sampled_at c = (case pc_previous_observed_at c of
     Some p \<Rightarrow> max (pc_observed_at c) p | None \<Rightarrow> pc_observed_at c)"

definition sampled_validity :: "PolicyClock \<Rightarrow> ClockValidity" where
  "sampled_validity c = (case pc_previous_observed_at c of
     Some p \<Rightarrow> if pc_observed_at c < p then BackwardDiscontinuity p (pc_observed_at c) else Trusted
   | None \<Rightarrow> Trusted)"

lemma clock_resolve_eq:
  "clock_resolve c = (case pc_restart c of
     None \<Rightarrow> Inr \<lparr>cv_observed_at = pc_observed_at c, cv_effective_at = sampled_at c,
       cv_validity = sampled_validity c\<rparr>
   | Some r \<Rightarrow> (case ro_monotonic_elapsed_ms r of
        None \<Rightarrow> Inr \<lparr>cv_observed_at = pc_observed_at c,
          cv_effective_at = max (sampled_at c) (ro_persisted_at r),
          cv_validity = UnvalidatedRestart (ro_persisted_at r) (pc_observed_at c)\<rparr>
      | Some e \<Rightarrow> sum_bind (add_timestamp (ro_persisted_at r) e) (\<lambda>m. Inr
          \<lparr>cv_observed_at = pc_observed_at c,
           cv_effective_at = max (max (sampled_at c) (ro_persisted_at r)) m,
           cv_validity = sampled_validity c\<rparr>)))"
proof -
  have "(case pc_previous_observed_at c of
      Some previous \<Rightarrow> if pc_observed_at c < previous
        then (previous, BackwardDiscontinuity previous (pc_observed_at c)) else (pc_observed_at c, Trusted)
    | None \<Rightarrow> (pc_observed_at c, Trusted)) = (sampled_at c, sampled_validity c)"
  proof (cases "pc_previous_observed_at c")
    case (Some p)
    then show ?thesis
      by (cases "pc_observed_at c < p") (simp_all add: sampled_at_def sampled_validity_def max_def less_imp_le)
  qed (simp add: sampled_at_def sampled_validity_def)
  then show ?thesis
    by (simp add: clock_resolve_def Let_def max_timestamp_max split: option.splits)
qed

lemma sampled_max:
  "pc_observed_at c \<le> sampled_at c" "pc_previous_observed_at c = Some p \<Longrightarrow> p \<le> sampled_at c"
  "sampled_at c = pc_observed_at c \<or> pc_previous_observed_at c = Some (sampled_at c)"
  by (auto simp: sampled_at_def max_def split: option.splits)

lemma sampled_trusted:
  "sampled_validity c = Trusted \<longleftrightarrow> (\<forall>p. pc_previous_observed_at c = Some p \<longrightarrow> p \<le> pc_observed_at c)"
  by (auto simp: sampled_validity_def split: option.splits)

lemma clock_resolve_Inr:
  assumes "clock_resolve c = Inr v"
  shows "(\<forall>t. clock_floor c t \<longrightarrow> t \<le> cv_effective_at v) \<and> clock_floor c (cv_effective_at v)
    \<and> (cv_validity v = Trusted \<longleftrightarrow> clock_trusted c)"
proof (cases "pc_restart c")
  case None
  then show ?thesis
    using assms sampled_max [of c] sampled_trusted [of c]
    by (auto simp: clock_resolve_eq clock_floor_def clock_trusted_def)
next
  case (Some r)
  note restart = this
  show ?thesis
  proof (cases "ro_monotonic_elapsed_ms r")
    case None
    then show ?thesis
      using assms sampled_max [of c] restart
      by (auto simp: clock_resolve_eq clock_floor_def clock_trusted_def max_def intro: order_trans)
  next
    case (Some e)
    then obtain m where m: "unat m = unat (ro_persisted_at r) + unat e"
      and v: "v = \<lparr>cv_observed_at = pc_observed_at c,
        cv_effective_at = max (max (sampled_at c) (ro_persisted_at r)) m, cv_validity = sampled_validity c\<rparr>"
      using assms restart by (auto simp: clock_resolve_eq sum_bind_Inr_iff add_timestamp_Inr)
    have floor: "clock_floor c t \<longleftrightarrow> t = pc_observed_at c \<or> pc_previous_observed_at c = Some t
        \<or> t = ro_persisted_at r \<or> t = m" for t
      using restart Some by (simp add: clock_floor_def m [symmetric] word_unat_eq_iff [symmetric])
    have "t \<le> max (max (sampled_at c) (ro_persisted_at r)) m" if "clock_floor c t" for t
      using that [unfolded floor] sampled_max [of c] by (elim disjE) (auto simp: le_max_iff_disj)
    moreover have "clock_floor c (max (max (sampled_at c) (ro_persisted_at r)) m)"
      unfolding floor using sampled_max(3) [of c] by (auto simp: max_def)
    moreover have "sampled_validity c = Trusted \<longleftrightarrow> clock_trusted c"
      using restart Some sampled_trusted [of c] by (auto simp: clock_trusted_def)
    ultimately show ?thesis by (simp add: v)
  qed
qed

lemma clock_resolve_Inl:
  "clock_resolve c = Inl e \<longleftrightarrow> e = TimePolicyError.TimestampOverflow \<and> restart_overflows c"
  by (auto simp: clock_resolve_eq restart_overflows_def sum_bind_Inl_iff add_timestamp_Inl
      split: option.splits)

lemma allows_mutation_iff: "allows_mutation v \<longleftrightarrow> v = Trusted"
  by (cases v) simp_all

section \<open>Attempt decisions in closed form\<close>

lemma window_from_attempt_Inr:
  "window_from_attempt a = Inr w \<longleftrightarrow> a_claimed_at a < a_lease_deadline a
     \<and> a_claimed_at a < a_max_attempt_deadline a
     \<and> w = \<lparr>aw_claimed_at = a_claimed_at a, aw_lease_deadline = a_lease_deadline a,
            aw_hard_deadline = a_max_attempt_deadline a\<rparr>"
  by (auto simp: window_from_attempt_def window_new_def not_le)

lemma decide_authority_authorized:
  "is_authorized (decide_authority s v before_claim hard lease presented) \<longleftrightarrow>
     (\<exists>token. presented = Some token \<and> snap_current s \<and> \<not> before_claim
        \<and> at_attempt_id token = a_attempt_id (snap_attempt s)
        \<and> at_fence token = a_fence (snap_attempt s) \<and> owns_execution s
        \<and> cv_validity v = Trusted \<and> \<not> hard \<and> \<not> lease)"
  by (auto simp: decide_authority_def is_authorized_def allows_mutation_iff split: option.splits)

lemma owns_applicable: "owns_execution s \<Longrightarrow> timing_is_applicable s"
  by (auto simp: owns_execution_def timing_is_applicable_def)

definition review_pending :: "AttemptSnapshot \<Rightarrow> bool" where
  "review_pending s \<longleftrightarrow> snap_recovery s = Pending \<or> snap_current s
     \<and> a_phase (snap_attempt s) \<in> {AttemptPhase.ExpiryPending, AttemptPhase.Expired}"

lemma evaluate_attempt_Inr:
  assumes "evaluate_attempt s c presented = Inr d"
  obtains v where "clock_resolve c = Inr v"
    "a_claimed_at (snap_attempt s) < a_lease_deadline (snap_attempt s)"
    "a_claimed_at (snap_attempt s) < a_max_attempt_deadline (snap_attempt s)"
    "td_lease_elapsed d \<longleftrightarrow> timing_is_applicable s \<and> a_lease_deadline (snap_attempt s) \<le> cv_effective_at v"
    "td_hard_budget_elapsed d \<longleftrightarrow>
       timing_is_applicable s \<and> a_max_attempt_deadline (snap_attempt s) \<le> cv_effective_at v"
    "td_review_required d \<longleftrightarrow> review_pending s"
    "td_expired d \<longleftrightarrow> timing_is_applicable s
       \<and> (td_lease_elapsed d \<or> td_hard_budget_elapsed d \<or> review_pending s)"
    "td_authority d = decide_authority s v (cv_effective_at v < a_claimed_at (snap_attempt s))
       (td_hard_budget_elapsed d) (td_lease_elapsed d) presented"
    "td_next_reevaluation_at d = (if timing_is_applicable s \<and> cv_validity v = Trusted \<and> \<not> td_expired d
         \<and> \<not> review_pending s
       then iter_min (filter (\<lambda>t. cv_effective_at v < t)
         [a_lease_deadline (snap_attempt s), a_max_attempt_deadline (snap_attempt s)]) else None)"
proof -
  obtain v w where v: "clock_resolve c = Inr v" and w: "window_from_attempt (snap_attempt s) = Inr w"
    using assms by (auto simp: evaluate_attempt_def sum_bind_Inr_iff)
  show ?thesis
    by (rule that [of v]) (use assms v w in \<open>auto simp: evaluate_attempt_def Let_def sum_bind_Inr_iff
      window_from_attempt_Inr window_lease_elapsed_def window_hard_budget_elapsed_def review_pending_def
      needs_reconciliation_def allows_mutation_iff future_deadlines_def\<close>)
qed

lemma evaluate_attempt_authorized:
  assumes "evaluate_attempt s c presented = Inr d" and "clock_resolve c = Inr v"
  shows "is_authorized (td_authority d) \<longleftrightarrow> (\<exists>token. presented = Some token \<and> owns_execution s
     \<and> at_attempt_id token = a_attempt_id (snap_attempt s) \<and> at_fence token = a_fence (snap_attempt s)
     \<and> cv_validity v = Trusted \<and> a_claimed_at (snap_attempt s) \<le> cv_effective_at v
     \<and> cv_effective_at v < a_lease_deadline (snap_attempt s)
     \<and> cv_effective_at v < a_max_attempt_deadline (snap_attempt s))"
proof (rule evaluate_attempt_Inr [OF assms(1)])
  fix w
  assume w: "clock_resolve c = Inr w"
    and lease: "td_lease_elapsed d \<longleftrightarrow> timing_is_applicable s \<and> a_lease_deadline (snap_attempt s) \<le> cv_effective_at w"
    and hard: "td_hard_budget_elapsed d \<longleftrightarrow>
       timing_is_applicable s \<and> a_max_attempt_deadline (snap_attempt s) \<le> cv_effective_at w"
    and decided: "td_authority d = decide_authority s w (cv_effective_at w < a_claimed_at (snap_attempt s))
       (td_hard_budget_elapsed d) (td_lease_elapsed d) presented"
  have "w = v" using w assms(2) by simp
  have current: "owns_execution s \<Longrightarrow> snap_current s" by (simp add: owns_execution_def)
  show ?thesis
    unfolding decided decide_authority_authorized lease hard \<open>w = v\<close> not_less
    using owns_applicable [of s] current by (auto simp: not_le)
qed

section \<open>Retries and timers\<close>

lemma delay_for_eq:
  "delay_for p i = (if rp_max_delay_ms p < rp_base_delay_ms p then Inl InvalidBackoffBounds
     else Inr (min (saturating_mul_u64 (rp_base_delay_ms p) (push_bit (min (unat i) 63) 1))
                   (rp_max_delay_ms p)))"
proof -
  have "unat (min i 63) = min (unat i) 63" by (simp add: min_def word_le_nat_alt)
  moreover have "min (unat i) 63 < 64" by simp
  ultimately show ?thesis
    by (simp add: delay_for_def retry_validate_def checked_shl_u64_def)
qed

lemma unat_min: "unat (min a b :: u64) = min (unat a) (unat b)"
  by (simp add: min_def word_le_nat_alt)

lemma unat_push_one: "n < 64 \<Longrightarrow> unat (push_bit n 1 :: u64) = 2 ^ n"
  using checked_shl_one [of n] by (auto simp: checked_shl_u64_def)

lemma iter_min_Some:
  "iter_min ts = Some t \<Longrightarrow> t \<in> set ts \<and> (\<forall>u \<in> set ts. t \<le> u)"
proof -
  have "fold min us u \<in> set (u # us) \<and> (\<forall>x \<in> set (u # us). fold min us u \<le> x)" for us and u :: u64
  proof (induction us arbitrary: u)
    case (Cons a us)
    from Cons.IH [of "min a u"] show ?case by (auto simp: min_def split: if_splits)
  qed simp
  then show "iter_min ts = Some t \<Longrightarrow> t \<in> set ts \<and> (\<forall>u \<in> set ts. t \<le> u)"
    by (cases ts) (auto simp: iter_min_def)
qed

lemma iter_min_None: "iter_min ts = None \<longleftrightarrow> ts = []"
  by (simp add: iter_min_def)

text \<open>Nothing in the list lies in the interval before the reported minimum.\<close>

lemma iter_min_quiet:
  assumes "u \<in> set ts" and "\<forall>n. iter_min ts = Some n \<longrightarrow> s < n"
  shows "s < u"
proof (cases "iter_min ts")
  case None
  with assms(1) show ?thesis by (simp add: iter_min_None)
next
  case (Some n)
  with assms iter_min_Some [OF Some] show ?thesis by (auto intro: less_le_trans)
qed

lemma unat_two_power: "n < 64 \<Longrightarrow> unat (2 ^ n :: u64) = 2 ^ n"
  using unat_push_one [of n] by simp

lemma window_expiry_reason_None:
  "window_expiry_reason w t = None \<longleftrightarrow> t < aw_lease_deadline w \<and> t < aw_hard_deadline w"
  by (auto simp: window_expiry_reason_def window_lease_elapsed_def window_hard_budget_elapsed_def
      not_le split: bool.splits)

lemma evaluate_attempt_Inl:
  assumes "clock_resolve c = Inr v" and "window_from_attempt (snap_attempt s) = Inr w"
  shows "evaluate_attempt s c p = Inl e \<longleftrightarrow> e = MissingExpiryReason \<and> timing_is_applicable s
    \<and> review_pending s \<and> snap_retained_expiry_reason s = None
    \<and> cv_effective_at v < aw_lease_deadline w \<and> cv_effective_at v < aw_hard_deadline w"
proof -
  have missing: "sum_bind (if \<not> b then Inr None
      else case r of Some x \<Rightarrow> Inr (Some x) | None \<Rightarrow> Inl MissingExpiryReason)
        (\<lambda>reason. Inr (f reason)) = Inl e \<longleftrightarrow> b \<and> r = None \<and> e = MissingExpiryReason"
    for b and r :: "ExpiryReason option" and f :: "ExpiryReason option \<Rightarrow> AttemptTimeDecision"
    by (auto split: option.splits)
  show ?thesis
    unfolding evaluate_attempt_def assms sum_bind_simps Let_def missing
    by (auto simp: window_expiry_reason_None review_pending_def window_lease_elapsed_def
        window_hard_budget_elapsed_def split: option.splits)
qed

section \<open>The reevaluation timer\<close>

text \<open>The policy's next reevaluation is the head of the sorted timers: no timer lies before it.\<close>

lemma sorted_timers_quiet:
  fixes u :: u64
  assumes "x \<in> set ts"
    and "\<forall>n. (case sort_dedup ts of [] \<Rightarrow> None | t # _ \<Rightarrow> Some t) = Some n \<longrightarrow> u < n"
  shows "u < x"
proof (cases "sort_dedup ts")
  case Nil
  with assms(1) show ?thesis by simp
next
  case (Cons y ys)
  then have "x \<in> set (y # ys)" using assms(1) set_sort_dedup [of ts] by simp
  moreover have "sorted (y # ys)" using Cons sorted_sort_dedup [of ts] by simp
  ultimately have "y \<le> x" by auto
  with assms(2) Cons show ?thesis by (auto intro: less_le_trans)
qed

lemma clock_at_resolve:
  "clock_resolve (clock_at t) = Inr \<lparr>cv_observed_at = t, cv_effective_at = t, cv_validity = Trusted\<rparr>"
  by (simp add: clock_resolve_def clock_at_def)

lemma evaluate_schedule_stable:
  assumes "evaluate_schedule w t False = Inr a" and "t \<le> u"
    and "\<forall>n. sch_next_change_at a = Some n \<longrightarrow> u < n"
  shows "\<exists>b. evaluate_schedule w u False = Inr b \<and> sch_eligible b = sch_eligible a
     \<and> sch_scheduled b = sch_scheduled a \<and> sch_overdue b = sch_overdue a"
proof -
  have quiet: "u < x" if "x \<in> set (option_list (ws_not_before_at w) @ option_list (ws_due_at w))" "t < x" for x
    by (rule iter_min_quiet [of _ "filter (\<lambda>at. t < at)
        (option_list (ws_not_before_at w) @ option_list (ws_due_at w))"])
      (use assms(1,3) that in \<open>auto simp: evaluate_schedule_def Let_def split: if_splits\<close>)
  have before: "u < x \<longleftrightarrow> t < x" if "ws_not_before_at w = Some x" for x
    using quiet [of x] that assms(2) by (auto simp: option_list_def intro: le_less_trans)
  have due: "x \<le> u \<longleftrightarrow> x \<le> t" if "ws_due_at w = Some x" for x
    using quiet [of x] that assms(2) by (auto simp: option_list_def not_less [symmetric] intro: le_less_trans)
  show ?thesis
    using assms(1) before due
    by (cases "ws_not_before_at w"; cases "ws_due_at w")
      (auto simp: evaluate_schedule_def Let_def split: if_splits)
qed

lemma evaluate_retry_stable:
  assumes "evaluate_retry pol r t = Inr a" and "t \<le> u"
    and "\<forall>n. rd_next_change_at a = Some n \<longrightarrow> u < n"
  shows "\<exists>b. evaluate_retry pol r u = Inr b \<and> rd_eligible b = rd_eligible a
     \<and> rd_waiting b = rd_waiting a \<and> rd_exhausted b = rd_exhausted a"
proof -
  have "u < x" if "ri_retry_not_before r = Some x" "t < x" "\<not> rp_max_retries pol \<le> ri_failure_count r" for x
    using assms(1,3) that by (auto simp: evaluate_retry_def Let_def sum_bind_Inr_iff split: if_splits)
  moreover have "t < x" if "u < x" for x using assms(2) that by (rule le_less_trans)
  ultimately show ?thesis
    using assms(1)
    by (cases "ri_retry_not_before r")
      (auto simp: evaluate_retry_def Let_def sum_bind_Inr_iff retry_validate_def split: if_splits)
qed

lemma evaluate_attempt_at:
  assumes "\<not> review_pending s"
  shows "(\<exists>b. evaluate_attempt s (clock_at u) p = Inr b) \<longleftrightarrow>
    a_claimed_at (snap_attempt s) < a_lease_deadline (snap_attempt s)
    \<and> a_claimed_at (snap_attempt s) < a_max_attempt_deadline (snap_attempt s)"
proof -
  have iff: "(\<exists>b. evaluate_attempt s (clock_at u) p = Inr b) \<longleftrightarrow>
      (\<forall>e. evaluate_attempt s (clock_at u) p \<noteq> Inl e)"
    by (cases "evaluate_attempt s (clock_at u) p") simp_all
  show ?thesis
  proof (cases "window_from_attempt (snap_attempt s)")
    case (Inl e)
    then have "evaluate_attempt s (clock_at u) p = Inl e"
      by (simp add: evaluate_attempt_def clock_at_resolve)
    with Inl show ?thesis by (auto simp: window_from_attempt_def window_new_def split: if_splits)
  next
    case (Inr w)
    from evaluate_attempt_Inl [OF clock_at_resolve Inr] assms Inr show ?thesis
      unfolding iff by (auto simp: window_from_attempt_Inr)
  qed
qed

lemma evaluate_attempt_stable:
  assumes a: "evaluate_attempt s (clock_at t) p = Inr a" and "t \<le> u"
    and "\<not> td_review_required a" and claimed: "a_claimed_at (snap_attempt s) \<le> t"
    and quiet: "\<forall>n. td_next_reevaluation_at a = Some n \<longrightarrow> u < n"
  shows "\<exists>b. evaluate_attempt s (clock_at u) p = Inr b \<and> \<not> td_review_required b
     \<and> td_expired b = td_expired a \<and> is_authorized (td_authority b) = is_authorized (td_authority a)"
proof -
  let ?l = "a_lease_deadline (snap_attempt s)" and ?h = "a_max_attempt_deadline (snap_attempt s)"
  have review: "\<not> review_pending s"
    by (rule evaluate_attempt_Inr [OF a]) (use assms(3) in simp)
  obtain b where b: "evaluate_attempt s (clock_at u) p = Inr b"
    using evaluate_attempt_at [OF review] a by metis
  have expired: "td_expired d \<longleftrightarrow> timing_is_applicable s \<and> (?l \<le> v \<or> ?h \<le> v)"
    and req: "td_review_required d \<longleftrightarrow> review_pending s"
    if "evaluate_attempt s (clock_at v) p = Inr d" for v d
    by (rule evaluate_attempt_Inr [OF that], use review in \<open>auto simp: clock_at_resolve\<close>)+
  have auth: "is_authorized (td_authority d) \<longleftrightarrow> (\<exists>token. p = Some token \<and> owns_execution s
       \<and> at_attempt_id token = a_attempt_id (snap_attempt s)
       \<and> at_fence token = a_fence (snap_attempt s)
       \<and> a_claimed_at (snap_attempt s) \<le> v \<and> \<not> td_expired d)"
    if "evaluate_attempt s (clock_at v) p = Inr d" for v d
    unfolding evaluate_attempt_authorized [OF that clock_at_resolve] expired [OF that]
    by (auto simp: not_le not_less dest: owns_applicable)
  have next_at: "td_next_reevaluation_at a = iter_min (filter (\<lambda>x. t < x) [?l, ?h])"
    if "timing_is_applicable s" "\<not> td_expired a"
    by (rule evaluate_attempt_Inr [OF a]) (use that review in \<open>simp add: clock_at_resolve\<close>)
  have "td_expired b \<longleftrightarrow> td_expired a"
  proof (cases "timing_is_applicable s \<and> \<not> td_expired a")
    case True
    then have tl: "t < ?l" "t < ?h" using expired [OF a] by auto
    have "u < x" if "x \<in> set (filter (\<lambda>x. t < x) [?l, ?h])" for x
      by (rule iter_min_quiet [OF that]) (use quiet next_at True in simp)
    with tl have "u < ?l" "u < ?h" by auto
    with True show ?thesis by (simp add: expired [OF b] not_le [symmetric])
  next
    case False
    with assms(2) show ?thesis
      using expired [OF a] expired [OF b] by (auto intro: order_trans)
  qed
  moreover from claimed assms(2) have "a_claimed_at (snap_attempt s) \<le> u" by (rule order_trans)
  ultimately show ?thesis
    using b auth [OF a] auth [OF b] claimed req [OF b] review by auto
qed

definition policy_timers ::
  "TimePolicyInput \<Rightarrow> TimestampMs \<Rightarrow> ScheduleDecision \<Rightarrow> RetryDecision \<Rightarrow> AttemptTimeDecision option
     \<Rightarrow> TimestampMs list" where
  "policy_timers i t sch rd att =
     option_list (sch_next_change_at sch) @ option_list (rd_next_change_at rd)
     @ filter (\<lambda>until. t < until) (option_list (ti_exception_valid_until i))
     @ filter (\<lambda>at. t < at) (option_list (ti_review_readback_at i))
     @ (case att of None \<Rightarrow> [] | Some d \<Rightarrow> option_list (td_next_reevaluation_at d))"

lemma evaluate_time_policy_at:
  assumes "ti_clock i = clock_at t"
    and "evaluate_schedule (ti_schedule i) t (ti_terminal i) = Inr sch"
    and "evaluate_retry (ti_retry_policy i) (ti_retry i) t = Inr rd"
    and "map_transpose (\<lambda>s. evaluate_attempt s (clock_at t) (ti_authority i)) (ti_attempt i) = Inr att"
    and "\<And>a. att = Some a \<Longrightarrow> \<not> td_review_required a"
  shows "evaluate_time_policy i =
    Inr \<lparr>pd_clock = \<lparr>cv_observed_at = t, cv_effective_at = t, cv_validity = Trusted\<rparr>,
         pd_schedule = sch, pd_retry = rd, pd_attempt = att,
         pd_exception_valid = (case ti_exception_valid_until i of
           None \<Rightarrow> True | Some until \<Rightarrow> t < until),
         pd_overdue = sch_overdue sch,
         pd_next_reevaluation_at = (case sort_dedup (policy_timers i t sch rd att) of
           [] \<Rightarrow> None | x # _ \<Rightarrow> Some x)\<rparr>"
proof -
  have "\<not> case_option False td_review_required att"
    using assms(5) by (auto split: option.splits)
  then show ?thesis
    by (simp add: evaluate_time_policy_def assms(1-4) clock_at_resolve needs_reconciliation_def
        policy_timers_def)
qed

lemma evaluate_time_policy_parts:
  assumes "evaluate_time_policy i = Inr d" and "ti_clock i = clock_at t"
  obtains sch rd where "evaluate_schedule (ti_schedule i) t (ti_terminal i) = Inr sch"
    "evaluate_retry (ti_retry_policy i) (ti_retry i) t = Inr rd"
    "map_transpose (\<lambda>s. evaluate_attempt s (clock_at t) (ti_authority i)) (ti_attempt i)
      = Inr (pd_attempt d)"
  using assms unfolding evaluate_time_policy_def assms(2) clock_at_resolve sum_bind_simps Let_def
  by (auto simp: sum_bind_Inr_iff)

lemma map_transpose_Inr:
  "map_transpose f x = Inr y \<longleftrightarrow>
     (case x of None \<Rightarrow> y = None | Some a \<Rightarrow> \<exists>b. f a = Inr b \<and> y = Some b)"
proof (cases x)
  case (Some a)
  then show ?thesis by (cases "f a") (auto simp: map_transpose_def)
qed (auto simp: map_transpose_def)

section \<open>Correctness of the time policy\<close>

text \<open>Resolving a clock fails only when the monotonic evidence of a restart overflows.  Otherwise
  the effective instant is the latest of the observed, previous, persisted and monotonic instants,
  so time never runs backwards, and the view is trusted exactly when the sample did not go back and
  a restart came with monotonic evidence.\<close>

theorem clock_resolution:
  "case clock_resolve c of
     Inl e \<Rightarrow> e = TimePolicyError.TimestampOverflow \<and> restart_overflows c
   | Inr v \<Rightarrow> \<not> restart_overflows c \<and> clock_floor c (cv_effective_at v)
       \<and> (\<forall>t. clock_floor c t \<longrightarrow> t \<le> cv_effective_at v)
       \<and> cv_observed_at v = pc_observed_at c
       \<and> (cv_validity v = Trusted \<longleftrightarrow> clock_trusted c)"
proof (cases "clock_resolve c")
  case (Inl e)
  then show ?thesis using clock_resolve_Inl [of c e] by simp
next
  case (Inr v)
  have "cv_observed_at v = pc_observed_at c"
    using Inr by (auto simp: clock_resolve_eq sum_bind_Inr_iff split: option.splits)
  moreover have "\<not> restart_overflows c"
    using Inr clock_resolve_Inl [of c TimePolicyError.TimestampOverflow] by auto
  ultimately show ?thesis using clock_resolve_Inr [OF Inr] Inr by simp
qed

theorem clock_resolution_witness:
  "90 \<le> cv_effective_at (case clock_resolve (clock_restarted 70 80 (Some 10)) of Inr v \<Rightarrow> v)"
proof -
  have "t \<le> cv_effective_at (case clock_resolve c of Inr v \<Rightarrow> v)"
    if "clock_floor c t" "\<not> restart_overflows c" for c t
    using clock_resolution [of c] that by (auto split: sum.splits)
  moreover have "clock_floor (clock_restarted 70 80 (Some 10)) 90"
    by (simp add: clock_floor_def clock_restarted_def)
  moreover have "\<not> restart_overflows (clock_restarted 70 80 (Some 10))"
    by (simp add: restart_overflows_def clock_restarted_def)
  ultimately show ?thesis by blast
qed

text \<open>C16: A mutation is authorized exactly when the attempt is current and in an owning phase, the
  token carries its identity and fence, the clock is trusted, and the effective instant is at or
  after the claim and strictly before both the lease and the hard deadline.\<close>

theorem authority_exact:
  assumes "evaluate_attempt s c (Some token) = Inr d" and "clock_resolve c = Inr v"
  shows "td_authority d = Authorized \<longleftrightarrow>
    snap_current s
    \<and> a_phase (snap_attempt s) \<in> {AttemptPhase.Claimed, AttemptPhase.Accepted,
        AttemptPhase.Running, AttemptPhase.Verifying}
    \<and> at_attempt_id token = a_attempt_id (snap_attempt s)
    \<and> at_fence token = a_fence (snap_attempt s)
    \<and> clock_trusted c
    \<and> a_claimed_at (snap_attempt s) \<le> cv_effective_at v
    \<and> cv_effective_at v < a_lease_deadline (snap_attempt s)
    \<and> cv_effective_at v < a_max_attempt_deadline (snap_attempt s)"
  using evaluate_attempt_authorized [OF assms] clock_resolve_Inr [OF assms(2)]
  by (auto simp: is_authorized_def owns_execution_def)

definition sample_attempt :: Attempt where
  "sample_attempt =
     (case claim (Ident ''W-1'') (Ident ''A-1'') (Ident ''actor'') 7 100 (Some 50) (Some 80) of
        Inr a \<Rightarrow> a)"

definition sample_token :: AuthorityToken where
  "sample_token = \<lparr>at_attempt_id = Ident ''A-1'', at_fence = 7\<rparr>"

theorem authority_exact_witness:
  "\<exists>d. evaluate_attempt (snapshot_current sample_attempt) (clock_at 120) (Some sample_token) = Inr d
     \<and> td_authority d = Authorized"
proof -
  let ?s = "snapshot_current sample_attempt" and ?c = "clock_at 120"
  let ?d = "case evaluate_attempt ?s ?c (Some sample_token) of Inr d \<Rightarrow> d"
  have d: "evaluate_attempt ?s ?c (Some sample_token) = Inr ?d" by code_simp
  have v: "clock_resolve ?c = Inr \<lparr>cv_observed_at = 120, cv_effective_at = 120, cv_validity = Trusted\<rparr>"
    by code_simp
  have "td_authority ?d = Authorized"
    by (subst authority_exact [OF d v])
      (simp add: snapshot_current_def sample_attempt_def claim_def timestamp_checked_add_def
        checked_add_u64_def sample_token_def clock_trusted_def clock_at_def)
  with d show ?thesis by blast
qed

text \<open>C20: Expiry is irreversible for an attempt: once it is found expired at one evaluation, every later
  evaluation of it whose clock remembers that instant (as previous sample, as persisted instant or
  otherwise) still finds it expired, even when the physical clock was set back; an elapsed lease and an
  elapsed hard budget stay elapsed, and from either on nothing is authorized.  (An expiry that stands only
  because a recovery of the attempt is pending does not by itself withdraw authority.)\<close>

theorem expiry_is_permanent:
  assumes "evaluate_attempt s c p = Inr d" and "clock_resolve c = Inr v" and "td_expired d"
    and "evaluate_attempt s c' p' = Inr d'" and "clock_floor c' (cv_effective_at v)"
  shows "td_expired d' \<and> (td_lease_elapsed d \<longrightarrow> td_lease_elapsed d')
     \<and> (td_hard_budget_elapsed d \<longrightarrow> td_hard_budget_elapsed d')
     \<and> (td_lease_elapsed d \<or> td_hard_budget_elapsed d \<longrightarrow> td_authority d' \<noteq> Authorized)"
proof -
  from assms(4) obtain v' where v': "clock_resolve c' = Inr v'"
    and lease': "td_lease_elapsed d' \<longleftrightarrow> timing_is_applicable s
      \<and> a_lease_deadline (snap_attempt s) \<le> cv_effective_at v'"
    and hard': "td_hard_budget_elapsed d' \<longleftrightarrow>
       timing_is_applicable s \<and> a_max_attempt_deadline (snap_attempt s) \<le> cv_effective_at v'"
    and expired': "td_expired d' \<longleftrightarrow> timing_is_applicable s
       \<and> (td_lease_elapsed d' \<or> td_hard_budget_elapsed d' \<or> review_pending s)"
    by (rule evaluate_attempt_Inr)
  from assms(1) obtain w where w: "clock_resolve c = Inr w"
    and lease: "td_lease_elapsed d \<longleftrightarrow> timing_is_applicable s
      \<and> a_lease_deadline (snap_attempt s) \<le> cv_effective_at w"
    and hard: "td_hard_budget_elapsed d \<longleftrightarrow>
       timing_is_applicable s \<and> a_max_attempt_deadline (snap_attempt s) \<le> cv_effective_at w"
    and expired: "td_expired d \<longleftrightarrow> timing_is_applicable s
       \<and> (td_lease_elapsed d \<or> td_hard_budget_elapsed d \<or> review_pending s)"
    by (rule evaluate_attempt_Inr)
  have later: "cv_effective_at w \<le> cv_effective_at v'"
    using clock_resolve_Inr [OF v'] assms(2,5) w by auto
  then have kept: "td_lease_elapsed d \<longrightarrow> td_lease_elapsed d'"
      "td_hard_budget_elapsed d \<longrightarrow> td_hard_budget_elapsed d'"
    unfolding lease lease' hard hard' by (auto intro: order_trans)
  moreover have "td_authority d' \<noteq> Authorized" if "td_lease_elapsed d' \<or> td_hard_budget_elapsed d'"
  proof -
    have "\<not> is_authorized (td_authority d')"
      using that unfolding evaluate_attempt_authorized [OF assms(4) v'] lease' hard' by (auto simp: not_less)
    then show ?thesis by (auto simp: is_authorized_def)
  qed
  ultimately show ?thesis using assms(3) unfolding expired expired' by blast
qed

theorem expiry_is_permanent_witness:
  "\<exists>d. evaluate_attempt (snapshot_current sample_attempt) (clock_after 160 120) (Some sample_token) = Inr d
     \<and> td_expired d \<and> td_authority d \<noteq> Authorized"
proof -
  let ?s = "snapshot_current sample_attempt" and ?p = "Some sample_token"
  let ?d = "case evaluate_attempt ?s (clock_at 160) ?p of Inr d \<Rightarrow> d"
  let ?d' = "case evaluate_attempt ?s (clock_after 160 120) ?p of Inr d \<Rightarrow> d"
  have d: "evaluate_attempt ?s (clock_at 160) ?p = Inr ?d" by code_simp
  have e: "td_expired ?d" and elapsed: "td_lease_elapsed ?d" by code_simp+
  have d': "evaluate_attempt ?s (clock_after 160 120) ?p = Inr ?d'" by code_simp
  have v: "clock_resolve (clock_at 160) =
      Inr \<lparr>cv_observed_at = 160, cv_effective_at = 160, cv_validity = Trusted\<rparr>" by code_simp
  have "clock_floor (clock_after 160 120) (cv_effective_at
      \<lparr>cv_observed_at = 160, cv_effective_at = 160, cv_validity = Trusted\<rparr>)"
    by (simp add: clock_floor_def clock_after_def)
  from expiry_is_permanent [OF d v e d' this] elapsed d' show ?thesis by blast
qed


text \<open>A renewal succeeds only for a holder with authority; it never shortens the lease, sets it to
  exactly the effective instant plus the requested time to live, and leaves the hard deadline where
  the claim put it.\<close>

theorem renewal_keeps_hard_deadline:
  assumes "renew_lease s token c ttl = Inr r"
  shows "\<exists>d v. evaluate_attempt s c (Some token) = Inr d \<and> td_authority d = Authorized
     \<and> clock_resolve c = Inr v
     \<and> unat (lr_new_lease_deadline r) = unat (cv_effective_at v) + unat ttl
     \<and> cv_effective_at v < lr_new_lease_deadline r
     \<and> lr_previous_lease_deadline r = a_lease_deadline (snap_attempt s)
     \<and> lr_previous_lease_deadline r \<le> lr_new_lease_deadline r
     \<and> lr_hard_deadline r = a_max_attempt_deadline (snap_attempt s)"
  using assms
  by (auto simp: renew_lease_def sum_bind_Inr_iff map_sum_id_Inr_iff add_timestamp_Inr
      window_from_attempt_Inr is_authorized_def not_le not_less split: if_splits)

theorem renewal_keeps_hard_deadline_witness:
  "\<exists>r. renew_lease (snapshot_current sample_attempt) sample_token (clock_at 120) 40 = Inr r
     \<and> lr_hard_deadline r = 180 \<and> lr_previous_lease_deadline r \<le> lr_new_lease_deadline r"
proof -
  let ?r = "case renew_lease (snapshot_current sample_attempt) sample_token (clock_at 120) 40 of
    Inr r \<Rightarrow> r"
  have r: "renew_lease (snapshot_current sample_attempt) sample_token (clock_at 120) 40 = Inr ?r"
    by code_simp
  have hard: "a_max_attempt_deadline (snap_attempt (snapshot_current sample_attempt)) = 180"
    by code_simp
  from renewal_keeps_hard_deadline [OF r] r hard show ?thesis by metis
qed

text \<open>The retry delay is the base doubled per retry and capped by the maximum: the shift by at
  most 63 and the saturating product never lose bits below the cap, the delay grows with the retry
  index, and the only error is a maximum below the base.\<close>

theorem retry_delay_bounds:
  "case delay_for p i of
     Inl e \<Rightarrow> e = InvalidBackoffBounds \<and> rp_max_delay_ms p < rp_base_delay_ms p
   | Inr d \<Rightarrow> rp_base_delay_ms p \<le> rp_max_delay_ms p
       \<and> unat d = min (unat (rp_base_delay_ms p) * 2 ^ min (unat i) 63) (unat (rp_max_delay_ms p))
       \<and> rp_base_delay_ms p \<le> d \<and> d \<le> rp_max_delay_ms p
       \<and> (\<exists>d'. delay_for p (max i j) = Inr d' \<and> d \<le> d')"
proof (cases "rp_max_delay_ms p < rp_base_delay_ms p")
  case True
  then show ?thesis by (simp add: delay_for_eq)
next
  case False
  let ?b = "unat (rp_base_delay_ms p)" and ?m = "unat (rp_max_delay_ms p)"
  have le: "?b \<le> ?m" using False by (simp add: word_less_nat_alt)
  have m64: "?m \<le> 2 ^ 64 - 1" using unat_u64_less [of "rp_max_delay_ms p"] by simp
  have delay: "\<exists>d. delay_for p k = Inr d \<and> unat d = min (?b * 2 ^ min (unat k) 63) ?m" for k
    using False m64
    by (simp add: delay_for_eq unat_min unat_saturating_mul unat_two_power min.assoc min_absorb2)
  obtain d where d: "delay_for p i = Inr d" "unat d = min (?b * 2 ^ min (unat i) 63) ?m"
    using delay by blast
  obtain d' where d': "delay_for p (max i j) = Inr d'"
    "unat d' = min (?b * 2 ^ min (unat (max i j)) 63) ?m"
    using delay by blast
  have "?b \<le> ?b * 2 ^ min (unat i) 63" by simp
  then have "?b \<le> unat d" using le d(2) by simp
  moreover have "unat i \<le> unat (max i j)" by (simp add: word_le_nat_alt [symmetric])
  then have "(2::nat) ^ min (unat i) 63 \<le> 2 ^ min (unat (max i j)) 63"
    by (intro power_increasing) auto
  then have "?b * 2 ^ min (unat i) 63 \<le> ?b * 2 ^ min (unat (max i j)) 63"
    by (rule mult_le_mono2)
  then have "unat d \<le> unat d'" unfolding d(2) d'(2) by (rule min.mono) simp
  ultimately show ?thesis
    using d d' le by (simp add: word_le_nat_alt)
qed

text \<open>C34: Evaluating an attempt fails in exactly these cases, in this order: the restart evidence
  overflows, the lease or then the hard deadline does not lie after the claim, or an expiry is on
  record (a recovery is pending or the phase says so) although no reason was retained and neither
  deadline has passed.\<close>

theorem evaluate_attempt_errors:
  "evaluate_attempt s c p = Inl e \<longleftrightarrow>
     (let a = snap_attempt s in
      if restart_overflows c then e = TimePolicyError.TimestampOverflow
      else if a_lease_deadline a \<le> a_claimed_at a
      then e = DeadlineNotAfterClaim Lease (a_claimed_at a) (a_lease_deadline a)
      else if a_max_attempt_deadline a \<le> a_claimed_at a
      then e = DeadlineNotAfterClaim HardBudget (a_claimed_at a) (a_max_attempt_deadline a)
      else e = MissingExpiryReason \<and> timing_is_applicable s \<and> review_pending s
        \<and> snap_retained_expiry_reason s = None
        \<and> (\<exists>v. clock_resolve c = Inr v \<and> cv_effective_at v < a_lease_deadline a
              \<and> cv_effective_at v < a_max_attempt_deadline a))"
proof (cases "clock_resolve c")
  case (Inl e')
  then show ?thesis
    using clock_resolve_Inl [of c e'] by (auto simp: evaluate_attempt_def)
next
  case (Inr v)
  then have "\<not> restart_overflows c"
    using clock_resolve_Inl [of c TimePolicyError.TimestampOverflow] by auto
  moreover
  have "evaluate_attempt s c p = sum_bind (window_from_attempt (snap_attempt s))
      (\<lambda>w. evaluate_attempt s c p)"
    by (cases "window_from_attempt (snap_attempt s)") (simp_all add: evaluate_attempt_def Inr)
  ultimately show ?thesis
    using evaluate_attempt_Inl [OF Inr, of s _ p e] Inr
    by (auto simp: window_from_attempt_def window_new_def Let_def split: if_splits)
qed

text \<open>C23: Between an evaluation and the reevaluation time it reports, none of the answers listed here
  changes: for a work item that is not terminal, evaluated with a trusted clock at an instant not before
  its attempt was claimed and with no expiry under review, evaluating again at any instant from the
  evaluation up to but excluding the reported time (at any later instant when none is reported) succeeds
  and gives the same schedule eligibility, overdue flag, retry eligibility and exhaustion, exception
  validity, attempt expiry and authorization, so waiting for the timer loses no change of these.  The
  conditions are needed: a terminal item gets no schedule timer although its start still passes, and an
  attempt claimed in the future becomes authorized without a timer.\<close>

theorem timers_complete:
  assumes d: "evaluate_time_policy i = Inr d" and clock: "ti_clock i = clock_at t"
    and live: "\<not> ti_terminal i"
    and review: "\<And>a. pd_attempt d = Some a \<Longrightarrow> \<not> td_review_required a"
    and claimed: "\<And>s. ti_attempt i = Some s \<Longrightarrow> a_claimed_at (snap_attempt s) \<le> t"
    and later: "t \<le> u" and quiet: "\<And>n. pd_next_reevaluation_at d = Some n \<Longrightarrow> u < n"
  shows "\<exists>d'. evaluate_time_policy (i\<lparr>ti_clock := clock_at u\<rparr>) = Inr d'
     \<and> sch_eligible (pd_schedule d') = sch_eligible (pd_schedule d)
     \<and> pd_overdue d' = pd_overdue d
     \<and> rd_eligible (pd_retry d') = rd_eligible (pd_retry d)
     \<and> rd_exhausted (pd_retry d') = rd_exhausted (pd_retry d)
     \<and> pd_exception_valid d' = pd_exception_valid d
     \<and> map_option (\<lambda>a. (td_expired a, is_authorized (td_authority a))) (pd_attempt d')
       = map_option (\<lambda>a. (td_expired a, is_authorized (td_authority a))) (pd_attempt d)"
proof -
  let ?ev = "\<lambda>v s. evaluate_attempt s (clock_at v) (ti_authority i)"
  obtain sch rd where sch: "evaluate_schedule (ti_schedule i) t False = Inr sch"
    and rd: "evaluate_retry (ti_retry_policy i) (ti_retry i) t = Inr rd"
    and att: "map_transpose (?ev t) (ti_attempt i) = Inr (pd_attempt d)"
    using evaluate_time_policy_parts [OF d clock] live by auto
  obtain old where old: "pd_attempt d = old" by simp
  have eval: "evaluate_time_policy i =
    Inr \<lparr>pd_clock = \<lparr>cv_observed_at = t, cv_effective_at = t, cv_validity = Trusted\<rparr>,
         pd_schedule = sch, pd_retry = rd, pd_attempt = old,
         pd_exception_valid = (case ti_exception_valid_until i of
           None \<Rightarrow> True | Some until \<Rightarrow> t < until),
         pd_overdue = sch_overdue sch,
         pd_next_reevaluation_at = (case sort_dedup (policy_timers i t sch rd old) of
           [] \<Rightarrow> None | x # _ \<Rightarrow> Some x)\<rparr>"
    by (rule evaluate_time_policy_at [OF clock]) (use sch rd att live review old in simp_all)
  have sel: "pd_schedule d = sch" "pd_retry d = rd" "pd_overdue d = sch_overdue sch"
      "pd_exception_valid d = (case ti_exception_valid_until i of None \<Rightarrow> True | Some until \<Rightarrow> t < until)"
    and "next": "pd_next_reevaluation_at d = (case sort_dedup (policy_timers i t sch rd (pd_attempt d)) of
       [] \<Rightarrow> None | x # _ \<Rightarrow> Some x)"
    using d [unfolded eval] old by (simp_all only: sum.inject) auto
  have timer: "u < x" if "x \<in> set (policy_timers i t sch rd (pd_attempt d))" for x
    by (rule sorted_timers_quiet [OF that]) (use quiet "next" in auto)
  have "\<forall>n. sch_next_change_at sch = Some n \<longrightarrow> u < n" "\<forall>n. rd_next_change_at rd = Some n \<longrightarrow> u < n"
    using timer by (auto simp: policy_timers_def option_list_def)
  from evaluate_schedule_stable [OF sch later this(1)] evaluate_retry_stable [OF rd later this(2)]
  obtain sch' rd' where sch': "evaluate_schedule (ti_schedule i) u False = Inr sch'"
      "sch_eligible sch' = sch_eligible sch" "sch_overdue sch' = sch_overdue sch"
    and rd': "evaluate_retry (ti_retry_policy i) (ti_retry i) u = Inr rd'"
      "rd_eligible rd' = rd_eligible rd" "rd_exhausted rd' = rd_exhausted rd"
    by blast
  have exc: "u < x \<longleftrightarrow> t < x" if "ti_exception_valid_until i = Some x" for x
    using timer [of x] that later by (auto simp: policy_timers_def option_list_def intro: le_less_trans)
  obtain att' where att': "map_transpose (?ev u) (ti_attempt i) = Inr att'"
      "\<And>b. att' = Some b \<Longrightarrow> \<not> td_review_required b"
      "map_option (\<lambda>a. (td_expired a, is_authorized (td_authority a))) att'
       = map_option (\<lambda>a. (td_expired a, is_authorized (td_authority a))) (pd_attempt d)"
  proof (cases "ti_attempt i")
    case None
    with att show ?thesis by (intro that [of None]) (auto simp: map_transpose_Inr)
  next
    case (Some s)
    with att obtain a where a: "?ev t s = Inr a" "pd_attempt d = Some a"
      by (auto simp: map_transpose_Inr)
    then have "\<forall>n. td_next_reevaluation_at a = Some n \<longrightarrow> u < n"
      using timer by (auto simp: policy_timers_def option_list_def)
    from evaluate_attempt_stable [OF a(1) later review [OF a(2)] claimed [OF Some] this]
    obtain b where "?ev u s = Inr b" "\<not> td_review_required b" "td_expired b = td_expired a"
      "is_authorized (td_authority b) = is_authorized (td_authority a)"
      by blast
    with Some a(2) show ?thesis by (intro that [of "Some b"]) (auto simp: map_transpose_Inr)
  qed
  let ?i = "i\<lparr>ti_clock := clock_at u\<rparr>"
  let ?d = "\<lparr>pd_clock = \<lparr>cv_observed_at = u, cv_effective_at = u, cv_validity = Trusted\<rparr>,
     pd_schedule = sch', pd_retry = rd', pd_attempt = att',
     pd_exception_valid = (case ti_exception_valid_until ?i of None \<Rightarrow> True | Some until \<Rightarrow> u < until),
     pd_overdue = sch_overdue sch',
     pd_next_reevaluation_at = (case sort_dedup (policy_timers ?i u sch' rd' att') of
       [] \<Rightarrow> None | x # _ \<Rightarrow> Some x)\<rparr>"
  have "evaluate_time_policy ?i = Inr ?d"
    by (rule evaluate_time_policy_at) (use sch' rd' att' live in simp_all)
  then show ?thesis
    using sel sch' rd' att'(3) exc by (intro exI [of _ ?d]) (auto split: option.splits)
qed

definition sample_policy :: TimePolicyInput where
  "sample_policy = \<lparr>ti_clock = clock_at 120,
     ti_schedule = schedule_empty\<lparr>ws_due_at := Some 170\<rparr>, ti_terminal = False,
     ti_retry_policy = retry_default, ti_retry = retry_input_none,
     ti_attempt = Some (snapshot_current sample_attempt), ti_authority = Some sample_token,
     ti_exception_valid_until = None, ti_review_readback_at = None\<rparr>"

theorem timers_complete_witness:
  "\<exists>d. evaluate_time_policy (sample_policy\<lparr>ti_clock := clock_at 149\<rparr>) = Inr d \<and> \<not> pd_overdue d
     \<and> map_option (\<lambda>a. (td_expired a, is_authorized (td_authority a))) (pd_attempt d) = Some (False, True)"
proof -
  let ?d = "case evaluate_time_policy sample_policy of Inr d \<Rightarrow> d"
  have d: "evaluate_time_policy sample_policy = Inr ?d" by code_simp
  have c: "ti_clock sample_policy = clock_at 120" by code_simp
  have t: "\<not> ti_terminal sample_policy" by code_simp
  have n: "pd_next_reevaluation_at ?d = Some 150" by code_simp
  have r: "map_option td_review_required (pd_attempt ?d) = Some False" by code_simp
  have cl: "map_option (\<lambda>s. a_claimed_at (snap_attempt s)) (ti_attempt sample_policy) = Some 100"
    by code_simp
  have le: "(120::u64) \<le> 149" by simp
  have o: "\<not> pd_overdue ?d" by code_simp
  have x: "map_option (\<lambda>a. (td_expired a, is_authorized (td_authority a))) (pd_attempt ?d)
      = Some (False, True)" by code_simp
  have r': "\<not> td_review_required a" if "pd_attempt ?d = Some a" for a
    using r unfolding that by simp
  have cl': "a_claimed_at (snap_attempt s) \<le> 120" if "ti_attempt sample_policy = Some s" for s
    using cl unfolding that by simp
  have q: "149 < k" if "pd_next_reevaluation_at ?d = Some k" for k
    using n unfolding that by simp
  from timers_complete [OF d c t r' cl' le q] o x show ?thesis by metis
qed

text \<open>The two expiry classifications of the crate agree on whether an attempt is past a deadline,
  and give the same reason except in one case: when the lease ended before the hard deadline and both
  have passed, the window reports the lease (the earliest trigger) and the attempt the hard budget.\<close>

theorem expiry_reasons_agree:
  assumes "window_from_attempt a = Inr w"
  shows "(window_expiry_reason w t = None \<longleftrightarrow> expiry_reason a t = None)
    \<and> (window_expiry_reason w t = expiry_reason a t
         \<longleftrightarrow> \<not> (a_lease_deadline a < a_max_attempt_deadline a \<and> a_max_attempt_deadline a \<le> t))
    \<and> (a_lease_deadline a < a_max_attempt_deadline a \<and> a_max_attempt_deadline a \<le> t \<longrightarrow>
         window_expiry_reason w t = Some ExpiryReason.LeaseElapsed
         \<and> expiry_reason a t = Some ExpiryReason.HardBudgetElapsed)"
proof -
  have "w = \<lparr>aw_claimed_at = a_claimed_at a, aw_lease_deadline = a_lease_deadline a,
      aw_hard_deadline = a_max_attempt_deadline a\<rparr>"
    using assms by (simp add: window_from_attempt_Inr)
  then show ?thesis
    by (cases "a_lease_deadline a \<le> t"; cases "a_max_attempt_deadline a \<le> t";
        cases "a_lease_deadline a < a_max_attempt_deadline a")
      (auto simp: window_expiry_reason_def window_lease_elapsed_def window_hard_budget_elapsed_def
        expiry_reason_def)
qed

theorem expiry_reasons_agree_witness:
  "\<exists>w. window_from_attempt sample_attempt = Inr w
     \<and> window_expiry_reason w 160 = Some ExpiryReason.LeaseElapsed
     \<and> window_expiry_reason w 180 \<noteq> expiry_reason sample_attempt 180"
proof -
  let ?w = "case window_from_attempt sample_attempt of Inr w \<Rightarrow> w"
  have w: "window_from_attempt sample_attempt = Inr ?w" by code_simp
  have d: "a_lease_deadline sample_attempt = 150" "a_max_attempt_deadline sample_attempt = 180"
    by code_simp+
  have e: "expiry_reason sample_attempt 160 = Some ExpiryReason.LeaseElapsed" by code_simp
  from expiry_reasons_agree [OF w, of 160] expiry_reasons_agree [OF w, of 180] w show ?thesis
    unfolding d e by auto
qed

end
