(* ===== verification/Calendar.thy ===== *)
theory Calendar
  imports Prelude "HOL-Library.Signed_Division"
begin

text \<open>
  Civil dates and weekly recurrences of the work model (\<open>crates/domain/src/work_model_v3.rs\<close>).
  A signed Rust integer is an \<open>int\<close>; the casts and the additions that can leave their width are
  written out (\<open>wrap_i64\<close>, \<open>as_i32\<close>, \<open>as_u8\<close>), and \<open>/\<close> is the truncating \<open>sdiv\<close>.
\<close>

section \<open>Signed machine integers\<close>

definition wrap_i64 :: "int \<Rightarrow> int" where
  "wrap_i64 x = signed_take_bit 63 x"

definition as_i32 :: "int \<Rightarrow> int" where
  "as_i32 x = signed_take_bit 31 x"

definition as_u8 :: "int \<Rightarrow> u8" where
  "as_u8 x = word_of_int x"

definition is_i32 :: "int \<Rightarrow> bool" where
  "is_i32 x \<longleftrightarrow> - 2147483648 \<le> x \<and> x \<le> 2147483647"

lemma wrap_i64_id: "- 9223372036854775808 \<le> x \<Longrightarrow> x \<le> 9223372036854775807 \<Longrightarrow> wrap_i64 x = x"
  by (simp add: wrap_i64_def signed_take_bit_int_eq_self)

lemma as_i32_id: "is_i32 x \<Longrightarrow> as_i32 x = x"
  by (simp add: as_i32_def is_i32_def signed_take_bit_int_eq_self)

lemma uint_as_u8: "0 \<le> x \<Longrightarrow> x < 256 \<Longrightarrow> uint (as_u8 x) = x"
  by (simp add: as_u8_def uint_word_of_int_eq take_bit_int_eq_self)

lemma as_u8_uint: "as_u8 (uint w) = w"
  by (simp add: as_u8_def)

lemma sdiv_nonneg: "0 \<le> a \<Longrightarrow> 0 < b \<Longrightarrow> (a::int) sdiv b = a div b"
  by (cases "a = 0") (simp_all add: signed_divide_int_def sgn_if)

text \<open>The idiom \<open>(if x >= 0 { x } else { x - (b - 1) }) / b\<close> is division rounding down.\<close>

lemma sdiv_floor:
  assumes "0 < (b::int)"
  shows "(if 0 \<le> a then a else a - (b - 1)) sdiv b = a div b"
proof (cases "0 \<le> a")
  case True
  with assms show ?thesis by (simp add: sdiv_nonneg)
next
  case False
  have "a - (b - 1) = - (b - 1 - a)" by simp
  moreover have "(- (b - 1 - a)) sdiv b = - ((b - 1 - a) div b)"
    using assms False by (simp add: signed_divide_int_def sgn_if abs_if)
  moreover have "- ((b - 1 - a) div b) = a div b"
  proof -
    have "(b - 1 - a) div b = (- (a + 1) + 1 * b) div b" by (simp add: algebra_simps)
    also have "\<dots> = (- (a + 1)) div b + 1" using assms by (simp only: div_mult_self1)
    also have "(- (a + 1)) div b = - (a div b) - 1"
    proof -
      have "0 \<le> b - 1 - a mod b" "b - 1 - a mod b < b"
        using pos_mod_sign [OF assms, of a] pos_mod_bound [OF assms, of a] by linarith+
      then have zero: "(b - 1 - a mod b) div b = 0" by (rule div_pos_pos_trivial)
      have "- (a + 1) = (b - 1 - a mod b) + (- (a div b) - 1) * b"
        using div_mult_mod_eq [of a b] by (simp add: algebra_simps)
      also have "\<dots> div b = - (a div b) - 1" using assms zero by (simp only: div_mult_self1)
      finally show ?thesis .
    qed
    finally show ?thesis by simp
  qed
  ultimately show ?thesis using False by simp
qed

section \<open>Civil dates\<close>

record LocalDate =
  ld_year :: int
  ld_month :: u8
  ld_day :: u8

record LocalTime =
  lt_hour :: u8
  lt_minute :: u8
  lt_second :: u8

record LocalDateTime =
  ldt_date :: LocalDate
  ldt_time :: LocalTime

text \<open>The error type of the whole work model; \<open>&'static str\<close> messages are strings.\<close>

datatype ModelError =
    InvalidIdentifier string string
  | DuplicateIdentifier string
  | MissingParent WorkId
  | MissingWork WorkId
  | MissingCycle CycleId
  | CrossProjectReference WorkId WorkId
  | MilestoneMustBeContainer WorkId
  | InvalidParentShape WorkId WorkId
  | DirectTaskHasChildren WorkId
  | DecompositionCycle WorkId
  | DependencyEndpointNotDirect WorkId WorkId
  | DuplicateDependency WorkId WorkId
  | DependencyCycle WorkId
  | InvalidSchedule string
  | InvalidExternalWait string
  | IllegalCycleTransition
  | CycleHasLiveAssignments
  | AssignmentProjectMismatch string
  | AssignmentRequiresDirectTask WorkId
  | TerminalCycleHasLiveAssignment CycleId
  | InvalidActivation string
  | MultipleLiveAssignments WorkId
  | AssignmentLineageCycle string
  | AssignmentLineageInvalid string
  | InvalidLocalDate LocalDate
  | InvalidLocalTime LocalTime
  | InvalidRecurrence string
  | SlotOutOfRange u64
  | RecurrenceOverflow
  | InvalidUtcOffset int
  | MissingTimeZoneIdentity
  | InvalidSlotKey
  | IllegalIntakeTransition
  | DeferredWithoutRevisit
  | PromotionSubjectMismatch
  | PromotionSourceChanged
  | ContainerRequired WorkId
  | InvalidDispositionSubject CloseoutDispositionId
  | DuplicateCurrentDisposition WorkId
  | InvalidDispositionShape

definition is_leap_year :: "int \<Rightarrow> bool" where
  "is_leap_year year \<longleftrightarrow> year smod 4 = 0 \<and> (year smod 100 \<noteq> 0 \<or> year smod 400 = 0)"

definition days_in_month :: "int \<Rightarrow> u8 \<Rightarrow> u8" where
  "days_in_month year month =
     (if month \<in> {1, 3, 5, 7, 8, 10, 12} then 31
      else if month \<in> {4, 6, 9, 11} then 30
      else if month = 2 \<and> is_leap_year year then 29
      else if month = 2 then 28
      else 0)"

definition days_from_civil :: "int \<Rightarrow> u8 \<Rightarrow> u8 \<Rightarrow> int" where
  "days_from_civil year month day =
     (let y = year - (if month \<le> 2 then 1 else 0);
          era = (if 0 \<le> y then y else y - 399) sdiv 400;
          yoe = y - era * 400;
          month = uint month;
          day = uint day;
          mp = month + (if 2 < month then - 3 else 9);
          doy = (153 * mp + 2) sdiv 5 + day - 1;
          doe = yoe * 365 + yoe sdiv 4 - yoe sdiv 100 + doy
      in era * 146097 + doe - 719468)"

definition civil_from_days :: "int \<Rightarrow> int \<times> u8 \<times> u8" where
  "civil_from_days days =
     (let z = wrap_i64 (days + 719468);
          era = (if 0 \<le> z then z else z - 146096) sdiv 146097;
          doe = z - era * 146097;
          yoe = (doe - doe sdiv 1460 + doe sdiv 36524 - doe sdiv 146096) sdiv 365;
          year = yoe + era * 400;
          doy = doe - (365 * yoe + yoe sdiv 4 - yoe sdiv 100);
          mp = (5 * doy + 2) sdiv 153;
          day = doy - (153 * mp + 2) sdiv 5 + 1;
          month = mp + (if mp < 10 then 3 else - 9);
          year = year + (if month \<le> 2 then 1 else 0)
      in (as_i32 year, as_u8 month, as_u8 day))"

definition local_date_new :: "int \<Rightarrow> u8 \<Rightarrow> u8 \<Rightarrow> LocalDate" where
  "local_date_new year month day = \<lparr>ld_year = year, ld_month = month, ld_day = day\<rparr>"

definition date_validate :: "LocalDate \<Rightarrow> ModelError + unit" where
  "date_validate d =
     (if \<not> (1 \<le> ld_month d \<and> ld_month d \<le> 12) \<or> ld_day d = 0
        \<or> days_in_month (ld_year d) (ld_month d) < ld_day d
      then Inl (InvalidLocalDate d) else Inr ())"

definition from_epoch_days :: "int \<Rightarrow> ModelError + LocalDate" where
  "from_epoch_days days =
     (let (year, month, day) = civil_from_days days;
          date = local_date_new year month day
      in sum_bind (date_validate date) (\<lambda>_. Inr date))"

definition date_weekday :: "LocalDate \<Rightarrow> ModelError + u8" where
  "date_weekday d = sum_bind (date_validate d) (\<lambda>_.
     let epoch = days_from_civil 1970 1 1 in
     Inr (as_u8 ((days_from_civil (ld_year d) (ld_month d) (ld_day d) - epoch + 3) mod 7) + 1))"

definition date_add_days :: "LocalDate \<Rightarrow> int \<Rightarrow> ModelError + LocalDate" where
  "date_add_days d days = sum_bind (date_validate d) (\<lambda>_.
     let (year, month, day) =
           civil_from_days (wrap_i64 (days_from_civil (ld_year d) (ld_month d) (ld_day d) + days));
         result = local_date_new year month day
     in sum_bind (date_validate result) (\<lambda>_. Inr result))"

text \<open>The derived orders: fields from left to right.\<close>

definition date_key :: "LocalDate \<Rightarrow> int \<times> u8 \<times> u8" where
  "date_key d = (ld_year d, ld_month d, ld_day d)"

definition time_key :: "LocalTime \<Rightarrow> u8 \<times> u8 \<times> u8" where
  "time_key t = (lt_hour t, lt_minute t, lt_second t)"

definition datetime_key :: "LocalDateTime \<Rightarrow> (int \<times> u8 \<times> u8) \<times> (u8 \<times> u8 \<times> u8)" where
  "datetime_key t = (date_key (ldt_date t), time_key (ldt_time t))"

definition time_validate :: "LocalTime \<Rightarrow> ModelError + unit" where
  "time_validate t =
     (if 23 < lt_hour t \<or> 59 < lt_minute t \<or> 59 < lt_second t then Inl (InvalidLocalTime t)
      else Inr ())"

definition datetime_validate :: "LocalDateTime \<Rightarrow> ModelError + unit" where
  "datetime_validate t = sum_bind (date_validate (ldt_date t)) (\<lambda>_. time_validate (ldt_time t))"

definition datetime_add_days :: "LocalDateTime \<Rightarrow> int \<Rightarrow> ModelError + LocalDateTime" where
  "datetime_add_days t days = sum_bind (date_add_days (ldt_date t) days)
     (\<lambda>date. Inr \<lparr>ldt_date = date, ldt_time = ldt_time t\<rparr>)"

section \<open>Day numbers\<close>

text \<open>
  The formulas count from the first of March, so that a leap day ends its year.  A year of an era
  of 400 years is \<open>100 a + 4 q + r\<close>; \<open>e\<close> is the day of that year, 365 only in a leap year.
\<close>

definition era_day :: "int \<Rightarrow> int \<Rightarrow> int \<Rightarrow> int \<Rightarrow> bool" where
  "era_day a q r e \<longleftrightarrow> 0 \<le> a \<and> a \<le> 3 \<and> 0 \<le> q \<and> q \<le> 24 \<and> 0 \<le> r \<and> r \<le> 3 \<and> 0 \<le> e
     \<and> (e \<le> 364 \<or> e = 365 \<and> r = 3 \<and> (q < 24 \<or> a = 3))"

lemma era_start_eq:
  assumes "era_day a q r e" and "y = 100 * a + 4 * q + r"
  shows "365 * y + y div 4 - y div 100 = 36524 * a + 1461 * q + 365 * r"
proof -
  have "y div 4 = 25 * a + q"
    using assms by (intro int_div_pos_eq [of _ _ _ r]) (simp_all add: era_day_def)
  moreover have "y div 100 = a"
    using assms by (intro int_div_pos_eq [of _ _ _ "4 * q + r"]) (simp_all add: era_day_def)
  ultimately show ?thesis using assms(2) by simp
qed

lemma era_year_of_day:
  assumes d: "era_day a q r e" and n: "n = 36524 * a + 1461 * q + 365 * r + e"
  shows "(n - n div 1460 + n div 36524 - n div 146096) div 365 = 100 * a + 4 * q + r"
proof -
  define m where "m = 24 * a + q + 365 * r + e"
  have m: "n = 1460 * (25 * a + q) + m" "0 \<le> m" "m < 2920"
    using d n by (auto simp: m_def era_day_def)
  have n1: "n div 1460 = 25 * a + q + (if 1460 \<le> m then 1 else 0)"
    by (rule int_div_pos_eq [of _ _ _ "m - (if 1460 \<le> m then 1460 else 0)"]) (use m in auto)
  have n2: "n div 36524 - n div 146096 = a"
  proof (cases "n = 146096")
    case True
    then have "a = 3" using d n by (auto simp: era_day_def)
    with True show ?thesis by simp
  next
    case False
    then have "1461 * q + 365 * r + e < 36524" "n < 146096"
      using d n by (auto simp: era_day_def)
    moreover have "0 \<le> 1461 * q + 365 * r + e" "0 \<le> n" using d n by (auto simp: era_day_def)
    moreover have "n div 36524 = a"
      by (rule int_div_pos_eq [of _ _ _ "1461 * q + 365 * r + e"]) (use calculation n in auto)
    ultimately show ?thesis by (simp add: div_pos_pos_trivial)
  qed
  have "n - n div 1460 + n div 36524 - n div 146096
      = 365 * (100 * a + 4 * q + r) + (e - (if 1460 \<le> m then 1 else 0))"
    using n1 n2 n by simp
  moreover have "0 \<le> e - (if 1460 \<le> m then 1 else 0)" "e - (if 1460 \<le> m then 1 else 0) < 365"
    using d by (auto simp: m_def era_day_def)
  ultimately show ?thesis by (rule int_div_pos_eq)
qed

lemma era_day_exists:
  assumes "0 \<le> n" and "n \<le> 146096"
  obtains a q r e where "era_day a q r e" "n = 36524 * a + 1461 * q + 365 * r + e"
proof -
  define a where "a = min 3 (n div 36524)"
  define c where "c = n - 36524 * a"
  define q where "q = c div 1461"
  define d where "d = c - 1461 * q"
  define r where "r = min 3 (d div 365)"
  have a: "0 \<le> a" "a \<le> 3" using assms by (auto simp: a_def pos_imp_zdiv_nonneg_iff)
  have c: "0 \<le> c" "c \<le> 36524" "a < 3 \<longrightarrow> c < 36524"
    using assms by (auto simp: c_def a_def min_def)
  have q: "0 \<le> q" "q \<le> 24" using c by (auto simp: q_def)
  have dd: "0 \<le> d" "d < 1461" "q = 24 \<longrightarrow> d \<le> 1460" "q = 24 \<and> a < 3 \<longrightarrow> d < 1460"
    using c by (auto simp: d_def q_def)
  have r: "0 \<le> r" "r \<le> 3" using dd by (auto simp: r_def pos_imp_zdiv_nonneg_iff)
  have e: "0 \<le> d - 365 * r" "r < 3 \<longrightarrow> d - 365 * r \<le> 364" "d - 365 * r \<le> 365"
    using dd by (auto simp: r_def min_def)
  have "era_day a q r (d - 365 * r)"
    using a q r dd e by (auto simp: era_day_def)
  moreover have "n = 36524 * a + 1461 * q + 365 * r + (d - 365 * r)"
    by (simp add: c_def d_def)
  ultimately show ?thesis by (rule that)
qed

section \<open>Months\<close>

text \<open>Months counted from March; the first day of month \<open>mp\<close> within the year.\<close>

lemma month_cases: "0 \<le> (mp::int) \<Longrightarrow> mp \<le> 11 \<Longrightarrow>
    mp \<in> {0, 1, 2, 3, 4, 5, 6, 7, 8, 9, 10, 11}"
  by auto presburger

definition month_days :: "int \<Rightarrow> int" where
  "month_days mp = (if mp = 11 then 29 else if mp \<in> {1, 3, 6, 8} then 30 else 31)"

lemma month_of_day:
  assumes "0 \<le> mp" "mp \<le> 11" "1 \<le> d" "d \<le> month_days mp" and n: "n = (153 * mp + 2) div 5 + d - 1"
  shows "(5 * n + 2) div 153 = mp \<and> 0 \<le> n \<and> n \<le> 365 \<and> (n = 365 \<longleftrightarrow> mp = 11 \<and> d = 29)"
  using month_cases [OF assms(1,2)] assms(3,4) n
  by (elim insertE emptyE) (simp_all add: month_days_def)

lemma day_of_month:
  assumes "0 \<le> n" "n \<le> 365"
  obtains mp d where "0 \<le> mp" "mp \<le> 11" "1 \<le> d" "d \<le> month_days mp" "n = (153 * mp + 2) div 5 + d - 1"
proof -
  define mp where "mp = (5 * n + 2) div 153"
  have mp: "0 \<le> mp" "mp \<le> 11" using assms by (auto simp: mp_def pos_imp_zdiv_nonneg_iff)
  have bounds: "153 * mp \<le> 5 * n + 2" "5 * n + 2 < 153 * mp + 153"
    by (auto simp: mp_def)
  have "1 \<le> n - (153 * mp + 2) div 5 + 1" "n - (153 * mp + 2) div 5 + 1 \<le> month_days mp"
    using month_cases [OF mp] bounds assms(2)
    by (elim insertE emptyE; simp add: month_days_def)+
  with mp show ?thesis by (intro that [of mp "n - (153 * mp + 2) div 5 + 1"]) auto
qed

section \<open>Dates and day numbers\<close>

definition date_valid :: "LocalDate \<Rightarrow> bool" where
  "date_valid x \<longleftrightarrow> date_validate x = Inr ()"

definition date_days :: "LocalDate \<Rightarrow> int" where
  "date_days x = days_from_civil (ld_year x) (ld_month x) (ld_day x)"

definition gregorian_leap :: "int \<Rightarrow> bool" where
  "gregorian_leap y \<longleftrightarrow> 4 dvd y \<and> (\<not> 100 dvd y \<or> 400 dvd y)"

lemma smod_zero: "(a::int) smod b = 0 \<longleftrightarrow> b dvd a"
  by (auto simp: smod_int_alt_def sgn_if dvd_eq_mod_eq_0 [symmetric])

lemma is_leap_year_iff: "is_leap_year y \<longleftrightarrow> gregorian_leap y"
  by (simp add: is_leap_year_def gregorian_leap_def smod_zero)

lemma date_valid_iff:
  "date_valid x \<longleftrightarrow> 1 \<le> uint (ld_month x) \<and> uint (ld_month x) \<le> 12 \<and> 1 \<le> uint (ld_day x)
     \<and> uint (ld_day x) \<le> (if uint (ld_month x) = 2 then if gregorian_leap (ld_year x) then 29 else 28
         else if uint (ld_month x) \<in> {4, 6, 9, 11} then 30 else 31)"
proof -
  have eq: "w = v \<longleftrightarrow> uint w = uint v" for w v :: u8 by (simp add: word_uint_eq_iff)
  have pos: "ld_day x \<noteq> 0 \<longleftrightarrow> 1 \<le> uint (ld_day x)"
  proof -
    have "uint (0 :: u8) = 0" by simp
    then show ?thesis unfolding eq using uint_ge_0 [of "ld_day x"] by linarith
  qed
  have dim: "uint (days_in_month (ld_year x) (ld_month x)) =
      (if uint (ld_month x) = 2 then if gregorian_leap (ld_year x) then 29 else 28
       else if uint (ld_month x) \<in> {4, 6, 9, 11} then 30 else 31)"
    if "1 \<le> uint (ld_month x)" "uint (ld_month x) \<le> 12"
  proof -
    have "uint (ld_month x) \<in> {1, 2, 3, 4, 5, 6, 7, 8, 9, 10, 11, 12}" using that by auto presburger
    then show ?thesis
      by (auto simp: days_in_month_def eq [of "ld_month x"] is_leap_year_iff)
  qed
  show ?thesis
    unfolding date_valid_def date_validate_def
    using pos dim by (auto simp: word_le_def word_less_def not_less not_le)
qed

text \<open>The decomposition of a date into era, century, four years, year and month from March.\<close>

definition civil_repr :: "LocalDate \<Rightarrow> int \<Rightarrow> int \<Rightarrow> int \<Rightarrow> int \<Rightarrow> int \<Rightarrow> bool" where
  "civil_repr x era a q r mp \<longleftrightarrow> 0 \<le> mp \<and> mp \<le> 11
     \<and> 1 \<le> uint (ld_day x) \<and> uint (ld_day x) \<le> month_days mp
     \<and> era_day a q r ((153 * mp + 2) div 5 + uint (ld_day x) - 1)
     \<and> uint (ld_month x) = mp + (if mp < 10 then 3 else - 9)
     \<and> ld_year x = 400 * era + 100 * a + 4 * q + r + (if mp < 10 then 0 else 1)"

lemma march_leap:
  assumes "0 \<le> a" "a \<le> 3" "0 \<le> q" "q \<le> 24" "0 \<le> r" "r \<le> 3"
  shows "gregorian_leap (400 * era + 100 * a + 4 * q + r + 1) \<longleftrightarrow> r = 3 \<and> (q < 24 \<or> a = 3)"
proof -
  let ?y = "400 * era + 100 * a + 4 * q + r + 1"
  have "?y = 4 * (100 * era + 25 * a + q) + (r + 1)" by simp
  then have "4 dvd ?y \<longleftrightarrow> 4 dvd (r + 1)" by (simp only: dvd_add_right_iff dvd_triv_left)
  also have "\<dots> \<longleftrightarrow> r = 3" using assms(5,6) by presburger
  finally have "4 dvd ?y \<longleftrightarrow> r = 3" .
  moreover have "100 dvd ?y \<longleftrightarrow> q = 24" if "r = 3"
  proof -
    have "?y = 100 * (4 * era + a) + 4 * (q + 1)" using that by simp
    then have "100 dvd ?y \<longleftrightarrow> 100 dvd 4 * (q + 1)" by (simp only: dvd_add_right_iff dvd_triv_left)
    also have "\<dots> \<longleftrightarrow> 4 * 25 dvd 4 * (q + 1)" by simp
    also have "\<dots> \<longleftrightarrow> 25 dvd (q + 1)" by (simp only: dvd_mult_cancel_left) simp
    also have "\<dots> \<longleftrightarrow> q = 24" using assms(3,4) by presburger
    finally show ?thesis .
  qed
  moreover have "400 dvd ?y \<longleftrightarrow> a = 3" if "r = 3" "q = 24"
  proof -
    have "?y = 400 * era + 100 * (a + 1)" using that by simp
    then have "400 dvd ?y \<longleftrightarrow> 400 dvd 100 * (a + 1)" by (simp only: dvd_add_right_iff dvd_triv_left)
    also have "\<dots> \<longleftrightarrow> 100 * 4 dvd 100 * (a + 1)" by simp
    also have "\<dots> \<longleftrightarrow> 4 dvd (a + 1)" by (simp only: dvd_mult_cancel_left) simp
    also have "\<dots> \<longleftrightarrow> a = 3" using assms(1,2) by presburger
    finally show ?thesis .
  qed
  ultimately show ?thesis using assms(4) by (auto simp: gregorian_leap_def)
qed

lemma month_length_cases:
  fixes m d mp :: int
  assumes "mp = 11 \<Longrightarrow> d \<le> 28 \<or> leap" "1 \<le> d" "d \<le> month_days mp"
    "m = mp + (if mp < 10 then 3 else - 9)" "mp \<in> {0, 1, 2, 3, 4, 5, 6, 7, 8, 9, 10, 11}"
  shows "1 \<le> m \<and> m \<le> 12 \<and> 1 \<le> d
    \<and> d \<le> (if m = 2 then if leap then 29 else 28 else if m \<in> {4, 6, 9, 11} then 30 else 31)"
  using assms(5,1-4) by (elim insertE emptyE; cases leap) (simp_all add: month_days_def)

lemma sdiv_floor_400: "(if 0 \<le> a then a else a - 399) sdiv 400 = (a::int) div 400"
proof -
  have "(400::int) - 1 = 399" by simp
  then show ?thesis using sdiv_floor [of 400 a] by presburger
qed

lemma civil_repr_valid: "civil_repr x era a q r mp \<Longrightarrow> date_valid x"
proof -
  assume R: "civil_repr x era a q r mp"
  then have mp: "mp \<in> {0, 1, 2, 3, 4, 5, 6, 7, 8, 9, 10, 11}"
    using month_cases [of mp] by (simp add: civil_repr_def)
  have "uint (ld_day x) \<le> 28 \<or> gregorian_leap (ld_year x)" if "mp = 11"
  proof (cases "uint (ld_day x) \<le> 28")
    case False
    then have "uint (ld_day x) = 29" using R that by (simp add: civil_repr_def month_days_def)
    then have e: "era_day a q r 365" using R that by (simp add: civil_repr_def)
    then have "gregorian_leap (400 * era + 100 * a + 4 * q + r + 1)"
      by (subst march_leap) (auto simp: era_day_def)
    then show ?thesis using R that by (simp add: civil_repr_def)
  qed simp
  moreover have "1 \<le> uint (ld_day x)" "uint (ld_day x) \<le> month_days mp"
    "uint (ld_month x) = mp + (if mp < 10 then 3 else - 9)"
    using R by (simp_all add: civil_repr_def)
  ultimately show ?thesis
    unfolding date_valid_iff using mp by (intro month_length_cases)
qed

lemma date_repr:
  assumes "date_valid x"
  obtains era a q r mp where "civil_repr x era a q r mp"
proof -
  define mp where "mp = uint (ld_month x) + (if 2 < uint (ld_month x) then - 3 else 9)"
  define y where "y = ld_year x - (if uint (ld_month x) \<le> 2 then 1 else 0)"
  define a where "a = (y mod 400) div 100"
  define q where "q = (y mod 100) div 4"
  define r where "r = y mod 4"
  have y: "y = 400 * (y div 400) + 100 * a + 4 * q + r"
  proof -
    have "y mod 400 = 100 * a + y mod 100" "y mod 100 = 4 * q + r"
      using mult_div_mod_eq [of 100 "y mod 400"] mult_div_mod_eq [of 4 "y mod 100"]
      by (simp_all add: a_def q_def r_def mod_mod_cancel)
    then show ?thesis using mult_div_mod_eq [of 400 y] by linarith
  qed
  have b: "0 \<le> a" "a \<le> 3" "0 \<le> q" "q \<le> 24" "0 \<le> r" "r \<le> 3"
    by (auto simp: a_def q_def r_def pos_imp_zdiv_nonneg_iff)
  have v: "1 \<le> uint (ld_month x)" "uint (ld_month x) \<le> 12" "1 \<le> uint (ld_day x)"
    "uint (ld_day x) \<le> (if uint (ld_month x) = 2 then if gregorian_leap (ld_year x) then 29 else 28
         else if uint (ld_month x) \<in> {4, 6, 9, 11} then 30 else 31)"
    using assms by (simp_all add: date_valid_iff)
  have mp: "0 \<le> mp" "mp \<le> 11" "mp < 10 \<longleftrightarrow> 2 < uint (ld_month x)" using v by (auto simp: mp_def)
  have d: "uint (ld_day x) \<le> month_days mp"
    using v by (auto simp: mp_def month_days_def split: if_splits)
  let ?e = "(153 * mp + 2) div 5 + uint (ld_day x) - 1"
  have e: "0 \<le> ?e" "?e \<le> 365" "?e = 365 \<longleftrightarrow> mp = 11 \<and> uint (ld_day x) = 29"
    using month_of_day [OF mp(1,2) v(3) d refl] by auto
  have leap: "r = 3 \<and> (q < 24 \<or> a = 3)" if "mp = 11" "uint (ld_day x) = 29"
  proof -
    from that(1) have "uint (ld_month x) = 2" using v by (auto simp: mp_def split: if_splits)
    then have "gregorian_leap (ld_year x)" using v(4) that(2) by (simp split: if_splits)
    moreover have "ld_year x = 400 * (y div 400) + 100 * a + 4 * q + r + 1"
      using y \<open>uint (ld_month x) = 2\<close> by (simp add: y_def)
    ultimately show ?thesis by (simp only: march_leap [OF b])
  qed
  have "?e \<le> 364 \<or> ?e = 365 \<and> r = 3 \<and> (q < 24 \<or> a = 3)"
    using e leap by linarith
  then have "era_day a q r ?e" using b e(1) by (simp add: era_day_def)
  moreover have "ld_year x = 400 * (y div 400) + 100 * a + 4 * q + r + (if mp < 10 then 0 else 1)"
    using y mp(3) by (simp add: y_def not_less)
  moreover have "uint (ld_month x) = mp + (if mp < 10 then 3 else - 9)"
    unfolding mp(3) by (simp add: mp_def)
  ultimately show ?thesis
    by (intro that [of "y div 400" a q r mp]) (simp add: civil_repr_def mp(1,2) v(3) d)
qed

lemma date_days_repr:
  assumes R: "civil_repr x era a q r mp"
  shows "date_days x = 146097 * era + 36524 * a + 1461 * q + 365 * r
    + ((153 * mp + 2) div 5 + uint (ld_day x) - 1) - 719468"
proof -
  let ?y = "400 * era + 100 * a + 4 * q + r"
  have b: "era_day a q r ((153 * mp + 2) div 5 + uint (ld_day x) - 1)" "0 \<le> mp"
    using R by (simp_all add: civil_repr_def)
  have early: "ld_month x \<le> 2 \<longleftrightarrow> \<not> mp < 10"
    using R by (auto simp: word_le_def civil_repr_def)
  have y: "ld_year x - (if ld_month x \<le> 2 then 1 else 0) = ?y"
    using R early by (simp add: civil_repr_def)
  have m: "uint (ld_month x) + (if 2 < uint (ld_month x) then - 3 else 9) = mp"
    using R by (auto simp: civil_repr_def)
  have era: "(if 0 \<le> ?y then ?y else ?y - 399) sdiv 400 = era"
  proof -
    have "?y div 400 = era"
      by (rule int_div_pos_eq [of _ _ _ "100 * a + 4 * q + r"]) (use b in \<open>auto simp: era_day_def\<close>)
    then show ?thesis by (simp only: sdiv_floor_400)
  qed
  have yoe: "?y - era * 400 = 100 * a + 4 * q + r" by simp
  have "0 \<le> 100 * a + 4 * q + r" using b by (simp add: era_day_def)
  then show ?thesis
    using era_start_eq [OF b(1) refl] b(2)
    unfolding date_days_def days_from_civil_def Let_def y era m yoe
    by (simp add: sdiv_nonneg algebra_simps)
qed

lemma sdiv_floor_era: "(if 0 \<le> z then z else z - 146096) sdiv 146097 = (z::int) div 146097"
proof -
  have "(146097::int) - 1 = 146096" by simp
  then show ?thesis using sdiv_floor [of 146097 z] by presburger
qed

lemma civil_of_day:
  assumes e: "era_day a q r e" and n: "n = 36524 * a + 1461 * q + 365 * r + e"
    and mp: "0 \<le> mp" "mp \<le> 11" "1 \<le> d" "d \<le> month_days mp" and ed: "e = (153 * mp + 2) div 5 + d - 1"
    and z: "146097 * era + n - 719468 = days"
    and range: "- 784500000000 \<le> days" "days \<le> 784500000000"
  shows "civil_from_days days =
    (as_i32 (400 * era + 100 * a + 4 * q + r + (if mp < 10 then 0 else 1)),
     as_u8 (mp + (if mp < 10 then 3 else - 9)), as_u8 d)"
proof -
  have n0: "0 \<le> n" "n \<le> 146096" using e n by (auto simp: era_day_def)
  have w: "wrap_i64 (days + 719468) = 146097 * era + n"
    using range z by (subst wrap_i64_id) auto
  have era: "(146097 * era + n) div 146097 = era"
    by (rule int_div_pos_eq [of _ _ _ n]) (use n0 in auto)
  have doe: "146097 * era + n - era * 146097 = n" by simp
  have nn: "0 \<le> n - n div 1460 + n div 36524 - n div 146096"
  proof -
    have "n div 1460 \<le> n" "n div 146096 \<le> n div 36524" using n0 by (auto intro: zdiv_mono2)
    then show ?thesis by linarith
  qed
  have yoe: "(n - n div 1460 + n div 36524 - n div 146096) div 365 = 100 * a + 4 * q + r"
    by (rule era_year_of_day [OF e n])
  have doy: "n - (365 * (100 * a + 4 * q + r) + (100 * a + 4 * q + r) div 4 - (100 * a + 4 * q + r) div 100) = e"
    using era_start_eq [OF e refl] n by simp
  have y0: "0 \<le> 100 * a + 4 * q + r" using e by (simp add: era_day_def)
  have e0: "0 \<le> e" using e by (simp add: era_day_def)
  have m: "(5 * e + 2) div 153 = mp" using month_of_day [OF mp ed] by simp
  have d: "e - (153 * mp + 2) div 5 + 1 = d" using ed by simp
  have le: "mp + (if mp < 10 then 3 else - 9) \<le> 2 \<longleftrightarrow> \<not> mp < 10" using mp by auto
  have sd: "n sdiv 1460 = n div 1460" "n sdiv 36524 = n div 36524" "n sdiv 146096 = n div 146096"
    "(n - n div 1460 + n div 36524 - n div 146096) sdiv 365 = (n - n div 1460 + n div 36524 - n div 146096) div 365"
    "(100 * a + 4 * q + r) sdiv 4 = (100 * a + 4 * q + r) div 4"
    "(100 * a + 4 * q + r) sdiv 100 = (100 * a + 4 * q + r) div 100"
    "(5 * e + 2) sdiv 153 = (5 * e + 2) div 153" "(153 * mp + 2) sdiv 5 = (153 * mp + 2) div 5"
    using n0 nn y0 e0 mp by (simp_all only: sdiv_nonneg)
  have ans: "civil_from_days days =
    (as_i32 ((100 * a + 4 * q + r) + era * 400 + (if mp + (if mp < 10 then 3 else - 9) \<le> 2 then 1 else 0)),
     as_u8 (mp + (if mp < 10 then 3 else - 9)), as_u8 d)"
    unfolding civil_from_days_def Let_def w sdiv_floor_era era doe
    by (simp only: sd yoe doy m d)
  have yr: "(100 * a + 4 * q + r) + era * 400 + (if mp + (if mp < 10 then 3 else - 9) \<le> 2 then 1 else 0)
      = 400 * era + 100 * a + 4 * q + r + (if mp < 10 then 0 else 1)"
    using le by auto
  show ?thesis unfolding ans yr ..
qed

lemma days_range:
  assumes "civil_repr x era a q r mp" and "is_i32 (ld_year x)"
  shows "- 784500000000 \<le> date_days x \<and> date_days x \<le> 784500000000"
proof -
  define e where "e = (153 * mp + 2) div 5 + uint (ld_day x) - 1"
  have "0 \<le> a" "a \<le> 3" "0 \<le> q" "q \<le> 24" "0 \<le> r" "r \<le> 3" "0 \<le> e" "e \<le> 365"
    using assms(1) by (auto simp: civil_repr_def era_day_def e_def)
  moreover have "date_days x = 146097 * era + 36524 * a + 1461 * q + 365 * r + e - 719468"
    using date_days_repr [OF assms(1)] by (simp add: e_def)
  moreover have "- 2147483648 \<le> 400 * era + 100 * a + 4 * q + r + 1"
    "400 * era + 100 * a + 4 * q + r \<le> 2147483647"
    using assms by (auto simp: is_i32_def civil_repr_def split: if_splits)
  ultimately show ?thesis by auto
qed

lemma civil_from_date_days:
  assumes "date_valid x" and i: "is_i32 (ld_year x)"
  shows "civil_from_days (date_days x) = (ld_year x, ld_month x, ld_day x)"
proof -
  obtain era a q r mp where R: "civil_repr x era a q r mp" using date_repr [OF assms(1)] by metis
  define e where "e = (153 * mp + 2) div 5 + uint (ld_day x) - 1"
  have "civil_from_days (date_days x) =
    (as_i32 (400 * era + 100 * a + 4 * q + r + (if mp < 10 then 0 else 1)),
     as_u8 (mp + (if mp < 10 then 3 else - 9)), as_u8 (uint (ld_day x)))"
    by (rule civil_of_day [of a q r e "36524 * a + 1461 * q + 365 * r + e"])
      (use R days_range [OF R i] date_days_repr [OF R] in \<open>simp_all add: civil_repr_def e_def\<close>)
  moreover have "400 * era + 100 * a + 4 * q + r + (if mp < 10 then 0 else 1) = ld_year x"
    "mp + (if mp < 10 then 3 else - 9) = uint (ld_month x)"
    using R by (simp_all add: civil_repr_def)
  ultimately show ?thesis by (simp only: as_i32_id [OF i] as_u8_uint)
qed

lemma from_epoch_days_range:
  assumes "- 784000000000 \<le> n" "n \<le> 784000000000"
  shows "\<exists>x. civil_from_days n = (ld_year x, ld_month x, ld_day x) \<and> date_valid x \<and> date_days x = n
    \<and> is_i32 (ld_year x)"
proof -
  define z where "z = n + 719468"
  obtain a q r e where e: "era_day a q r e" and m: "z mod 146097 = 36524 * a + 1461 * q + 365 * r + e"
    by (rule era_day_exists [of "z mod 146097"]) auto
  then have "0 \<le> e" "e \<le> 365" by (auto simp: era_day_def)
  then obtain mp d where mp: "0 \<le> mp" "mp \<le> 11" "1 \<le> d" "d \<le> month_days mp" "e = (153 * mp + 2) div 5 + d - 1"
    by (rule day_of_month)
  define era where "era = z div 146097"
  define yr where "yr = 400 * era + 100 * a + 4 * q + r + (if mp < 10 then 0 else 1)"
  define x where "x = local_date_new yr (as_u8 (mp + (if mp < 10 then 3 else - 9))) (as_u8 d)"
  have zera: "146097 * era + (36524 * a + 1461 * q + 365 * r + e) - 719468 = n"
    using mult_div_mod_eq [of 146097 z] m z_def era_def by linarith
  have civ: "civil_from_days n = (as_i32 yr, as_u8 (mp + (if mp < 10 then 3 else - 9)), as_u8 d)"
    unfolding yr_def by (rule civil_of_day [OF e refl mp zera]) (use assms in auto)
  have "d \<le> 31" using mp(4) by (simp add: month_days_def split: if_splits)
  then have "uint (as_u8 d) = d" "uint (as_u8 (mp + (if mp < 10 then 3 else - 9))) = mp + (if mp < 10 then 3 else - 9)"
    using mp by (auto intro!: uint_as_u8)
  then have R: "civil_repr x era a q r mp"
    using mp e by (simp add: civil_repr_def x_def local_date_new_def yr_def)
  have "era_day a q r e" by (rule e)
  then have "is_i32 yr"
    using zera assms by (auto simp: is_i32_def yr_def era_day_def)
  moreover have "date_days x = n"
    using date_days_repr [OF R] zera mp(5) \<open>uint (as_u8 d) = d\<close> by (simp add: x_def local_date_new_def)
  ultimately show ?thesis
    using civ civil_repr_valid [OF R]
    by (intro exI [of _ x]) (simp add: as_i32_id, simp add: x_def local_date_new_def)
qed

section \<open>Order\<close>

definition year_start :: "int \<Rightarrow> int" where
  "year_start y = 365 * y + y div 4 - y div 100 + y div 400"

lemma div_step: "0 < (k::int) \<Longrightarrow> (n + 1) div k = n div k + (if k dvd (n + 1) then 1 else 0)"
proof -
  assume k: "0 < k"
  have split: "n + 1 = k * (n div k) + (n mod k + 1)" by simp
  show ?thesis
  proof (cases "n mod k + 1 = k")
    case True
    then have "n + 1 = k * (n div k + 1)" using split by (simp add: algebra_simps)
    then show ?thesis using k by simp
  next
    case False
    have "0 \<le> n mod k" "n mod k < k" using k by simp_all
    with False have b: "0 \<le> n mod k + 1" "n mod k + 1 < k" by auto
    have "(n + 1) div k = n div k" using split b by (rule int_div_pos_eq)
    moreover have "(n + 1) mod k = n mod k + 1" using split b by (rule int_mod_pos_eq)
    then have "\<not> k dvd (n + 1)" using \<open>0 \<le> n mod k\<close> by (simp add: dvd_eq_mod_eq_0)
    ultimately show ?thesis by simp
  qed
qed

lemma year_start_step: "year_start (y + 1) = year_start y + (if gregorian_leap (y + 1) then 366 else 365)"
proof -
  obtain A B C where abc: "A \<longleftrightarrow> 4 dvd (y + 1)" "B \<longleftrightarrow> 100 dvd (y + 1)" "C \<longleftrightarrow> 400 dvd (y + 1)" by blast
  have "(100::int) dvd 400" "(4::int) dvd 100" by simp_all
  then have sub: "C \<longrightarrow> B" "B \<longrightarrow> A" unfolding abc by (blast intro: dvd_trans)+
  have shift: "365 * (y + 1) + a' - b' + c' = 365 * y + a - b + c + 365 + p - q + r"
    if "a' = a + p" "b' = b + q" "c' = c + r" for a b c p q r a' b' c' :: int
    using that by simp
  have "(y + 1) div 4 = y div 4 + (if A then 1 else 0)"
    "(y + 1) div 100 = y div 100 + (if B then 1 else 0)"
    "(y + 1) div 400 = y div 400 + (if C then 1 else 0)"
    unfolding abc by (simp_all only: div_step zero_less_numeral)
  then have "year_start (y + 1) = year_start y + 365 + (if A then 1 else 0) - (if B then 1 else 0)
      + (if C then 1 else 0)"
    unfolding year_start_def by (rule shift)
  then show ?thesis
    using sub unfolding gregorian_leap_def abc [symmetric]
    by (cases A; cases B; cases C) simp_all
qed

lemma year_start_mono: "a \<le> b \<Longrightarrow> year_start a \<le> year_start b"
  by (induction rule: int_ge_induct) (auto simp: year_start_step)

text \<open>A date is a day \<open>e\<close> of a March year \<open>y\<close>.\<close>

lemma date_days_year:
  assumes "date_valid x"
  obtains y mp e where "date_days x = year_start y + e - 719468"
    "0 \<le> mp" "mp \<le> 11" "e = (153 * mp + 2) div 5 + uint (ld_day x) - 1"
    "1 \<le> uint (ld_day x)" "uint (ld_day x) \<le> month_days mp"
    "uint (ld_month x) = mp + (if mp < 10 then 3 else - 9)"
    "ld_year x = y + (if mp < 10 then 0 else 1)"
    "year_start y + e < year_start (y + 1)" "0 \<le> e"
proof -
  obtain era a q r mp where R: "civil_repr x era a q r mp" using date_repr [OF assms] by metis
  define y where "y = 400 * era + 100 * a + 4 * q + r"
  define e where "e = (153 * mp + 2) div 5 + uint (ld_day x) - 1"
  have ed: "era_day a q r e" using R by (simp add: civil_repr_def e_def)
  have "y div 4 = 100 * era + 25 * a + q"
    by (rule int_div_pos_eq [of _ _ _ r]) (use ed in \<open>auto simp: era_day_def y_def\<close>)
  moreover have "y div 100 = 4 * era + a"
    by (rule int_div_pos_eq [of _ _ _ "4 * q + r"]) (use ed in \<open>auto simp: era_day_def y_def\<close>)
  moreover have "y div 400 = era"
    by (rule int_div_pos_eq [of _ _ _ "100 * a + 4 * q + r"]) (use ed in \<open>auto simp: era_day_def y_def\<close>)
  ultimately have "date_days x = year_start y + e - 719468"
    using date_days_repr [OF R] by (simp add: year_start_def y_def e_def)
  moreover have "year_start y + e < year_start (y + 1)"
  proof (cases "e = 365")
    case True
    then have "gregorian_leap (y + 1)"
      unfolding y_def using ed by (subst march_leap) (auto simp: era_day_def)
    with True show ?thesis by (simp add: year_start_step)
  next
    case False
    then show ?thesis using ed by (auto simp: year_start_step era_day_def)
  qed
  ultimately show ?thesis
    using R ed by (intro that [of y e mp]) (auto simp: civil_repr_def e_def y_def era_day_def)
qed

lemma month_start_mono:
  assumes "0 \<le> mp" "mp < mp'" "mp' \<le> 11" "d \<le> month_days mp" "1 \<le> d'"
  shows "(153 * mp + 2) div 5 + d - 1 < (153 * mp' + 2) div 5 + d' - (1::int)"
proof -
  have "(153 * mp + 2) div 5 + month_days mp \<le> (153 * (mp + 1) + 2) div 5"
  proof -
    have "mp \<in> {0, 1, 2, 3, 4, 5, 6, 7, 8, 9, 10}" using month_cases [of mp] assms(1-3) by auto
    then show ?thesis by (elim insertE emptyE) (simp_all add: month_days_def)
  qed
  moreover have "(153 * (mp + 1) + 2) div 5 \<le> (153 * mp' + 2) div 5"
    using assms(2) by (intro zdiv_mono1) auto
  ultimately show ?thesis using assms(4,5) by linarith
qed

lemma date_order_less:
  assumes "date_valid x" "date_valid y" and "date_key x < date_key y"
  shows "date_days x < date_days y"
proof -
  obtain yx mx ex where X: "date_days x = year_start yx + ex - 719468"
    "0 \<le> mx" "mx \<le> 11" "ex = (153 * mx + 2) div 5 + uint (ld_day x) - 1"
    "1 \<le> uint (ld_day x)" "uint (ld_day x) \<le> month_days mx"
    "uint (ld_month x) = mx + (if mx < 10 then 3 else - 9)"
    "ld_year x = yx + (if mx < 10 then 0 else 1)"
    "year_start yx + ex < year_start (yx + 1)"
    using date_days_year [OF assms(1)] by metis
  obtain yy my ey where Y: "date_days y = year_start yy + ey - 719468"
    "0 \<le> my" "my \<le> 11" "ey = (153 * my + 2) div 5 + uint (ld_day y) - 1"
    "1 \<le> uint (ld_day y)" "uint (ld_day y) \<le> month_days my"
    "uint (ld_month y) = my + (if my < 10 then 3 else - 9)"
    "ld_year y = yy + (if my < 10 then 0 else 1)" "0 \<le> ey"
    using date_days_year [OF assms(2)] by metis
  have key: "ld_year x < ld_year y \<or> ld_year x = ld_year y \<and> (uint (ld_month x) < uint (ld_month y)
      \<or> uint (ld_month x) = uint (ld_month y) \<and> uint (ld_day x) < uint (ld_day y))"
    using assms(3) by (auto simp: date_key_def less_prod_def word_less_def word_le_def word_uint_eq_iff)
  have "yx < yy \<or> yx = yy \<and> (mx < my \<or> mx = my \<and> uint (ld_day x) < uint (ld_day y))"
    using key X(2,3,7,8) Y(2,3,7,8) by (auto split: if_splits)
  then consider "yx < yy" | "yx = yy" "mx < my" | "yx = yy" "mx = my" "uint (ld_day x) < uint (ld_day y)"
    by blast
  then show ?thesis
  proof cases
    case 1
    then have "year_start (yx + 1) \<le> year_start yy" by (intro year_start_mono) simp
    with X(1,9) Y(1,9) show ?thesis by linarith
  next
    case 2
    then have "ex < ey" unfolding X(4) Y(4) using X Y by (intro month_start_mono) auto
    with 2 X(1) Y(1) show ?thesis by simp
  next
    case 3
    then have "ex < ey" unfolding X(4) Y(4) by simp
    with 3 X(1) Y(1) show ?thesis by simp
  qed
qed

lemma date_order_iff:
  assumes "date_valid x" "date_valid y"
  shows "date_key x < date_key y \<longleftrightarrow> date_days x < date_days y"
proof
  assume "date_days x < date_days y"
  show "date_key x < date_key y"
  proof (rule ccontr)
    assume "\<not> date_key x < date_key y"
    then consider "date_key x = date_key y" | "date_key y < date_key x" by fastforce
    then show False
    proof cases
      case 1
      then have "date_days x = date_days y" by (simp add: date_key_def date_days_def)
      with \<open>date_days x < date_days y\<close> show False by simp
    next
      case 2
      with date_order_less [OF assms(2,1)] \<open>date_days x < date_days y\<close> show False by simp
    qed
  qed
qed (rule date_order_less [OF assms])

lemma date_validate_new:
  "date_validate (local_date_new (ld_year x) (ld_month x) (ld_day x)) = Inr () \<longleftrightarrow> date_valid x"
  by (simp add: date_valid_def local_date_new_def date_validate_def)

lemma local_date_new_eq: "local_date_new (ld_year x) (ld_month x) (ld_day x) = x"
  by (simp add: local_date_new_def)

lemma from_epoch_days_eq:
  assumes "civil_from_days n = (ld_year x, ld_month x, ld_day x)" and "date_valid x"
  shows "from_epoch_days n = Inr x"
  using assms by (simp add: from_epoch_days_def local_date_new_eq date_valid_def)

lemma date_days_bound:
  assumes "date_valid x" "is_i32 (ld_year x)"
  shows "- 784500000000 \<le> date_days x \<and> date_days x \<le> 784500000000"
  using date_repr [OF assms(1)] days_range [OF _ assms(2)] by metis

lemma date_add_days_eq:
  assumes "date_valid x" "is_i32 (ld_year x)"
    and "- 784000000000 \<le> date_days x + n" "date_days x + n \<le> 784000000000"
  shows "\<exists>y. date_add_days x n = Inr y \<and> date_valid y \<and> is_i32 (ld_year y) \<and> date_days y = date_days x + n"
proof -
  obtain y where y: "civil_from_days (date_days x + n) = (ld_year y, ld_month y, ld_day y)"
    "date_valid y" "date_days y = date_days x + n" "is_i32 (ld_year y)"
    using from_epoch_days_range [OF assms(3,4)] by blast
  have "wrap_i64 (date_days x + n) = date_days x + n" using assms(3,4) by (intro wrap_i64_id) auto
  with assms(1) y show ?thesis
    by (intro exI [of _ y])
      (simp add: date_add_days_def date_valid_def date_days_def [symmetric] local_date_new_eq)
qed

lemma date_weekday_eq:
  assumes "date_valid x"
  shows "date_weekday x = Inr (as_u8 ((date_days x + 3) mod 7) + 1)"
proof -
  have "days_from_civil 1970 1 1 = 0" by code_simp
  with assms show ?thesis by (simp add: date_weekday_def date_valid_def date_days_def)
qed

text \<open>C24: Civil dates and day numbers correspond one to one: every valid date in the range of the year
  type is recovered from its day number, and every day number in range converts to a valid date with
  that number, so the two Gregorian conversion formulas are inverse to each other.\<close>

theorem civil_roundtrip:
  "(date_valid x \<and> is_i32 (ld_year x) \<longrightarrow>
      from_epoch_days (days_from_civil (ld_year x) (ld_month x) (ld_day x)) = Inr x)
   \<and> (- 784000000000 \<le> n \<and> n \<le> 784000000000 \<longrightarrow>
      (\<exists>y. from_epoch_days n = Inr y \<and> date_valid y
         \<and> days_from_civil (ld_year y) (ld_month y) (ld_day y) = n))"
proof -
  have "from_epoch_days (date_days x) = Inr x" if "date_valid x" "is_i32 (ld_year x)"
    by (rule from_epoch_days_eq [OF civil_from_date_days [OF that] that(1)])
  moreover have "\<exists>y. from_epoch_days n = Inr y \<and> date_valid y \<and> date_days y = n"
    if "- 784000000000 \<le> n" "n \<le> 784000000000"
    using from_epoch_days_range [OF that] from_epoch_days_eq by blast
  ultimately show ?thesis by (simp add: date_days_def)
qed

definition leap_day :: LocalDate where
  "leap_day = local_date_new 2024 2 29"

theorem civil_roundtrip_witness:
  "from_epoch_days 19782 = Inr leap_day
   \<and> (\<exists>y. from_epoch_days (- 1) = Inr y \<and> days_from_civil (ld_year y) (ld_month y) (ld_day y) = - 1)"
proof -
  have "days_from_civil (ld_year leap_day) (ld_month leap_day) (ld_day leap_day) = 19782" by code_simp
  moreover have "date_validate leap_day = Inr ()" by code_simp
  moreover have "is_i32 (ld_year leap_day)" by (simp add: is_i32_def leap_day_def local_date_new_def)
  ultimately show ?thesis
    using civil_roundtrip [of leap_day "- 1"] by (auto simp: date_valid_def)
qed

text \<open>C36: The derived order of dates (year, then month, then day) is the order of their day numbers, on
  all valid dates.\<close>

theorem date_order_is_day_order:
  assumes "date_validate x = Inr ()" and "date_validate y = Inr ()"
  shows "date_key x < date_key y \<longleftrightarrow>
    days_from_civil (ld_year x) (ld_month x) (ld_day x) < days_from_civil (ld_year y) (ld_month y) (ld_day y)"
  using date_order_iff [of x y] assms by (simp add: date_valid_def date_days_def)

theorem date_order_is_day_order_witness:
  "days_from_civil 2024 2 29 < days_from_civil 2024 3 1"
proof -
  have v: "date_validate leap_day = Inr ()" "date_validate (local_date_new 2024 3 1) = Inr ()"
    by code_simp+
  have "date_key leap_day < date_key (local_date_new 2024 3 1)"
    by (simp add: date_key_def leap_day_def local_date_new_def less_prod_def)
  then show ?thesis
    using date_order_is_day_order [OF v] by (simp add: leap_day_def local_date_new_def)
qed

text \<open>Adding days moves the day number by exactly that many days and the weekday cyclically, for
  every valid date as long as the result stays in range; weekdays are 1 (Monday) to 7.\<close>

theorem add_days_exact:
  assumes "date_validate x = Inr ()" and "is_i32 (ld_year x)"
    and "- 784000000000 \<le> days_from_civil (ld_year x) (ld_month x) (ld_day x) + n"
    and "days_from_civil (ld_year x) (ld_month x) (ld_day x) + n \<le> 784000000000"
  shows "\<exists>y v w. date_add_days x n = Inr y \<and> date_validate y = Inr ()
     \<and> days_from_civil (ld_year y) (ld_month y) (ld_day y)
       = days_from_civil (ld_year x) (ld_month x) (ld_day x) + n
     \<and> date_weekday x = Inr v \<and> date_weekday y = Inr w
     \<and> 1 \<le> uint v \<and> uint v \<le> 7 \<and> uint w = (uint v - 1 + n) mod 7 + 1"
proof -
  have wd: "uint (as_u8 (k mod 7) + 1) = k mod 7 + 1" for k :: int
  proof -
    have b: "0 \<le> k mod 7" "k mod 7 < 7" by simp_all
    then have "uint (as_u8 (k mod 7)) = k mod 7" by (intro uint_as_u8) auto
    with b show ?thesis by (simp add: uint_word_ariths)
  qed
  obtain y where y: "date_add_days x n = Inr y" "date_valid y" "date_days y = date_days x + n"
    using date_add_days_eq [of x n] assms by (auto simp: date_valid_def date_days_def)
  have "((date_days x + 3) mod 7 + n) mod 7 = (date_days y + 3) mod 7"
    unfolding y(3) by (simp add: mod_simps algebra_simps)
  moreover have "date_weekday x = Inr (as_u8 ((date_days x + 3) mod 7) + 1)"
    "date_weekday y = Inr (as_u8 ((date_days y + 3) mod 7) + 1)"
    using assms(1) y(2) by (simp_all add: date_weekday_eq date_valid_def)
  moreover have "0 \<le> k mod 7" "k mod 7 \<le> 6" for k :: int using pos_mod_bound [of 7 k] by simp_all
  ultimately show ?thesis
    using y wd [of "date_days x + 3"] wd [of "date_days y + 3"]
    by (intro exI [of _ y] exI [of _ "as_u8 ((date_days x + 3) mod 7) + 1"]
        exI [of _ "as_u8 ((date_days y + 3) mod 7) + 1"]) (simp add: date_valid_def date_days_def)
qed

theorem add_days_exact_witness:
  "\<exists>y w. date_add_days leap_day 1 = Inr y \<and> date_weekday y = Inr w \<and> uint w = 5"
proof -
  have v: "date_validate leap_day = Inr ()" by code_simp
  have i: "is_i32 (ld_year leap_day)" by (simp add: is_i32_def leap_day_def local_date_new_def)
  have d: "days_from_civil (ld_year leap_day) (ld_month leap_day) (ld_day leap_day) = 19782" by code_simp
  have w: "date_weekday leap_day = Inr 4" by code_simp
  have "(- 784000000000 :: int) \<le> 19782 + 1" "(19782 :: int) + 1 \<le> 784000000000" by simp_all
  from add_days_exact [OF v i, unfolded d, OF this] show ?thesis unfolding w by auto
qed

end
