(* ===== verification/Recurrence.thy ===== *)
theory Recurrence
  imports Calendar Ordered_Map
begin

text \<open>
  Weekly recurrences and the loop that finds a slot (\<open>WeeklyRecurrence\<close> in
  \<open>crates/domain/src/work_model_v3.rs\<close>).  The time zone never enters: slots are nominal local values.
\<close>

section \<open>Weekly recurrences\<close>

datatype GapPolicy = NextValid

datatype FoldPolicy = EarlierOffset | LaterOffset

datatype RecurrenceEnd = Never | Count u64 | UntilLocalDate LocalDate

record WeeklyRecurrence =
  wr_anchor_local_start :: LocalDateTime
  wr_interval_weeks :: u32
  wr_weekdays :: "u8 btree_set"
  wr_end :: RecurrenceEnd
  wr_gap_policy :: GapPolicy
  wr_fold_policy :: FoldPolicy

definition recurrence_validate :: "WeeklyRecurrence \<Rightarrow> ModelError + unit" where
  "recurrence_validate r =
     sum_bind (datetime_validate (wr_anchor_local_start r)) (\<lambda>_.
     if wr_interval_weeks r = 0 then Inl (InvalidRecurrence ''interval_weeks must be positive'')
     else if bt_keys (wr_weekdays r) = []
       \<or> list_ex (\<lambda>day. \<not> (1 \<le> day \<and> day \<le> 7)) (bt_keys (wr_weekdays r))
     then Inl (InvalidRecurrence ''weekdays must contain ISO weekdays 1..=7'')
     else sum_bind (date_weekday (ldt_date (wr_anchor_local_start r))) (\<lambda>anchor_weekday.
       if \<not> bt_contains (wr_weekdays r) anchor_weekday
       then Inl (InvalidRecurrence ''anchor weekday must be configured'')
       else case wr_end r of
           Never \<Rightarrow> Inr ()
         | Count n \<Rightarrow>
             if n = 0 then Inl (InvalidRecurrence ''count must be positive'') else Inr ()
         | UntilLocalDate date \<Rightarrow> date_validate date))"

text \<open>
  The loop over the weekdays of one week.  \<open>Inl\<close> inside the result is the early return of the
  requested slot, \<open>Inr\<close> the running count.
\<close>

primrec slot_week ::
  "WeeklyRecurrence \<Rightarrow> u64 \<Rightarrow> LocalDate \<Rightarrow> u8 list \<Rightarrow> u64 \<Rightarrow> ModelError + (LocalDateTime + u64)"
where
  "slot_week r slot_ordinal base [] emitted = Inr (Inr emitted)"
| "slot_week r slot_ordinal base (weekday # weekdays) emitted =
     sum_bind (date_add_days base (uint weekday - 1)) (\<lambda>date.
       let candidate = \<lparr>ldt_date = date, ldt_time = ldt_time (wr_anchor_local_start r)\<rparr> in
       if datetime_key candidate < datetime_key (wr_anchor_local_start r)
       then slot_week r slot_ordinal base weekdays emitted
       else if (case wr_end r of UntilLocalDate until \<Rightarrow> date_key until < date_key date | _ \<Rightarrow> False)
       then Inl (SlotOutOfRange slot_ordinal)
       else if emitted = slot_ordinal then Inr (Inl candidate)
       else case checked_add_u64 emitted 1 of
           None \<Rightarrow> Inl RecurrenceOverflow
         | Some emitted \<Rightarrow> slot_week r slot_ordinal base weekdays emitted)"

text \<open>The outer \<open>loop\<close>, which by itself need not end: \<open>None\<close> is divergence.\<close>

partial_function (option) slot_weeks ::
  "WeeklyRecurrence \<Rightarrow> u64 \<Rightarrow> LocalDate \<Rightarrow> u64 \<Rightarrow> u64 \<Rightarrow> (ModelError + LocalDateTime) option"
where
  "slot_weeks r slot_ordinal week_start week emitted =
     (case sum_bind (date_add_days week_start (sint (week * 7)))
             (\<lambda>base. slot_week r slot_ordinal base (bt_keys (wr_weekdays r)) emitted) of
        Inl e \<Rightarrow> Some (Inl e)
      | Inr (Inl candidate) \<Rightarrow> Some (Inr candidate)
      | Inr (Inr emitted) \<Rightarrow>
          (case checked_add_u64 week (ucast (wr_interval_weeks r)) of
             None \<Rightarrow> Some (Inl RecurrenceOverflow)
           | Some week \<Rightarrow>
               if 5000000 < week then Some (Inl RecurrenceOverflow)
               else slot_weeks r slot_ordinal week_start week emitted))"

definition local_slot :: "WeeklyRecurrence \<Rightarrow> u64 \<Rightarrow> (ModelError + LocalDateTime) option" where
  "local_slot r slot_ordinal =
     (case sum_bind (recurrence_validate r) (\<lambda>_.
         if (case wr_end r of Count n \<Rightarrow> n \<le> slot_ordinal | _ \<Rightarrow> False)
         then Inl (SlotOutOfRange slot_ordinal)
         else sum_bind (date_weekday (ldt_date (wr_anchor_local_start r))) (\<lambda>anchor_weekday.
           date_add_days (ldt_date (wr_anchor_local_start r)) (- (uint anchor_weekday - 1)))) of
        Inl e \<Rightarrow> Some (Inl e)
      | Inr week_start \<Rightarrow> slot_weeks r slot_ordinal week_start 0 0)"

section \<open>Termination of the recurrence\<close>

lemma unat_ucast_u32: "unat (ucast (w :: u32) :: u64) = unat w"
proof -
  have "unat w < 2 ^ LENGTH(32)" by (rule unsigned_less)
  then have "take_bit 64 (unat w) = unat w" by (simp add: take_bit_nat_eq_self)
  then show ?thesis by (simp add: unsigned_ucast_eq)
qed

lemma slot_weeks_returns:
  assumes "wr_interval_weeks r \<noteq> 0"
  shows "\<exists>x. slot_weeks r slot ws week emitted = Some x"
proof (induction "5000001 - unat week" arbitrary: week emitted rule: less_induct)
  case less
  have pos: "0 < unat (ucast (wr_interval_weeks r) :: u64)"
    using assms by (simp add: unat_ucast_u32 unat_gt_0)
  have IH: "\<exists>x. slot_weeks r slot ws w e = Some x"
    if "checked_add_u64 week (ucast (wr_interval_weeks r)) = Some w" "\<not> 5000000 < w" for w e
  proof (rule less)
    have "unat w = unat week + unat (ucast (wr_interval_weeks r) :: u64)"
      using that(1) by (simp only: checked_add_Some_iff)
    moreover have "unat w \<le> 5000000" using that(2) by (simp add: word_less_nat_alt)
    ultimately show "5000001 - unat w < 5000001 - unat week" using pos by linarith
  qed
  show ?case
    by (subst slot_weeks.simps) (auto split: sum.splits option.splits intro: IH)
qed

text \<open>C26: Asking for a slot of a weekly recurrence always returns, with a date or an error, for every
  recurrence and every ordinal: validation excludes the zero interval that would loop for ever.\<close>

theorem local_slot_terminates: "\<exists>x. local_slot r slot_ordinal = Some x"
proof (cases "wr_interval_weeks r = 0")
  case True
  then have "\<exists>e. recurrence_validate r = Inl e"
    by (cases "datetime_validate (wr_anchor_local_start r)") (simp_all add: recurrence_validate_def)
  then show ?thesis by (auto simp: local_slot_def)
next
  case False
  then show ?thesis by (auto simp: local_slot_def slot_weeks_returns split: sum.splits)
qed

end
