(* ===== verification/Stack_Search.thy ===== *)
theory Stack_Search
  imports Graph_Search
begin

text \<open>
  The iterative depth-first search that \<open>crates/domain/src/work_model_v3.rs\<close> uses twice, with the
  proof that it decides reachability and that its fuel (one more than the arcs plus the stack)
  suffices.
\<close>

text \<open>
  The depth-first search of \<open>reaches\<close> and of \<open>is_dependency_of\<close>: a stack, the visited set, and an
  early return while the successors of the popped node are pushed.
\<close>

primrec push_successors :: "'n \<Rightarrow> 'n list \<Rightarrow> 'n list \<Rightarrow> 'n list option" where
  "push_successors target stack [] = Some stack"
| "push_successors target stack (d # ds) =
     (if d = target then None else push_successors target (d # stack) ds)"

primrec stack_search ::
  "nat \<Rightarrow> ('n \<Rightarrow> 'n list) \<Rightarrow> 'n \<Rightarrow> 'n list \<Rightarrow> 'n list \<Rightarrow> bool run" where
  "stack_search 0 successors target visited stack = OutOfFuel"
| "stack_search (Suc fuel) successors target visited stack =
     (case stack of
        [] \<Rightarrow> Return False
      | current # stack \<Rightarrow>
          if current \<in> set visited then stack_search fuel successors target visited stack
          else (case push_successors target stack (successors current) of
              None \<Rightarrow> Return True
            | Some stack \<Rightarrow> stack_search fuel successors target (current # visited) stack))"

context succ_graph
begin

text \<open>What a search over a stack answers: yes for a reachable target, no with a closed witness set.\<close>

definition decides :: "'n \<Rightarrow> 'n set \<Rightarrow> 'n set \<Rightarrow> bool \<Rightarrow> bool" where
  "decides t V S b \<longleftrightarrow> (if b then \<exists>u \<in> S. (u, t) \<in> arcs\<^sup>*
     else \<exists>E. V \<union> S \<subseteq> E \<and> closed E \<and> t \<notin> E)"

lemma decides_iff: "decides t V S b \<Longrightarrow> b \<longleftrightarrow> (\<exists>u \<in> S. (u, t) \<in> arcs\<^sup>*)"
proof (cases b)
  case False
  assume "decides t V S b"
  with False obtain E where "V \<union> S \<subseteq> E" "closed E" "t \<notin> E" by (auto simp: decides_def)
  then have "(u, t) \<notin> arcs\<^sup>*" if "u \<in> S" for u using closed_reach [of E u t] that by blast
  with False show ?thesis by blast
qed (simp add: decides_def)

definition pending :: "'n set \<Rightarrow> 'n set \<Rightarrow> nat" where
  "pending N V = (\<Sum>u \<in> N - V. length (succs u))"

lemma pending_visit:
  assumes "finite N" "u \<in> N" "u \<notin> V"
  shows "pending N V = length (succs u) + pending N (insert u V)"
proof -
  have "N - V = insert u (N - insert u V)" using assms(2,3) by blast
  then have "pending N V = (\<Sum>w \<in> insert u (N - insert u V). length (succs w))"
    by (simp only: pending_def)
  also have "\<dots> = length (succs u) + pending N (insert u V)"
    unfolding pending_def using assms(1) by (subst sum.insert) auto
  finally show ?thesis .
qed

lemma pending_sink: "succs u = [] \<Longrightarrow> finite N \<Longrightarrow> pending N (insert u V) = pending N V"
proof (cases "u \<in> N - V")
  case True
  assume "succs u = []" "finite N"
  with True pending_visit [of N u V] show ?thesis by simp
next
  case False
  then have "N - insert u V = N - V" by blast
  then show ?thesis by (simp add: pending_def)
qed

end

lemma push_successors_eq:
  "push_successors t stack ds = (if t \<in> set ds then None else Some (rev ds @ stack))"
  by (induction ds arbitrary: stack) auto

context succ_graph
begin

lemma stack_search_decides:
  assumes N: "finite N" "\<And>u. succs u \<noteq> [] \<Longrightarrow> u \<in> N"
  shows "length stack + pending N (set visited) < fuel \<Longrightarrow> t \<notin> set stack \<union> set visited \<Longrightarrow>
    (\<And>u. u \<in> set visited \<Longrightarrow> set (succs u) \<subseteq> set visited \<union> set stack) \<Longrightarrow>
    \<exists>b. stack_search fuel succs t visited stack = Return b \<and> decides t (set visited) (set stack) b"
proof (induction fuel arbitrary: visited stack)
  case (Suc fuel)
  show ?case
  proof (cases stack)
    case Nil
    with Suc.prems(2,3) have "decides t (set visited) (set stack) False"
      by (auto simp: decides_def closed_def intro!: exI [of _ "set visited"])
    with Nil show ?thesis by (intro exI [of _ False]) simp
  next
    case (Cons u rest)
    show ?thesis
    proof (cases "u \<in> set visited")
      case True
      have "\<exists>b. stack_search fuel succs t visited rest = Return b \<and> decides t (set visited) (set rest) b"
        by (rule Suc.IH) (use Suc.prems Cons True in auto)
      moreover have "decides t (set visited) (set rest) b \<Longrightarrow> decides t (set visited) (set stack) b" for b
        using True Cons by (auto simp: decides_def split: if_splits)
      ultimately show ?thesis using Cons True by auto
    next
      case False
      show ?thesis
      proof (cases "t \<in> set (succs u)")
        case True
        then have "(u, t) \<in> arcs\<^sup>*" by (auto simp: arcs_def)
        with True False Cons show ?thesis
          by (auto simp: push_successors_eq decides_def intro!: exI [of _ True])
      next
        case miss: False
        let ?rest = "rev (succs u) @ rest" and ?visited = "u # visited"
        have work: "length (succs u) + pending N (set ?visited) = pending N (set visited)"
        proof (cases "succs u = []")
          case True
          then show ?thesis using pending_sink [OF True N(1)] by simp
        next
          case False
          then show ?thesis using pending_visit [OF N(1) N(2) \<open>u \<notin> set visited\<close>] by simp
        qed
        have "\<exists>b. stack_search fuel succs t ?visited ?rest = Return b
            \<and> decides t (set ?visited) (set ?rest) b"
        proof (rule Suc.IH)
          show "length ?rest + pending N (set ?visited) < fuel"
            using Suc.prems(1) Cons work by simp
        next
          show "t \<notin> set ?rest \<union> set ?visited" using Suc.prems(2) Cons miss by auto
        next
          fix v assume "v \<in> set ?visited"
          then show "set (succs v) \<subseteq> set ?visited \<union> set ?rest"
            using Suc.prems(3) [of v] Cons by auto
        qed
        then obtain b where b: "stack_search fuel succs t ?visited ?rest = Return b"
          "decides t (set ?visited) (set ?rest) b" by blast
        have "decides t (set visited) (set stack) b"
        proof (cases b)
          case True
          with b(2) obtain v where "v \<in> set (succs u) \<union> set rest" "(v, t) \<in> arcs\<^sup>*"
            by (auto simp: decides_def)
          moreover have "(u, v) \<in> arcs" if "v \<in> set (succs u)" using that by (simp add: arcs_def)
          ultimately have "\<exists>w \<in> set stack. (w, t) \<in> arcs\<^sup>*"
            using Cons by (auto intro: converse_rtrancl_into_rtrancl)
          with True show ?thesis by (simp add: decides_def)
        next
          case False
          with b(2) Cons show ?thesis by (auto simp: decides_def)
        qed
        with b(1) False miss Cons show ?thesis by (simp add: push_successors_eq)
      qed
    qed
  qed
qed simp

end

text \<open>The arcs out of a set that holds every source are all the arcs.\<close>

lemma sum_length_filter:
  assumes "finite N" and "src ` set es \<subseteq> N"
  shows "(\<Sum>u \<in> N. length (filter (\<lambda>e. src e = u) es)) = length es"
  using assms(2)
proof (induction es)
  case (Cons e es)
  have "(\<Sum>u \<in> N. length (filter (\<lambda>x. src x = u) (e # es)))
      = (\<Sum>u \<in> N. (if u = src e then 1 else 0) + length (filter (\<lambda>x. src x = u) es))"
    by (rule sum.cong) auto
  also have "\<dots> = 1 + length es"
    using Cons assms(1) by (simp add: sum.distrib)
  finally show ?case by simp
qed simp

context succ_graph
begin

text \<open>The search from one node, when the successors come from a list of edges.\<close>

lemma stack_search_edges:
  assumes succs: "\<And>u. length (succs u) = length (filter (\<lambda>e. src e = u) es)" and "start \<noteq> t"
  shows "stack_search (length es + 2) succs t [] [start] = Return ((start, t) \<in> arcs\<^sup>*)"
proof -
  let ?N = "src ` set es"
  have "u \<in> ?N" if "succs u \<noteq> []" for u
  proof -
    have "filter (\<lambda>e. src e = u) es \<noteq> []" using that succs [of u] by auto
    then show ?thesis by (auto simp: filter_empty_conv)
  qed
  moreover have "pending ?N (set []) = length es"
    using sum_length_filter [of ?N src es] by (simp add: pending_def succs)
  ultimately have "\<exists>b. stack_search (length es + 2) succs t [] [start] = Return b
      \<and> decides t (set []) (set [start]) b"
    using \<open>start \<noteq> t\<close> by (intro stack_search_decides [where N = ?N]) auto
  then show ?thesis using decides_iff by fastforce
qed

end

end
