(* ===== verification/Work_Model.thy ===== *)
theory Work_Model
  imports Calendar Ordered_Map Stack_Search
begin

text \<open>
  Decomposition and direct dependencies of the work model
  (\<open>crates/domain/src/work_model_v3.rs\<close>).  The \<open>while\<close> loops of the validators carry fuel: a walk to
  the root visits distinct nodes, so \<open>length nodes + 3\<close> steps suffice, and the searches are those of
  \<open>Stack_Search\<close>.  The properties show that the fuel never runs out.
\<close>

section \<open>Decomposition\<close>

datatype DecompositionKind = Milestone | Task

datatype ExecutionMode = Direct | Container

record WorkNode =
  wn_id :: WorkId
  wn_project_id :: ProjectId
  wn_kind :: DecompositionKind
  wn_execution_mode :: ExecutionMode
  wn_parent_id :: "WorkId option"
  wn_title :: string

definition node_milestone :: "ProjectId \<Rightarrow> WorkId \<Rightarrow> string \<Rightarrow> WorkNode" where
  "node_milestone project_id i title =
     \<lparr>wn_id = i, wn_project_id = project_id, wn_kind = Milestone, wn_execution_mode = Container,
      wn_parent_id = None, wn_title = title\<rparr>"

definition node_task ::
  "ProjectId \<Rightarrow> WorkId \<Rightarrow> ExecutionMode \<Rightarrow> WorkId option \<Rightarrow> string \<Rightarrow> WorkNode" where
  "node_task project_id i execution_mode parent_id title =
     \<lparr>wn_id = i, wn_project_id = project_id, wn_kind = Task, wn_execution_mode = execution_mode,
      wn_parent_id = parent_id, wn_title = title\<rparr>"

definition is_direct :: "WorkNode \<Rightarrow> bool" where
  "is_direct n \<longleftrightarrow> wn_execution_mode n = Direct"

definition is_container :: "WorkNode \<Rightarrow> bool" where
  "is_container n \<longleftrightarrow> wn_execution_mode n = Container"

type_synonym node_index = "(WorkId, WorkNode) btree_map"

definition index_node :: "node_index \<Rightarrow> WorkNode \<Rightarrow> ModelError + node_index" where
  "index_node by_id node =
     (if bt_contains by_id (wn_id node) then Inl (DuplicateIdentifier (as_str (wn_id node)))
      else if wn_kind node = Milestone \<and> wn_execution_mode node \<noteq> Container
      then Inl (MilestoneMustBeContainer (wn_id node))
      else Inr (bt_insert (wn_id node) node by_id))"

definition parent_shape_allowed :: "WorkNode \<Rightarrow> WorkNode \<Rightarrow> bool" where
  "parent_shape_allowed parent node \<longleftrightarrow>
     (wn_kind parent, wn_execution_mode parent, wn_kind node)
       \<in> {(Milestone, Container, Milestone), (Milestone, Container, Task), (Task, Container, Task)}"

type_synonym child_index = "(WorkId, WorkId list) btree_map"

definition place_node :: "node_index \<Rightarrow> child_index \<Rightarrow> WorkNode \<Rightarrow> ModelError + child_index" where
  "place_node by_id children node =
     (case wn_parent_id node of
        None \<Rightarrow> Inr children
      | Some parent_id \<Rightarrow>
          (case bt_get by_id parent_id of
             None \<Rightarrow> Inl (MissingParent (wn_id node))
           | Some parent \<Rightarrow>
               if wn_project_id node \<noteq> wn_project_id parent
               then Inl (CrossProjectReference (wn_id node) (wn_id parent))
               else if \<not> parent_shape_allowed parent node
               then Inl (InvalidParentShape (wn_id parent) (wn_id node))
               else Inr (bt_insert (wn_id parent)
                 (case_option [] id (bt_get children (wn_id parent)) @ [wn_id node]) children)))"

text \<open>The walk from one node to its root; a repeated identifier is a cycle.\<close>

primrec parent_walk ::
  "nat \<Rightarrow> node_index \<Rightarrow> WorkId list \<Rightarrow> WorkId option \<Rightarrow> (ModelError + unit) run" where
  "parent_walk 0 by_id seen current = OutOfFuel"
| "parent_walk (Suc fuel) by_id seen current =
     (case current of
        None \<Rightarrow> Return (Inr ())
      | Some i \<Rightarrow>
          if i \<in> set seen then Return (Inl (DecompositionCycle i))
          else parent_walk fuel by_id (i # seen) (Option.bind (bt_get by_id i) wn_parent_id))"

primrec check_walks :: "nat \<Rightarrow> node_index \<Rightarrow> WorkNode list \<Rightarrow> (ModelError + unit) run" where
  "check_walks fuel by_id [] = Return (Inr ())"
| "check_walks fuel by_id (node # nodes) =
     run_bind (parent_walk fuel by_id [] (Some (wn_id node)))
       (case_sum (\<lambda>e. Return (Inl e)) (\<lambda>_. check_walks fuel by_id nodes))"

definition childless_direct :: "child_index \<Rightarrow> WorkNode \<Rightarrow> ModelError + unit" where
  "childless_direct children node =
     (if is_direct node \<and> bt_contains children (wn_id node)
      then Inl (DirectTaskHasChildren (wn_id node)) else Inr ())"

definition validate_decomposition :: "WorkNode list \<Rightarrow> (ModelError + unit) run" where
  "validate_decomposition nodes =
     (case try_fold index_node [] nodes of
        Inl e \<Rightarrow> Return (Inl e)
      | Inr by_id \<Rightarrow>
     (case try_fold (place_node by_id) [] nodes of
        Inl e \<Rightarrow> Return (Inl e)
      | Inr children \<Rightarrow>
     (case try_fold (\<lambda>_. childless_direct children) () nodes of
        Inl e \<Rightarrow> Return (Inl e)
      | Inr _ \<Rightarrow> check_walks (length nodes + 3) by_id nodes)))"

section \<open>Direct dependencies\<close>

record DirectDependency =
  dd_blocker_id :: WorkId
  dd_blocked_id :: WorkId

type_synonym edge_set = "(WorkId \<times> WorkId) btree_set"

definition edge_set_successors :: "edge_set \<Rightarrow> WorkId \<Rightarrow> WorkId list" where
  "edge_set_successors edges current = map snd (filter (\<lambda>(source, _). source = current) (bt_keys edges))"

definition direct_reaches :: "edge_set \<Rightarrow> WorkId \<Rightarrow> WorkId \<Rightarrow> bool run" where
  "direct_reaches edges from_id target =
     (if from_id = target then Return True
      else stack_search (length edges + 2) (edge_set_successors edges) target [] [from_id])"

definition direct_edge_step ::
  "node_index \<Rightarrow> edge_set \<Rightarrow> DirectDependency \<Rightarrow> (ModelError + edge_set) run" where
  "direct_edge_step by_id edges edge =
     (case bt_get by_id (dd_blocker_id edge) of
        None \<Rightarrow> Return (Inl (MissingWork (dd_blocker_id edge)))
      | Some blocker \<Rightarrow>
     (case bt_get by_id (dd_blocked_id edge) of
        None \<Rightarrow> Return (Inl (MissingWork (dd_blocked_id edge)))
      | Some blocked \<Rightarrow>
          if wn_project_id blocker \<noteq> wn_project_id blocked
          then Return (Inl (CrossProjectReference (wn_id blocker) (wn_id blocked)))
          else if \<not> is_direct blocker \<or> \<not> is_direct blocked
          then Return (Inl (DependencyEndpointNotDirect (wn_id blocker) (wn_id blocked)))
          else if bt_contains edges (dd_blocker_id edge, dd_blocked_id edge)
          then Return (Inl (DuplicateDependency (dd_blocker_id edge) (dd_blocked_id edge)))
          else
            let edges = bs_insert (dd_blocker_id edge, dd_blocked_id edge) edges in
            if dd_blocker_id edge = dd_blocked_id edge
            then Return (Inl (DependencyCycle (dd_blocker_id edge)))
            else run_bind (direct_reaches edges (dd_blocked_id edge) (dd_blocker_id edge))
              (\<lambda>found. Return
                 (if found then Inl (DependencyCycle (dd_blocker_id edge)) else Inr edges))))"

primrec direct_edges ::
  "node_index \<Rightarrow> edge_set \<Rightarrow> DirectDependency list \<Rightarrow> (ModelError + unit) run" where
  "direct_edges by_id edges [] = Return (Inr ())"
| "direct_edges by_id edges (d # ds) =
     run_bind (direct_edge_step by_id edges d)
       (case_sum (\<lambda>e. Return (Inl e)) (\<lambda>edges. direct_edges by_id edges ds))"

definition node_map :: "WorkNode list \<Rightarrow> node_index" where
  "node_map nodes = fold (\<lambda>n. bt_insert (wn_id n) n) nodes []"

definition validate_direct_dependencies ::
  "WorkNode list \<Rightarrow> DirectDependency list \<Rightarrow> (ModelError + unit) run" where
  "validate_direct_dependencies nodes dependencies =
     run_bind (validate_decomposition nodes)
       (case_sum (\<lambda>e. Return (Inl e)) (\<lambda>_. direct_edges (node_map nodes) [] dependencies))"

definition dependency_successors :: "DirectDependency list \<Rightarrow> WorkId \<Rightarrow> WorkId list" where
  "dependency_successors dependencies current =
     map dd_blocked_id (filter (\<lambda>edge. dd_blocker_id edge = current) dependencies)"

definition is_dependency_of :: "WorkId \<Rightarrow> WorkId \<Rightarrow> DirectDependency list \<Rightarrow> bool run" where
  "is_dependency_of source affected dependencies =
     (if source = affected then Return True
      else stack_search (length dependencies + 2) (dependency_successors dependencies)
             affected [] [source])"

section \<open>The indexes\<close>

lemma node_map_snoc: "node_map (ns @ [n]) = bt_insert (wn_id n) n (node_map ns)"
  by (simp add: node_map_def)

lemma node_map_wf [simp]: "bt_wf (node_map ns)"
  unfolding node_map_def by (rule bt.invar_fold_put) simp

lemma node_map_contains: "bt_contains (node_map ns) i \<longleftrightarrow> i \<in> wn_id ` set ns"
  using bt.dom_fold_put [of "[]" wn_id "\<lambda>n. n" ns]
  by (simp add: bt_contains_iff_dom node_map_def dom_def)

lemma node_map_get: "distinct (map wn_id ns) \<Longrightarrow> n \<in> set ns \<Longrightarrow> bt_get (node_map ns) (wn_id n) = Some n"
  unfolding node_map_def by (rule bt.lookup_fold_put_distinct) simp_all

lemma node_map_Some:
  assumes "distinct (map wn_id ns)"
  shows "bt_get (node_map ns) i = Some n \<longleftrightarrow> n \<in> set ns \<and> wn_id n = i"
proof
  assume get: "bt_get (node_map ns) i = Some n"
  then have "i \<in> wn_id ` set ns" using node_map_contains [of ns i] by (simp add: bt_contains_def)
  then obtain m where "m \<in> set ns" "wn_id m = i" by auto
  with node_map_get [OF assms] get show "n \<in> set ns \<and> wn_id n = i" by fastforce
qed (use node_map_get [OF assms] in auto)

section \<open>Correctness of the decomposition check\<close>

definition parent_arcs :: "WorkNode list \<Rightarrow> (WorkId \<times> WorkId) set" where
  "parent_arcs ns = {(wn_id n, p) | n p. n \<in> set ns \<and> wn_parent_id n = Some p}"

definition shaped :: "WorkNode list \<Rightarrow> bool" where
  "shaped ns \<longleftrightarrow> distinct (map wn_id ns)
     \<and> (\<forall>n \<in> set ns. wn_kind n = Milestone \<longrightarrow> wn_execution_mode n = Container)
     \<and> (\<forall>n \<in> set ns. \<forall>p. wn_parent_id n = Some p \<longrightarrow>
          (\<exists>m \<in> set ns. wn_id m = p \<and> wn_project_id m = wn_project_id n
             \<and> wn_execution_mode m = Container \<and> (wn_kind n = Milestone \<longrightarrow> wn_kind m = Milestone)))"

definition forest :: "WorkNode list \<Rightarrow> bool" where
  "forest ns \<longleftrightarrow> shaped ns \<and> acyclic (parent_arcs ns)"

lemma parent_shape_iff:
  "parent_shape_allowed p n \<longleftrightarrow>
     wn_execution_mode p = Container \<and> (wn_kind n = Milestone \<longrightarrow> wn_kind p = Milestone)"
  by (cases "wn_kind p"; cases "wn_kind n") (auto simp: parent_shape_allowed_def)

lemma index_loop:
  "if distinct (map wn_id ns) \<and> (\<forall>n \<in> set ns. wn_kind n = Milestone \<longrightarrow> wn_execution_mode n = Container)
   then try_fold index_node [] ns = Inr (node_map ns)
   else \<exists>e. try_fold index_node [] ns = Inl e \<and> (\<forall>i. e \<noteq> DirectTaskHasChildren i)"
proof (induction ns rule: rev_induct)
  case (snoc n ns)
  show ?case
  proof (cases "try_fold index_node [] ns")
    case (Inl e)
    with snoc show ?thesis by (auto simp: try_fold_append split: if_splits)
  next
    case (Inr m)
    with snoc have m: "m = node_map ns" and ok: "distinct (map wn_id ns)"
      "\<forall>n \<in> set ns. wn_kind n = Milestone \<longrightarrow> wn_execution_mode n = Container"
      by (auto split: if_splits)
    have "try_fold index_node [] (ns @ [n]) = index_node m n"
      by (simp add: try_fold_append Inr split: sum.splits)
    then have step: "try_fold index_node [] (ns @ [n]) =
        (if wn_id n \<in> wn_id ` set ns then Inl (DuplicateIdentifier (as_str (wn_id n)))
         else if wn_kind n = Milestone \<and> wn_execution_mode n \<noteq> Container
         then Inl (MilestoneMustBeContainer (wn_id n)) else Inr (node_map (ns @ [n])))"
      by (simp add: m index_node_def node_map_contains node_map_snoc)
    show ?thesis unfolding step using ok by auto
  qed
qed (simp add: node_map_def)

definition well_placed :: "WorkNode list \<Rightarrow> WorkNode \<Rightarrow> bool" where
  "well_placed ns n \<longleftrightarrow> (\<forall>p. wn_parent_id n = Some p \<longrightarrow>
     (\<exists>m \<in> set ns. wn_id m = p \<and> wn_project_id m = wn_project_id n
        \<and> wn_execution_mode m = Container \<and> (wn_kind n = Milestone \<longrightarrow> wn_kind m = Milestone)))"

lemma place_node_cases:
  assumes "distinct (map wn_id ns)"
  shows "if well_placed ns n
    then place_node (node_map ns) c n = Inr (case wn_parent_id n of None \<Rightarrow> c
       | Some p \<Rightarrow> bt_insert p (case_option [] id (bt_get c p) @ [wn_id n]) c)
    else \<exists>e. place_node (node_map ns) c n = Inl e \<and> (\<forall>i. e \<noteq> DirectTaskHasChildren i)"
proof (cases "wn_parent_id n")
  case None
  then show ?thesis by (simp add: place_node_def well_placed_def)
next
  case (Some p)
  note parent = this
  show ?thesis
  proof (cases "bt_get (node_map ns) p")
    case None
    then have "p \<notin> wn_id ` set ns" using node_map_contains [of ns p] by (simp add: bt_contains_def)
    then have "\<not> well_placed ns n" using parent by (auto simp: well_placed_def)
    with None parent show ?thesis by (simp add: place_node_def)
  next
    case (Some m)
    then have m: "m \<in> set ns" "wn_id m = p" by (simp_all add: node_map_Some [OF assms])
    have uniq: "m' = m" if "m' \<in> set ns" "wn_id m' = p" for m'
      using that m assms by (auto simp: distinct_map inj_on_def)
    then have one: "(\<exists>m' \<in> set ns. wn_id m' = p \<and> Q m') \<longleftrightarrow> Q m" for Q using m by blast
    have "well_placed ns n \<longleftrightarrow> wn_project_id m = wn_project_id n \<and> parent_shape_allowed m n"
      using one [of "\<lambda>m. wn_project_id m = wn_project_id n \<and> wn_execution_mode m = Container
        \<and> (wn_kind n = Milestone \<longrightarrow> wn_kind m = Milestone)"]
      by (simp add: parent well_placed_def parent_shape_iff)
    with parent Some m show ?thesis by (simp add: place_node_def)
  qed
qed

lemma place_loop:
  assumes "distinct (map wn_id all)"
  shows "if (\<forall>n \<in> set ns. well_placed all n)
    then \<exists>c. try_fold (place_node (node_map all)) [] ns = Inr c \<and> bt_wf c
      \<and> (\<forall>p. bt_contains c p \<longrightarrow> (\<exists>n \<in> set ns. wn_parent_id n = Some p))
    else \<exists>e. try_fold (place_node (node_map all)) [] ns = Inl e \<and> (\<forall>i. e \<noteq> DirectTaskHasChildren i)"
proof (induction ns rule: rev_induct)
  case (snoc n ns)
  show ?case
  proof (cases "try_fold (place_node (node_map all)) [] ns")
    case (Inl e)
    with snoc show ?thesis by (auto simp: try_fold_append split: if_splits)
  next
    case (Inr c)
    with snoc have ok: "\<forall>n \<in> set ns. well_placed all n" and c: "bt_wf c"
      "\<forall>p. bt_contains c p \<longrightarrow> (\<exists>n \<in> set ns. wn_parent_id n = Some p)"
      by (auto split: if_splits)
    have step: "try_fold (place_node (node_map all)) [] (ns @ [n]) = place_node (node_map all) c n"
      by (simp add: try_fold_append Inr split: sum.splits)
    show ?thesis
    proof (cases "well_placed all n")
      case True
      with place_node_cases [OF assms, of n c] ok c show ?thesis
        unfolding step by (auto simp: bt_contains_insert split: option.splits)
    next
      case False
      with place_node_cases [OF assms, of n c] show ?thesis unfolding step by auto
    qed
  qed
qed simp

lemma childless_ok:
  assumes "\<forall>n \<in> set ns. well_placed ns n" and "distinct (map wn_id ns)"
    and "\<forall>p. bt_contains c p \<longrightarrow> (\<exists>n \<in> set ns. wn_parent_id n = Some p)"
  shows "try_fold (\<lambda>_. childless_direct c) () ns = Inr ()"
  unfolding try_fold_check
proof
  fix m assume m: "m \<in> set ns"
  have "wn_execution_mode m = Container" if child: "bt_contains c (wn_id m)"
  proof -
    obtain n where "n \<in> set ns" "wn_parent_id n = Some (wn_id m)" using assms(3) child by blast
    then obtain m' where "m' \<in> set ns" "wn_id m' = wn_id m" "wn_execution_mode m' = Container"
      using assms(1) by (auto simp: well_placed_def)
    then show ?thesis using m assms(2) by (auto simp: distinct_map inj_on_def)
  qed
  then show "childless_direct c m = Inr ()" by (auto simp: childless_direct_def is_direct_def)
qed

text \<open>The walk to the root, for any parent map.\<close>

definition parent_in :: "node_index \<Rightarrow> WorkId \<Rightarrow> WorkId option" where
  "parent_in by_id i = Option.bind (bt_get by_id i) wn_parent_id"

lemma parent_walk_returns:
  assumes "finite N"
  shows "case_option True (\<lambda>i. i \<in> N) current \<Longrightarrow> (\<And>i p. i \<in> N \<Longrightarrow> parent_in by_id i = Some p \<Longrightarrow> p \<in> N)
    \<Longrightarrow> card (N - set seen) < fuel \<Longrightarrow>
    \<exists>r. parent_walk fuel by_id seen current = Return r \<and> (\<forall>e. r = Inl e \<longrightarrow> (\<exists>i. e = DecompositionCycle i))"
proof (induction fuel arbitrary: seen current)
  case (Suc fuel)
  show ?case
  proof (cases current)
    case (Some i)
    show ?thesis
    proof (cases "i \<in> set seen")
      case False
      with Some Suc.prems(1) have i: "i \<in> N - set seen" by simp
      then have "card (N - set (i # seen)) < card (N - set seen)"
        by (intro psubset_card_mono) (use assms in auto)
      then have "card (N - set (i # seen)) < fuel" using Suc.prems(3) by simp
      moreover have "case_option True (\<lambda>i. i \<in> N) (parent_in by_id i)"
        using Suc.prems(2) [of i] i by (auto split: option.splits)
      ultimately have "\<exists>r. parent_walk fuel by_id (i # seen) (parent_in by_id i) = Return r
          \<and> (\<forall>e. r = Inl e \<longrightarrow> (\<exists>i. e = DecompositionCycle i))"
        using Suc.IH Suc.prems(2) by blast
      with Some False show ?thesis by (simp add: parent_in_def)
    qed (simp add: Some)
  qed simp
qed simp

lemma parent_walk_cycle:
  assumes "\<And>i p. (i, p) \<in> A \<longleftrightarrow> parent_in by_id i = Some p"
  shows "(i, i) \<in> A\<^sup>+ \<Longrightarrow> parent_walk fuel by_id seen (Some i) \<noteq> Return (Inr ())"
proof (induction fuel arbitrary: seen i)
  case (Suc fuel)
  obtain p where p: "(i, p) \<in> A" "(p, i) \<in> A\<^sup>*" using tranclD [OF Suc.prems] by blast
  then have "(p, p) \<in> A\<^sup>+" by (rule rtrancl_into_trancl1 [rotated])
  with Suc.IH p(1) assms [of i p] show ?case by (auto simp: parent_in_def)
qed simp

lemma parent_walk_acyclic:
  assumes A: "\<And>i p. (i, p) \<in> A \<longleftrightarrow> parent_in by_id i = Some p" and "acyclic A"
  shows "(\<And>i j. current = Some i \<Longrightarrow> j \<in> set seen \<Longrightarrow> (j, i) \<in> A\<^sup>+) \<Longrightarrow>
    parent_walk fuel by_id seen current = Return r \<Longrightarrow> r = Inr ()"
proof (induction fuel arbitrary: seen current)
  case (Suc fuel)
  show ?case
  proof (cases current)
    case None
    with Suc.prems show ?thesis by simp
  next
    case (Some i)
    have "i \<notin> set seen" using Suc.prems(1) [OF Some] assms(2) by (auto simp: acyclic_def)
    with Suc.prems(2) Some have walk: "parent_walk fuel by_id (i # seen) (parent_in by_id i) = Return r"
      by (simp add: parent_in_def)
    show ?thesis
    proof (rule Suc.IH [OF _ walk])
      fix k j assume k: "parent_in by_id i = Some k" and j: "j \<in> set (i # seen)"
      then have "(i, k) \<in> A" using A by simp
      then show "(j, k) \<in> A\<^sup>+" using j Suc.prems(1) [OF Some, of j] by (auto intro: trancl_into_trancl)
    qed
  qed
qed simp

lemma check_walks_correct:
  assumes "\<And>n. n \<in> set ns \<Longrightarrow> \<exists>r. parent_walk fuel by_id [] (Some (wn_id n)) = Return r
    \<and> (\<forall>e. r = Inl e \<longrightarrow> (\<exists>i. e = DecompositionCycle i))"
  shows "\<exists>r. check_walks fuel by_id ns = Return r
    \<and> (\<forall>e. r = Inl e \<longrightarrow> (\<exists>i. e = DecompositionCycle i))
    \<and> (r = Inr () \<longleftrightarrow> (\<forall>n \<in> set ns. parent_walk fuel by_id [] (Some (wn_id n)) = Return (Inr ())))"
  using assms
proof (induction ns)
  case (Cons n ns)
  obtain r where r: "parent_walk fuel by_id [] (Some (wn_id n)) = Return r"
    "\<forall>e. r = Inl e \<longrightarrow> (\<exists>i. e = DecompositionCycle i)" using Cons.prems [of n] by auto
  show ?case using Cons r by (cases r) auto
qed simp

lemma validate_decomposition_correct:
  "\<exists>r. validate_decomposition ns = Return r \<and> (r = Inr () \<longleftrightarrow> forest ns)
     \<and> (\<forall>i. r \<noteq> Inl (DirectTaskHasChildren i))"
proof (cases "shaped ns")
  case False
  show ?thesis
  proof (cases "try_fold index_node [] ns")
    case (Inl e)
    with index_loop [of ns] show ?thesis
      using False by (auto simp: validate_decomposition_def forest_def split: if_splits)
  next
    case (Inr m)
    with index_loop [of ns] have m: "m = node_map ns" and d: "distinct (map wn_id ns)"
      and "\<forall>n \<in> set ns. wn_kind n = Milestone \<longrightarrow> wn_execution_mode n = Container"
      by (auto split: if_splits)
    with False have "\<not> (\<forall>n \<in> set ns. well_placed ns n)" by (auto simp: shaped_def well_placed_def)
    with place_loop [OF d, of ns] Inr m False show ?thesis
      by (auto simp: validate_decomposition_def forest_def)
  qed
next
  case True
  then have d: "distinct (map wn_id ns)" and w: "\<forall>n \<in> set ns. well_placed ns n"
    and ix: "try_fold index_node [] ns = Inr (node_map ns)"
    using index_loop [of ns] by (auto simp: shaped_def well_placed_def)
  from place_loop [OF d, of ns] w obtain c where c: "try_fold (place_node (node_map ns)) [] ns = Inr c"
    "\<forall>p. bt_contains c p \<longrightarrow> (\<exists>n \<in> set ns. wn_parent_id n = Some p)" by auto
  have eq: "validate_decomposition ns = check_walks (length ns + 3) (node_map ns) ns"
    using ix c childless_ok [OF w d c(2)] by (simp add: validate_decomposition_def)
  have parent: "parent_in (node_map ns) i = Some p \<longleftrightarrow> (i, p) \<in> parent_arcs ns" for i p
    by (auto simp: parent_in_def bind_eq_Some_conv node_map_Some [OF d] parent_arcs_def)
  let ?N = "wn_id ` set ns"
  have ret: "\<exists>r. parent_walk (length ns + 3) (node_map ns) [] (Some (wn_id n)) = Return r
    \<and> (\<forall>e. r = Inl e \<longrightarrow> (\<exists>i. e = DecompositionCycle i))" if "n \<in> set ns" for n
  proof (rule parent_walk_returns [where N = ?N])
    fix i p assume "i \<in> ?N" "parent_in (node_map ns) i = Some p"
    then show "p \<in> ?N" using w by (fastforce simp: parent parent_arcs_def well_placed_def)
  next
    have "card ?N \<le> length ns" by (metis card_image_le card_length finite_set le_trans)
    then show "card (?N - set []) < length ns + 3" by simp
  qed (use that in auto)
  from check_walks_correct [of ns, OF ret] obtain r where r: "validate_decomposition ns = Return r"
    "\<forall>e. r = Inl e \<longrightarrow> (\<exists>i. e = DecompositionCycle i)"
    "r = Inr () \<longleftrightarrow> (\<forall>n \<in> set ns. parent_walk (length ns + 3) (node_map ns) [] (Some (wn_id n)) = Return (Inr ()))"
    unfolding eq by blast
  have "r = Inr () \<longleftrightarrow> acyclic (parent_arcs ns)"
  proof
    assume "r = Inr ()"
    show "acyclic (parent_arcs ns)"
    proof (rule acyclicI, rule allI, rule notI)
      fix i assume cyc: "(i, i) \<in> (parent_arcs ns)\<^sup>+"
      then obtain p where "(i, p) \<in> parent_arcs ns" by (metis tranclD)
      then obtain n where "n \<in> set ns" "wn_id n = i" by (auto simp: parent_arcs_def)
      with r(3) \<open>r = Inr ()\<close> parent_walk_cycle [OF parent [symmetric] cyc] show False by auto
    qed
  next
    assume "acyclic (parent_arcs ns)"
    with ret parent_walk_acyclic [OF parent [symmetric]] show "r = Inr ()"
      unfolding r(3) by (metis empty_iff list.set(1))
  qed
  with r True show ?thesis by (auto simp: forest_def)
qed

section \<open>Correctness of the dependency check\<close>

interpretation es: succ_graph "edge_set_successors E" for E .

lemma es_arcs: "es.arcs E = bs_elems E"
  by (force simp: es.arcs_def edge_set_successors_def bt_keys_bs)

lemma direct_reaches_correct: "direct_reaches E u t = Return ((u, t) \<in> (bs_elems E)\<^sup>*)"
proof (cases "u = t")
  case False
  have "stack_search (length (bt_keys E) + 2) (edge_set_successors E) t [] [u]
      = Return ((u, t) \<in> (es.arcs E)\<^sup>*)"
    by (rule es.stack_search_edges [where src = fst, OF _ False])
      (simp add: edge_set_successors_def case_prod_unfold)
  with False show ?thesis by (simp add: direct_reaches_def es_arcs bt_keys_def)
qed (simp add: direct_reaches_def)

definition direct_pair :: "DirectDependency \<Rightarrow> WorkId \<times> WorkId" where
  "direct_pair d = (dd_blocker_id d, dd_blocked_id d)"

definition endpoints_direct :: "WorkNode list \<Rightarrow> DirectDependency \<Rightarrow> bool" where
  "endpoints_direct ns d \<longleftrightarrow> (\<exists>a \<in> set ns. \<exists>b \<in> set ns. wn_id a = dd_blocker_id d
     \<and> wn_id b = dd_blocked_id d \<and> wn_project_id a = wn_project_id b \<and> is_direct a \<and> is_direct b)"

definition direct_dag :: "WorkNode list \<Rightarrow> DirectDependency list \<Rightarrow> bool" where
  "direct_dag ns ds \<longleftrightarrow> (\<forall>d \<in> set ds. endpoints_direct ns d) \<and> distinct (map direct_pair ds)
     \<and> acyclic (direct_pair ` set ds)"

lemma endpoints_direct_iff:
  assumes "distinct (map wn_id ns)"
  shows "endpoints_direct ns d \<longleftrightarrow> (\<exists>a b. bt_get (node_map ns) (dd_blocker_id d) = Some a
     \<and> bt_get (node_map ns) (dd_blocked_id d) = Some b
     \<and> wn_project_id a = wn_project_id b \<and> is_direct a \<and> is_direct b)"
  unfolding node_map_Some [OF assms] endpoints_direct_def by blast

lemma reach_back_insert: "(v, u) \<in> (insert (u, v) r)\<^sup>* \<longleftrightarrow> (v, u) \<in> r\<^sup>*"
  by (auto simp: rtrancl_insert)

lemma direct_edge_step_correct:
  assumes d: "distinct (map wn_id ns)" and E: "bt_wf E" and acyc: "acyclic (bs_elems E)"
  shows "if endpoints_direct ns x \<and> direct_pair x \<notin> bs_elems E
       \<and> acyclic (insert (direct_pair x) (bs_elems E))
    then direct_edge_step (node_map ns) E x = Return (Inr (bs_insert (direct_pair x) E))
    else \<exists>e. direct_edge_step (node_map ns) E x = Return (Inl e)"
proof (cases "endpoints_direct ns x \<and> direct_pair x \<notin> bs_elems E")
  case False
  then show ?thesis
    unfolding endpoints_direct_iff [OF d]
    by (cases "bt_get (node_map ns) (dd_blocker_id x)"; cases "bt_get (node_map ns) (dd_blocked_id x)")
      (auto simp: direct_edge_step_def bt_contains_bs direct_pair_def)
next
  case True
  then obtain a b where ab: "bt_get (node_map ns) (dd_blocker_id x) = Some a"
    "bt_get (node_map ns) (dd_blocked_id x) = Some b"
    "wn_project_id a = wn_project_id b" "is_direct a" "is_direct b"
    unfolding endpoints_direct_iff [OF d] by blast
  let ?u = "dd_blocker_id x" and ?v = "dd_blocked_id x"
  have "acyclic (insert (direct_pair x) (bs_elems E)) \<longleftrightarrow> (?v, ?u) \<notin> (bs_elems E)\<^sup>*"
    using acyc by (simp add: direct_pair_def acyclic_insert)
  moreover have "direct_edge_step (node_map ns) E x =
      (if (?v, ?u) \<in> (bs_elems E)\<^sup>* then Return (Inl (DependencyCycle ?u))
       else Return (Inr (bs_insert (?u, ?v) E)))"
    using True ab E
    by (auto simp: direct_edge_step_def bt_contains_bs direct_pair_def direct_reaches_correct
        reach_back_insert Let_def)
  ultimately show ?thesis using True by (simp add: direct_pair_def)
qed

lemma direct_edges_correct:
  assumes d: "distinct (map wn_id ns)"
  shows "bt_wf E \<Longrightarrow> acyclic (bs_elems E) \<Longrightarrow>
    if (\<forall>x \<in> set ds. endpoints_direct ns x) \<and> distinct (map direct_pair ds)
       \<and> direct_pair ` set ds \<inter> bs_elems E = {} \<and> acyclic (direct_pair ` set ds \<union> bs_elems E)
    then direct_edges (node_map ns) E ds = Return (Inr ())
    else \<exists>e. direct_edges (node_map ns) E ds = Return (Inl e)"
proof (induction ds arbitrary: E)
  case (Cons x ds)
  let ?ok = "endpoints_direct ns x \<and> direct_pair x \<notin> bs_elems E
    \<and> acyclic (insert (direct_pair x) (bs_elems E))"
  note step = direct_edge_step_correct [OF d Cons.prems, of x]
  show ?case
  proof (cases ?ok)
    case True
    then have r: "direct_edges (node_map ns) E (x # ds)
        = direct_edges (node_map ns) (bs_insert (direct_pair x) E) ds"
      using step by simp
    have elems: "bs_elems (bs_insert (direct_pair x) E) = insert (direct_pair x) (bs_elems E)"
      using Cons.prems by simp
    have eq: "(\<forall>y \<in> set (x # ds). endpoints_direct ns y) \<and> distinct (map direct_pair (x # ds))
       \<and> direct_pair ` set (x # ds) \<inter> bs_elems E = {} \<and> acyclic (direct_pair ` set (x # ds) \<union> bs_elems E)
      \<longleftrightarrow> (\<forall>y \<in> set ds. endpoints_direct ns y) \<and> distinct (map direct_pair ds)
       \<and> direct_pair ` set ds \<inter> insert (direct_pair x) (bs_elems E) = {}
       \<and> acyclic (direct_pair ` set ds \<union> insert (direct_pair x) (bs_elems E))"
      using True by auto
    have "bt_wf (bs_insert (direct_pair x) E)" "acyclic (bs_elems (bs_insert (direct_pair x) E))"
      using Cons.prems True by (simp_all add: elems)
    from Cons.IH [OF this] show ?thesis unfolding r eq elems .
  next
    case False
    have "acyclic (insert (direct_pair x) (bs_elems E))"
      if "acyclic (direct_pair ` set (x # ds) \<union> bs_elems E)"
      using that by (rule acyclic_subset) auto
    with False have "\<not> ((\<forall>y \<in> set (x # ds). endpoints_direct ns y) \<and> distinct (map direct_pair (x # ds))
       \<and> direct_pair ` set (x # ds) \<inter> bs_elems E = {} \<and> acyclic (direct_pair ` set (x # ds) \<union> bs_elems E))"
      by auto
    moreover have "\<exists>e. direct_edges (node_map ns) E (x # ds) = Return (Inl e)"
      using step False by auto
    ultimately show ?thesis by (simp only: if_False)
  qed
qed (simp add: acyclic_def)

lemma validate_direct_correct:
  "\<exists>r. validate_direct_dependencies ns ds = Return r \<and> (r = Inr () \<longleftrightarrow> forest ns \<and> direct_dag ns ds)"
proof -
  obtain r where r: "validate_decomposition ns = Return r" "r = Inr () \<longleftrightarrow> forest ns"
    using validate_decomposition_correct [of ns] by blast
  show ?thesis
  proof (cases r)
    case (Inl e)
    with r show ?thesis by (auto simp: validate_direct_dependencies_def)
  next
    case (Inr x)
    with r have f: "forest ns" by simp
    then have d: "distinct (map wn_id ns)" by (simp add: forest_def shaped_def)
    have "acyclic ({} :: (WorkId \<times> WorkId) set)" by (simp add: acyclic_def)
    with direct_edges_correct [OF d, of "[]" ds] f r Inr show ?thesis
      by (auto simp: validate_direct_dependencies_def direct_dag_def split: if_splits)
  qed
qed

interpretation dd: succ_graph "dependency_successors ds" for ds .

lemma is_dependency_of_correct:
  "is_dependency_of u t ds = Return ((u, t) \<in> (direct_pair ` set ds)\<^sup>*)"
proof (cases "u = t")
  case False
  have "stack_search (length ds + 2) (dependency_successors ds) t [] [u] = Return ((u, t) \<in> (dd.arcs ds)\<^sup>*)"
    by (rule dd.stack_search_edges [where src = dd_blocker_id, OF _ False])
      (simp add: dependency_successors_def)
  moreover have "dd.arcs ds = direct_pair ` set ds"
    by (auto simp: dd.arcs_def dependency_successors_def direct_pair_def)
  ultimately show ?thesis using False by (simp add: is_dependency_of_def)
qed (simp add: is_dependency_of_def)

section \<open>Properties of the work model\<close>

text \<open>C27: The decomposition check always returns, and accepts exactly the forests: distinct identifiers,
  container milestones, every parent present in the same project, a container, and a milestone when
  its child is one, and no cycle of parent links.  Its error for a direct task with children cannot
  occur, since the parent-shape check has already refused that parent.\<close>

theorem decomposition_valid:
  "\<exists>r. validate_decomposition ns = Return r
     \<and> (r = Inr () \<longleftrightarrow> shaped ns \<and> acyclic (parent_arcs ns))
     \<and> (\<forall>i. r \<noteq> Inl (DirectTaskHasChildren i))"
  using validate_decomposition_correct [of ns] by (auto simp: forest_def)

text \<open>C28: The check of direct dependencies always returns, and accepts exactly a valid decomposition with
  edges between direct tasks of one project, no pair twice, and no dependency cycle.\<close>

theorem direct_dependencies_valid:
  "\<exists>r. validate_direct_dependencies ns ds = Return r
     \<and> (r = Inr () \<longleftrightarrow> forest ns \<and> (\<forall>d \<in> set ds. endpoints_direct ns d)
          \<and> distinct (map direct_pair ds) \<and> acyclic (direct_pair ` set ds))"
  using validate_direct_correct [of ns ds] by (simp add: direct_dag_def)

definition sample_nodes :: "WorkNode list" where
  "sample_nodes =
     [node_milestone (Ident ''P'') (Ident ''M'') ''milestone'',
      node_task (Ident ''P'') (Ident ''A'') Direct (Some (Ident ''M'')) ''a'',
      node_task (Ident ''P'') (Ident ''B'') Direct (Some (Ident ''M'')) ''b'']"

theorem direct_dependencies_valid_witness:
  "endpoints_direct sample_nodes \<lparr>dd_blocker_id = Ident ''A'', dd_blocked_id = Ident ''B''\<rparr>
   \<and> acyclic {(Ident ''A'', Ident ''B'') :: WorkId \<times> WorkId}"
proof -
  let ?ds = "[\<lparr>dd_blocker_id = Ident ''A'', dd_blocked_id = Ident ''B''\<rparr>]"
  have "validate_direct_dependencies sample_nodes ?ds = Return (Inr ())" by code_simp
  with direct_dependencies_valid [of sample_nodes ?ds] show ?thesis by (simp add: direct_pair_def)
qed

end
