(* ===== verification/Cycles.thy ===== *)
theory Cycles
  imports Work_Model Machines
begin

text \<open>
  Cycles and cycle assignments of the work model (\<open>crates/domain/src/work_model_v3.rs\<close>).  A lineage walk
  visits distinct assignments, so \<open>length assignments + 2\<close> steps of fuel suffice; looking up an
  unindexed assignment would be the panic of the source's \<open>expect\<close>.
\<close>

section \<open>Cycles\<close>

datatype CycleLifecycle = Planned | Active | Completed | Cancelled

definition cycle_is_terminal :: "CycleLifecycle \<Rightarrow> bool" where
  "cycle_is_terminal l \<longleftrightarrow> l \<in> {CycleLifecycle.Completed, CycleLifecycle.Cancelled}"

record Cycle =
  cy_id :: CycleId
  cy_project_id :: ProjectId
  cy_name :: string
  cy_goal :: string
  cy_lifecycle :: CycleLifecycle
  cy_scheduled_start_at :: "TimestampMs option"
  cy_scheduled_end_at :: "TimestampMs option"
  cy_actual_started_at :: "TimestampMs option"
  cy_actual_ended_at :: "TimestampMs option"

definition cycle_new :: "ProjectId \<Rightarrow> CycleId \<Rightarrow> string \<Rightarrow> Cycle" where
  "cycle_new project_id i name =
     \<lparr>cy_id = i, cy_project_id = project_id, cy_name = name, cy_goal = [],
      cy_lifecycle = CycleLifecycle.Planned, cy_scheduled_start_at = None,
      cy_scheduled_end_at = None, cy_actual_started_at = None, cy_actual_ended_at = None\<rparr>"

definition cycle_validate :: "Cycle \<Rightarrow> ModelError + unit" where
  "cycle_validate c =
     (case (cy_scheduled_start_at c, cy_scheduled_end_at c) of
        (Some start, Some end_at) \<Rightarrow>
          if end_at \<le> start then Inl (InvalidSchedule ''cycle end must be after cycle start'')
          else Inr ()
      | _ \<Rightarrow> Inr ())"

definition cycle_start :: "Cycle \<Rightarrow> TimestampMs \<Rightarrow> ModelError + Cycle" where
  "cycle_start c at =
     (if cy_lifecycle c \<noteq> CycleLifecycle.Planned then Inl IllegalCycleTransition
      else Inr (c\<lparr>cy_lifecycle := Active, cy_actual_started_at := Some at\<rparr>))"

definition cycle_complete :: "Cycle \<Rightarrow> TimestampMs \<Rightarrow> nat \<Rightarrow> ModelError + Cycle" where
  "cycle_complete c at live_assignments =
     (if cy_lifecycle c \<noteq> Active then Inl IllegalCycleTransition
      else if live_assignments \<noteq> 0 then Inl CycleHasLiveAssignments
      else Inr (c\<lparr>cy_lifecycle := CycleLifecycle.Completed, cy_actual_ended_at := Some at\<rparr>))"

definition cycle_cancel :: "Cycle \<Rightarrow> TimestampMs \<Rightarrow> nat \<Rightarrow> ModelError + Cycle" where
  "cycle_cancel c at live_assignments =
     (if cy_lifecycle c \<notin> {CycleLifecycle.Planned, Active} then Inl IllegalCycleTransition
      else if live_assignments \<noteq> 0 then Inl CycleHasLiveAssignments
      else Inr (c\<lparr>cy_lifecycle := CycleLifecycle.Cancelled, cy_actual_ended_at := Some at\<rparr>))"

section \<open>Cycle assignments\<close>

datatype CycleAssignmentState = Planned | Committed | Removed | Completed | CarriedOver

definition assignment_is_live :: "CycleAssignmentState \<Rightarrow> bool" where
  "assignment_is_live s \<longleftrightarrow> s \<in> {CycleAssignmentState.Planned, Committed}"

datatype ActivationPolicy = AtCycleStart | Immediate | ExplicitNotBefore

record CycleAssignment =
  as_id :: string
  as_cycle_id :: CycleId
  as_work_id :: WorkId
  as_project_id :: ProjectId
  as_state :: CycleAssignmentState
  as_activation_policy :: ActivationPolicy
  as_activation_at :: "TimestampMs option"
  as_predecessor_id :: "string option"
  as_successor_id :: "string option"

type_synonym cycle_index = "(CycleId, Cycle) btree_map"
type_synonym assignment_index = "(string, CycleAssignment) btree_map"

record AssignmentCheck =
  ck_ids :: "string btree_set"
  ck_live_by_work :: "(WorkId, string) btree_map"

definition assignment_step ::
  "cycle_index \<Rightarrow> node_index \<Rightarrow> AssignmentCheck \<Rightarrow> CycleAssignment \<Rightarrow> ModelError + AssignmentCheck"
where
  "assignment_step cycles nodes st a =
     (if bt_contains (ck_ids st) (as_id a) then Inl (DuplicateIdentifier (as_id a))
      else
        let st = st\<lparr>ck_ids := bs_insert (as_id a) (ck_ids st)\<rparr> in
        case bt_get cycles (as_cycle_id a) of
          None \<Rightarrow> Inl (MissingCycle (as_cycle_id a))
        | Some cycle \<Rightarrow>
        (case bt_get nodes (as_work_id a) of
          None \<Rightarrow> Inl (MissingWork (as_work_id a))
        | Some work \<Rightarrow>
            if as_project_id a \<noteq> cy_project_id cycle \<or> as_project_id a \<noteq> wn_project_id work
            then Inl (AssignmentProjectMismatch (as_id a))
            else if \<not> is_direct work then Inl (AssignmentRequiresDirectTask (as_work_id a))
            else if cycle_is_terminal (cy_lifecycle cycle) \<and> assignment_is_live (as_state a)
            then Inl (TerminalCycleHasLiveAssignment (as_cycle_id a))
            else if as_activation_policy a = ExplicitNotBefore \<and> as_activation_at a = None
            then Inl (InvalidActivation (as_id a))
            else if assignment_is_live (as_state a) \<and> bt_contains (ck_live_by_work st) (as_work_id a)
            then Inl (MultipleLiveAssignments (as_work_id a))
            else
              let st = (if assignment_is_live (as_state a)
                then st\<lparr>ck_live_by_work := bt_insert (as_work_id a) (as_id a) (ck_live_by_work st)\<rparr>
                else st) in
              if as_predecessor_id a = Some (as_id a) \<or> as_successor_id a = Some (as_id a)
              then Inl (AssignmentLineageCycle (as_id a))
              else Inr st))"

definition lineage_step :: "assignment_index \<Rightarrow> CycleAssignment \<Rightarrow> ModelError + unit" where
  "lineage_step by_id a =
     (let invalid = Inl (AssignmentLineageInvalid (as_id a)) in
      if as_state a = CarriedOver \<and> as_successor_id a = None then invalid
      else if as_state a \<noteq> CarriedOver \<and> as_successor_id a \<noteq> None then invalid
      else sum_bind
        (case as_predecessor_id a of
           None \<Rightarrow> Inr ()
         | Some i \<Rightarrow>
             (case bt_get by_id i of
                None \<Rightarrow> invalid
              | Some predecessor \<Rightarrow>
                  if as_successor_id predecessor \<noteq> Some (as_id a)
                    \<or> as_state predecessor \<noteq> CarriedOver
                    \<or> as_work_id predecessor \<noteq> as_work_id a
                    \<or> as_project_id predecessor \<noteq> as_project_id a
                    \<or> as_cycle_id predecessor = as_cycle_id a
                  then invalid else Inr ()))
        (\<lambda>_. case as_successor_id a of
           None \<Rightarrow> Inr ()
         | Some i \<Rightarrow>
             (case bt_get by_id i of
                None \<Rightarrow> invalid
              | Some successor \<Rightarrow>
                  if as_predecessor_id successor \<noteq> Some (as_id a)
                    \<or> as_work_id successor \<noteq> as_work_id a
                    \<or> as_project_id successor \<noteq> as_project_id a
                    \<or> as_cycle_id successor = as_cycle_id a
                  then invalid else Inr ())))"

text \<open>One chain of successors; the path doubles as the \<open>on_path\<close> set.\<close>

primrec lineage_walk ::
  "nat \<Rightarrow> assignment_index \<Rightarrow> string list \<Rightarrow> string \<Rightarrow> string list \<Rightarrow> string \<Rightarrow>
     (ModelError + string list) run"
where
  "lineage_walk 0 by_id traversed start path current_id = OutOfFuel"
| "lineage_walk (Suc fuel) by_id traversed start path current_id =
     (if current_id \<in> set traversed then Return (Inr path)
      else if current_id \<in> set path then Return (Inl (AssignmentLineageCycle start))
      else
        let path = path @ [current_id] in
        case bt_get by_id current_id of
          None \<Rightarrow> Panic
        | Some current \<Rightarrow>
            (case as_successor_id current of
               None \<Rightarrow> Return (Inr path)
             | Some successor_id \<Rightarrow> lineage_walk fuel by_id traversed start path successor_id))"

primrec lineage_walks ::
  "nat \<Rightarrow> assignment_index \<Rightarrow> string list \<Rightarrow> CycleAssignment list \<Rightarrow> (ModelError + unit) run"
where
  "lineage_walks fuel by_id traversed [] = Return (Inr ())"
| "lineage_walks fuel by_id traversed (a # as) =
     run_bind (lineage_walk fuel by_id traversed (as_id a) [] (as_id a))
       (case_sum (\<lambda>e. Return (Inl e)) (\<lambda>path. lineage_walks fuel by_id (traversed @ path) as))"

definition validate_cycle_assignments ::
  "Cycle list \<Rightarrow> WorkNode list \<Rightarrow> CycleAssignment list \<Rightarrow> (ModelError + unit) run" where
  "validate_cycle_assignments cycles nodes assignments =
     run_bind (validate_decomposition nodes) (case_sum (\<lambda>e. Return (Inl e)) (\<lambda>_.
       let cycles = fold (\<lambda>c. bt_insert (cy_id c) c) cycles [];
           nodes = node_map nodes in
       case try_fold (assignment_step cycles nodes) \<lparr>ck_ids = [], ck_live_by_work = []\<rparr> assignments of
         Inl e \<Rightarrow> Return (Inl e)
       | Inr _ \<Rightarrow>
           let by_id = fold (\<lambda>a. bt_insert (as_id a) a) assignments [] in
           (case try_fold (\<lambda>_. lineage_step by_id) () assignments of
              Inl e \<Rightarrow> Return (Inl e)
            | Inr _ \<Rightarrow> lineage_walks (length assignments + 2) by_id [] assignments)))"

section \<open>Cycle lifecycle\<close>

datatype cycle_op = Start TimestampMs | Complete TimestampMs nat | Cancel TimestampMs nat

primrec cycle_step :: "Cycle \<Rightarrow> cycle_op \<Rightarrow> ModelError + Cycle" where
  "cycle_step c (Start at) = cycle_start c at"
| "cycle_step c (Complete at live) = cycle_complete c at live"
| "cycle_step c (Cancel at live) = cycle_cancel c at live"

primrec cycle_rank :: "CycleLifecycle \<Rightarrow> nat" where
  "cycle_rank CycleLifecycle.Planned = 0"
| "cycle_rank Active = 1"
| "cycle_rank CycleLifecycle.Completed = 2"
| "cycle_rank CycleLifecycle.Cancelled = 2"

definition cycle_frame where
  "cycle_frame c = (cy_id c, cy_project_id c, cy_name c, cy_goal c, cy_scheduled_start_at c,
     cy_scheduled_end_at c)"

interpretation cycles: ranked_machine cycle_step cycle_frame "\<lambda>c. cycle_rank (cy_lifecycle c)"
  "\<lambda>c. cycle_is_terminal (cy_lifecycle c)"
proof unfold_locales
  fix s s' :: Cycle and x assume "cycle_step s x = Inr s'"
  then show "cycle_frame s' = cycle_frame s"
    by (cases x) (auto simp: cycle_start_def cycle_complete_def cycle_cancel_def cycle_frame_def
        split: if_splits)
next
  fix s s' :: Cycle and x assume "cycle_step s x = Inr s'"
  then show "cycle_rank (cy_lifecycle s) \<le> cycle_rank (cy_lifecycle s')"
    by (cases x) (auto simp: cycle_start_def cycle_complete_def cycle_cancel_def split: if_splits)
next
  fix s :: Cycle and x assume "cycle_is_terminal (cy_lifecycle s)"
  then show "\<exists>e. cycle_step s x = Inl e"
    by (cases x) (auto simp: cycle_start_def cycle_complete_def cycle_cancel_def cycle_is_terminal_def)
qed

section \<open>Correctness of the assignment check\<close>

definition assignment_fits :: "Cycle list \<Rightarrow> WorkNode list \<Rightarrow> CycleAssignment \<Rightarrow> bool" where
  "assignment_fits cs ns a \<longleftrightarrow>
     (\<exists>c \<in> set cs. cy_id c = as_cycle_id a \<and> cy_project_id c = as_project_id a
        \<and> \<not> (cycle_is_terminal (cy_lifecycle c) \<and> assignment_is_live (as_state a)))
     \<and> (\<exists>n \<in> set ns. wn_id n = as_work_id a \<and> wn_project_id n = as_project_id a \<and> is_direct n)
     \<and> (as_activation_policy a = ExplicitNotBefore \<longrightarrow> as_activation_at a \<noteq> None)"

definition lineage_ok :: "CycleAssignment list \<Rightarrow> CycleAssignment \<Rightarrow> bool" where
  "lineage_ok xs a \<longleftrightarrow> (as_state a = CarriedOver \<longleftrightarrow> as_successor_id a \<noteq> None)
     \<and> (\<forall>i. as_predecessor_id a = Some i \<longrightarrow> (\<exists>b \<in> set xs. as_id b = i
          \<and> as_successor_id b = Some (as_id a) \<and> as_state b = CarriedOver \<and> as_work_id b = as_work_id a
          \<and> as_project_id b = as_project_id a \<and> as_cycle_id b \<noteq> as_cycle_id a))
     \<and> (\<forall>i. as_successor_id a = Some i \<longrightarrow> (\<exists>b \<in> set xs. as_id b = i
          \<and> as_predecessor_id b = Some (as_id a) \<and> as_work_id b = as_work_id a
          \<and> as_project_id b = as_project_id a \<and> as_cycle_id b \<noteq> as_cycle_id a))"

definition successor_arcs :: "CycleAssignment list \<Rightarrow> (string \<times> string) set" where
  "successor_arcs xs = {(as_id a, i) | a i. a \<in> set xs \<and> as_successor_id a = Some i}"

definition assignments_ok :: "Cycle list \<Rightarrow> WorkNode list \<Rightarrow> CycleAssignment list \<Rightarrow> bool" where
  "assignments_ok cs ns xs \<longleftrightarrow> distinct (map as_id xs) \<and> (\<forall>a \<in> set xs. assignment_fits cs ns a)
     \<and> distinct (map as_work_id (filter (\<lambda>a. assignment_is_live (as_state a)) xs))
     \<and> (\<forall>a \<in> set xs. lineage_ok xs a) \<and> acyclic (successor_arcs xs)"

text \<open>An index by a distinct key.\<close>

lemma index_Some:
  assumes "distinct (map f xs)"
  shows "bt_get (fold (\<lambda>x. bt_insert (f x) x) xs []) i = Some x \<longleftrightarrow> x \<in> set xs \<and> f x = i"
proof
  assume get: "bt_get (fold (\<lambda>x. bt_insert (f x) x) xs []) i = Some x"
  have dom: "dom (bt_get (fold (\<lambda>x. bt_insert (f x) x) xs [])) = f ` set xs"
    using bt.dom_fold_put [of "[]" f "\<lambda>x. x" xs] by (simp add: dom_def)
  have "i \<in> f ` set xs" using get unfolding dom [symmetric] by (rule domI)
  then obtain y where "y \<in> set xs" "f y = i" by auto
  with get bt.lookup_fold_put_distinct [of "[]" f xs y "\<lambda>x. x"] assms
  show "x \<in> set xs \<and> f x = i" by auto
next
  assume "x \<in> set xs \<and> f x = i"
  with bt.lookup_fold_put_distinct [of "[]" f xs x "\<lambda>x. x"] assms
  show "bt_get (fold (\<lambda>x. bt_insert (f x) x) xs []) i = Some x" by auto
qed

lemma distinct_filter_prefixes:
  "(\<forall>i < length xs. P (xs ! i) \<longrightarrow> f (xs ! i) \<notin> f ` set (filter P (take i xs)))
     \<longleftrightarrow> distinct (map f (filter P xs))"
proof (induction xs rule: rev_induct)
  case (snoc x xs)
  have "(\<forall>i < length (xs @ [x]). P ((xs @ [x]) ! i) \<longrightarrow> f ((xs @ [x]) ! i) \<notin> f ` set (filter P (take i (xs @ [x]))))
      \<longleftrightarrow> (\<forall>i < length xs. P (xs ! i) \<longrightarrow> f (xs ! i) \<notin> f ` set (filter P (take i xs)))
        \<and> (P x \<longrightarrow> f x \<notin> f ` set (filter P xs))"
    by (auto simp: less_Suc_eq nth_append)
  with snoc show ?case by auto
qed simp

definition self_linked :: "CycleAssignment \<Rightarrow> bool" where
  "self_linked a \<longleftrightarrow> as_predecessor_id a = Some (as_id a) \<or> as_successor_id a = Some (as_id a)"

definition checked :: "CycleAssignment list \<Rightarrow> AssignmentCheck \<Rightarrow> bool" where
  "checked ys st \<longleftrightarrow> bt_wf (ck_ids st) \<and> bs_elems (ck_ids st) = as_id ` set ys
     \<and> bt_wf (ck_live_by_work st)
     \<and> (\<forall>w. bt_contains (ck_live_by_work st) w \<longleftrightarrow>
          w \<in> as_work_id ` set (filter (\<lambda>a. assignment_is_live (as_state a)) ys))"

lemma assignment_fits_get:
  assumes "distinct (map cy_id cs)" "distinct (map wn_id ns)"
  shows "assignment_fits cs ns a \<longleftrightarrow>
     (\<exists>c n. bt_get (fold (\<lambda>c. bt_insert (cy_id c) c) cs []) (as_cycle_id a) = Some c
        \<and> bt_get (node_map ns) (as_work_id a) = Some n
        \<and> cy_project_id c = as_project_id a \<and> wn_project_id n = as_project_id a \<and> is_direct n
        \<and> \<not> (cycle_is_terminal (cy_lifecycle c) \<and> assignment_is_live (as_state a))
        \<and> \<not> (as_activation_policy a = ExplicitNotBefore \<and> as_activation_at a = None))"
proof -
  have pull: "(\<exists>c \<in> C. P c \<and> Q c \<and> R c) \<and> (\<exists>n \<in> N. S n \<and> T n \<and> U n) \<and> (V \<longrightarrow> \<not> W) \<longleftrightarrow>
      (\<exists>c n. (c \<in> C \<and> P c) \<and> (n \<in> N \<and> S n) \<and> Q c \<and> T n \<and> U n \<and> R c \<and> \<not> (V \<and> W))"
    for C N P Q R S T U V W by blast
  show ?thesis
    unfolding index_Some [OF assms(1)] node_map_Some [OF assms(2)] assignment_fits_def by (rule pull)
qed

lemma assignment_step_correct:
  assumes d: "distinct (map cy_id cs)" "distinct (map wn_id ns)" and st: "checked ys st"
  shows "if as_id x \<notin> as_id ` set ys \<and> assignment_fits cs ns x \<and> \<not> self_linked x
      \<and> (assignment_is_live (as_state x) \<longrightarrow>
           as_work_id x \<notin> as_work_id ` set (filter (\<lambda>a. assignment_is_live (as_state a)) ys))
    then \<exists>st'. assignment_step (fold (\<lambda>c. bt_insert (cy_id c) c) cs []) (node_map ns) st x = Inr st'
      \<and> checked (ys @ [x]) st'
    else \<exists>e. assignment_step (fold (\<lambda>c. bt_insert (cy_id c) c) cs []) (node_map ns) st x = Inl e"
proof -
  let ?cs = "fold (\<lambda>c. bt_insert (cy_id c) c) cs []"
  have ids: "bt_contains (ck_ids st) i \<longleftrightarrow> i \<in> as_id ` set ys" for i
    using st by (simp add: checked_def bt_contains_bs)
  have live: "bt_contains (ck_live_by_work st) w \<longleftrightarrow>
      w \<in> as_work_id ` set (filter (\<lambda>a. assignment_is_live (as_state a)) ys)" for w
    using st by (simp add: checked_def)
  show ?thesis
  proof (cases "as_id x \<notin> as_id ` set ys \<and> assignment_fits cs ns x")
    case False
    then show ?thesis
      unfolding assignment_fits_get [OF d]
      by (cases "bt_get ?cs (as_cycle_id x)"; cases "bt_get (node_map ns) (as_work_id x)")
        (auto simp: assignment_step_def ids Let_def)
  next
    case True
    then obtain c n where cn: "bt_get ?cs (as_cycle_id x) = Some c"
      "bt_get (node_map ns) (as_work_id x) = Some n"
      "cy_project_id c = as_project_id x" "wn_project_id n = as_project_id x" "is_direct n"
      "\<not> (cycle_is_terminal (cy_lifecycle c) \<and> assignment_is_live (as_state x))"
      "\<not> (as_activation_policy x = ExplicitNotBefore \<and> as_activation_at x = None)"
      unfolding assignment_fits_get [OF d] by blast
    define st' where "st' = (if assignment_is_live (as_state x)
      then st\<lparr>ck_ids := bs_insert (as_id x) (ck_ids st),
        ck_live_by_work := bt_insert (as_work_id x) (as_id x) (ck_live_by_work st)\<rparr>
      else st\<lparr>ck_ids := bs_insert (as_id x) (ck_ids st)\<rparr>)"
    have step: "assignment_step ?cs (node_map ns) st x =
        (if assignment_is_live (as_state x) \<and> bt_contains (ck_live_by_work st) (as_work_id x)
         then Inl (MultipleLiveAssignments (as_work_id x))
         else if self_linked x then Inl (AssignmentLineageCycle (as_id x)) else Inr st')"
      using cn True unfolding assignment_step_def Let_def self_linked_def st'_def
      by (auto simp: ids)
    have "checked (ys @ [x]) st'"
      using st by (auto simp: checked_def st'_def bt_contains_insert)
    with step True show ?thesis by (auto simp: live)
  qed
qed

lemma assignment_loop:
  assumes "distinct (map cy_id cs)" "distinct (map wn_id ns)"
  shows "(\<exists>st. try_fold (assignment_step (fold (\<lambda>c. bt_insert (cy_id c) c) cs []) (node_map ns))
      \<lparr>ck_ids = [], ck_live_by_work = []\<rparr> xs = Inr st) \<longleftrightarrow>
    distinct (map as_id xs) \<and> (\<forall>a \<in> set xs. assignment_fits cs ns a \<and> \<not> self_linked a)
    \<and> distinct (map as_work_id (filter (\<lambda>a. assignment_is_live (as_state a)) xs))"
proof -
  let ?ok = "\<lambda>ys x. as_id x \<notin> as_id ` set ys \<and> assignment_fits cs ns x \<and> \<not> self_linked x
      \<and> (assignment_is_live (as_state x) \<longrightarrow>
           as_work_id x \<notin> as_work_id ` set (filter (\<lambda>a. assignment_is_live (as_state a)) ys))"
  let ?f = "assignment_step (fold (\<lambda>c. bt_insert (cy_id c) c) cs []) (node_map ns)"
  let ?st = "\<lparr>ck_ids = [], ck_live_by_work = []\<rparr>"
  have "if (\<forall>i < length xs. ?ok ([] @ take i xs) (xs ! i))
     then \<exists>s'. try_fold ?f ?st xs = Inr s' \<and> checked ([] @ xs) s'
     else \<exists>e. try_fold ?f ?st xs = Inl e"
  proof (rule try_fold_prefix [where ok = ?ok and P = checked])
    show "checked [] ?st" by (simp add: checked_def)
  qed (rule assignment_step_correct [OF assms])
  then have "(\<exists>st. try_fold ?f ?st xs = Inr st) \<longleftrightarrow> (\<forall>i < length xs. ?ok (take i xs) (xs ! i))"
    by (auto split: if_splits)
  also have "\<dots> \<longleftrightarrow> (\<forall>i < length xs. as_id (xs ! i) \<notin> as_id ` set (take i xs))
      \<and> (\<forall>i < length xs. assignment_fits cs ns (xs ! i) \<and> \<not> self_linked (xs ! i))
      \<and> (\<forall>i < length xs. assignment_is_live (as_state (xs ! i)) \<longrightarrow>
           as_work_id (xs ! i) \<notin> as_work_id ` set (filter (\<lambda>a. assignment_is_live (as_state a)) (take i xs)))"
    by blast
  also have "\<dots> \<longleftrightarrow> distinct (map as_id xs) \<and> (\<forall>a \<in> set xs. assignment_fits cs ns a \<and> \<not> self_linked a)
    \<and> distinct (map as_work_id (filter (\<lambda>a. assignment_is_live (as_state a)) xs))"
    unfolding distinct_prefixes distinct_filter_prefixes [where P = "\<lambda>a. assignment_is_live (as_state a)"]
    by (simp add: all_set_conv_all_nth)
  finally show ?thesis .
qed

lemma lineage_step_iff:
  assumes "distinct (map as_id xs)"
  shows "lineage_step (fold (\<lambda>a. bt_insert (as_id a) a) xs []) a = Inr () \<longleftrightarrow> lineage_ok xs a"
proof -
  let ?m = "fold (\<lambda>a. bt_insert (as_id a) a) xs []"
  have one: "(\<exists>b \<in> set xs. as_id b = i \<and> Q b) \<longleftrightarrow> (\<exists>b. bt_get ?m i = Some b \<and> Q b)" for i Q
    unfolding index_Some [OF assms] by blast
  have ite: "(if Q then Inl e else r) = Inr () \<longleftrightarrow> \<not> Q \<and> r = Inr ()"
    for Q and e :: ModelError and r :: "ModelError + unit" by simp
  have opt: "(case g of None \<Rightarrow> Inl e | Some b \<Rightarrow> if Q b then Inl e else Inr ()) = Inr () \<longleftrightarrow>
      (\<exists>b. g = Some b \<and> \<not> Q b)" for g :: "CycleAssignment option" and Q and e :: ModelError
    by (cases g) simp_all
  have link: "(case l of None \<Rightarrow> Inr () | Some i \<Rightarrow> r i) = Inr () \<longleftrightarrow> (\<forall>i. l = Some i \<longrightarrow> r i = Inr ())"
    for l :: "string option" and r :: "string \<Rightarrow> ModelError + unit"
    by (cases l) simp_all
  have bind: "sum_bind r (\<lambda>_. q) = Inr () \<longleftrightarrow> r = Inr () \<and> q = Inr ()"
    for r q :: "ModelError + unit" by (cases r) simp_all
  show ?thesis
    unfolding lineage_step_def Let_def ite bind link opt lineage_ok_def one by auto
qed

text \<open>The walks along the successors.\<close>

definition successor_in :: "assignment_index \<Rightarrow> string \<Rightarrow> string option" where
  "successor_in by_id i = Option.bind (bt_get by_id i) as_successor_id"

lemma lineage_walk_returns:
  assumes "finite N" and known: "\<And>i. i \<in> N \<Longrightarrow> bt_get by_id i \<noteq> None"
    and next_in: "\<And>i j. i \<in> N \<Longrightarrow> successor_in by_id i = Some j \<Longrightarrow> j \<in> N"
  shows "cur \<in> N \<Longrightarrow> card (N - set path) < fuel \<Longrightarrow>
    \<exists>r. lineage_walk fuel by_id T start path cur = Return r
      \<and> (\<forall>p. r = Inr p \<longrightarrow> set path \<subseteq> set p \<and> cur \<in> set p \<union> set T)"
proof (induction fuel arbitrary: path cur)
  case (Suc fuel)
  show ?case
  proof (cases "cur \<in> set T \<or> cur \<in> set path")
    case False
    with Suc.prems(1) have c: "cur \<in> N - set path" by simp
    then have "card (N - set (path @ [cur])) < card (N - set path)"
      by (intro psubset_card_mono) (use assms(1) in auto)
    then have less: "card (N - set (path @ [cur])) < fuel" using Suc.prems(2) by simp
    obtain a where a: "bt_get by_id cur = Some a" using known Suc.prems(1) by blast
    show ?thesis
    proof (cases "as_successor_id a")
      case None
      with a False show ?thesis by auto
    next
      case (Some j)
      then have "j \<in> N" using next_in [of cur j] Suc.prems(1) a by (simp add: successor_in_def)
      from Suc.IH [OF this less] obtain r where
        "lineage_walk fuel by_id T start (path @ [cur]) j = Return r"
        "\<forall>p. r = Inr p \<longrightarrow> set (path @ [cur]) \<subseteq> set p" by blast
      with a Some False show ?thesis by auto
    qed
  qed auto
qed simp

lemma lineage_walk_clean:
  assumes A: "\<And>i j. (i, j) \<in> A \<longleftrightarrow> successor_in by_id i = Some j"
    and T: "\<And>i. i \<in> set T \<Longrightarrow> (i, i) \<notin> A\<^sup>+"
  shows "lineage_walk fuel by_id T start path cur = Return (Inr p) \<Longrightarrow>
    (cur, cur) \<notin> A\<^sup>+ \<and> (\<forall>i \<in> set p - set path. (i, i) \<notin> A\<^sup>+)"
proof (induction fuel arbitrary: path cur)
  case (Suc fuel)
  show ?case
  proof (cases "cur \<in> set T")
    case True
    with Suc.prems T show ?thesis by auto
  next
    case False
    then have "cur \<notin> set path" using Suc.prems by auto
    obtain a where a: "bt_get by_id cur = Some a"
      using Suc.prems False \<open>cur \<notin> set path\<close> by (auto simp: Let_def split: option.splits)
    show ?thesis
    proof (cases "as_successor_id a")
      case None
      then have "successor_in by_id cur = None" using a by (simp add: successor_in_def)
      then have "(cur, cur) \<notin> A\<^sup>+" using A by (metis option.distinct(1) tranclD)
      with Suc.prems a None False \<open>cur \<notin> set path\<close> show ?thesis by auto
    next
      case (Some j)
      then have s: "successor_in by_id cur = Some j" using a by (simp add: successor_in_def)
      have "lineage_walk fuel by_id T start (path @ [cur]) j = Return (Inr p)"
        using Suc.prems a Some False \<open>cur \<notin> set path\<close> by simp
      from Suc.IH [OF this] have j: "(j, j) \<notin> A\<^sup>+"
        and rest: "\<forall>i \<in> set p - set (path @ [cur]). (i, i) \<notin> A\<^sup>+" by auto
      have "(cur, cur) \<notin> A\<^sup>+"
      proof
        assume "(cur, cur) \<in> A\<^sup>+"
        then obtain k where k: "(cur, k) \<in> A" "(k, cur) \<in> A\<^sup>*" using tranclD by metis
        then have "k = j" using A s by simp
        with k have "(j, j) \<in> A\<^sup>+" by (auto intro: rtrancl_into_trancl1)
        with j show False ..
      qed
      with rest show ?thesis by auto
    qed
  qed
qed simp

lemma lineage_walk_acyclic:
  assumes A: "\<And>i j. (i, j) \<in> A \<longleftrightarrow> successor_in by_id i = Some j" and "acyclic A"
  shows "(\<And>j. j \<in> set path \<Longrightarrow> (j, cur) \<in> A\<^sup>+) \<Longrightarrow>
    lineage_walk fuel by_id T start path cur = Return r \<Longrightarrow> \<exists>p. r = Inr p"
proof (induction fuel arbitrary: path cur)
  case (Suc fuel)
  show ?case
  proof (cases "cur \<in> set T")
    case False
    have fresh: "cur \<notin> set path" using Suc.prems(1) assms(2) by (auto simp: acyclic_def)
    obtain a where a: "bt_get by_id cur = Some a"
      using Suc.prems(2) False fresh by (auto simp: Let_def split: option.splits)
    show ?thesis
    proof (cases "as_successor_id a")
      case (Some j)
      then have arc: "(cur, j) \<in> A" using a A by (simp add: successor_in_def)
      have walk: "lineage_walk fuel by_id T start (path @ [cur]) j = Return r"
        using Suc.prems(2) False fresh a Some by simp
      show ?thesis
      proof (rule Suc.IH [OF _ walk])
        fix k assume "k \<in> set (path @ [cur])"
        with arc Suc.prems(1) [of k] show "(k, j) \<in> A\<^sup>+" by (auto intro: trancl_into_trancl)
      qed
    qed (use Suc.prems False fresh a in auto)
  qed (use Suc.prems in auto)
qed simp

lemma lineage_walks_correct:
  assumes N: "finite N" "\<And>i. i \<in> N \<Longrightarrow> bt_get by_id i \<noteq> None"
      "\<And>i j. i \<in> N \<Longrightarrow> successor_in by_id i = Some j \<Longrightarrow> j \<in> N" "card N < fuel"
    and A: "\<And>i j. (i, j) \<in> A \<longleftrightarrow> successor_in by_id i = Some j"
  shows "as_id ` set xs \<subseteq> N \<Longrightarrow> (\<And>i. i \<in> set T \<Longrightarrow> (i, i) \<notin> A\<^sup>+) \<Longrightarrow>
    \<exists>r. lineage_walks fuel by_id T xs = Return r
      \<and> (r = Inr () \<longrightarrow> (\<forall>a \<in> set xs. (as_id a, as_id a) \<notin> A\<^sup>+)) \<and> (acyclic A \<longrightarrow> r = Inr ())"
proof (induction xs arbitrary: T)
  case (Cons a xs)
  have "\<exists>r. lineage_walk fuel by_id T (as_id a) [] (as_id a) = Return r
      \<and> (\<forall>p. r = Inr p \<longrightarrow> set [] \<subseteq> set p \<and> as_id a \<in> set p \<union> set T)"
    by (rule lineage_walk_returns [OF N(1-3)]) (use Cons.prems N(4) in auto)
  then obtain r where r: "lineage_walk fuel by_id T (as_id a) [] (as_id a) = Return r" by blast
  show ?case
  proof (cases r)
    case (Inl e)
    with r lineage_walk_acyclic [OF A, of "[]"] show ?thesis by fastforce
  next
    case (Inr p)
    with r lineage_walk_clean [OF A Cons.prems(2)] have
      clean: "(as_id a, as_id a) \<notin> A\<^sup>+" "\<forall>i \<in> set p. (i, i) \<notin> A\<^sup>+" by fastforce+
    have "\<exists>r. lineage_walks fuel by_id (T @ p) xs = Return r
      \<and> (r = Inr () \<longrightarrow> (\<forall>a \<in> set xs. (as_id a, as_id a) \<notin> A\<^sup>+)) \<and> (acyclic A \<longrightarrow> r = Inr ())"
      by (rule Cons.IH) (use Cons.prems clean in auto)
    with r Inr clean show ?thesis by auto
  qed
qed simp

lemma validate_assignments_correct:
  assumes "distinct (map cy_id cs)"
  shows "\<exists>r. validate_cycle_assignments cs ns xs = Return r
    \<and> (r = Inr () \<longleftrightarrow> forest ns \<and> assignments_ok cs ns xs)"
proof -
  obtain r where r: "validate_decomposition ns = Return r" "r = Inr () \<longleftrightarrow> forest ns"
    using validate_decomposition_correct [of ns] by blast
  show ?thesis
  proof (cases r)
    case (Inl e)
    with r show ?thesis by (auto simp: validate_cycle_assignments_def)
  next
    case (Inr x)
    with r have f: "forest ns" by simp
    then have d: "distinct (map wn_id ns)" by (simp add: forest_def shaped_def)
    let ?first = "try_fold (assignment_step (fold (\<lambda>c. bt_insert (cy_id c) c) cs []) (node_map ns))
      \<lparr>ck_ids = [], ck_live_by_work = []\<rparr> xs"
    let ?m = "fold (\<lambda>a. bt_insert (as_id a) a) xs []"
    note loop = assignment_loop [OF assms d, of xs]
    have self: "\<not> self_linked a" if "a \<in> set xs" "distinct (map as_id xs)" "lineage_ok xs a" for a
    proof
      assume "self_linked a"
      with that(3) obtain b where "b \<in> set xs" "as_id b = as_id a" "as_cycle_id b \<noteq> as_cycle_id a"
        by (auto simp: self_linked_def lineage_ok_def)
      with that(1,2) show False by (auto simp: distinct_map inj_on_def)
    qed
    show ?thesis
    proof (cases ?first)
      case (Inl e)
      with loop self have "\<not> assignments_ok cs ns xs" by (auto simp: assignments_ok_def)
      with Inl r Inr f show ?thesis by (auto simp: validate_cycle_assignments_def)
    next
      case first: (Inr st)
      with loop have ids: "distinct (map as_id xs)" and fits: "\<forall>a \<in> set xs. assignment_fits cs ns a"
        "distinct (map as_work_id (filter (\<lambda>a. assignment_is_live (as_state a)) xs))" by auto
      show ?thesis
      proof (cases "try_fold (\<lambda>_. lineage_step ?m) () xs")
        case (Inl e)
        then have "\<not> (\<forall>a \<in> set xs. lineage_ok xs a)"
          using try_fold_check [of "lineage_step ?m" xs] lineage_step_iff [OF ids] by auto
        with Inl first r Inr f show ?thesis
          by (auto simp: validate_cycle_assignments_def assignments_ok_def)
      next
        case second: (Inr u)
        then have lin: "\<forall>a \<in> set xs. lineage_ok xs a"
          using try_fold_check [of "lineage_step ?m" xs] lineage_step_iff [OF ids] by auto
        have arcs: "(i, j) \<in> successor_arcs xs \<longleftrightarrow> successor_in ?m i = Some j" for i j
          by (auto simp: successor_in_def bind_eq_Some_conv index_Some [OF ids] successor_arcs_def)
        have "\<exists>r. lineage_walks (length xs + 2) ?m [] xs = Return r
          \<and> (r = Inr () \<longrightarrow> (\<forall>a \<in> set xs. (as_id a, as_id a) \<notin> (successor_arcs xs)\<^sup>+))
          \<and> (acyclic (successor_arcs xs) \<longrightarrow> r = Inr ())"
        proof (rule lineage_walks_correct [where N = "as_id ` set xs", OF _ _ _ _ arcs])
          show "bt_get ?m i \<noteq> None" if "i \<in> as_id ` set xs" for i
            using that index_Some [OF ids] by force
          show "j \<in> as_id ` set xs" if "i \<in> as_id ` set xs" "successor_in ?m i = Some j" for i j
            using that lin by (force simp: arcs [symmetric] successor_arcs_def lineage_ok_def)
          have "card (as_id ` set xs) \<le> length xs"
            by (metis card_image_le card_length finite_set le_trans)
          then show "card (as_id ` set xs) < length xs + 2" by simp
        qed auto
        then obtain q where q: "lineage_walks (length xs + 2) ?m [] xs = Return q"
          "q = Inr () \<longrightarrow> (\<forall>a \<in> set xs. (as_id a, as_id a) \<notin> (successor_arcs xs)\<^sup>+)"
          "acyclic (successor_arcs xs) \<longrightarrow> q = Inr ()" by blast
        have "acyclic (successor_arcs xs)" if "q = Inr ()"
        proof (rule acyclicI, rule allI, rule notI)
          fix i assume cyc: "(i, i) \<in> (successor_arcs xs)\<^sup>+"
          then obtain j where "(i, j) \<in> successor_arcs xs" by (metis tranclD)
          then obtain a where "a \<in> set xs" "as_id a = i" by (auto simp: successor_arcs_def)
          with q(2) that cyc show False by auto
        qed
        with q have "q = Inr () \<longleftrightarrow> acyclic (successor_arcs xs)" by blast
        with q(1) first second r Inr f ids fits lin show ?thesis
          by (auto simp: validate_cycle_assignments_def assignments_ok_def)
      qed
    qed
  qed
qed

text \<open>C37: A new cycle has exactly these lives: it is planned; it is started; it is started and then
  completed, or cancelled from either state, and it can end only when no assignment is live.  The
  actual timestamps are those of the operations, nothing else changes, and an ended cycle accepts no
  operation.\<close>

theorem cycle_lives:
  assumes "try_fold cycle_step (cycle_new p i name) ops = Inr c"
  shows "cycle_frame c = cycle_frame (cycle_new p i name)
    \<and> (case cy_lifecycle c of
         CycleLifecycle.Planned \<Rightarrow> ops = [] \<and> cy_actual_started_at c = None \<and> cy_actual_ended_at c = None
       | Active \<Rightarrow> \<exists>s. ops = [Start s] \<and> cy_actual_started_at c = Some s \<and> cy_actual_ended_at c = None
       | CycleLifecycle.Completed \<Rightarrow> \<exists>s e. ops = [Start s, Complete e 0]
           \<and> cy_actual_started_at c = Some s \<and> cy_actual_ended_at c = Some e
       | CycleLifecycle.Cancelled \<Rightarrow> \<exists>e. cy_actual_ended_at c = Some e
           \<and> (ops = [Cancel e 0] \<and> cy_actual_started_at c = None
              \<or> (\<exists>s. ops = [Start s, Cancel e 0] \<and> cy_actual_started_at c = Some s)))"
proof -
  note defs = cycle_new_def cycle_start_def cycle_complete_def cycle_cancel_def cycle_is_terminal_def
  note final = cycles.run_from_final
  have end_run: "rest = [] \<and> c = t" if "try_fold cycle_step t rest = Inr c" "cycle_is_terminal (cy_lifecycle t)"
    for t rest using final [OF that(2,1)] by simp
  have frame: "cycle_frame c = cycle_frame (cycle_new p i name)" by (rule cycles.run_frame [OF assms])
  show ?thesis
  proof (cases ops)
    case Nil
    with assms frame show ?thesis by (auto simp: cycle_new_def)
  next
    case (Cons x xs)
    then obtain t where t: "cycle_step (cycle_new p i name) x = Inr t" "try_fold cycle_step t xs = Inr c"
      using assms by (auto split: sum.splits)
    show ?thesis
    proof (cases x)
      case (Start s)
      with t(1) have ts: "t = (cycle_new p i name)\<lparr>cy_lifecycle := Active, cy_actual_started_at := Some s\<rparr>"
        by (simp add: defs)
      show ?thesis
      proof (cases xs)
        case Nil
        with t(2) ts Start Cons frame show ?thesis by (auto simp: cycle_new_def)
      next
        case (Cons y ys)
        then obtain u where u: "cycle_step t y = Inr u" "try_fold cycle_step u ys = Inr c"
          using t(2) by (auto split: sum.splits)
        then have "cycle_is_terminal (cy_lifecycle u)"
          by (cases y) (auto simp: ts defs split: if_splits)
        with end_run u(2) have "ys = []" "c = u" by auto
        with u(1) ts Start Cons \<open>ops = x # xs\<close> frame show ?thesis
          by (cases y) (auto simp: defs split: if_splits)
      qed
    next
      case (Complete e n)
      with t(1) show ?thesis by (simp add: defs)
    next
      case (Cancel e n)
      with t(1) have "n = 0" "t = (cycle_new p i name)\<lparr>cy_lifecycle := CycleLifecycle.Cancelled, cy_actual_ended_at := Some e\<rparr>"
        by (auto simp: defs split: if_splits)
      moreover from this end_run [OF t(2)] have "xs = []" "c = t" by (auto simp: defs)
      ultimately show ?thesis using Cancel Cons frame by (auto simp: cycle_new_def)
    qed
  qed
qed

theorem cycle_lives_witness:
  "\<exists>c. try_fold cycle_step (cycle_new (Ident ''P'') (Ident ''C'') ''one'') [Start 5, Complete 9 0] = Inr c
     \<and> cy_actual_started_at c = Some 5"
proof -
  let ?run = "try_fold cycle_step (cycle_new (Ident ''P'') (Ident ''C'') ''one'') [Start 5, Complete 9 0]"
  let ?c = "case ?run of Inr c \<Rightarrow> c"
  have run: "?run = Inr ?c" by code_simp
  have "cy_lifecycle ?c = CycleLifecycle.Completed" by code_simp
  with cycle_lives [OF run] run show ?thesis by auto
qed

text \<open>C29: The assignment check always returns (its lineage walks end and never look up an unknown
  assignment), and accepts exactly the assignment sets in which identifiers are distinct, every
  assignment joins a cycle and a direct task of its own project, no live assignment sits in an ended
  cycle, a work item has at most one live assignment, carry-over links are reciprocal between
  different cycles for the same work, and no chain of carry-overs closes into a loop.\<close>

theorem assignments_valid:
  assumes "distinct (map cy_id cs)"
  shows "\<exists>r. validate_cycle_assignments cs ns xs = Return r
    \<and> (r = Inr () \<longleftrightarrow> forest ns \<and> distinct (map as_id xs) \<and> (\<forall>a \<in> set xs. assignment_fits cs ns a)
         \<and> distinct (map as_work_id (filter (\<lambda>a. assignment_is_live (as_state a)) xs))
         \<and> (\<forall>a \<in> set xs. lineage_ok xs a) \<and> acyclic (successor_arcs xs))"
  using validate_assignments_correct [OF assms, of ns xs] by (simp add: assignments_ok_def)

definition sample_assignment :: CycleAssignment where
  "sample_assignment = \<lparr>as_id = ''x'', as_cycle_id = Ident ''C'', as_work_id = Ident ''A'',
     as_project_id = Ident ''P'', as_state = Committed, as_activation_policy = Immediate,
     as_activation_at = None, as_predecessor_id = None, as_successor_id = None\<rparr>"

theorem assignments_valid_witness:
  "assignment_fits [cycle_new (Ident ''P'') (Ident ''C'') ''one''] sample_nodes sample_assignment"
proof -
  let ?cs = "[cycle_new (Ident ''P'') (Ident ''C'') ''one'']"
  have d: "distinct (map cy_id ?cs)" by simp
  have "validate_cycle_assignments ?cs sample_nodes [sample_assignment] = Return (Inr ())" by code_simp
  with assignments_valid [OF d, of sample_nodes "[sample_assignment]"] show ?thesis by auto
qed

end
