(* ===== verification/Rollups.thy ===== *)
theory Rollups
  imports Dep_Eval Cycles
begin

text \<open>
  Revision-bound rollups of tasks, containers and cycles (\<open>crates/domain/src/rollups.rs\<close>).  The
  evaluators are pure; a sequence of \<open>diagnostics.push\<close> and \<open>quality = ...\<close> is threaded as a pair.
  Counters are \<open>usize\<close> counts of in-memory rows, modelled as \<open>nat\<close>.
\<close>

section \<open>Types\<close>

datatype RollupSubject = Task WorkId | Container WorkId | Cycle CycleId

record RollupScope =
  sc_project_id :: ProjectId
  sc_subject :: RollupSubject
  sc_revision :: EntityRevision

definition scope_task :: "ProjectId \<Rightarrow> WorkId \<Rightarrow> EntityRevision \<Rightarrow> RollupScope" where
  "scope_task project_id work_id revision =
     \<lparr>sc_project_id = project_id, sc_subject = RollupSubject.Task work_id, sc_revision = revision\<rparr>"

definition scope_container :: "ProjectId \<Rightarrow> WorkId \<Rightarrow> EntityRevision \<Rightarrow> RollupScope" where
  "scope_container project_id work_id revision =
     \<lparr>sc_project_id = project_id, sc_subject = RollupSubject.Container work_id,
      sc_revision = revision\<rparr>"

definition scope_cycle :: "ProjectId \<Rightarrow> CycleId \<Rightarrow> EntityRevision \<Rightarrow> RollupScope" where
  "scope_cycle project_id cycle_id revision =
     \<lparr>sc_project_id = project_id, sc_subject = Cycle cycle_id, sc_revision = revision\<rparr>"

datatype RollupQuality = Complete | Incomplete | Corrupt

datatype DescendantIntegrity = Valid | Degraded string | Corrupt string

primrec integrity_quality :: "DescendantIntegrity \<Rightarrow> RollupQuality" where
  "integrity_quality Valid = RollupQuality.Complete"
| "integrity_quality (Degraded code) = Incomplete"
| "integrity_quality (DescendantIntegrity.Corrupt code) = RollupQuality.Corrupt"

definition is_trustworthy :: "DescendantIntegrity \<Rightarrow> bool" where
  "is_trustworthy i \<longleftrightarrow> i = Valid"

record AcceptedOutcome =
  ao_identity :: EntityIdentity
  ao_proof_revision :: ProofRevision
  ao_digest :: ContentDigest

datatype ScopeDisposition =
    AcceptedClosed EntityRevision ContentDigest
  | AcceptedCancelled EntityRevision ContentDigest
  | Deferred string
  | Replaced WorkId string

definition disposition_accepted_closed :: "EntityIdentity \<Rightarrow> ContentDigest \<Rightarrow> ScopeDisposition" where
  "disposition_accepted_closed identity digest =
     ScopeDisposition.AcceptedClosed (ei_revision identity) digest"

definition disposition_accepted_cancelled :: "EntityIdentity \<Rightarrow> ContentDigest \<Rightarrow> ScopeDisposition" where
  "disposition_accepted_cancelled identity digest =
     ScopeDisposition.AcceptedCancelled (ei_revision identity) digest"

record RollupBlocker =
  rb_work_id :: WorkId
  rb_code :: string

definition blocker_key :: "RollupBlocker \<Rightarrow> WorkId \<times> string" where
  "blocker_key b = (rb_work_id b, rb_code b)"

datatype ReconciliationState = NotRequired | Unresolved | AcceptedClosed | AcceptedCancelled
  | Deferred | Replaced

definition is_reconciled_state :: "ReconciliationState \<Rightarrow> bool" where
  "is_reconciled_state s \<longleftrightarrow> s \<in> {ReconciliationState.AcceptedClosed,
     ReconciliationState.AcceptedCancelled, ReconciliationState.Deferred, ReconciliationState.Replaced}"

datatype RollupFactDiagnostic =
    ContainerClaimabilityIgnored
  | ContainerExecutionPresent
  | ActiveTerminal
  | LifecycleStatusMismatch
  | AcceptedOutcomeWrongIdentity
  | AcceptedOutcomeNotClosed
  | AcceptedOutcomeMissingDigest
  | AcceptedDispositionWithoutOutcome
  | AcceptedDispositionBindingMismatch
  | CancelledDispositionNotCancelled
  | DispositionBindingMismatch
  | DispositionInvalid
  | DispositionMissing
  | DegradedIntegrity
  | CorruptIntegrity

primrec fact_index :: "RollupFactDiagnostic \<Rightarrow> nat" where
  "fact_index ContainerClaimabilityIgnored = 0"
| "fact_index ContainerExecutionPresent = 1"
| "fact_index ActiveTerminal = 2"
| "fact_index LifecycleStatusMismatch = 3"
| "fact_index AcceptedOutcomeWrongIdentity = 4"
| "fact_index AcceptedOutcomeNotClosed = 5"
| "fact_index AcceptedOutcomeMissingDigest = 6"
| "fact_index AcceptedDispositionWithoutOutcome = 7"
| "fact_index AcceptedDispositionBindingMismatch = 8"
| "fact_index CancelledDispositionNotCancelled = 9"
| "fact_index DispositionBindingMismatch = 10"
| "fact_index DispositionInvalid = 11"
| "fact_index DispositionMissing = 12"
| "fact_index DegradedIntegrity = 13"
| "fact_index CorruptIntegrity = 14"

datatype RollupDiagnostic =
    Task WorkId RollupFactDiagnostic
  | DuplicateDescendant WorkId
  | ForeignProject WorkId
  | WrongScopeSubject
  | InvalidCycle
  | AssignmentProjectMismatch string
  | AssignmentCycleMismatch string
  | AssignmentWorkMismatch string
  | CompletedAssignmentNotAcceptedClosed WorkId
  | CycleHasLiveAssignments
  | IntegrationCloseoutMissing WorkId
  | IntegrationCloseoutNotDirect WorkId

text \<open>The derived order: the variant, then its fields.\<close>

fun diagnostic_key :: "RollupDiagnostic \<Rightarrow> nat \<times> string \<times> nat" where
  "diagnostic_key (RollupDiagnostic.Task w code) = (0, as_str w, fact_index code)"
| "diagnostic_key (DuplicateDescendant w) = (1, as_str w, 0)"
| "diagnostic_key (ForeignProject w) = (2, as_str w, 0)"
| "diagnostic_key WrongScopeSubject = (3, [], 0)"
| "diagnostic_key InvalidCycle = (4, [], 0)"
| "diagnostic_key (RollupDiagnostic.AssignmentProjectMismatch i) = (5, i, 0)"
| "diagnostic_key (AssignmentCycleMismatch i) = (6, i, 0)"
| "diagnostic_key (AssignmentWorkMismatch i) = (7, i, 0)"
| "diagnostic_key (CompletedAssignmentNotAcceptedClosed w) = (8, as_str w, 0)"
| "diagnostic_key RollupDiagnostic.CycleHasLiveAssignments = (9, [], 0)"
| "diagnostic_key (IntegrationCloseoutMissing w) = (10, as_str w, 0)"
| "diagnostic_key (IntegrationCloseoutNotDirect w) = (11, as_str w, 0)"

record TaskRollupInput =
  tri_identity :: EntityIdentity
  tri_execution_mode :: ExecutionMode
  tri_lifecycle :: PersistedLifecycle
  tri_status :: DerivedStatus
  tri_claimable_for_actor :: bool
  tri_active_execution :: bool
  tri_accepted_outcome :: "AcceptedOutcome option"
  tri_disposition :: "ScopeDisposition option"
  tri_requires_reconciliation :: bool
  tri_gate_gaps :: "GateId list"
  tri_overdue :: bool
  tri_blockers :: "RollupBlocker list"
  tri_integrity :: DescendantIntegrity

definition task_input_new ::
  "EntityIdentity \<Rightarrow> ExecutionMode \<Rightarrow> PersistedLifecycle \<Rightarrow> DerivedStatus \<Rightarrow> TaskRollupInput" where
  "task_input_new identity execution_mode lifecycle status =
     \<lparr>tri_identity = identity, tri_execution_mode = execution_mode, tri_lifecycle = lifecycle,
      tri_status = status, tri_claimable_for_actor = False, tri_active_execution = False,
      tri_accepted_outcome = None, tri_disposition = None, tri_requires_reconciliation = False,
      tri_gate_gaps = [], tri_overdue = False, tri_blockers = [], tri_integrity = Valid\<rparr>"

record TaskRollup =
  tr_identity :: EntityIdentity
  tr_execution_mode :: ExecutionMode
  tr_lifecycle :: PersistedLifecycle
  tr_status :: DerivedStatus
  tr_claimable_for_actor :: bool
  tr_active_execution :: bool
  tr_accepted_closed :: bool
  tr_reconciliation :: ReconciliationState
  tr_gate_gaps :: "GateId list"
  tr_overdue :: bool
  tr_blockers :: "RollupBlocker list"
  tr_quality :: RollupQuality
  tr_diagnostics :: "RollupDiagnostic list"

definition task_is_reconciled :: "TaskRollup \<Rightarrow> bool" where
  "task_is_reconciled t \<longleftrightarrow>
     tr_quality t = RollupQuality.Complete \<and> is_reconciled_state (tr_reconciliation t)"

section \<open>Totals\<close>

record RollupTotals =
  rt_total :: nat
  rt_accepted_closed :: nat
  rt_accepted_cancelled :: nat
  rt_reconciled_scope :: nat
  rt_deferred :: nat
  rt_replaced :: nat
  rt_unresolved_scope :: nat
  rt_active_work :: nat
  rt_gate_review_gaps :: nat
  rt_gate_review_gap_tasks :: nat
  rt_overdue_work :: nat
  rt_blockers :: nat
  rt_blocked_work :: nat
  rt_incomplete_descendants :: nat
  rt_corrupt_descendants :: nat

definition totals_default :: RollupTotals where
  "totals_default = \<lparr>rt_total = 0, rt_accepted_closed = 0, rt_accepted_cancelled = 0,
     rt_reconciled_scope = 0, rt_deferred = 0, rt_replaced = 0, rt_unresolved_scope = 0,
     rt_active_work = 0, rt_gate_review_gaps = 0, rt_gate_review_gap_tasks = 0,
     rt_overdue_work = 0, rt_blockers = 0, rt_blocked_work = 0, rt_incomplete_descendants = 0,
     rt_corrupt_descendants = 0\<rparr>"

definition bump_if :: "bool \<Rightarrow> (RollupTotals \<Rightarrow> RollupTotals) \<Rightarrow> RollupTotals \<Rightarrow> RollupTotals" where
  "bump_if c f t = (if c then f t else t)"

definition totals_record :: "RollupTotals \<Rightarrow> TaskRollup \<Rightarrow> RollupTotals" where
  "totals_record t task =
     (let complete = (tr_quality task = RollupQuality.Complete);
          state = tr_reconciliation task;
          t = t\<lparr>rt_total := rt_total t + 1\<rparr>;
          t = bump_if (tr_accepted_closed task \<and> tr_quality task \<noteq> RollupQuality.Corrupt)
                (\<lambda>t. t\<lparr>rt_accepted_closed := rt_accepted_closed t + 1\<rparr>) t;
          t = bump_if (complete \<and> state = ReconciliationState.AcceptedCancelled)
                (\<lambda>t. t\<lparr>rt_accepted_cancelled := rt_accepted_cancelled t + 1\<rparr>) t;
          t = bump_if (complete \<and> state = ReconciliationState.Deferred)
                (\<lambda>t. t\<lparr>rt_deferred := rt_deferred t + 1\<rparr>) t;
          t = bump_if (complete \<and> state = ReconciliationState.Replaced)
                (\<lambda>t. t\<lparr>rt_replaced := rt_replaced t + 1\<rparr>) t;
          t = bump_if (task_is_reconciled task)
                (\<lambda>t. t\<lparr>rt_reconciled_scope := rt_reconciled_scope t + 1\<rparr>) t;
          t = bump_if (\<not> task_is_reconciled task \<and> state = Unresolved)
                (\<lambda>t. t\<lparr>rt_unresolved_scope := rt_unresolved_scope t + 1\<rparr>) t;
          t = bump_if (tr_active_execution task) (\<lambda>t. t\<lparr>rt_active_work := rt_active_work t + 1\<rparr>) t;
          t = bump_if (tr_gate_gaps task \<noteq> [])
                (\<lambda>t. t\<lparr>rt_gate_review_gap_tasks := rt_gate_review_gap_tasks t + 1,
                       rt_gate_review_gaps := rt_gate_review_gaps t + length (tr_gate_gaps task)\<rparr>) t;
          t = bump_if (tr_overdue task) (\<lambda>t. t\<lparr>rt_overdue_work := rt_overdue_work t + 1\<rparr>) t;
          t = bump_if (tr_blockers task \<noteq> [])
                (\<lambda>t. t\<lparr>rt_blocked_work := rt_blocked_work t + 1,
                       rt_blockers := rt_blockers t + length (tr_blockers task)\<rparr>) t;
          t = bump_if (tr_quality task = Incomplete)
                (\<lambda>t. t\<lparr>rt_incomplete_descendants := rt_incomplete_descendants t + 1\<rparr>) t
      in bump_if (tr_quality task = RollupQuality.Corrupt)
           (\<lambda>t. t\<lparr>rt_corrupt_descendants := rt_corrupt_descendants t + 1\<rparr>) t)"

definition accepted_percentage :: "RollupTotals \<Rightarrow> u8 option" where
  "accepted_percentage t =
     (if rt_total t = 0 \<or> rt_incomplete_descendants t \<noteq> 0 \<or> rt_corrupt_descendants t \<noteq> 0 then None
      else Some (of_nat ((rt_accepted_closed t * 100) div rt_total t)))"

definition reconciled_percentage :: "RollupTotals \<Rightarrow> u8 option" where
  "reconciled_percentage t =
     (if rt_total t = 0 \<or> rt_incomplete_descendants t \<noteq> 0 \<or> rt_corrupt_descendants t \<noteq> 0 then None
      else Some (of_nat ((rt_reconciled_scope t * 100) div rt_total t)))"

definition is_fully_accepted :: "RollupTotals \<Rightarrow> bool" where
  "is_fully_accepted t \<longleftrightarrow> 0 < rt_total t \<and> rt_accepted_closed t = rt_total t
     \<and> rt_incomplete_descendants t = 0 \<and> rt_corrupt_descendants t = 0"

section \<open>One task\<close>

definition normalized_gates :: "GateId list \<Rightarrow> GateId list" where
  "normalized_gates gates = sort_dedup gates"

definition normalized_blockers :: "RollupBlocker list \<Rightarrow> RollupBlocker list" where
  "normalized_blockers blockers = remdups_adj (sort_key blocker_key blockers)"

type_synonym findings = "RollupDiagnostic list \<times> RollupQuality"

text \<open>\<open>if c { diagnostics.push(...) }\<close>, and the same with \<open>quality = Corrupt\<close>.\<close>

definition push_if :: "bool \<Rightarrow> RollupDiagnostic \<Rightarrow> findings \<Rightarrow> findings" where
  "push_if c d st = (if c then (fst st @ [d], snd st) else st)"

definition corrupt_if :: "bool \<Rightarrow> RollupDiagnostic \<Rightarrow> findings \<Rightarrow> findings" where
  "corrupt_if c d st = (if c then (fst st @ [d], RollupQuality.Corrupt) else st)"

definition lifecycle_mismatch :: "PersistedLifecycle \<Rightarrow> DerivedStatus \<Rightarrow> bool" where
  "lifecycle_mismatch l s \<longleftrightarrow>
     l = PersistedLifecycle.Closed \<and> s \<noteq> DerivedStatus.Closed
     \<or> l = PersistedLifecycle.Cancelled \<and> s \<noteq> DerivedStatus.Cancelled
     \<or> \<not> lifecycle_is_terminal l \<and> s \<in> {DerivedStatus.Closed, DerivedStatus.Cancelled}"

definition structural_notes :: "TaskRollupInput \<Rightarrow> findings" where
  "structural_notes i =
     (let w = RollupDiagnostic.Task (ei_work_id (tri_identity i));
          st = ([], integrity_quality (tri_integrity i));
          st = push_if (case tri_integrity i of Degraded _ \<Rightarrow> True | _ \<Rightarrow> False) (w DegradedIntegrity) st;
          st = push_if (case tri_integrity i of DescendantIntegrity.Corrupt _ \<Rightarrow> True | _ \<Rightarrow> False)
                 (w CorruptIntegrity) st;
          st = corrupt_if (tri_execution_mode i = ExecutionMode.Container \<and> tri_claimable_for_actor i)
                 (w ContainerClaimabilityIgnored) st;
          st = corrupt_if (tri_execution_mode i = ExecutionMode.Container \<and> tri_active_execution i)
                 (w ContainerExecutionPresent) st;
          st = corrupt_if (lifecycle_is_terminal (tri_lifecycle i) \<and> tri_active_execution i)
                 (w ActiveTerminal) st
      in corrupt_if (lifecycle_mismatch (tri_lifecycle i) (tri_status i)) (w LifecycleStatusMismatch) st)"

definition outcome_notes :: "TaskRollupInput \<Rightarrow> findings \<Rightarrow> bool \<times> findings" where
  "outcome_notes i st =
     (let w = RollupDiagnostic.Task (ei_work_id (tri_identity i)) in
      case tri_accepted_outcome i of
        None \<Rightarrow> (False, st)
      | Some outcome \<Rightarrow>
          if ao_identity outcome \<noteq> tri_identity i
          then (False, corrupt_if True (w AcceptedOutcomeWrongIdentity) st)
          else if tri_lifecycle i \<noteq> PersistedLifecycle.Closed
          then (False, corrupt_if True (w AcceptedOutcomeNotClosed) st)
          else if trim_is_empty (as_str (ao_digest outcome))
          then (False, corrupt_if True (w AcceptedOutcomeMissingDigest) st)
          else (is_trustworthy (tri_integrity i), st))"

definition disposition_notes ::
  "TaskRollupInput \<Rightarrow> bool \<Rightarrow> findings \<Rightarrow> ReconciliationState \<times> findings" where
  "disposition_notes i requires_reconciliation st =
     (let w = RollupDiagnostic.Task (ei_work_id (tri_identity i)) in
      case tri_disposition i of
        None \<Rightarrow>
          if requires_reconciliation
          then (Unresolved,
            (fst st @ [w DispositionMissing],
             if snd st = RollupQuality.Complete then Incomplete else snd st))
          else (NotRequired, st)
      | Some (ScopeDisposition.AcceptedClosed entity_revision outcome_digest) \<Rightarrow>
          (ReconciliationState.AcceptedClosed,
           corrupt_if
             (\<not> (case tri_accepted_outcome i of
                   None \<Rightarrow> False
                 | Some outcome \<Rightarrow> ei_revision (ao_identity outcome) = entity_revision
                     \<and> ao_digest outcome = outcome_digest))
             (w (if tri_accepted_outcome i = None then AcceptedDispositionWithoutOutcome
                 else AcceptedDispositionBindingMismatch)) st)
      | Some (ScopeDisposition.AcceptedCancelled entity_revision outcome_digest) \<Rightarrow>
          (ReconciliationState.AcceptedCancelled,
           corrupt_if (entity_revision \<noteq> ei_revision (tri_identity i)
               \<or> trim_is_empty (as_str outcome_digest)) (w DispositionBindingMismatch)
             (corrupt_if (tri_lifecycle i \<noteq> PersistedLifecycle.Cancelled)
               (w CancelledDispositionNotCancelled) st))
      | Some (ScopeDisposition.Deferred reason) \<Rightarrow>
          (ReconciliationState.Deferred,
           corrupt_if (trim_is_empty reason) (w DispositionInvalid) st)
      | Some (ScopeDisposition.Replaced replacement_id reason) \<Rightarrow>
          (ReconciliationState.Replaced,
           corrupt_if (replacement_id = ei_work_id (tri_identity i) \<or> trim_is_empty reason)
             (w DispositionInvalid) st))"

definition evaluate_task :: "TaskRollupInput \<Rightarrow> bool \<Rightarrow> TaskRollup" where
  "evaluate_task i requires_reconciliation =
     (let (accepted_closed, st) = outcome_notes i (structural_notes i);
          (reconciliation, diagnostics, quality) = disposition_notes i requires_reconciliation st;
          gate_gaps = sort_dedup (normalized_gates (tri_gate_gaps i));
          blockers = remdups_adj (sort_key blocker_key (normalized_blockers (tri_blockers i)));
          claimable_for_actor = (tri_execution_mode i = Direct \<and> tri_claimable_for_actor i
            \<and> tri_lifecycle i = PersistedLifecycle.Open \<and> tri_status i = Ready
            \<and> \<not> tri_active_execution i \<and> gate_gaps = [] \<and> blockers = []
            \<and> tri_accepted_outcome i = None \<and> tri_disposition i = None
            \<and> quality = RollupQuality.Complete)
      in \<lparr>tr_identity = tri_identity i, tr_execution_mode = tri_execution_mode i,
          tr_lifecycle = tri_lifecycle i, tr_status = tri_status i,
          tr_claimable_for_actor = claimable_for_actor,
          tr_active_execution = tri_active_execution i,
          tr_accepted_closed = (if quality = RollupQuality.Corrupt then False else accepted_closed),
          tr_reconciliation = reconciliation, tr_gate_gaps = gate_gaps,
          tr_overdue = tri_overdue i, tr_blockers = blockers, tr_quality = quality,
          tr_diagnostics = sort_key diagnostic_key diagnostics\<rparr>)"

definition evaluate_task_rollup :: "TaskRollupInput \<Rightarrow> TaskRollup" where
  "evaluate_task_rollup i = evaluate_task i (tri_requires_reconciliation i)"

section \<open>Descendants and the integration closeout\<close>

definition descendant_step ::
  "ProjectId \<Rightarrow> bool \<Rightarrow> WorkId btree_set \<times> RollupDiagnostic list \<Rightarrow> TaskRollupInput \<Rightarrow>
     TaskRollup \<times> (WorkId btree_set \<times> RollupDiagnostic list)" where
  "descendant_step project_id requires_reconciliation = (\<lambda>(seen, diagnostics) i.
     let w = ei_work_id (tri_identity i);
         (i, diagnostics) =
           (if ei_project_id (tri_identity i) \<noteq> project_id
            then (i\<lparr>tri_integrity := DescendantIntegrity.Corrupt ''foreign_project''\<rparr>,
                  diagnostics @ [ForeignProject w])
            else (i, diagnostics));
         (i, diagnostics) =
           (if bt_contains seen w
            then (i\<lparr>tri_integrity := DescendantIntegrity.Corrupt ''duplicate_descendant''\<rparr>,
                  diagnostics @ [DuplicateDescendant w])
            else (i, diagnostics))
     in (evaluate_task i requires_reconciliation, (bs_insert w seen, diagnostics)))"

definition evaluate_descendants ::
  "ProjectId \<Rightarrow> TaskRollupInput list \<Rightarrow> bool \<Rightarrow>
     TaskRollup list \<times> RollupTotals \<times> RollupDiagnostic list \<times> RollupQuality" where
  "evaluate_descendants project_id inputs requires_reconciliation =
     (let (descendants, _, diagnostics) =
            map_state (descendant_step project_id requires_reconciliation) ([], []) inputs;
          descendants = sort_key (\<lambda>t. ei_work_id (tr_identity t)) descendants;
          totals = foldl totals_record totals_default descendants;
          diagnostics = diagnostics @ concat (map tr_diagnostics descendants);
          quality = (if rt_corrupt_descendants totals \<noteq> 0 then RollupQuality.Corrupt
            else if rt_incomplete_descendants totals \<noteq> 0 then Incomplete
            else RollupQuality.Complete)
      in (descendants, totals, sort_key diagnostic_key diagnostics, quality))"

record IntegrationCloseoutSpec =
  ics_work_id :: WorkId
  ics_required :: bool

datatype IntegrationCloseoutState = Missing | Pending | Accepted | Reconciled | Corrupt

record IntegrationCloseoutRollup =
  icr_work_id :: WorkId
  icr_required :: bool
  icr_state :: IntegrationCloseoutState

definition blocks_closeout :: "IntegrationCloseoutRollup \<Rightarrow> bool" where
  "blocks_closeout r \<longleftrightarrow> icr_required r \<and> icr_state r \<noteq> IntegrationCloseoutState.Accepted"

definition closeout_state ::
  "IntegrationCloseoutSpec \<Rightarrow> TaskRollup list \<Rightarrow> RollupDiagnostic list \<Rightarrow>
     IntegrationCloseoutState \<times> RollupDiagnostic list" where
  "closeout_state spec matches diagnostics =
     (case matches of
        [] \<Rightarrow> (Missing, if ics_required spec
          then diagnostics @ [IntegrationCloseoutMissing (ics_work_id spec)] else diagnostics)
      | [task] \<Rightarrow>
          if tr_execution_mode task \<noteq> Direct
          then (IntegrationCloseoutState.Corrupt,
                diagnostics @ [IntegrationCloseoutNotDirect (ics_work_id spec)])
          else if tr_quality task = RollupQuality.Corrupt
          then (IntegrationCloseoutState.Corrupt, diagnostics)
          else if tr_accepted_closed task then (IntegrationCloseoutState.Accepted, diagnostics)
          else if task_is_reconciled task then (Reconciled, diagnostics)
          else (Pending, diagnostics)
      | _ \<Rightarrow> (IntegrationCloseoutState.Corrupt, diagnostics))"

definition evaluate_integration_closeout ::
  "IntegrationCloseoutSpec option \<Rightarrow> TaskRollup list \<Rightarrow> RollupDiagnostic list \<Rightarrow>
     IntegrationCloseoutRollup option \<times> RollupDiagnostic list" where
  "evaluate_integration_closeout spec descendants diagnostics =
     (case spec of
        None \<Rightarrow> (None, diagnostics)
      | Some spec \<Rightarrow>
          let (state, diagnostics) = closeout_state spec
                (filter (\<lambda>task. ei_work_id (tr_identity task) = ics_work_id spec) descendants)
                diagnostics
          in (Some \<lparr>icr_work_id = ics_work_id spec, icr_required = ics_required spec,
                    icr_state = state\<rparr>, diagnostics))"

text \<open>What a container and a cycle add to their descendants: gaps, blockers and totals.\<close>

definition merged_gates :: "GateId list \<Rightarrow> TaskRollup list \<Rightarrow> GateId list" where
  "merged_gates gates descendants =
     sort_dedup (normalized_gates gates @ concat (map tr_gate_gaps descendants))"

definition merged_blockers :: "RollupBlocker list \<Rightarrow> TaskRollup list \<Rightarrow> RollupBlocker list" where
  "merged_blockers blockers descendants =
     remdups_adj (sort_key blocker_key
       (normalized_blockers blockers @ concat (map tr_blockers descendants)))"

definition add_scope_totals ::
  "GateId list \<Rightarrow> RollupBlocker list \<Rightarrow> bool \<Rightarrow> RollupTotals \<Rightarrow> RollupTotals" where
  "add_scope_totals gate_gaps blockers overdue t =
     t\<lparr>rt_gate_review_gaps := rt_gate_review_gaps t + length (normalized_gates gate_gaps),
       rt_gate_review_gap_tasks := rt_gate_review_gap_tasks t + (if gate_gaps \<noteq> [] then 1 else 0),
       rt_blockers := rt_blockers t + length (normalized_blockers blockers),
       rt_blocked_work := rt_blocked_work t + (if blockers \<noteq> [] then 1 else 0),
       rt_overdue_work := rt_overdue_work t + (if overdue then 1 else 0)\<rparr>"

section \<open>Containers\<close>

record ContainerRollupInput =
  cri_scope :: RollupScope
  cri_lifecycle :: PersistedLifecycle
  cri_descendants :: "TaskRollupInput list"
  cri_gate_gaps :: "GateId list"
  cri_overdue :: bool
  cri_blockers :: "RollupBlocker list"
  cri_summary_present :: bool
  cri_integration_closeout :: "IntegrationCloseoutSpec option"

definition container_input_new :: "RollupScope \<Rightarrow> TaskRollupInput list \<Rightarrow> ContainerRollupInput" where
  "container_input_new scope descendants =
     \<lparr>cri_scope = scope, cri_lifecycle = PersistedLifecycle.Open, cri_descendants = descendants,
      cri_gate_gaps = [], cri_overdue = False, cri_blockers = [], cri_summary_present = False,
      cri_integration_closeout = None\<rparr>"

datatype ContainerRollupState = Planning | Closing | ReadyToClose | Closed | Cancelled | Attention

record ContainerRollup =
  cr_scope :: RollupScope
  cr_state :: ContainerRollupState
  cr_claimable_for_actor :: bool
  cr_totals :: RollupTotals
  cr_quality :: RollupQuality
  cr_gate_review_gaps :: "GateId list"
  cr_overdue :: bool
  cr_blockers :: "RollupBlocker list"
  cr_diagnostics :: "RollupDiagnostic list"
  cr_descendants :: "TaskRollup list"
  cr_integration_closeout :: "IntegrationCloseoutRollup option"

fun container_structural :: "RollupDiagnostic \<Rightarrow> bool" where
  "container_structural (DuplicateDescendant _) = True"
| "container_structural (ForeignProject _) = True"
| "container_structural WrongScopeSubject = True"
| "container_structural (IntegrationCloseoutNotDirect _) = True"
| "container_structural (RollupDiagnostic.Task _ code) =
     (code \<in> {ContainerClaimabilityIgnored, ContainerExecutionPresent, ActiveTerminal,
        LifecycleStatusMismatch, AcceptedOutcomeWrongIdentity, AcceptedOutcomeNotClosed,
        AcceptedOutcomeMissingDigest, AcceptedDispositionWithoutOutcome,
        AcceptedDispositionBindingMismatch, CancelledDispositionNotCancelled,
        DispositionBindingMismatch, DispositionInvalid, CorruptIntegrity})"
| "container_structural _ = False"

definition container_state ::
  "ContainerRollupInput \<Rightarrow> bool \<Rightarrow> bool \<Rightarrow> RollupBlocker list \<Rightarrow> GateId list \<Rightarrow> RollupTotals \<Rightarrow>
     ContainerRollupState" where
  "container_state i structural_attention integration_blocks blockers gate_review_gaps totals =
     (let unfinished = (integration_blocks \<or> \<not> cri_summary_present i \<or> gate_review_gaps \<noteq> []
        \<or> rt_unresolved_scope totals \<noteq> 0 \<or> rt_incomplete_descendants totals \<noteq> 0) in
      if structural_attention \<or> blockers \<noteq> [] then Attention
      else if cri_lifecycle i = PersistedLifecycle.Draft then Planning
      else if cri_lifecycle i = PersistedLifecycle.Cancelled then ContainerRollupState.Cancelled
      else if cri_lifecycle i = PersistedLifecycle.Closed
      then (if unfinished then Attention else ContainerRollupState.Closed)
      else if unfinished \<or> rt_active_work totals \<noteq> 0 then Closing
      else ReadyToClose)"

definition evaluate_container_rollup :: "ContainerRollupInput \<Rightarrow> ContainerRollup" where
  "evaluate_container_rollup i =
     (let diagnostics = (case sc_subject (cri_scope i) of
            RollupSubject.Container _ \<Rightarrow> [] | _ \<Rightarrow> [WrongScopeSubject]);
          (descendants, totals, child_diagnostics, quality) =
            evaluate_descendants (sc_project_id (cri_scope i)) (cri_descendants i) True;
          diagnostics = diagnostics @ child_diagnostics;
          gate_review_gaps = merged_gates (cri_gate_gaps i) descendants;
          blockers = merged_blockers (cri_blockers i) descendants;
          totals = add_scope_totals (cri_gate_gaps i) (cri_blockers i) (cri_overdue i) totals;
          (integration_closeout, diagnostics) =
            evaluate_integration_closeout (cri_integration_closeout i) descendants diagnostics;
          integration_blocks = case_option False blocks_closeout integration_closeout;
          structural_attention = list_ex container_structural diagnostics;
          quality = (if structural_attention \<or> quality = RollupQuality.Corrupt
            then RollupQuality.Corrupt else quality);
          overdue = (cri_overdue i \<or> rt_overdue_work totals \<noteq> 0)
      in \<lparr>cr_scope = cri_scope i,
          cr_state = container_state i structural_attention integration_blocks blockers
            gate_review_gaps totals,
          cr_claimable_for_actor = False, cr_totals = totals, cr_quality = quality,
          cr_gate_review_gaps = gate_review_gaps, cr_overdue = overdue, cr_blockers = blockers,
          cr_diagnostics = sort_key diagnostic_key diagnostics, cr_descendants = descendants,
          cr_integration_closeout = integration_closeout\<rparr>)"

section \<open>Cycles\<close>

record AssignmentCounts =
  ac_planned :: nat
  ac_committed :: nat
  ac_removed :: nat
  ac_completed :: nat
  ac_carried_over :: nat
  ac_live :: nat

definition assignment_counts_default :: AssignmentCounts where
  "assignment_counts_default = \<lparr>ac_planned = 0, ac_committed = 0, ac_removed = 0, ac_completed = 0,
     ac_carried_over = 0, ac_live = 0\<rparr>"

primrec assignment_counts_record :: "CycleAssignmentState \<Rightarrow> AssignmentCounts \<Rightarrow> AssignmentCounts" where
  "assignment_counts_record CycleAssignmentState.Planned c =
     c\<lparr>ac_planned := ac_planned c + 1, ac_live := ac_live c + 1\<rparr>"
| "assignment_counts_record Committed c =
     c\<lparr>ac_committed := ac_committed c + 1, ac_live := ac_live c + 1\<rparr>"
| "assignment_counts_record Removed c = c\<lparr>ac_removed := ac_removed c + 1\<rparr>"
| "assignment_counts_record CycleAssignmentState.Completed c = c\<lparr>ac_completed := ac_completed c + 1\<rparr>"
| "assignment_counts_record CarriedOver c = c\<lparr>ac_carried_over := ac_carried_over c + 1\<rparr>"

record CycleAssignmentRollupInput =
  cai_assignment :: CycleAssignment
  cai_task :: TaskRollupInput

record CycleRollupInput =
  cyi_scope :: RollupScope
  cyi_cycle :: Cycle
  cyi_assignments :: "CycleAssignmentRollupInput list"
  cyi_gate_gaps :: "GateId list"
  cyi_overdue :: bool
  cyi_blockers :: "RollupBlocker list"
  cyi_integration_closeout :: "IntegrationCloseoutSpec option"

datatype CycleRollupState = Planned | Active | ReadyToComplete | Completed | Cancelled | Attention

record CycleRollup =
  cyr_scope :: RollupScope
  cyr_state :: CycleRollupState
  cyr_claimable_for_actor :: bool
  cyr_totals :: RollupTotals
  cyr_quality :: RollupQuality
  cyr_scope_reconciled :: bool
  cyr_assignment_counts :: AssignmentCounts
  cyr_gate_review_gaps :: "GateId list"
  cyr_overdue :: bool
  cyr_blockers :: "RollupBlocker list"
  cyr_diagnostics :: "RollupDiagnostic list"
  cyr_descendants :: "TaskRollup list"
  cyr_integration_closeout :: "IntegrationCloseoutRollup option"

text \<open>One entry of the assignment loop; a task damaged twice keeps the last code.\<close>

definition damage ::
  "bool \<Rightarrow> RollupDiagnostic \<Rightarrow> string \<Rightarrow> TaskRollupInput \<times> RollupDiagnostic list \<Rightarrow>
     TaskRollupInput \<times> RollupDiagnostic list" where
  "damage c d code st =
     (if c then (fst st\<lparr>tri_integrity := DescendantIntegrity.Corrupt code\<rparr>, snd st @ [d]) else st)"

definition cycle_entry_step ::
  "CycleRollupInput \<Rightarrow> string btree_set \<times> RollupDiagnostic list \<Rightarrow> CycleAssignmentRollupInput \<Rightarrow>
     (CycleAssignmentState \<times> TaskRollupInput) \<times> (string btree_set \<times> RollupDiagnostic list)" where
  "cycle_entry_step input = (\<lambda>(seen, diagnostics) entry.
     let a = cai_assignment entry;
         st = (cai_task entry, diagnostics);
         st = damage (bt_contains seen (as_id a)) (AssignmentWorkMismatch (as_id a))
                ''duplicate_assignment'' st;
         st = damage (as_project_id a \<noteq> sc_project_id (cyi_scope input))
                (RollupDiagnostic.AssignmentProjectMismatch (as_id a)) ''assignment_foreign_project'' st;
         st = damage (as_cycle_id a \<noteq> cy_id (cyi_cycle input))
                (AssignmentCycleMismatch (as_id a)) ''assignment_wrong_cycle'' st;
         st = damage (as_work_id a \<noteq> ei_work_id (tri_identity (cai_task entry)))
                (AssignmentWorkMismatch (as_id a)) ''assignment_wrong_work'' st
     in ((as_state a, fst st), (bs_insert (as_id a) seen, snd st)))"

definition cycle_scope_diagnostics :: "CycleRollupInput \<Rightarrow> RollupDiagnostic list" where
  "cycle_scope_diagnostics input =
     (let subject = sc_subject (cyi_scope input); cycle = cyi_cycle input in
      (case subject of RollupSubject.Cycle _ \<Rightarrow> [] | _ \<Rightarrow> [WrongScopeSubject])
      @ (if cy_project_id cycle \<noteq> sc_project_id (cyi_scope input)
         then [RollupDiagnostic.AssignmentProjectMismatch (as_str (cy_id cycle))] else [])
      @ (if \<not> (case subject of RollupSubject.Cycle i \<Rightarrow> i = cy_id cycle | _ \<Rightarrow> False)
         then [AssignmentCycleMismatch (as_str (cy_id cycle))] else [])
      @ (case cycle_validate cycle of Inl _ \<Rightarrow> [InvalidCycle] | Inr _ \<Rightarrow> []))"

text \<open>The check of the completed assignments against the first descendant with their work id.\<close>

definition completed_step ::
  "TaskRollup list \<Rightarrow> findings \<Rightarrow> CycleAssignmentState \<times> TaskRollupInput \<Rightarrow> findings" where
  "completed_step descendants st = (\<lambda>(assignment_state, task).
     let w = ei_work_id (tri_identity task) in
     corrupt_if (assignment_state = CycleAssignmentState.Completed
       \<and> \<not> case_option False tr_accepted_closed
            (find (\<lambda>d. ei_work_id (tr_identity d) = w) descendants))
       (CompletedAssignmentNotAcceptedClosed w) st)"

fun cycle_structural :: "RollupDiagnostic \<Rightarrow> bool" where
  "cycle_structural WrongScopeSubject = True"
| "cycle_structural InvalidCycle = True"
| "cycle_structural (RollupDiagnostic.AssignmentProjectMismatch _) = True"
| "cycle_structural (AssignmentCycleMismatch _) = True"
| "cycle_structural (AssignmentWorkMismatch _) = True"
| "cycle_structural (IntegrationCloseoutNotDirect _) = True"
| "cycle_structural (CompletedAssignmentNotAcceptedClosed _) = True"
| "cycle_structural RollupDiagnostic.CycleHasLiveAssignments = True"
| "cycle_structural _ = False"

definition cycle_rollup_state ::
  "CycleLifecycle \<Rightarrow> RollupQuality \<Rightarrow> RollupBlocker list \<Rightarrow> bool \<Rightarrow> nat \<Rightarrow> GateId list \<Rightarrow> bool \<Rightarrow>
     CycleRollupState" where
  "cycle_rollup_state lifecycle quality blockers scope_reconciled live gate_review_gaps
      integration_blocks =
     (if quality = RollupQuality.Corrupt \<or> blockers \<noteq> [] then CycleRollupState.Attention
      else case lifecycle of
          CycleLifecycle.Planned \<Rightarrow> CycleRollupState.Planned
        | CycleLifecycle.Active \<Rightarrow>
            if scope_reconciled \<and> live = 0 \<and> gate_review_gaps = [] \<and> \<not> integration_blocks
            then ReadyToComplete else CycleRollupState.Active
        | CycleLifecycle.Completed \<Rightarrow>
            if scope_reconciled \<and> gate_review_gaps = [] \<and> \<not> integration_blocks
            then CycleRollupState.Completed else CycleRollupState.Attention
        | CycleLifecycle.Cancelled \<Rightarrow> CycleRollupState.Cancelled)"

definition evaluate_cycle_rollup :: "CycleRollupInput \<Rightarrow> CycleRollup" where
  "evaluate_cycle_rollup input =
     (let counts = foldl (\<lambda>c e. assignment_counts_record (as_state (cai_assignment e)) c)
            assignment_counts_default (cyi_assignments input);
          (task_inputs, _, diagnostics) =
            map_state (cycle_entry_step input) ([], cycle_scope_diagnostics input)
              (cyi_assignments input);
          (descendants, totals, child_diagnostics, quality) =
            evaluate_descendants (sc_project_id (cyi_scope input)) (map snd task_inputs) True;
          st = foldl (completed_step descendants) (diagnostics @ child_diagnostics, quality) task_inputs;
          (diagnostics, quality) =
            corrupt_if (cycle_is_terminal (cy_lifecycle (cyi_cycle input)) \<and> ac_live counts \<noteq> 0)
              RollupDiagnostic.CycleHasLiveAssignments st;
          gate_review_gaps = merged_gates (cyi_gate_gaps input) descendants;
          blockers = merged_blockers (cyi_blockers input) descendants;
          totals = add_scope_totals (cyi_gate_gaps input) (cyi_blockers input) (cyi_overdue input) totals;
          (integration_closeout, diagnostics) =
            evaluate_integration_closeout (cyi_integration_closeout input) descendants diagnostics;
          integration_blocks = case_option False blocks_closeout integration_closeout;
          quality = (if list_ex cycle_structural diagnostics then RollupQuality.Corrupt else quality);
          overdue = (cyi_overdue input \<or> rt_overdue_work totals \<noteq> 0);
          scope_reconciled = (quality = RollupQuality.Complete \<and> rt_unresolved_scope totals = 0
            \<and> rt_incomplete_descendants totals = 0 \<and> rt_corrupt_descendants totals = 0)
      in \<lparr>cyr_scope = cyi_scope input,
          cyr_state = cycle_rollup_state (cy_lifecycle (cyi_cycle input)) quality blockers
            scope_reconciled (ac_live counts) gate_review_gaps integration_blocks,
          cyr_claimable_for_actor = False, cyr_totals = totals, cyr_quality = quality,
          cyr_scope_reconciled = scope_reconciled, cyr_assignment_counts = counts,
          cyr_gate_review_gaps = gate_review_gaps, cyr_overdue = overdue, cyr_blockers = blockers,
          cyr_diagnostics = sort_key diagnostic_key diagnostics, cyr_descendants = descendants,
          cyr_integration_closeout = integration_closeout\<rparr>)"

end
