(* ===== verification/Rollup_Facts.thy ===== *)
theory Rollup_Facts
  imports Rollups
begin

text \<open>
  Correctness of the rollups of the theory \<open>Rollups\<close>: what the totals account for, and that a container
  which reports ready-to-close and a cycle which reports ready-to-complete really are.
\<close>

section \<open>One task\<close>

text \<open>A corrupt quality is always explained by a structural diagnostic.\<close>

definition explained :: "findings \<Rightarrow> bool" where
  "explained st \<longleftrightarrow> (snd st = RollupQuality.Corrupt \<longrightarrow> (\<exists>d \<in> set (fst st). container_structural d))"

lemma explained_push: "explained st \<Longrightarrow> explained (push_if c d st)"
  by (auto simp: explained_def push_if_def)

lemma explained_corrupt: "explained st \<Longrightarrow> container_structural d \<Longrightarrow> explained (corrupt_if c d st)"
  by (auto simp: explained_def corrupt_if_def)

lemma explained_structural: "explained (structural_notes i)"
proof (cases "tri_integrity i")
  case (Corrupt code)
  then show ?thesis
    unfolding structural_notes_def Let_def
    by (intro explained_corrupt) (simp_all add: explained_def push_if_def)
qed (auto simp: structural_notes_def Let_def explained_def push_if_def corrupt_if_def)

lemma explained_outcome: "explained st \<Longrightarrow> explained (snd (outcome_notes i st))"
  by (auto simp: outcome_notes_def Let_def intro!: explained_corrupt split: option.splits)

lemma explained_disposition: "explained st \<Longrightarrow> explained (snd (disposition_notes i b st))"
proof (cases "tri_disposition i")
  case None
  assume "explained st"
  with None show ?thesis by (auto simp: disposition_notes_def Let_def explained_def)
next
  case (Some d)
  assume "explained st"
  with Some show ?thesis
    by (cases d) (auto simp: disposition_notes_def Let_def intro!: explained_corrupt)
qed

lemma evaluate_task_eq:
  "tr_quality (evaluate_task i b) =
     snd (snd (disposition_notes i b (snd (outcome_notes i (structural_notes i)))))"
  "tr_diagnostics (evaluate_task i b) = sort_key diagnostic_key
     (fst (snd (disposition_notes i b (snd (outcome_notes i (structural_notes i))))))"
  "tr_reconciliation (evaluate_task i b) =
     fst (disposition_notes i b (snd (outcome_notes i (structural_notes i))))"
  "tr_identity (evaluate_task i b) = tri_identity i"
  "tr_execution_mode (evaluate_task i b) = tri_execution_mode i"
  "tr_active_execution (evaluate_task i b) = tri_active_execution i"
  by (simp_all add: evaluate_task_def Let_def case_prod_unfold)

lemma evaluate_task_explained:
  "tr_quality (evaluate_task i b) = RollupQuality.Corrupt \<Longrightarrow>
     \<exists>d \<in> set (tr_diagnostics (evaluate_task i b)). container_structural d"
  using explained_disposition [OF explained_outcome [OF explained_structural], of i b i i]
  by (simp add: evaluate_task_eq explained_def)

text \<open>A required reconciliation is either settled or leaves the quality incomplete.\<close>

lemma evaluate_task_required:
  "tr_quality (evaluate_task i True) = RollupQuality.Complete \<Longrightarrow>
     is_reconciled_state (tr_reconciliation (evaluate_task i True))"
proof (cases "tri_disposition i")
  case None
  assume "tr_quality (evaluate_task i True) = RollupQuality.Complete"
  with None show ?thesis by (simp add: evaluate_task_eq disposition_notes_def Let_def split: if_splits)
next
  case (Some d)
  then show ?thesis
    by (cases d) (simp_all add: evaluate_task_eq disposition_notes_def Let_def is_reconciled_state_def)
qed

lemma corrupt_if_corrupt: "snd st = RollupQuality.Corrupt \<Longrightarrow> snd (corrupt_if c d st) = RollupQuality.Corrupt"
  by (simp add: corrupt_if_def)

lemma push_if_quality: "snd (push_if c d st) = snd st"
  by (simp add: push_if_def)

lemma evaluate_task_damaged:
  assumes "tri_integrity i = DescendantIntegrity.Corrupt code"
  shows "tr_quality (evaluate_task i b) = RollupQuality.Corrupt"
proof -
  have s: "snd (structural_notes i) = RollupQuality.Corrupt"
    using assms by (simp add: structural_notes_def Let_def corrupt_if_def push_if_def)
  then have o: "snd (snd (outcome_notes i (structural_notes i))) = RollupQuality.Corrupt"
    by (auto simp: outcome_notes_def Let_def corrupt_if_corrupt split: option.splits)
  have "snd (snd (disposition_notes i b st)) = RollupQuality.Corrupt" if "snd st = RollupQuality.Corrupt" for st
  proof (cases "tri_disposition i")
    case None
    with that show ?thesis by (simp add: disposition_notes_def Let_def)
  next
    case (Some d)
    with that show ?thesis by (cases d) (simp_all add: disposition_notes_def Let_def corrupt_if_corrupt)
  qed
  with o show ?thesis by (simp add: evaluate_task_eq)
qed

section \<open>Totals\<close>

abbreviation tally :: "('a \<Rightarrow> bool) \<Rightarrow> 'a list \<Rightarrow> nat" where
  "tally P xs \<equiv> length (filter P xs)"

lemma bump_if_sel: "sel (bump_if c f t) = (if c then sel (f t) else sel t)"
  by (simp add: bump_if_def)

lemma rt_total_record:
  "rt_total (totals_record t k) = rt_total t + 1"
  by (simp add: totals_record_def Let_def bump_if_sel [where sel = rt_total])

lemma rt_accepted_closed_record:
  "rt_accepted_closed (totals_record t k) = rt_accepted_closed t
     + (if tr_accepted_closed k \<and> tr_quality k \<noteq> RollupQuality.Corrupt then 1 else 0)"
  by (simp add: totals_record_def Let_def bump_if_sel [where sel = rt_accepted_closed])

lemma rt_reconciled_scope_record:
  "rt_reconciled_scope (totals_record t k) = rt_reconciled_scope t + (if task_is_reconciled k then 1 else 0)"
  by (simp add: totals_record_def Let_def bump_if_sel [where sel = rt_reconciled_scope])

lemma rt_unresolved_scope_record:
  "rt_unresolved_scope (totals_record t k) = rt_unresolved_scope t
     + (if \<not> task_is_reconciled k \<and> tr_reconciliation k = Unresolved then 1 else 0)"
  by (simp add: totals_record_def Let_def bump_if_sel [where sel = rt_unresolved_scope])

lemma rt_active_work_record:
  "rt_active_work (totals_record t k) = rt_active_work t + (if tr_active_execution k then 1 else 0)"
  by (simp add: totals_record_def Let_def bump_if_sel [where sel = rt_active_work])

lemma rt_incomplete_descendants_record:
  "rt_incomplete_descendants (totals_record t k) = rt_incomplete_descendants t
     + (if tr_quality k = Incomplete then 1 else 0)"
  by (simp add: totals_record_def Let_def bump_if_sel [where sel = rt_incomplete_descendants])

lemma rt_corrupt_descendants_record:
  "rt_corrupt_descendants (totals_record t k) = rt_corrupt_descendants t
     + (if tr_quality k = RollupQuality.Corrupt then 1 else 0)"
  by (simp add: totals_record_def Let_def bump_if_sel [where sel = rt_corrupt_descendants])

lemmas totals_record_fields =
  rt_total_record rt_accepted_closed_record rt_reconciled_scope_record rt_unresolved_scope_record rt_active_work_record rt_incomplete_descendants_record rt_corrupt_descendants_record

lemma totals_foldl:
  "rt_total (foldl totals_record t ks) = rt_total t + length ks
   \<and> rt_accepted_closed (foldl totals_record t ks) = rt_accepted_closed t
       + tally (\<lambda>k. tr_accepted_closed k \<and> tr_quality k \<noteq> RollupQuality.Corrupt) ks
   \<and> rt_reconciled_scope (foldl totals_record t ks) = rt_reconciled_scope t + tally task_is_reconciled ks
   \<and> rt_unresolved_scope (foldl totals_record t ks) = rt_unresolved_scope t
       + tally (\<lambda>k. \<not> task_is_reconciled k \<and> tr_reconciliation k = Unresolved) ks
   \<and> rt_active_work (foldl totals_record t ks) = rt_active_work t + tally tr_active_execution ks
   \<and> rt_incomplete_descendants (foldl totals_record t ks) = rt_incomplete_descendants t
       + tally (\<lambda>k. tr_quality k = Incomplete) ks
   \<and> rt_corrupt_descendants (foldl totals_record t ks) = rt_corrupt_descendants t
       + tally (\<lambda>k. tr_quality k = RollupQuality.Corrupt) ks"
  by (induction ks arbitrary: t) (simp_all add: totals_record_fields)

lemma tally_split_three:
  assumes "\<And>k. k \<in> set ks \<Longrightarrow> P k \<longleftrightarrow> tr_quality k = RollupQuality.Complete"
  shows "length ks = tally P ks + tally (\<lambda>k. tr_quality k = Incomplete) ks
    + tally (\<lambda>k. tr_quality k = RollupQuality.Corrupt) ks"
  using assms
proof (induction ks)
  case (Cons k ks)
  then have "P k \<longleftrightarrow> tr_quality k = RollupQuality.Complete" by simp
  with Cons show ?case by (cases "tr_quality k") simp_all
qed simp

section \<open>The descendants\<close>

definition unspoilt :: "ProjectId \<Rightarrow> WorkId btree_set \<Rightarrow> TaskRollupInput list \<Rightarrow> bool" where
  "unspoilt p seen xs \<longleftrightarrow> (\<forall>i \<in> set xs. ei_project_id (tri_identity i) = p
       \<and> ei_work_id (tri_identity i) \<notin> bs_elems seen)
     \<and> distinct (map (\<lambda>i. ei_work_id (tri_identity i)) xs)"

lemma descendant_step_unfold:
  "descendant_step p b (seen, ds) i =
     (let w = ei_work_id (tri_identity i); foreign = ei_project_id (tri_identity i) \<noteq> p;
          again = bt_contains seen w;
          ds = ds @ (if foreign then [ForeignProject w] else [])
                  @ (if again then [DuplicateDescendant w] else []);
          i = (if again then i\<lparr>tri_integrity := DescendantIntegrity.Corrupt ''duplicate_descendant''\<rparr>
               else if foreign then i\<lparr>tri_integrity := DescendantIntegrity.Corrupt ''foreign_project''\<rparr>
               else i)
      in (evaluate_task i b, bs_insert w seen, ds))"
  by (simp add: descendant_step_def Let_def)

lemma descendants_loop:
  assumes "map_state (descendant_step p b) (seen, ds) xs = (ys, seen', ds')" and "bt_wf seen"
  shows "map tr_identity ys = map tri_identity xs
    \<and> (\<forall>y \<in> set ys. \<exists>i. y = evaluate_task i b)
    \<and> (if unspoilt p seen xs then ys = map (\<lambda>i. evaluate_task i b) xs \<and> ds' = ds
       else set ds \<subseteq> set ds' \<and> (\<exists>d \<in> set ds'. container_structural d))"
  using assms
proof (induction xs arbitrary: seen ds ys)
  case Nil
  then show ?case by (simp add: unspoilt_def)
next
  case (Cons x xs)
  let ?w = "ei_work_id (tri_identity x)"
  obtain y s1 ds1 where step: "descendant_step p b (seen, ds) x = (y, s1, ds1)"
    by (rule prod_cases3)
  obtain ys' where rest: "map_state (descendant_step p b) (s1, ds1) xs = (ys', seen', ds')"
    and ys: "ys = y # ys'"
    using Cons.prems(1) step by (auto simp: Let_def split: prod.splits)
  have s1: "s1 = bs_insert ?w seen" "bt_wf s1"
    using step Cons.prems(2) by (auto simp: descendant_step_unfold Let_def)
  note IH = Cons.IH [OF rest s1(2)]
  have y: "tr_identity y = tri_identity x" "\<exists>i. y = evaluate_task i b"
    using step by (auto simp: descendant_step_unfold Let_def evaluate_task_eq)
  have sub: "set ds1 \<subseteq> set ds'" using IH by (auto split: if_splits)
  have ids: "map tr_identity ys = map tri_identity (x # xs)" using IH y(1) ys by simp
  have tasks: "\<forall>z \<in> set ys. \<exists>i. z = evaluate_task i b" using IH y(2) unfolding ys by auto
  have "if unspoilt p seen (x # xs) then ys = map (\<lambda>i. evaluate_task i b) (x # xs) \<and> ds' = ds
       else set ds \<subseteq> set ds' \<and> (\<exists>d \<in> set ds'. container_structural d)"
  proof (cases "ei_project_id (tri_identity x) = p \<and> \<not> bt_contains seen ?w")
    case True
    then have yd: "y = evaluate_task x b" "ds1 = ds"
      using step by (auto simp: descendant_step_unfold Let_def)
    have iff: "unspoilt p seen (x # xs) \<longleftrightarrow> unspoilt p s1 xs"
    proof -
      have head: "(\<forall>i \<in> set (x # xs). P i \<and> f i \<notin> S) \<and> distinct (map f (x # xs)) \<longleftrightarrow>
          (\<forall>i \<in> set xs. P i \<and> f i \<notin> insert (f x) S) \<and> distinct (map f xs)"
        if "P x" "f x \<notin> S" for P and f :: "TaskRollupInput \<Rightarrow> WorkId" and S
        using that by (auto simp: image_iff)
      show ?thesis
        unfolding unspoilt_def s1(1) bs_elems_insert [OF Cons.prems(2)]
        by (rule head) (use True in \<open>simp_all add: bt_contains_bs\<close>)
    qed
    have "if unspoilt p s1 xs then ys' = map (\<lambda>i. evaluate_task i b) xs \<and> ds' = ds1
       else set ds1 \<subseteq> set ds' \<and> (\<exists>d \<in> set ds'. container_structural d)"
      using IH by blast
    then show ?thesis unfolding iff ys yd by (cases "unspoilt p s1 xs") simp_all
  next
    case False
    then have "\<not> unspoilt p seen (x # xs)" by (auto simp: unspoilt_def bt_contains_bs)
    moreover have "set ds \<subseteq> set ds1" "\<exists>d \<in> set ds1. container_structural d"
      using step False by (auto simp: descendant_step_unfold Let_def split: if_splits)
    ultimately show ?thesis using sub by auto
  qed
  with ids tasks show ?case by blast
qed

text \<open>What the evaluation of the descendants guarantees when reconciliation is required.\<close>

lemma evaluate_descendants_facts:
  assumes "evaluate_descendants p xs True = (ts, totals, ds, quality)"
  shows "length ts = length xs" and "rt_total totals = length xs"
    and "mset (map tr_identity ts) = mset (map tri_identity xs)"
    and "rt_total totals = rt_reconciled_scope totals + rt_incomplete_descendants totals
       + rt_corrupt_descendants totals"
    and "rt_accepted_closed totals + rt_corrupt_descendants totals \<le> rt_total totals"
    and "quality = RollupQuality.Corrupt \<longleftrightarrow> rt_corrupt_descendants totals \<noteq> 0"
    and "quality = RollupQuality.Complete \<longleftrightarrow> rt_corrupt_descendants totals = 0 \<and> rt_incomplete_descendants totals = 0"
    and "rt_corrupt_descendants totals = 0 \<Longrightarrow> rt_incomplete_descendants totals = 0 \<Longrightarrow> t \<in> set ts \<Longrightarrow> task_is_reconciled t"
    and "rt_active_work totals = 0 \<Longrightarrow> t \<in> set ts \<Longrightarrow> \<not> tr_active_execution t"
    and "rt_corrupt_descendants totals \<noteq> 0 \<Longrightarrow> \<exists>d \<in> set ds. container_structural d"
    and "(\<forall>d \<in> set ds. \<not> container_structural d) \<Longrightarrow>
       (\<forall>i \<in> set xs. ei_project_id (tri_identity i) = p)
       \<and> distinct (map (\<lambda>i. ei_work_id (tri_identity i)) xs)"
    and "rt_accepted_closed totals = tally (\<lambda>k. tr_accepted_closed k \<and> tr_quality k \<noteq> RollupQuality.Corrupt) ts"
    and "rt_reconciled_scope totals = tally (\<lambda>k. tr_quality k = RollupQuality.Complete) ts"
    and "rt_incomplete_descendants totals = tally (\<lambda>k. tr_quality k = Incomplete) ts"
    and "rt_corrupt_descendants totals = tally (\<lambda>k. tr_quality k = RollupQuality.Corrupt) ts"
proof -
  obtain ys seen' ds0 where loop: "map_state (descendant_step p True) ([], []) xs = (ys, seen', ds0)"
    by (rule prod_cases3)
  note L = descendants_loop [OF loop bt_wf_Nil]
  define ts' where "ts' = sort_key (\<lambda>t. ei_work_id (tr_identity t)) ys"
  define totals' where "totals' = foldl totals_record totals_default ts'"
  have "evaluate_descendants p xs True =
    (ts', totals', sort_key diagnostic_key (ds0 @ concat (map tr_diagnostics ts')),
     if rt_corrupt_descendants totals' \<noteq> 0 then RollupQuality.Corrupt
     else if rt_incomplete_descendants totals' \<noteq> 0 then Incomplete else RollupQuality.Complete)"
    by (simp only: evaluate_descendants_def loop Let_def prod.case ts'_def totals'_def)
  then have eq: "ts = sort_key (\<lambda>t. ei_work_id (tr_identity t)) ys"
    "totals = foldl totals_record totals_default ts"
    "ds = sort_key diagnostic_key (ds0 @ concat (map tr_diagnostics ts))"
    "quality = (if rt_corrupt_descendants totals \<noteq> 0 then RollupQuality.Corrupt
            else if rt_incomplete_descendants totals \<noteq> 0 then Incomplete else RollupQuality.Complete)"
    unfolding assms prod.inject ts'_def [symmetric] totals'_def by blast+
  have set_ts: "set ts = set ys" and len: "length ts = length ys" by (simp_all add: eq(1))
  have each: "\<exists>i. y = evaluate_task i True" if "y \<in> set ts" for y using L that set_ts by blast
  have map_eq: "map tr_identity ys = map tri_identity xs" using L by simp
  have ids: "length ys = length xs" using map_eq by (metis length_map)
  show "length ts = length xs" using len ids by simp
  have T: "rt_total totals = length ts"
    "rt_accepted_closed totals = tally (\<lambda>k. tr_accepted_closed k \<and> tr_quality k \<noteq> RollupQuality.Corrupt) ts"
    "rt_reconciled_scope totals = tally task_is_reconciled ts"
    "rt_active_work totals = tally tr_active_execution ts"
    "rt_incomplete_descendants totals = tally (\<lambda>k. tr_quality k = Incomplete) ts"
    "rt_corrupt_descendants totals = tally (\<lambda>k. tr_quality k = RollupQuality.Corrupt) ts"
    using totals_foldl [of totals_default ts] by (simp_all add: eq(2) totals_default_def)
  show "rt_total totals = length xs" using T len ids by simp
  have "mset (map tr_identity ts) = mset (map tr_identity ys)" by (simp add: eq(1))
  then show "mset (map tr_identity ts) = mset (map tri_identity xs)" using map_eq by simp
  have rec: "task_is_reconciled k \<longleftrightarrow> tr_quality k = RollupQuality.Complete" if "k \<in> set ts" for k
    using each [OF that] evaluate_task_required by (auto simp: task_is_reconciled_def)
  show "rt_total totals = rt_reconciled_scope totals + rt_incomplete_descendants totals
       + rt_corrupt_descendants totals"
    unfolding T by (rule tally_split_three [OF rec])
  show "rt_reconciled_scope totals = tally (\<lambda>k. tr_quality k = RollupQuality.Complete) ts"
    unfolding T by (simp add: rec cong: filter_cong)
  show "rt_accepted_closed totals = tally (\<lambda>k. tr_accepted_closed k \<and> tr_quality k \<noteq> RollupQuality.Corrupt) ts"
    "rt_incomplete_descendants totals = tally (\<lambda>k. tr_quality k = Incomplete) ts"
    "rt_corrupt_descendants totals = tally (\<lambda>k. tr_quality k = RollupQuality.Corrupt) ts"
    by (rule T)+
  have "tally (\<lambda>k. tr_accepted_closed k \<and> tr_quality k \<noteq> RollupQuality.Corrupt) ts
      + tally (\<lambda>k. tr_quality k = RollupQuality.Corrupt) ts \<le> length ts"
    by (induction ts) auto
  then show "rt_accepted_closed totals + rt_corrupt_descendants totals \<le> rt_total totals" by (simp add: T)
  show "quality = RollupQuality.Corrupt \<longleftrightarrow> rt_corrupt_descendants totals \<noteq> 0" by (simp add: eq(4))
  show "quality = RollupQuality.Complete \<longleftrightarrow> rt_corrupt_descendants totals = 0 \<and> rt_incomplete_descendants totals = 0"
    by (simp add: eq(4))
  show "task_is_reconciled t" if "rt_corrupt_descendants totals = 0" "rt_incomplete_descendants totals = 0" "t \<in> set ts"
  proof -
    have "tr_quality t \<noteq> RollupQuality.Corrupt" "tr_quality t \<noteq> Incomplete"
      using that by (auto simp: T filter_empty_conv)
    then show ?thesis using rec [OF that(3)] by (cases "tr_quality t") simp_all
  qed
  show "\<not> tr_active_execution t" if "rt_active_work totals = 0" "t \<in> set ts"
    using that by (auto simp: T filter_empty_conv)
  show "\<exists>d \<in> set ds. container_structural d" if corrupt: "rt_corrupt_descendants totals \<noteq> 0"
  proof -
    from corrupt obtain k where k: "k \<in> set ts" "tr_quality k = RollupQuality.Corrupt"
      by (auto simp: T filter_empty_conv)
    then obtain d where "d \<in> set (tr_diagnostics k)" "container_structural d"
      using each [OF k(1)] evaluate_task_explained by blast
    with k(1) show ?thesis by (auto simp: eq(3))
  qed
  show "(\<forall>i \<in> set xs. ei_project_id (tri_identity i) = p)
       \<and> distinct (map (\<lambda>i. ei_work_id (tri_identity i)) xs)" if "\<forall>d \<in> set ds. \<not> container_structural d"
  proof -
    have "unspoilt p [] xs" using L that by (auto simp: eq(3) split: if_splits)
    then show ?thesis by (simp add: unspoilt_def)
  qed
qed

section \<open>Containers\<close>

lemma closeout_keeps:
  "set ds \<subseteq> set (snd (evaluate_integration_closeout spec ts ds))"
  by (auto simp: evaluate_integration_closeout_def closeout_state_def Let_def case_prod_unfold
      split: option.splits list.splits)

lemma closeout_accepted:
  assumes "fst (evaluate_integration_closeout (Some spec) ts ds) = Some r" and "\<not> blocks_closeout r"
    and "ics_required spec"
  shows "\<exists>t \<in> set ts. ei_work_id (tr_identity t) = ics_work_id spec \<and> tr_execution_mode t = Direct
    \<and> tr_accepted_closed t"
proof -
  let ?m = "filter (\<lambda>task. ei_work_id (tr_identity task) = ics_work_id spec) ts"
  have "fst (closeout_state spec ?m ds) = IntegrationCloseoutState.Accepted"
    using assms by (auto simp: evaluate_integration_closeout_def blocks_closeout_def Let_def case_prod_unfold)
  then obtain t where t: "?m = [t]" "tr_execution_mode t = Direct" "tr_accepted_closed t"
    by (auto simp: closeout_state_def split: list.splits if_splits)
  then have "t \<in> set ?m" by simp
  with t(2,3) show ?thesis by auto
qed

lemma closeout_Some: "\<exists>r. fst (evaluate_integration_closeout (Some spec) ts ds) = Some r"
  by (simp add: evaluate_integration_closeout_def Let_def case_prod_unfold)

text \<open>The parts of a container rollup.\<close>

lemma container_parts:
  assumes "r = evaluate_container_rollup i"
  obtains ts totals ds quality pre where
    "evaluate_descendants (sc_project_id (cri_scope i)) (cri_descendants i) True = (ts, totals, ds, quality)"
    "cr_descendants r = ts"
    "cr_gate_review_gaps r = merged_gates (cri_gate_gaps i) ts"
    "cr_blockers r = merged_blockers (cri_blockers i) ts"
    "cr_totals r = add_scope_totals (cri_gate_gaps i) (cri_blockers i) (cri_overdue i) totals"
    "pre = snd (evaluate_integration_closeout (cri_integration_closeout i) ts
       ((case sc_subject (cri_scope i) of RollupSubject.Container _ \<Rightarrow> [] | _ \<Rightarrow> [WrongScopeSubject]) @ ds))"
    "cr_quality r = (if list_ex container_structural pre \<or> quality = RollupQuality.Corrupt
       then RollupQuality.Corrupt else quality)"
    "cr_integration_closeout r = fst (evaluate_integration_closeout (cri_integration_closeout i) ts
       ((case sc_subject (cri_scope i) of RollupSubject.Container _ \<Rightarrow> [] | _ \<Rightarrow> [WrongScopeSubject]) @ ds))"
    "cr_state r = container_state i (list_ex container_structural pre)
       (case_option False blocks_closeout (cr_integration_closeout r))
       (cr_blockers r) (cr_gate_review_gaps r) (cr_totals r)"
    "cr_diagnostics r = sort_key diagnostic_key pre"
    "\<not> cr_claimable_for_actor r"
proof -
  obtain ts totals ds quality where d: "evaluate_descendants (sc_project_id (cri_scope i))
      (cri_descendants i) True = (ts, totals, ds, quality)"
    by (rule prod_cases4)
  show ?thesis
    by (rule that [OF d]) (simp_all add: assms evaluate_container_rollup_def d Let_def case_prod_unfold)
qed

lemma add_scope_totals_fields:
  "rt_unresolved_scope (add_scope_totals g b o' t) = rt_unresolved_scope t"
  "rt_incomplete_descendants (add_scope_totals g b o' t) = rt_incomplete_descendants t"
  "rt_active_work (add_scope_totals g b o' t) = rt_active_work t"
  "rt_corrupt_descendants (add_scope_totals g b o' t) = rt_corrupt_descendants t"
  by (simp_all add: add_scope_totals_def)

section \<open>Properties of the rollups\<close>

text \<open>A clean scope has descendants, all of them complete.\<close>

definition clean_scope :: "TaskRollup list \<Rightarrow> bool" where
  "clean_scope ts \<longleftrightarrow> ts \<noteq> [] \<and> (\<forall>k \<in> set ts. tr_quality k = RollupQuality.Complete)"

text \<open>C31: The totals over a scope that requires reconciliation count every descendant exactly once: as
  reconciled when it is complete, as incomplete or as corrupt; and as accepted when it is accepted and
  closed and not corrupt.  A percentage is reported exactly for a clean scope, which has a descendant and
  only complete ones: the accepted percentage is then the share of the accepted descendants, rounded down,
  never exceeds 100 and is not truncated by its 8-bit type, and the reconciled percentage is always 100.\<close>

theorem rollup_totals_bounds:
  assumes "evaluate_descendants p xs True = (ts, t, ds, q)"
  shows "rt_total t = length xs \<and> mset (map tr_identity ts) = mset (map tri_identity xs)
    \<and> rt_accepted_closed t = tally (\<lambda>k. tr_accepted_closed k \<and> tr_quality k \<noteq> RollupQuality.Corrupt) ts
    \<and> rt_reconciled_scope t = tally (\<lambda>k. tr_quality k = RollupQuality.Complete) ts
    \<and> rt_incomplete_descendants t = tally (\<lambda>k. tr_quality k = Incomplete) ts
    \<and> rt_corrupt_descendants t = tally (\<lambda>k. tr_quality k = RollupQuality.Corrupt) ts
    \<and> rt_total t = rt_reconciled_scope t + rt_incomplete_descendants t + rt_corrupt_descendants t
    \<and> rt_accepted_closed t + rt_corrupt_descendants t \<le> rt_total t
    \<and> (accepted_percentage t \<noteq> None \<longleftrightarrow> clean_scope ts)
    \<and> (\<forall>k. accepted_percentage t = Some k \<longrightarrow>
         unat k = rt_accepted_closed t * 100 div rt_total t \<and> unat k \<le> 100)
    \<and> reconciled_percentage t = (if clean_scope ts then Some 100 else None)"
proof -
  note F = evaluate_descendants_facts [OF assms]
  have le: "rt_accepted_closed t * 100 div rt_total t \<le> 100"
  proof -
    have "rt_accepted_closed t * 100 \<le> rt_total t * 100" using F(5) by simp
    then have "rt_accepted_closed t * 100 div rt_total t \<le> rt_total t * 100 div rt_total t"
      by (rule div_le_mono)
    then show ?thesis by (cases "rt_total t = 0") simp_all
  qed
  then have "unat (of_nat (rt_accepted_closed t * 100 div rt_total t) :: u8)
      = rt_accepted_closed t * 100 div rt_total t"
    by (simp add: unsigned_of_nat take_bit_nat_eq_self)
  with le have exact: "\<forall>k. accepted_percentage t = Some k \<longrightarrow>
      unat k = rt_accepted_closed t * 100 div rt_total t \<and> unat k \<le> 100"
    by (auto simp: accepted_percentage_def simp del: of_nat_mult)
  have clean: "clean_scope ts \<longleftrightarrow>
      rt_total t \<noteq> 0 \<and> rt_incomplete_descendants t = 0 \<and> rt_corrupt_descendants t = 0"
  proof -
    have "rt_total t \<noteq> 0 \<longleftrightarrow> ts \<noteq> []" using F(1,2) by auto
    moreover have "rt_incomplete_descendants t = 0 \<and> rt_corrupt_descendants t = 0 \<longleftrightarrow>
        (\<forall>k \<in> set ts. tr_quality k = RollupQuality.Complete)"
      unfolding F(14,15) by (simp add: filter_empty_conv) (metis RollupQuality.distinct RollupQuality.exhaust)
    ultimately show ?thesis by (simp add: clean_scope_def)
  qed
  have percent: "accepted_percentage t \<noteq> None \<longleftrightarrow> clean_scope ts"
    by (simp add: accepted_percentage_def clean)
  have reconciled: "reconciled_percentage t = (if clean_scope ts then Some 100 else None)"
  proof (cases "clean_scope ts")
    case True
    then have "rt_reconciled_scope t = rt_total t" "rt_total t \<noteq> 0" using F(4) clean by auto
    then have "rt_reconciled_scope t * 100 div rt_total t = 100" by simp
    with True show ?thesis by (simp add: reconciled_percentage_def clean)
  qed (auto simp: reconciled_percentage_def clean)
  show ?thesis
    by (intro conjI F(2-5) F(12-15) exact percent reconciled)
qed

definition sample_entity :: "string \<Rightarrow> EntityIdentity" where
  "sample_entity w = \<lparr>ei_project_id = Ident ''P'', ei_work_id = Ident w, ei_revision = 3\<rparr>"

definition sample_closed :: "string \<Rightarrow> TaskRollupInput" where
  "sample_closed w =
     (task_input_new (sample_entity w) Direct PersistedLifecycle.Closed DerivedStatus.Closed)
       \<lparr>tri_accepted_outcome := Some \<lparr>ao_identity = sample_entity w, ao_proof_revision = 1,
          ao_digest = Ident ''sha256:1''\<rparr>,
        tri_disposition := Some (ScopeDisposition.AcceptedClosed 3 (Ident ''sha256:1''))\<rparr>"

definition sample_container :: ContainerRollupInput where
  "sample_container = (container_input_new (scope_container (Ident ''P'') (Ident ''M'') 1)
     [sample_closed ''B''])\<lparr>cri_summary_present := True,
       cri_integration_closeout := Some \<lparr>ics_work_id = Ident ''B'', ics_required = True\<rparr>\<rparr>"

definition sample_assignment :: "string \<Rightarrow> string \<Rightarrow> CycleAssignmentRollupInput" where
  "sample_assignment a w = \<lparr>cai_assignment = \<lparr>as_id = a, as_cycle_id = Ident ''CY'', as_work_id = Ident w,
       as_project_id = Ident ''P'', as_state = CycleAssignmentState.Completed,
       as_activation_policy = AtCycleStart, as_activation_at = None, as_predecessor_id = None,
       as_successor_id = None\<rparr>,
     cai_task = sample_closed w\<rparr>"

definition sample_cycle_input :: CycleRollupInput where
  "sample_cycle_input = \<lparr>cyi_scope = scope_cycle (Ident ''P'') (Ident ''CY'') 1,
     cyi_cycle = (cycle_new (Ident ''P'') (Ident ''CY'') ''Sprint'')\<lparr>cy_lifecycle := CycleLifecycle.Active\<rparr>,
     cyi_assignments = [sample_assignment ''a1'' ''A''],
     cyi_gate_gaps = [], cyi_overdue = False, cyi_blockers = [], cyi_integration_closeout = None\<rparr>"

text \<open>What the samples evaluate to.\<close>

lemma sample_rollups:
  "accepted_percentage (fst (snd (evaluate_descendants (Ident ''P'') [sample_closed ''A''] True))) = Some 100
   \<and> cr_state (evaluate_container_rollup sample_container) = ReadyToClose
   \<and> cyr_state (evaluate_cycle_rollup sample_cycle_input) = ReadyToComplete"
  by code_simp

theorem rollup_totals_bounds_witness:
  "\<exists>k. accepted_percentage (fst (snd (evaluate_descendants (Ident ''P'') [sample_closed ''A''] True))) = Some k \<and> unat k \<le> 100"
proof -
  let ?e = "evaluate_descendants (Ident ''P'') [sample_closed ''A''] True"
  have e: "?e = (fst ?e, fst (snd ?e), fst (snd (snd ?e)), snd (snd (snd ?e)))" by simp
  have "accepted_percentage (fst (snd ?e)) = Some 100" using sample_rollups by simp
  with rollup_totals_bounds [OF e] show ?thesis by blast
qed

text \<open>C13: A container that reports ready-to-close or closed really is: its scope is a container, nothing
  in it is corrupt or incomplete, every descendant is reconciled, belongs to the project and occurs
  once, no gate gap and no blocker is left, the summary is there, a required integration closeout is
  an accepted direct descendant, and ready-to-close also means that no descendant is executing.  A
  container is never claimable.\<close>

theorem container_ready_sound:
  assumes r: "r = evaluate_container_rollup i"
    and state: "cr_state r \<in> {ReadyToClose, ContainerRollupState.Closed}"
  shows "cr_quality r = RollupQuality.Complete \<and> \<not> cr_claimable_for_actor r
    \<and> (\<exists>w. sc_subject (cri_scope i) = RollupSubject.Container w)
    \<and> (\<forall>t \<in> set (cr_descendants r). task_is_reconciled t
         \<and> (cr_state r = ReadyToClose \<longrightarrow> \<not> tr_active_execution t))
    \<and> (\<forall>d \<in> set (cri_descendants i). ei_project_id (tri_identity d) = sc_project_id (cri_scope i))
    \<and> distinct (map (\<lambda>d. ei_work_id (tri_identity d)) (cri_descendants i))
    \<and> cr_gate_review_gaps r = [] \<and> cr_blockers r = [] \<and> cri_summary_present i
    \<and> (\<forall>spec. cri_integration_closeout i = Some spec \<and> ics_required spec \<longrightarrow>
         (\<exists>t \<in> set (cr_descendants r). ei_work_id (tr_identity t) = ics_work_id spec
            \<and> tr_execution_mode t = Direct \<and> tr_accepted_closed t))"
proof -
  obtain ts totals ds quality pre where
    d: "evaluate_descendants (sc_project_id (cri_scope i)) (cri_descendants i) True = (ts, totals, ds, quality)"
    and ts: "cr_descendants r = ts"
    and tot: "cr_totals r = add_scope_totals (cri_gate_gaps i) (cri_blockers i) (cri_overdue i) totals"
    and pre: "pre = snd (evaluate_integration_closeout (cri_integration_closeout i) ts
       ((case sc_subject (cri_scope i) of RollupSubject.Container _ \<Rightarrow> [] | _ \<Rightarrow> [WrongScopeSubject]) @ ds))"
    and q: "cr_quality r = (if list_ex container_structural pre \<or> quality = RollupQuality.Corrupt
       then RollupQuality.Corrupt else quality)"
    and ic: "cr_integration_closeout r = fst (evaluate_integration_closeout (cri_integration_closeout i) ts
       ((case sc_subject (cri_scope i) of RollupSubject.Container _ \<Rightarrow> [] | _ \<Rightarrow> [WrongScopeSubject]) @ ds))"
    and st: "cr_state r = container_state i (list_ex container_structural pre)
       (case_option False blocks_closeout (cr_integration_closeout r))
       (cr_blockers r) (cr_gate_review_gaps r) (cr_totals r)"
    and claim: "\<not> cr_claimable_for_actor r"
    by (rule container_parts [OF r])
  have S: "\<not> list_ex container_structural pre" "cr_blockers r = []" "cr_gate_review_gaps r = []"
    "cri_summary_present i" "\<not> case_option False blocks_closeout (cr_integration_closeout r)"
    "rt_incomplete_descendants totals = 0" "cr_state r = ReadyToClose \<longrightarrow> rt_active_work totals = 0"
    using state unfolding st container_state_def tot add_scope_totals_fields Let_def
    by (auto split: if_splits)
  have clean: "\<forall>d \<in> set ds. \<not> container_structural d"
    "case sc_subject (cri_scope i) of RollupSubject.Container _ \<Rightarrow> True | _ \<Rightarrow> False"
    using S(1) closeout_keeps [of "(case sc_subject (cri_scope i) of
        RollupSubject.Container _ \<Rightarrow> [] | _ \<Rightarrow> [WrongScopeSubject]) @ ds" "cri_integration_closeout i" ts]
    unfolding pre by (auto simp: list_ex_iff split: RollupSubject.splits)
  note F = evaluate_descendants_facts [OF d]
  have c0: "rt_corrupt_descendants totals = 0" using F(10) clean(1) by blast
  have "cr_quality r = RollupQuality.Complete" using q S(1,6) F(7) c0 by simp
  moreover have "\<exists>t \<in> set ts. ei_work_id (tr_identity t) = ics_work_id spec
      \<and> tr_execution_mode t = Direct \<and> tr_accepted_closed t"
    if spec: "cri_integration_closeout i = Some spec" "ics_required spec" for spec
  proof -
    obtain x where x: "cr_integration_closeout r = Some x" using closeout_Some unfolding ic spec(1) by blast
    show ?thesis
      by (rule closeout_accepted [OF _ _ spec(2)]) (use S(5) x ic spec(1) in auto)
  qed
  moreover have "\<exists>w. sc_subject (cri_scope i) = RollupSubject.Container w"
    using clean(2) by (cases "sc_subject (cri_scope i)") simp_all
  ultimately show ?thesis
    using F(8) [OF c0 S(6)] F(9) F(11) [OF clean(1)] S claim by (simp add: ts)
qed

theorem container_ready_sound_witness:
  "cr_state (evaluate_container_rollup sample_container) = ReadyToClose
   \<and> cr_quality (evaluate_container_rollup sample_container) = RollupQuality.Complete"
proof -
  have s: "cr_state (evaluate_container_rollup sample_container) = ReadyToClose" using sample_rollups by simp
  then have "cr_state (evaluate_container_rollup sample_container)
      \<in> {ReadyToClose, ContainerRollupState.Closed}" by simp
  from container_ready_sound [OF refl this] s show ?thesis by blast
qed

section \<open>Cycles\<close>

lemma live_counts:
  "ac_live (foldl (\<lambda>c e. assignment_counts_record (as_state (cai_assignment e)) c) c es) =
     ac_live c + tally (\<lambda>e. assignment_is_live (as_state (cai_assignment e))) es"
proof (induction es arbitrary: c)
  case (Cons e es)
  have "ac_live (assignment_counts_record s c) = ac_live c + (if assignment_is_live s then 1 else 0)" for s
    by (cases s) (simp_all add: assignment_is_live_def)
  with Cons show ?case by simp
qed simp

text \<open>An entry of the loop that leaves no diagnostic is passed on untouched.\<close>

definition entry_fits :: "CycleRollupInput \<Rightarrow> CycleAssignmentRollupInput \<Rightarrow> bool" where
  "entry_fits input e \<longleftrightarrow>
     as_project_id (cai_assignment e) = sc_project_id (cyi_scope input)
     \<and> as_cycle_id (cai_assignment e) = cy_id (cyi_cycle input)
     \<and> as_work_id (cai_assignment e) = ei_work_id (tri_identity (cai_task e))"

definition entry_id :: "CycleAssignmentRollupInput \<Rightarrow> string" where
  "entry_id e = as_id (cai_assignment e)"

definition entry_pair :: "CycleAssignmentRollupInput \<Rightarrow> CycleAssignmentState \<times> TaskRollupInput" where
  "entry_pair e = (as_state (cai_assignment e), cai_task e)"

lemma cycle_entry_step_cases:
  assumes "cycle_entry_step input (seen, ds) e = (y, seen', ds')" and "bt_wf seen"
  shows "seen' = bs_insert (entry_id e) seen"
    and "set ds \<subseteq> set ds'"
    and "(\<forall>d \<in> set ds'. \<not> cycle_structural d) \<Longrightarrow>
       y = entry_pair e \<and> entry_fits input e \<and> entry_id e \<notin> bs_elems seen"
proof -
  note step = assms(1) [unfolded cycle_entry_step_def Let_def damage_def prod.case, folded entry_id_def]
  show "seen' = bs_insert (entry_id e) seen" using step by simp
  show "set ds \<subseteq> set ds'" using step by (auto split: if_splits)
  show "y = entry_pair e \<and> entry_fits input e \<and> entry_id e \<notin> bs_elems seen"
    if "\<forall>d \<in> set ds'. \<not> cycle_structural d"
    using step that by (auto simp: entry_pair_def entry_fits_def bt_contains_bs split: if_splits)
qed

lemma cycle_entries_loop:
  assumes "map_state (cycle_entry_step input) (seen, ds) es = (ys, seen', ds')" and "bt_wf seen"
  shows "set ds \<subseteq> set ds' \<and>
    ((\<forall>d \<in> set ds'. \<not> cycle_structural d) \<longrightarrow>
       ys = map entry_pair es \<and> (\<forall>e \<in> set es. entry_fits input e)
       \<and> distinct (map entry_id es) \<and> set (map entry_id es) \<inter> bs_elems seen = {})"
  using assms
proof (induction es arbitrary: seen ds ys)
  case (Cons e es)
  obtain y s1 ds1 where step: "cycle_entry_step input (seen, ds) e = (y, s1, ds1)"
    by (rule prod_cases3)
  obtain ys' where rest: "map_state (cycle_entry_step input) (s1, ds1) es = (ys', seen', ds')"
    and ys: "ys = y # ys'"
    using Cons.prems(1) step by (auto simp: Let_def split: prod.splits)
  note head = cycle_entry_step_cases [OF step Cons.prems(2)]
  have "bt_wf s1" using head(1) Cons.prems(2) by simp
  note IH = Cons.IH [OF rest this]
  have sub: "set ds1 \<subseteq> set ds'" using IH by blast
  show ?case
  proof (intro conjI impI)
    show "set ds \<subseteq> set ds'" using head(2) sub by blast
  next
    assume clean: "\<forall>d \<in> set ds'. \<not> cycle_structural d"
    then have y: "y = entry_pair e" "entry_fits input e" "entry_id e \<notin> bs_elems seen"
      using head(3) sub by blast+
    have tail: "ys' = map entry_pair es" "\<forall>e \<in> set es. entry_fits input e"
      "distinct (map entry_id es)" "set (map entry_id es) \<inter> insert (entry_id e) (bs_elems seen) = {}"
      using IH clean unfolding head(1) bs_elems_insert [OF Cons.prems(2)] by blast+
    show "ys = map entry_pair (e # es)" using ys y(1) tail(1) by simp
    show "\<forall>e \<in> set (e # es). entry_fits input e" using y(2) tail(2) by simp
    show "distinct (map entry_id (e # es))" "set (map entry_id (e # es)) \<inter> bs_elems seen = {}"
      using y(3) tail(3,4) by auto
  qed
qed simp

lemma completed_loop:
  "set (fst st) \<subseteq> set (fst (foldl (completed_step ts) st es)) \<and>
   ((\<forall>d \<in> set (fst (foldl (completed_step ts) st es)). \<not> cycle_structural d) \<longrightarrow>
      snd (foldl (completed_step ts) st es) = snd st
      \<and> (\<forall>(s, i) \<in> set es. s = CycleAssignmentState.Completed \<longrightarrow>
           (\<exists>t \<in> set ts. ei_work_id (tr_identity t) = ei_work_id (tri_identity i) \<and> tr_accepted_closed t)))"
proof (induction es arbitrary: st)
  case (Cons e es)
  obtain s i where e: "e = (s, i)" by (cases e)
  let ?st = "completed_step ts st e"
  let ?found = "find (\<lambda>d. ei_work_id (tr_identity d) = ei_work_id (tri_identity i)) ts"
  have bad: "s = CycleAssignmentState.Completed \<and> \<not> case_option False tr_accepted_closed ?found \<Longrightarrow>
      \<exists>d \<in> set (fst ?st). cycle_structural d"
    and good: "\<not> (s = CycleAssignmentState.Completed \<and> \<not> case_option False tr_accepted_closed ?found) \<Longrightarrow> ?st = st"
    and sub: "set (fst st) \<subseteq> set (fst ?st)"
    unfolding e by (auto simp: completed_step_def Let_def corrupt_if_def)
  have found: "\<exists>t \<in> set ts. ei_work_id (tr_identity t) = ei_work_id (tri_identity i) \<and> tr_accepted_closed t"
    if "case_option False tr_accepted_closed ?found"
    using that by (auto simp: find_Some_iff split: option.splits)
  note IH = Cons.IH [of ?st]
  show ?case
  proof (intro conjI impI)
    show "set (fst st) \<subseteq> set (fst (foldl (completed_step ts) st (e # es)))"
      using sub IH by auto
  next
    assume "\<forall>d \<in> set (fst (foldl (completed_step ts) st (e # es))). \<not> cycle_structural d"
    then have clean: "\<forall>d \<in> set (fst (foldl (completed_step ts) ?st es)). \<not> cycle_structural d" by simp
    then have ok: "\<not> (s = CycleAssignmentState.Completed \<and> \<not> case_option False tr_accepted_closed ?found)"
      using bad IH by blast
    note tail = mp [OF conjunct2 [OF IH] clean]
    show "snd (foldl (completed_step ts) st (e # es)) = snd st" using tail good [OF ok] by simp
    show "\<forall>(s, i) \<in> set (e # es). s = CycleAssignmentState.Completed \<longrightarrow>
        (\<exists>t \<in> set ts. ei_work_id (tr_identity t) = ei_work_id (tri_identity i) \<and> tr_accepted_closed t)"
      using tail ok found unfolding e by auto
  qed
qed simp

lemma scope_clean:
  assumes "\<forall>d \<in> set (cycle_scope_diagnostics input). \<not> cycle_structural d"
  shows "cycle_validate (cyi_cycle input) = Inr ()
    \<and> sc_subject (cyi_scope input) = RollupSubject.Cycle (cy_id (cyi_cycle input))
    \<and> sc_project_id (cyi_scope input) = cy_project_id (cyi_cycle input)"
  using assms
  by (cases "sc_subject (cyi_scope input)"; cases "cycle_validate (cyi_cycle input)")
     (simp_all add: cycle_scope_diagnostics_def Let_def ball_Un split: if_splits)

text \<open>C17: A cycle that reports ready-to-complete can be completed: it is active and valid, in its own scope
  and project, its assignments have distinct ids and fit the cycle and their tasks, none of them is
  live, every completed one has an accepted closed descendant, every descendant is reconciled, no
  gap, blocker or unmet integration closeout is left, and \<open>Cycle::complete\<close> called with the reported
  number of live assignments succeeds.\<close>

theorem cycle_ready_can_complete:
  assumes r: "r = evaluate_cycle_rollup input" and state: "cyr_state r = ReadyToComplete"
  shows "(\<exists>c. cycle_complete (cyi_cycle input) at (ac_live (cyr_assignment_counts r)) = Inr c
        \<and> cy_lifecycle c = CycleLifecycle.Completed)
    \<and> cyr_quality r = RollupQuality.Complete \<and> \<not> cyr_claimable_for_actor r
    \<and> cycle_validate (cyi_cycle input) = Inr ()
    \<and> sc_subject (cyi_scope input) = RollupSubject.Cycle (cy_id (cyi_cycle input))
    \<and> sc_project_id (cyi_scope input) = cy_project_id (cyi_cycle input)
    \<and> distinct (map entry_id (cyi_assignments input))
    \<and> (\<forall>e \<in> set (cyi_assignments input). entry_fits input e
         \<and> \<not> assignment_is_live (as_state (cai_assignment e))
         \<and> (as_state (cai_assignment e) = CycleAssignmentState.Completed \<longrightarrow>
              (\<exists>t \<in> set (cyr_descendants r). ei_work_id (tr_identity t) = as_work_id (cai_assignment e)
                 \<and> tr_accepted_closed t)))
    \<and> (\<forall>t \<in> set (cyr_descendants r). task_is_reconciled t)
    \<and> cyr_gate_review_gaps r = [] \<and> cyr_blockers r = []"
proof -
  obtain tis seen ds0 where loop: "map_state (cycle_entry_step input) ([], cycle_scope_diagnostics input)
      (cyi_assignments input) = (tis, seen, ds0)" by (rule prod_cases3)
  obtain ts totals ds q where desc: "evaluate_descendants (sc_project_id (cyi_scope input))
      (map snd tis) True = (ts, totals, ds, q)" by (rule prod_cases4)
  define counts where "counts = foldl (\<lambda>c e. assignment_counts_record (as_state (cai_assignment e)) c)
      assignment_counts_default (cyi_assignments input)"
  define st where "st = foldl (completed_step ts) (ds0 @ ds, q) tis"
  define st' where "st' = corrupt_if (cycle_is_terminal (cy_lifecycle (cyi_cycle input)) \<and> ac_live counts \<noteq> 0)
      RollupDiagnostic.CycleHasLiveAssignments st"
  define pre where "pre = snd (evaluate_integration_closeout (cyi_integration_closeout input) ts (fst st'))"
  define quality where "quality = (if list_ex cycle_structural pre then RollupQuality.Corrupt else snd st')"
  have parts: "cyr_assignment_counts r = counts" "cyr_descendants r = ts" "cyr_quality r = quality"
    "cyr_totals r = add_scope_totals (cyi_gate_gaps input) (cyi_blockers input) (cyi_overdue input) totals"
    "\<not> cyr_claimable_for_actor r"
    "cyr_scope_reconciled r = (quality = RollupQuality.Complete \<and> rt_unresolved_scope (cyr_totals r) = 0
       \<and> rt_incomplete_descendants (cyr_totals r) = 0 \<and> rt_corrupt_descendants (cyr_totals r) = 0)"
    "cyr_state r = cycle_rollup_state (cy_lifecycle (cyi_cycle input)) quality (cyr_blockers r)
       (cyr_scope_reconciled r) (ac_live counts) (cyr_gate_review_gaps r)
       (case_option False blocks_closeout (cyr_integration_closeout r))"
    by (simp_all add: r evaluate_cycle_rollup_def loop desc counts_def st_def st'_def pre_def quality_def
        Let_def case_prod_unfold)
  have S: "cyr_blockers r = []" "cy_lifecycle (cyi_cycle input) = CycleLifecycle.Active"
    "cyr_scope_reconciled r" "ac_live counts = 0" "cyr_gate_review_gaps r = []"
    using state unfolding parts(7) cycle_rollup_state_def
    by (auto split: if_splits CycleLifecycle.splits)
  have Q: "quality = RollupQuality.Complete" "rt_incomplete_descendants totals = 0" "rt_corrupt_descendants totals = 0"
    using S(3) unfolding parts(6) parts(4) add_scope_totals_fields by simp_all
  have st': "st' = st" using S(4) by (simp add: st'_def corrupt_if_def)
  have "\<not> list_ex cycle_structural pre" using Q(1) by (auto simp: quality_def)
  then have c1: "\<forall>d \<in> set (fst st). \<not> cycle_structural d"
    using closeout_keeps [of "fst st" "cyi_integration_closeout input" ts]
    unfolding pre_def st' by (auto simp: list_ex_iff)
  note fin = completed_loop [of "(ds0 @ ds, q)" ts tis, folded st_def, unfolded fst_conv]
  have c2: "\<forall>d \<in> set ds0. \<not> cycle_structural d" using fin c1 by auto
  note entries = cycle_entries_loop [OF loop bt_wf_Nil]
  have E: "tis = map entry_pair (cyi_assignments input)" "\<forall>e \<in> set (cyi_assignments input). entry_fits input e"
    "distinct (map entry_id (cyi_assignments input))"
    using entries c2 by blast+
  have c3: "\<forall>d \<in> set (cycle_scope_diagnostics input). \<not> cycle_structural d" using entries c2 by blast
  have scope: "cycle_validate (cyi_cycle input) = Inr ()"
    "sc_subject (cyi_scope input) = RollupSubject.Cycle (cy_id (cyi_cycle input))"
    "sc_project_id (cyi_scope input) = cy_project_id (cyi_cycle input)"
    using scope_clean [OF c3] by blast+
  have live: "\<not> assignment_is_live (as_state (cai_assignment e))" if "e \<in> set (cyi_assignments input)" for e
    using S(4) that by (auto simp: counts_def live_counts filter_empty_conv)
  have acc: "\<exists>t \<in> set ts. ei_work_id (tr_identity t) = as_work_id (cai_assignment e) \<and> tr_accepted_closed t"
    if e: "e \<in> set (cyi_assignments input)" "as_state (cai_assignment e) = CycleAssignmentState.Completed" for e
  proof -
    have "(CycleAssignmentState.Completed, cai_task e) \<in> set tis"
      using e by (force simp: E(1) entry_pair_def)
    moreover have "as_work_id (cai_assignment e) = ei_work_id (tri_identity (cai_task e))"
      using E(2) e(1) by (auto simp: entry_fits_def)
    ultimately show ?thesis using mp [OF conjunct2 [OF fin] c1] by fastforce
  qed
  have rec: "task_is_reconciled t" if "t \<in> set ts" for t
    using evaluate_descendants_facts(8) [OF desc Q(3,2) that] .
  have "\<exists>c. cycle_complete (cyi_cycle input) at (ac_live counts) = Inr c
      \<and> cy_lifecycle c = CycleLifecycle.Completed"
    using S(2,4) by (simp add: cycle_complete_def)
  then show ?thesis using S(1,5) Q(1) scope E(2,3) live acc rec parts(5) unfolding parts(1,2,3) by blast
qed

theorem cycle_ready_can_complete_witness:
  "cyr_state (evaluate_cycle_rollup sample_cycle_input) = ReadyToComplete
   \<and> (\<exists>c. cycle_complete (cyi_cycle sample_cycle_input) 7
        (ac_live (cyr_assignment_counts (evaluate_cycle_rollup sample_cycle_input))) = Inr c)"
proof -
  have s: "cyr_state (evaluate_cycle_rollup sample_cycle_input) = ReadyToComplete" using sample_rollups by simp
  from cycle_ready_can_complete [OF refl s, of 7] s show ?thesis by blast
qed

end
