(* ===== verification/Business_Time.thy ===== *)
theory Business_Time
  imports Recurrence Work_Model Time_Policy
begin

text \<open>
  Business schedules in the civil time of a project (\<open>BusinessDate\<close> to \<open>evaluate_schedule\<close> in
  \<open>crates/domain/src/work_model_v3.rs\<close>) and the narrow parser of legacy due dates.  Byte positions are
  read behind the source's length checks, so no index is out of range.
\<close>

section \<open>Resolved local times\<close>

record TimeResolution =
  tz_nominal_local :: LocalDateTime
  tz_utc_instant :: TimestampMs
  tz_utc_offset_minutes :: int
  tz_timezone :: string
  tz_tzdb_identity :: string
  tz_gap_policy :: GapPolicy
  tz_fold_policy :: FoldPolicy

definition resolution_validate :: "TimeResolution \<Rightarrow> ModelError + unit" where
  "resolution_validate r = sum_bind (datetime_validate (tz_nominal_local r)) (\<lambda>_.
     if \<not> (- (24 * 60) \<le> tz_utc_offset_minutes r \<and> tz_utc_offset_minutes r \<le> 24 * 60)
     then Inl (InvalidUtcOffset (tz_utc_offset_minutes r))
     else if trim_is_empty (tz_timezone r) \<or> trim_is_empty (tz_tzdb_identity r)
     then Inl MissingTimeZoneIdentity
     else Inr ())"

section \<open>Parsing legacy due values\<close>

definition is_digit :: "char \<Rightarrow> bool" where
  "is_digit c \<longleftrightarrow> CHR ''0'' \<le> c \<and> c \<le> CHR ''9''"

definition is_ascii :: "string \<Rightarrow> bool" where
  "is_ascii s \<longleftrightarrow> list_all (\<lambda>c. (of_char c :: nat) < 128) s"

text \<open>\<open>&bytes[a..b]\<close>.\<close>

definition slice :: "nat \<Rightarrow> nat \<Rightarrow> 'a list \<Rightarrow> 'a list" where
  "slice a b xs = take (b - a) (drop a xs)"

definition checked_mul_u32 :: "u32 \<Rightarrow> u32 \<Rightarrow> u32 option" where
  "checked_mul_u32 a b = (if uint a * uint b < 4294967296 then Some (a * b) else None)"

definition checked_add_u32 :: "u32 \<Rightarrow> u32 \<Rightarrow> u32 option" where
  "checked_add_u32 a b = (if uint a + uint b < 4294967296 then Some (a + b) else None)"

definition checked_mul_u64 :: "u64 \<Rightarrow> u64 \<Rightarrow> u64 option" where
  "checked_mul_u64 a b = (if uint a * uint b < 18446744073709551616 then Some (a * b) else None)"

text \<open>A checked \<open>i64\<close> operation gives \<open>None\<close> when its exact value leaves the width.\<close>

definition checked_i64 :: "int \<Rightarrow> int option" where
  "checked_i64 x = (if - 9223372036854775808 \<le> x \<and> x \<le> 9223372036854775807 then Some x else None)"

definition digit_value :: "char \<Rightarrow> nat" where
  "digit_value c = of_char c - of_char CHR ''0''"

definition ascii_digit_step :: "u32 \<Rightarrow> char \<Rightarrow> ModelError + u32" where
  "ascii_digit_step v byte =
     (case Option.bind (checked_mul_u32 v 10)
             (\<lambda>v. checked_add_u32 v (of_nat (digit_value byte))) of
        Some r \<Rightarrow> Inr r
      | None \<Rightarrow> Inl (ModelError.InvalidSchedule
          ''legacy due numeric field is outside the supported range''))"

definition parse_ascii_digits :: "string \<Rightarrow> ModelError + u32" where
  "parse_ascii_digits bytes =
     (if bytes = [] \<or> \<not> list_all is_digit bytes
      then Inl (ModelError.InvalidSchedule ''legacy due value contains invalid numeric fields'')
      else try_fold ascii_digit_step 0 bytes)"

text \<open>\<open>str::parse::<u64>\<close> on a string of digits: \<open>None\<close> on overflow.\<close>

definition parse_u64_digits :: "string \<Rightarrow> u64 option" where
  "parse_u64_digits digits =
     foldl (\<lambda>acc c. Option.bind acc (\<lambda>v. Option.bind (checked_mul_u64 v 10)
       (\<lambda>v. checked_add_u64 v (of_nat (digit_value c))))) (Some 0) digits"

definition parse_iso_date :: "string \<Rightarrow> ModelError + LocalDate" where
  "parse_iso_date bytes =
     (if \<not> is_ascii bytes \<or> length bytes \<noteq> 10 \<or> bytes ! 4 \<noteq> CHR ''-'' \<or> bytes ! 7 \<noteq> CHR ''-''
      then Inl (ModelError.InvalidSchedule
        ''legacy due date must be YYYY-MM-DD or an explicitly zoned timestamp'')
      else
        sum_bind (parse_ascii_digits (slice 0 4 bytes)) (\<lambda>year.
        sum_bind (parse_ascii_digits (slice 5 7 bytes)) (\<lambda>month.
        sum_bind (parse_ascii_digits (slice 8 10 bytes)) (\<lambda>day.
          let date = local_date_new (as_i32 (uint year)) (ucast month) (ucast day) in
          sum_bind (date_validate date) (\<lambda>_. Inr date)))))"

definition invalid_due :: ModelError where
  "invalid_due = ModelError.InvalidSchedule
     ''legacy due timestamp must include Z or an explicit numeric UTC offset''"

text \<open>The last \<open>+\<close> or \<open>-\<close> at position 19 or later.\<close>

definition last_sign :: "string \<Rightarrow> nat option" where
  "last_sign bytes =
     find (\<lambda>i. bytes ! i = CHR ''+'' \<or> bytes ! i = CHR ''-'') (rev [19..<length bytes])"

definition zone_start_of :: "string \<Rightarrow> ModelError + nat" where
  "zone_start_of bytes =
     (if last bytes = CHR ''Z'' \<or> last bytes = CHR ''z'' then Inr (length bytes - 1)
      else if is_digit (last bytes)
      then case last_sign bytes of Some i \<Rightarrow> Inr i | None \<Rightarrow> Inl invalid_due
      else Inl invalid_due)"

definition due_millis :: "string \<Rightarrow> nat \<Rightarrow> ModelError + int" where
  "due_millis bytes zone_start =
     (if zone_start = 19 then Inr 0
      else if bytes ! 19 \<noteq> CHR ''.'' \<or> zone_start \<le> 20 then Inl invalid_due
      else let fraction = slice 20 zone_start bytes in
        if fraction = [] \<or> \<not> list_all is_digit fraction then Inl invalid_due
        else let retained = min (length fraction) 3 in
          sum_bind (parse_ascii_digits (take retained fraction)) (\<lambda>v.
            let fraction_millis = uint (ucast v :: 16 word) in
            Inr (if retained = 1 then fraction_millis * 100
                 else if retained = 2 then fraction_millis * 10 else fraction_millis)))"

definition due_offset :: "string \<Rightarrow> nat \<Rightarrow> ModelError + int" where
  "due_offset bytes zone_start =
     (if zone_start = length bytes - 1
      then (if bytes ! zone_start \<noteq> CHR ''Z'' \<and> bytes ! zone_start \<noteq> CHR ''z'' then Inl invalid_due
            else Inr 0)
      else if bytes ! zone_start \<noteq> CHR ''+'' \<and> bytes ! zone_start \<noteq> CHR ''-'' then Inl invalid_due
      else if zone_start + 6 \<noteq> length bytes \<or> bytes ! (zone_start + 3) \<noteq> CHR '':'' then Inl invalid_due
      else
        sum_bind (parse_ascii_digits (slice (zone_start + 1) (zone_start + 3) bytes)) (\<lambda>hours.
        sum_bind (parse_ascii_digits (slice (zone_start + 4) (zone_start + 6) bytes)) (\<lambda>minutes.
          if 23 < hours \<or> 59 < minutes then Inl invalid_due
          else Inr ((if bytes ! zone_start = CHR ''+'' then 1 else - 1)
                 * (uint hours * 3600 + uint minutes * 60)))))"

definition due_instant :: "LocalDate \<Rightarrow> LocalTime \<Rightarrow> int \<Rightarrow> int \<Rightarrow> ModelError + TimestampMs" where
  "due_instant date time millis offset_seconds =
     (let add = (\<lambda>x acc. Option.bind acc (\<lambda>v. checked_i64 (v + x)));
          local_seconds = add (uint (lt_second time)) (add (uint (lt_minute time) * 60)
            (add (uint (lt_hour time) * 3600)
              (checked_i64 (days_from_civil (ld_year date) (ld_month date) (ld_day date) * 86400))));
          utc_seconds = Option.bind local_seconds (\<lambda>v. checked_i64 (v - offset_seconds));
          utc_millis = add millis (Option.bind utc_seconds (\<lambda>v. checked_i64 (v * 1000)))
      in case utc_millis of
          None \<Rightarrow> Inl invalid_due
        | Some v \<Rightarrow> if v < 0 then Inl invalid_due else Inr (word_of_int v))"

definition parse_explicit_timestamp :: "string \<Rightarrow> ModelError + TimestampMs" where
  "parse_explicit_timestamp bytes =
     (if \<not> is_ascii bytes \<or> length bytes < 20 \<or> bytes ! 4 \<noteq> CHR ''-'' \<or> bytes ! 7 \<noteq> CHR ''-''
         \<or> (bytes ! 10 \<noteq> CHR ''T'' \<and> bytes ! 10 \<noteq> CHR ''t'') \<or> bytes ! 13 \<noteq> CHR '':'' \<or> bytes ! 16 \<noteq> CHR '':''
      then Inl invalid_due
      else
        sum_bind (parse_iso_date (take 10 bytes)) (\<lambda>date.
        sum_bind (parse_ascii_digits (slice 11 13 bytes)) (\<lambda>hour.
        sum_bind (parse_ascii_digits (slice 14 16 bytes)) (\<lambda>minute.
        sum_bind (parse_ascii_digits (slice 17 19 bytes)) (\<lambda>second.
          let time = \<lparr>lt_hour = ucast hour, lt_minute = ucast minute, lt_second = ucast second\<rparr> in
        sum_bind (time_validate time) (\<lambda>_.
        sum_bind (zone_start_of bytes) (\<lambda>zone_start.
        sum_bind (due_millis bytes zone_start) (\<lambda>millis.
        sum_bind (due_offset bytes zone_start) (\<lambda>offset_seconds.
          due_instant date time millis offset_seconds)))))))))"

section \<open>Business dates and schedules\<close>

datatype BusinessDate =
    Instant TimestampMs
  | LocalDate LocalDate
  | ResolvedLocal TimeResolution

primrec business_date_validate :: "BusinessDate \<Rightarrow> ModelError + unit" where
  "business_date_validate (Instant at) = Inr ()"
| "business_date_validate (BusinessDate.LocalDate date) = date_validate date"
| "business_date_validate (ResolvedLocal resolution) = resolution_validate resolution"

definition parse_legacy_due :: "string \<Rightarrow> ModelError + BusinessDate" where
  "parse_legacy_due v =
     (if take 8 v = ''unix-ms:'' then
        let digits = drop 8 v in
        if digits = [] \<or> \<not> list_all is_digit digits
        then Inl (ModelError.InvalidSchedule
          ''legacy due timestamp must be canonical unix milliseconds'')
        else case parse_u64_digits digits of
            None \<Rightarrow> Inl (ModelError.InvalidSchedule
              ''legacy due timestamp is outside the supported range'')
          | Some millis \<Rightarrow> Inr (Instant millis)
      else if length v = 10 then map_sum id BusinessDate.LocalDate (parse_iso_date v)
      else map_sum id Instant (parse_explicit_timestamp v))"

primrec instant_of :: "BusinessDate \<Rightarrow> TimestampMs option" where
  "instant_of (Instant at) = Some at"
| "instant_of (BusinessDate.LocalDate date) = None"
| "instant_of (ResolvedLocal resolution) = Some (tz_utc_instant resolution)"

definition is_local_date :: "BusinessDate \<Rightarrow> bool" where
  "is_local_date d \<longleftrightarrow> (case d of BusinessDate.LocalDate _ \<Rightarrow> True | _ \<Rightarrow> False)"

record BusinessSchedule =
  bs_not_before :: "BusinessDate option"
  bs_due :: "BusinessDate option"
  bs_planned_start :: "BusinessDate option"
  bs_planned_end :: "BusinessDate option"

definition business_schedule_empty :: BusinessSchedule where
  "business_schedule_empty = \<lparr>bs_not_before = None, bs_due = None, bs_planned_start = None,
     bs_planned_end = None\<rparr>"

definition schedule_values :: "BusinessSchedule \<Rightarrow> BusinessDate list" where
  "schedule_values s = option_list (bs_not_before s) @ option_list (bs_due s)
     @ option_list (bs_planned_start s) @ option_list (bs_planned_end s)"

definition schedule_has_local_dates :: "BusinessSchedule \<Rightarrow> bool" where
  "schedule_has_local_dates s \<longleftrightarrow> list_ex is_local_date (schedule_values s)"

definition planned_window_check :: "BusinessDate \<Rightarrow> BusinessDate \<Rightarrow> ModelError + unit" where
  "planned_window_check start end_value =
     (case (start, end_value) of
        (BusinessDate.LocalDate s, BusinessDate.LocalDate e) \<Rightarrow>
          if date_key e \<le> date_key s
          then Inl (ModelError.InvalidSchedule ''planned_end date must be after planned_start date'')
          else Inr ()
      | _ \<Rightarrow>
          if is_local_date start \<or> is_local_date end_value
          then Inl (ModelError.InvalidSchedule
            ''planned window endpoints must use the same date or instant basis'')
          else if instant_of end_value \<le> instant_of start
          then Inl (ModelError.InvalidSchedule
            ''planned_end instant must be after planned_start instant'')
          else Inr ())"

definition business_schedule_validate :: "BusinessSchedule \<Rightarrow> ModelError + unit" where
  "business_schedule_validate s =
     sum_bind (try_fold (\<lambda>_. business_date_validate) () (schedule_values s)) (\<lambda>_.
       case (bs_planned_start s, bs_planned_end s) of
         (Some start, Some end_value) \<Rightarrow> planned_window_check start end_value
       | _ \<Rightarrow> Inr ())"

section \<open>Civil time of a project\<close>

definition bounded_text :: "nat \<Rightarrow> string \<Rightarrow> bool" where
  "bounded_text limit s \<longleftrightarrow>
     \<not> (trim_is_empty s \<or> limit < length s \<or> list_ex is_control (utf8_chars s))"

record BusinessTimeContext =
  bt_project_id :: ProjectId
  bt_setting_revision :: u64
  bt_as_of :: TimestampMs
  bt_civil_date :: LocalDate
  bt_timezone :: string
  bt_tzdb_identity :: string

definition time_context_validate :: "BusinessTimeContext \<Rightarrow> ModelError + unit" where
  "time_context_validate c = sum_bind (date_validate (bt_civil_date c)) (\<lambda>_.
     if trim_is_empty (as_str (bt_project_id c)) \<or> bt_setting_revision c = 0
        \<or> \<not> bounded_text 255 (bt_timezone c) \<or> \<not> bounded_text 512 (bt_tzdb_identity c)
     then Inl MissingTimeZoneIdentity else Inr ())"

record BusinessStatusContext =
  bsc_time :: BusinessTimeContext
  bsc_project_revision :: u64
  bsc_work_schedule_revision :: "u64 option"
  bsc_not_before_at :: "TimestampMs option"
  bsc_schedule_next_change_at :: "TimestampMs option"
  bsc_external_wait_next_change_at :: "TimestampMs option"

record ProjectCivilTimeSetting =
  pct_project_id :: ProjectId
  pct_revision :: u64
  pct_timezone :: string
  pct_tzdb_identity :: string
  pct_changed_by :: string
  pct_changed_at :: TimestampMs

definition civil_setting_validate :: "ProjectCivilTimeSetting \<Rightarrow> ModelError + unit" where
  "civil_setting_validate s =
     (if trim_is_empty (as_str (pct_project_id s)) \<or> pct_revision s = 0
         \<or> \<not> bounded_text 255 (pct_timezone s) \<or> \<not> bounded_text 512 (pct_tzdb_identity s)
         \<or> \<not> bounded_text 255 (pct_changed_by s)
      then Inl MissingTimeZoneIdentity else Inr ())"

definition civil_setting_context ::
  "ProjectCivilTimeSetting \<Rightarrow> TimestampMs \<Rightarrow> LocalDate \<Rightarrow> ModelError + BusinessTimeContext" where
  "civil_setting_context s as_of civil_date = sum_bind (civil_setting_validate s) (\<lambda>_.
     let c = \<lparr>bt_project_id = pct_project_id s, bt_setting_revision = pct_revision s, bt_as_of = as_of,
              bt_civil_date = civil_date, bt_timezone = pct_timezone s,
              bt_tzdb_identity = pct_tzdb_identity s\<rparr>
     in sum_bind (time_context_validate c) (\<lambda>_. Inr c))"

section \<open>Evaluation of a business schedule\<close>

datatype BusinessDateBoundary = Instant TimestampMs | LocalDateStart LocalDate

record BusinessScheduleView =
  bv_available :: bool
  bv_due_today :: bool
  bv_overdue :: bool
  bv_next_changes :: "BusinessDateBoundary list"

text \<open>Whether a planning value has been reached; \<open>strictly\<close> also asks a civil date to be over.\<close>

definition value_reached :: "BusinessTimeContext \<Rightarrow> BusinessDate \<Rightarrow> bool" where
  "value_reached c d = (case d of
       BusinessDate.LocalDate date \<Rightarrow> date_key date \<le> date_key (bt_civil_date c)
     | _ \<Rightarrow> case_option False (\<lambda>at. at \<le> bt_as_of c) (instant_of d))"

definition value_overdue :: "BusinessTimeContext \<Rightarrow> BusinessDate \<Rightarrow> bool" where
  "value_overdue c d = (case d of
       BusinessDate.LocalDate date \<Rightarrow> date_key date < date_key (bt_civil_date c)
     | _ \<Rightarrow> case_option False (\<lambda>at. at \<le> bt_as_of c) (instant_of d))"

text \<open>\<open>if !candidates.contains(&boundary) { candidates.push(boundary) }\<close>.\<close>

definition push_new :: "'a \<Rightarrow> 'a list \<Rightarrow> 'a list" where
  "push_new x xs = (if x \<in> set xs then xs else xs @ [x])"

text \<open>The boundary of a value that is not a civil date; the source's \<open>expect\<close> is the \<open>Panic\<close>.\<close>

definition instant_boundary :: "BusinessDate \<Rightarrow> BusinessDateBoundary run" where
  "instant_boundary d =
     (case instant_of d of Some at \<Rightarrow> Return (BusinessDateBoundary.Instant at) | None \<Rightarrow> Panic)"

definition not_before_boundary :: "BusinessDate \<Rightarrow> BusinessDateBoundary run" where
  "not_before_boundary d = (case d of
       BusinessDate.LocalDate date \<Rightarrow> Return (LocalDateStart date)
     | _ \<Rightarrow> instant_boundary d)"

definition due_boundary ::
  "BusinessTimeContext \<Rightarrow> bool \<Rightarrow> BusinessDate \<Rightarrow> (ModelError + BusinessDateBoundary option) run" where
  "due_boundary c overdue d = (case d of
       BusinessDate.LocalDate date \<Rightarrow> Return
         (if date_key (bt_civil_date c) < date_key date then Inr (Some (LocalDateStart date))
          else if date_key (bt_civil_date c) = date_key date
          then map_sum id (\<lambda>next. Some (LocalDateStart next)) (date_add_days date 1)
          else Inr None)
     | _ \<Rightarrow> if \<not> overdue then run_bind (instant_boundary d) (\<lambda>b. Return (Inr (Some b)))
            else Return (Inr None))"

definition boundary_ahead :: "BusinessTimeContext \<Rightarrow> BusinessDateBoundary \<Rightarrow> bool" where
  "boundary_ahead c b = (case b of
       BusinessDateBoundary.Instant at \<Rightarrow> bt_as_of c < at
     | LocalDateStart date \<Rightarrow> date_key (bt_civil_date c) < date_key date)"

definition evaluate_business_schedule ::
  "BusinessSchedule \<Rightarrow> BusinessTimeContext \<Rightarrow> bool \<Rightarrow> (ModelError + BusinessScheduleView) run" where
  "evaluate_business_schedule s c terminal =
     (case sum_bind (business_schedule_validate s) (\<lambda>_. time_context_validate c) of
        Inl e \<Rightarrow> Return (Inl e)
      | Inr _ \<Rightarrow>
          let available = case_option True (value_reached c) (bs_not_before s);
              due_today = (\<not> terminal \<and> bs_due s = Some (BusinessDate.LocalDate (bt_civil_date c)));
              overdue = (\<not> terminal \<and> case_option False (value_overdue c) (bs_due s))
          in run_bind
               (case bs_not_before s of
                  Some d \<Rightarrow> if \<not> available
                    then run_bind (not_before_boundary d) (\<lambda>b. Return (push_new b [])) else Return []
                | None \<Rightarrow> Return [])
               (\<lambda>candidates. run_bind
                  (case bs_due s of
                     Some d \<Rightarrow> if \<not> terminal then due_boundary c overdue d else Return (Inr None)
                   | None \<Rightarrow> Return (Inr None))
                  (\<lambda>boundary. Return (map_sum id
                     (\<lambda>b. \<lparr>bv_available = available, bv_due_today = due_today, bv_overdue = overdue,
                           bv_next_changes = filter (boundary_ahead c)
                             (case_option candidates (\<lambda>b. push_new b candidates) b)\<rparr>)
                     boundary))))"

record WorkScheduleRecord =
  wsr_project_id :: ProjectId
  wsr_work_id :: WorkId
  wsr_revision :: u64
  wsr_schedule :: BusinessSchedule
  wsr_civil_time_setting_revision :: "u64 option"
  wsr_updated_at :: TimestampMs

definition schedule_record_validate :: "WorkScheduleRecord \<Rightarrow> ModelError + unit" where
  "schedule_record_validate r = sum_bind (business_schedule_validate (wsr_schedule r)) (\<lambda>_.
     if wsr_revision r = 0 \<or> trim_is_empty (as_str (wsr_project_id r))
        \<or> trim_is_empty (as_str (wsr_work_id r))
     then Inl (ModelError.InvalidSchedule ''schedule identity and revision are required'')
     else if schedule_has_local_dates (wsr_schedule r) \<noteq> (wsr_civil_time_setting_revision r \<noteq> None)
        \<or> wsr_civil_time_setting_revision r = Some 0
     then Inl (ModelError.InvalidSchedule
       ''date-only schedule values require their project civil-time setting revision'')
     else Inr ())"

definition schedule_record_evaluate ::
  "WorkScheduleRecord \<Rightarrow> BusinessTimeContext \<Rightarrow> bool \<Rightarrow> (ModelError + BusinessScheduleView) run" where
  "schedule_record_evaluate r c terminal =
     (if wsr_project_id r \<noteq> bt_project_id c
      then Return (Inl (ModelError.InvalidSchedule
        ''schedule and business-time context belong to different projects''))
      else case schedule_record_validate r of
          Inl e \<Rightarrow> Return (Inl e)
        | Inr _ \<Rightarrow>
            if case_option False (\<lambda>revision. bt_setting_revision c < revision)
                 (wsr_civil_time_setting_revision r)
            then Return (Inl (ModelError.InvalidSchedule
              ''schedule references an unavailable future civil-time setting revision''))
            else evaluate_business_schedule (wsr_schedule r) c terminal)"

text \<open>The instant-only schedule of the same module.\<close>

record ScheduleView =
  sv_available :: bool
  sv_overdue :: bool
  sv_next_change_at :: "TimestampMs option"

definition work_schedule_validate :: "WorkSchedule \<Rightarrow> ModelError + unit" where
  "work_schedule_validate s =
     (case (ws_target_start_at s, ws_target_end_at s) of
        (Some start, Some end_at) \<Rightarrow>
          if end_at \<le> start
          then Inl (ModelError.InvalidSchedule ''target_end_at must be after target_start_at'')
          else Inr ()
      | _ \<Rightarrow> Inr ())"

definition evaluate_work_schedule ::
  "WorkSchedule \<Rightarrow> TimestampMs \<Rightarrow> bool \<Rightarrow> ModelError + ScheduleView" where
  "evaluate_work_schedule s as_of terminal = sum_bind (work_schedule_validate s) (\<lambda>_. Inr
     \<lparr>sv_available = case_option True (\<lambda>at. at \<le> as_of) (ws_not_before_at s),
      sv_overdue = (\<not> terminal \<and> case_option False (\<lambda>at. at \<le> as_of) (ws_due_at s)),
      sv_next_change_at = iter_min (filter (\<lambda>at. as_of < at)
        (option_list (ws_not_before_at s) @ option_list (ws_due_at s)))\<rparr>)"

section \<open>The announced boundaries\<close>

text \<open>The boundary at which a start value is reached.\<close>

primrec start_boundary :: "BusinessDate \<Rightarrow> BusinessDateBoundary" where
  "start_boundary (BusinessDate.Instant at) = BusinessDateBoundary.Instant at"
| "start_boundary (BusinessDate.LocalDate date) = LocalDateStart date"
| "start_boundary (ResolvedLocal r) = BusinessDateBoundary.Instant (tz_utc_instant r)"

lemma not_before_boundary_eq: "not_before_boundary d = Return (start_boundary d)"
  by (cases d) (simp_all add: not_before_boundary_def instant_boundary_def)

lemma value_reached_iff: "value_reached c d \<longleftrightarrow> \<not> boundary_ahead c (start_boundary d)"
  by (cases d) (auto simp: value_reached_def boundary_ahead_def)

text \<open>Time moves on from \<open>c\<close> to \<open>c'\<close>.\<close>

definition later_context :: "BusinessTimeContext \<Rightarrow> BusinessTimeContext \<Rightarrow> bool" where
  "later_context c c' \<longleftrightarrow> bt_as_of c \<le> bt_as_of c' \<and> date_key (bt_civil_date c) \<le> date_key (bt_civil_date c')
     \<and> time_context_validate c' = Inr ()"

definition in_calendar :: "LocalDate \<Rightarrow> bool" where
  "in_calendar x \<longleftrightarrow> is_i32 (ld_year x)
     \<and> - 784000000000 \<le> days_from_civil (ld_year x) (ld_month x) (ld_day x)
     \<and> days_from_civil (ld_year x) (ld_month x) (ld_day x) < 784000000000"

definition due_flags :: "BusinessTimeContext \<Rightarrow> BusinessDate \<Rightarrow> bool \<times> bool" where
  "due_flags c d = (d = BusinessDate.LocalDate (bt_civil_date c), value_overdue c d)"

lemma date_key_inj: "date_key x = date_key y \<longleftrightarrow> x = y"
  by (auto simp: date_key_def)

lemma context_date_valid: "time_context_validate c = Inr () \<Longrightarrow> date_valid (bt_civil_date c)"
  by (auto simp: time_context_validate_def date_valid_def sum_bind_Inr_iff)

lemma next_day:
  assumes "date_valid x" "in_calendar x"
  obtains y where "date_add_days x 1 = Inr y"
    "\<And>z. date_valid z \<Longrightarrow> date_key z < date_key y \<longleftrightarrow> date_key z \<le> date_key x"
proof -
  obtain y where y: "date_add_days x 1 = Inr y" "date_valid y" "date_days y = date_days x + 1"
    using date_add_days_eq [OF assms(1), of 1] assms(2) by (auto simp: in_calendar_def date_days_def)
  have "date_key z < date_key y \<longleftrightarrow> date_key z \<le> date_key x" if z: "date_valid z" for z
  proof -
    have "date_key z < date_key y \<longleftrightarrow> date_days z < date_days x + 1"
      using date_order_iff [OF z y(2)] y(3) by simp
    also have "\<dots> \<longleftrightarrow> \<not> date_days x < date_days z" by auto
    also have "\<dots> \<longleftrightarrow> date_key z \<le> date_key x" using date_order_iff [OF assms(1) z] by auto
    finally show ?thesis .
  qed
  with y(1) show thesis by (rule that)
qed

lemma due_boundary_instant:
  assumes "\<not> is_local_date d"
  shows "due_boundary c (value_overdue c d) d
     = Return (Inr (if value_overdue c d then None else Some (start_boundary d)))"
    and "value_overdue c d \<longleftrightarrow> \<not> boundary_ahead c (start_boundary d)"
    and "fst (due_flags c d) = False"
  using assms
  by (cases d; auto simp: due_boundary_def value_overdue_def instant_boundary_def is_local_date_def
      boundary_ahead_def due_flags_def)+

text \<open>
  The due boundary is ahead; it is exactly where the due flags change, and until then it stays the
  announced one.
\<close>

lemma due_boundary_exact:
  assumes "due_boundary c (value_overdue c d) d = Return (Inr b)"
    and "later_context c c'" and "time_context_validate c = Inr ()" and "in_calendar (bt_civil_date c)"
  shows "(\<forall>x. b = Some x \<longrightarrow> boundary_ahead c x)
    \<and> ((\<forall>x. b = Some x \<longrightarrow> boundary_ahead c' x) \<longleftrightarrow> due_flags c' d = due_flags c d)
    \<and> (due_flags c' d = due_flags c d \<longrightarrow> due_boundary c' (value_overdue c' d) d = Return (Inr b))"
proof (cases "is_local_date d")
  case False
  note inst = due_boundary_instant [OF False]
  have b: "b = (if value_overdue c d then None else Some (start_boundary d))"
    using assms(1) unfolding inst(1) by simp
  have flags: "due_flags e d = (False, value_overdue e d)" for e
    using inst(3) [of e] by (simp add: due_flags_def)
  have mono: "value_overdue c d \<Longrightarrow> value_overdue c' d"
    using assms(2) False by (cases d) (auto simp: value_overdue_def later_context_def is_local_date_def)
  show ?thesis unfolding flags inst(1) b using mono inst(2) by (cases "value_overdue c d") auto
next
  case True
  then obtain date where d: "d = BusinessDate.LocalDate date" by (cases d) (simp_all add: is_local_date_def)
  let ?k = "date_key (bt_civil_date c)" and ?k' = "date_key (bt_civil_date c')" and ?d = "date_key date"
  have le: "?k \<le> ?k'" using assms(2) by (simp add: later_context_def)
  have flags: "due_flags e d = (date_key (bt_civil_date e) = ?d, ?d < date_key (bt_civil_date e))" for e
    by (auto simp: due_flags_def d value_overdue_def date_key_inj)
  have bd: "due_boundary e v d = Return
      (if date_key (bt_civil_date e) < ?d then Inr (Some (LocalDateStart date))
       else if date_key (bt_civil_date e) = ?d
       then map_sum id (\<lambda>next. Some (LocalDateStart next)) (date_add_days date 1) else Inr None)" for e v
    by (simp add: due_boundary_def d)
  consider "?k < ?d" | "?k = ?d" | "?d < ?k" by fastforce
  then show ?thesis
  proof cases
    case 1
    then have "b = Some (LocalDateStart date)" using assms(1) by (simp add: bd)
    then show ?thesis unfolding flags bd using 1
      by (cases rule: linorder_cases [of ?k' ?d]) (simp_all add: boundary_ahead_def less_imp_neq less_imp_neq [THEN not_sym] less_not_sym)
  next
    case 2
    then have same: "date = bt_civil_date c" by (simp add: date_key_inj)
    obtain n where n: "date_add_days date 1 = Inr n"
      "\<And>z. date_valid z \<Longrightarrow> date_key z < date_key n \<longleftrightarrow> date_key z \<le> ?d"
      using next_day [OF context_date_valid [OF assms(3)] assms(4)] unfolding same by blast
    have b: "b = Some (LocalDateStart n)" using assms(1) 2 n(1) by (simp add: bd)
    have "?k < date_key n" using n(2) [OF context_date_valid [OF assms(3)]] 2 by simp
    moreover have "?k' < date_key n \<longleftrightarrow> ?k' = ?d"
      using n(2) [of "bt_civil_date c'"] assms(2) context_date_valid le 2 by (auto simp: later_context_def)
    ultimately show ?thesis using 2 n(1) le unfolding flags bd b
      by (cases "?k' = ?d") (simp_all add: boundary_ahead_def less_le)
  next
    case 3
    then have "b = None"
      using assms(1) by (simp add: bd less_imp_neq less_imp_neq [THEN not_sym] less_not_sym)
    moreover have "?d < ?k'" using 3 le by (rule less_le_trans)
    ultimately show ?thesis using 3 unfolding flags bd
      by (simp add: less_imp_neq less_imp_neq [THEN not_sym] less_not_sym)
  qed
qed

text \<open>The two halves of a view.\<close>

definition start_part :: "BusinessSchedule \<Rightarrow> BusinessTimeContext \<Rightarrow> BusinessDateBoundary list" where
  "start_part s c = (case bs_not_before s of None \<Rightarrow> []
     | Some d \<Rightarrow> if value_reached c d then [] else [start_boundary d])"

definition due_part ::
  "BusinessSchedule \<Rightarrow> BusinessTimeContext \<Rightarrow> bool \<Rightarrow> BusinessDateBoundary option \<Rightarrow> bool" where
  "due_part s c terminal b \<longleftrightarrow> (case bs_due s of None \<Rightarrow> b = None
     | Some d \<Rightarrow> if terminal then b = None else due_boundary c (value_overdue c d) d = Return (Inr b))"

definition view_flags :: "BusinessScheduleView \<Rightarrow> bool \<times> bool \<times> bool" where
  "view_flags v = (bv_available v, bv_due_today v, bv_overdue v)"

definition view_of ::
  "BusinessSchedule \<Rightarrow> BusinessTimeContext \<Rightarrow> bool \<Rightarrow> BusinessDateBoundary option \<Rightarrow> BusinessScheduleView" where
  "view_of s c terminal b =
     \<lparr>bv_available = (start_part s c = []),
      bv_due_today = (\<not> terminal \<and> bs_due s = Some (BusinessDate.LocalDate (bt_civil_date c))),
      bv_overdue = (\<not> terminal \<and> case_option False (value_overdue c) (bs_due s)),
      bv_next_changes = filter (boundary_ahead c) (case_option (start_part s c) (\<lambda>b. push_new b (start_part s c)) b)\<rparr>"

lemma start_part_eq:
  "start_part s c = [] \<longleftrightarrow> case_option True (value_reached c) (bs_not_before s)"
  by (simp add: start_part_def split: option.splits)

lemma evaluate_view_iff:
  "evaluate_business_schedule s c terminal = Return (Inr v) \<longleftrightarrow>
     business_schedule_validate s = Inr () \<and> time_context_validate c = Inr ()
     \<and> (\<exists>b. due_part s c terminal b \<and> v = view_of s c terminal b)"
proof -
  let ?valid = "sum_bind (business_schedule_validate s) (\<lambda>_. time_context_validate c)"
  let ?due = "case bs_due s of
      Some d \<Rightarrow> if \<not> terminal
        then due_boundary c (\<not> terminal \<and> case_option False (value_overdue c) (bs_due s)) d
        else Return (Inr None)
    | None \<Rightarrow> Return (Inr None)"
  let ?k = "\<lambda>boundary. map_sum id (view_of s c terminal) boundary"
  have start: "(case bs_not_before s of
      Some d \<Rightarrow> if \<not> case_option True (value_reached c) (bs_not_before s)
        then run_bind (not_before_boundary d) (\<lambda>b. Return (push_new b [])) else Return []
    | None \<Rightarrow> Return []) = Return (start_part s c)"
    by (simp add: start_part_def not_before_boundary_eq push_new_def split: option.splits)
  have eq: "evaluate_business_schedule s c terminal = (case ?valid of
      Inl e \<Rightarrow> Return (Inl e) | Inr _ \<Rightarrow> run_bind ?due (\<lambda>boundary. Return (?k boundary)))"
    by (simp add: evaluate_business_schedule_def Let_def start view_of_def [abs_def] start_part_eq cong: sum.case_cong)
  have due: "due_part s c terminal b \<longleftrightarrow> ?due = Return (Inr b)" for b
    by (simp add: due_part_def split: option.splits) blast
  have valid: "?valid = Inr () \<longleftrightarrow> business_schedule_validate s = Inr () \<and> time_context_validate c = Inr ()"
    by (auto simp: sum_bind_Inr_iff)
  have "map_sum id f x = Inr v \<longleftrightarrow> (\<exists>b. x = Inr b \<and> v = f b)" for x and f :: "BusinessDateBoundary option \<Rightarrow> _"
    by (cases x) auto
  then show ?thesis
    using valid unfolding eq due by (cases ?valid) (auto simp: run_bind_Return_iff)
qed

text \<open>C21: The boundaries a business-schedule view announces are exactly the instants and civil dates at which
  the view changes: they lie ahead, while none of them has been reached a later evaluation gives the
  very same view, and a later view with the same availability, due-today and overdue classification
  means that none has been reached.  So a timer set on them misses no change and none is superfluous.\<close>

theorem schedule_boundaries_exact:
  assumes view: "evaluate_business_schedule s c terminal = Return (Inr v)"
    and later: "later_context c c'" and range: "in_calendar (bt_civil_date c)"
  shows "(\<forall>b \<in> set (bv_next_changes v). boundary_ahead c b)
    \<and> ((\<forall>b \<in> set (bv_next_changes v). boundary_ahead c' b) \<longrightarrow>
         evaluate_business_schedule s c' terminal = Return (Inr v))
    \<and> (\<forall>v'. evaluate_business_schedule s c' terminal = Return (Inr v') \<and> view_flags v' = view_flags v \<longrightarrow>
         (\<forall>b \<in> set (bv_next_changes v). boundary_ahead c' b))"
proof -
  obtain b where s: "business_schedule_validate s = Inr ()" and c: "time_context_validate c = Inr ()"
    and b: "due_part s c terminal b" and v: "v = view_of s c terminal b"
    using view unfolding evaluate_view_iff by blast
  have c': "time_context_validate c' = Inr ()" using later by (simp add: later_context_def)
  let ?ahead = "\<lambda>e. \<forall>x. b = Some x \<longrightarrow> boundary_ahead e x"
  let ?flags = "\<lambda>e. if terminal then None else map_option (due_flags e) (bs_due s)"
  have due: "?ahead c" "?ahead c' \<longleftrightarrow> ?flags c' = ?flags c" "?flags c' = ?flags c \<Longrightarrow> due_part s c' terminal b"
    using b due_boundary_exact [OF _ later c range]
    by (auto simp: due_part_def split: option.splits if_splits)
  have flags: "?flags e = ?flags e' \<longleftrightarrow>
      (bv_due_today (view_of s e terminal x), bv_overdue (view_of s e terminal x))
      = (bv_due_today (view_of s e' terminal y), bv_overdue (view_of s e' terminal y))" for e e' x y
    by (auto simp: view_of_def due_flags_def split: option.splits)
  have start: "\<forall>x \<in> set (start_part s e). boundary_ahead e x" for e
    by (cases "bs_not_before s") (simp_all add: start_part_def value_reached_iff)
  have mono: "start_part s c = [] \<Longrightarrow> start_part s c' = []"
    using later by (auto simp: start_part_def value_reached_iff boundary_ahead_def later_context_def
        split: option.splits if_splits BusinessDateBoundary.splits)
  have same: "start_part s c' = start_part s c \<longleftrightarrow> (\<forall>x \<in> set (start_part s c). boundary_ahead c' x)"
    using mono by (cases "bs_not_before s") (auto simp: start_part_def value_reached_iff split: if_splits)
  have avail: "start_part s c' = start_part s c \<longleftrightarrow> (start_part s c' = [] \<longleftrightarrow> start_part s c = [])"
    by (simp add: start_part_def split: option.splits)
  define L where "L = case_option (start_part s c) (\<lambda>b. push_new b (start_part s c)) b"
  have L_set: "set L = set (start_part s c) \<union> set_option b"
    by (cases b) (simp_all add: L_def push_new_def insert_absorb)
  have all_ahead: "\<forall>x \<in> set L. boundary_ahead c x" unfolding L_set using due(1) start by auto
  have next_set: "set (bv_next_changes v) = set (start_part s c) \<union> set_option b"
    unfolding L_set [symmetric] using all_ahead by (auto simp: v view_of_def L_def)
  have reached: "(\<forall>x \<in> set (bv_next_changes v). boundary_ahead c' x) \<longleftrightarrow>
      start_part s c' = start_part s c \<and> ?flags c' = ?flags c"
    unfolding next_set same due(2) [symmetric] by auto
  show ?thesis
  proof (intro conjI impI allI)
    show "\<forall>x \<in> set (bv_next_changes v). boundary_ahead c x" unfolding next_set using due(1) start by auto
  next
    assume ahead: "\<forall>x \<in> set (bv_next_changes v). boundary_ahead c' x"
    then have same': "start_part s c' = start_part s c" "?flags c' = ?flags c" using reached by blast+
    have "filter (boundary_ahead c') L = filter (boundary_ahead c) L"
      using ahead all_ahead unfolding next_set L_set [symmetric] by (simp cong: filter_cong)
    then have "view_of s c' terminal b = v"
      using same'(2) flags [of c' c b b] unfolding v view_of_def same'(1) L_def by simp
    then show "evaluate_business_schedule s c' terminal = Return (Inr v)"
      unfolding evaluate_view_iff using s c' due(3) [OF same'(2)] by blast
  next
    fix v' assume v': "evaluate_business_schedule s c' terminal = Return (Inr v') \<and> view_flags v' = view_flags v"
    then obtain b' where "v' = view_of s c' terminal b'" unfolding evaluate_view_iff by blast
    with v' show "\<forall>x \<in> set (bv_next_changes v). boundary_ahead c' x"
      unfolding reached avail flags [of c' c b' b] by (simp add: v view_of_def view_flags_def)
  qed
qed

definition sample_setting :: ProjectCivilTimeSetting where
  "sample_setting = \<lparr>pct_project_id = Ident ''P'', pct_revision = 2, pct_timezone = ''Z'',
     pct_tzdb_identity = ''1'', pct_changed_by = ''a'', pct_changed_at = 5\<rparr>"

definition sample_context :: "TimestampMs \<Rightarrow> u8 \<Rightarrow> BusinessTimeContext" where
  "sample_context as_of day =
     \<lparr>bt_project_id = Ident ''P'', bt_setting_revision = 2, bt_as_of = as_of,
      bt_civil_date = local_date_new 2024 5 day, bt_timezone = ''Z'', bt_tzdb_identity = ''1''\<rparr>"

definition sample_schedule :: BusinessSchedule where
  "sample_schedule = business_schedule_empty\<lparr>bs_not_before := Some (BusinessDate.Instant 900),
     bs_due := Some (BusinessDate.LocalDate (local_date_new 2024 5 10))\<rparr>"

lemma sample_context_valid: "time_context_validate (sample_context t 10) = Inr ()"
proof -
  have "date_validate (local_date_new 2024 5 10) = Inr ()" by code_simp
  then show ?thesis
    by (simp add: time_context_validate_def sample_context_def bounded_text_def trim_is_empty_def
        is_whitespace_def is_control_def)
qed

theorem schedule_boundaries_exact_witness:
  "\<exists>v. evaluate_business_schedule sample_schedule (sample_context 100 10) False = Return (Inr v)
     \<and> evaluate_business_schedule sample_schedule (sample_context 500 10) False = Return (Inr v)"
proof -
  let ?c = "sample_context 100 10" and ?c' = "sample_context 500 10"
  let ?b = "LocalDateStart (local_date_new 2024 5 11)"
  let ?v = "view_of sample_schedule ?c False (Some ?b)"
  have s: "business_schedule_validate sample_schedule = Inr ()" by code_simp
  have d: "due_part sample_schedule ?c False (Some ?b)" by code_simp
  have v: "evaluate_business_schedule sample_schedule ?c False = Return (Inr ?v)"
    unfolding evaluate_view_iff using s d sample_context_valid by blast
  have l: "later_context ?c ?c'"
    unfolding later_context_def using sample_context_valid by (simp add: sample_context_def)
  have i: "in_calendar (bt_civil_date ?c)" unfolding in_calendar_def is_i32_def by code_simp
  have "bv_next_changes ?v = [BusinessDateBoundary.Instant 900, ?b]" by code_simp
  then have "\<forall>b \<in> set (bv_next_changes ?v). boundary_ahead ?c' b"
    by (simp add: boundary_ahead_def sample_context_def local_date_new_def date_key_def)
  with schedule_boundaries_exact [OF v l i] v show ?thesis by blast
qed

end
