(* ===== verification/Legacy_Due.thy ===== *)
theory Legacy_Due
  imports Business_Time
begin

text \<open>
  The parser of legacy due values of the theory \<open>Business_Time\<close> against its printed form: a civil date is
  accepted exactly as its ISO rendering, and milliseconds exactly as a digit string that fits.
\<close>

section \<open>Decimal digits\<close>

definition digit_char :: "nat \<Rightarrow> char" where
  "digit_char k = char_of (48 + k)"

text \<open>The value of a digit string, and the digits of a number at a fixed width.\<close>

definition digits_value :: "string \<Rightarrow> nat" where
  "digits_value s = foldl (\<lambda>acc c. acc * 10 + digit_value c) 0 s"

primrec digits_of :: "nat \<Rightarrow> nat \<Rightarrow> string" where
  "digits_of 0 v = []"
| "digits_of (Suc n) v = digits_of n (v div 10) @ [digit_char (v mod 10)]"

lemma of_char_48: "(of_char CHR ''0'' :: nat) = 48" "(of_char CHR ''9'' :: nat) = 57"
  by simp_all

lemma is_digit_iff: "is_digit c \<longleftrightarrow> 48 \<le> (of_char c :: nat) \<and> (of_char c :: nat) \<le> 57"
  by (simp add: is_digit_def less_eq_char_def of_char_48)

lemma digit_char_facts:
  assumes "k < 10"
  shows "is_digit (digit_char k)" "digit_value (digit_char k) = k" "(of_char (digit_char k) :: nat) = 48 + k"
proof -
  show *: "(of_char (digit_char k) :: nat) = 48 + k"
    using assms by (simp add: digit_char_def of_char_of)
  with assms show "is_digit (digit_char k)" "digit_value (digit_char k) = k"
    by (simp_all add: is_digit_iff digit_value_def)
qed

lemma digit_value_less: "is_digit c \<Longrightarrow> digit_value c < 10"
  by (auto simp: is_digit_iff digit_value_def)

lemma digit_char_value: "is_digit c \<Longrightarrow> digit_char (digit_value c) = c"
  by (simp add: is_digit_iff digit_value_def digit_char_def)

lemma digits_value_snoc [simp]: "digits_value [] = 0" "digits_value (s @ [c]) = digits_value s * 10 + digit_value c"
  by (simp_all add: digits_value_def)

lemma digits_of_facts:
  "length (digits_of n v) = n \<and> list_all is_digit (digits_of n v) \<and> digits_value (digits_of n v) = v mod 10 ^ n"
proof (induction n arbitrary: v)
  case (Suc n)
  have "v div 10 mod 10 ^ n * 10 + v mod 10 = v mod 10 ^ Suc n"
    by (simp add: mod_mult2_eq mult.commute)
  with Suc show ?case by (simp add: digit_char_facts)
qed simp

lemma digits_value_facts:
  "list_all is_digit s \<Longrightarrow> digits_value s < 10 ^ length s \<and> digits_of (length s) (digits_value s) = s"
proof (induction s rule: rev_induct)
  case (snoc c s)
  then have c: "digit_value c < 10" "is_digit c" and IH: "digits_value s < 10 ^ length s"
    "digits_of (length s) (digits_value s) = s"
    by (simp_all add: digit_value_less)
  have "digits_value s * 10 + digit_value c < (10 ^ length s) * 10"
    using c(1) IH(1) by linarith
  then show ?case using c IH by (simp add: digit_char_value mult.commute)
qed simp

section \<open>Parsing digits\<close>

lemma checked_u32_ops:
  shows "unat a * unat b < 4294967296 \<Longrightarrow> checked_mul_u32 a b = Some (a * b) \<and> unat (a * b) = unat a * unat b"
    and "unat a + unat b < 4294967296 \<Longrightarrow> checked_add_u32 a b = Some (a + b) \<and> unat (a + b) = unat a + unat b"
proof -
  have small: "int x < 4294967296 \<longleftrightarrow> x < 4294967296" for x by simp
  have eqs: "uint a * uint b = int (unat a * unat b)" "uint a + uint b = int (unat a + unat b)" by simp_all
  show "unat a * unat b < 4294967296 \<Longrightarrow> checked_mul_u32 a b = Some (a * b) \<and> unat (a * b) = unat a * unat b"
    unfolding checked_mul_u32_def eqs small by (simp add: unat_word_ariths)
  show "unat a + unat b < 4294967296 \<Longrightarrow> checked_add_u32 a b = Some (a + b) \<and> unat (a + b) = unat a + unat b"
    unfolding checked_add_u32_def eqs small by (simp add: unat_word_ariths)
qed

lemma ascii_digit_step_eq:
  assumes "unat v * 10 + digit_value c < 4294967296"
  shows "\<exists>w. ascii_digit_step v c = Inr w \<and> unat w = unat v * 10 + digit_value c"
proof -
  have ten: "unat (10 :: u32) = 10" by simp
  have m: "checked_mul_u32 v 10 = Some (v * 10)" "unat (v * 10) = unat v * 10"
    using checked_u32_ops(1) [of v 10] assms unfolding ten by simp_all
  have "digit_value c < 2 ^ 32" using assms by simp
  then have "take_bit 32 (digit_value c) = digit_value c" by (rule take_bit_nat_eq_self)
  then have d: "unat (of_nat (digit_value c) :: u32) = digit_value c" by (simp add: unsigned_of_nat)
  have "checked_add_u32 (v * 10) (of_nat (digit_value c)) = Some (v * 10 + of_nat (digit_value c))"
    "unat (v * 10 + of_nat (digit_value c)) = unat v * 10 + digit_value c"
    using checked_u32_ops(2) [of "v * 10" "of_nat (digit_value c)"] assms unfolding m(2) d by simp_all
  with m show ?thesis by (simp add: ascii_digit_step_def)
qed

lemma parse_ascii_digits_eq:
  assumes "s \<noteq> []" "list_all is_digit s" "length s \<le> 9"
  shows "\<exists>w. parse_ascii_digits s = Inr w \<and> unat w = digits_value s"
proof -
  have "\<exists>w. try_fold ascii_digit_step 0 s = Inr w \<and> unat w = digits_value s"
    using assms(2,3)
  proof (induction s rule: rev_induct)
    case (snoc c s)
    then obtain w where w: "try_fold ascii_digit_step 0 s = Inr w" "unat w = digits_value s" by auto
    have "digits_value (s @ [c]) < 10 ^ 9"
    proof -
      have "digits_value (s @ [c]) < 10 ^ length (s @ [c])" using digits_value_facts snoc.prems(1) by blast
      also have "\<dots> \<le> 10 ^ 9" using snoc.prems(2) by (intro power_increasing) auto
      finally show ?thesis .
    qed
    then have "unat w * 10 + digit_value c < 4294967296" using w(2) by simp
    with ascii_digit_step_eq [of w c] snoc.prems(1) w show ?case by (auto simp: try_fold_append)
  qed simp
  with assms show ?thesis by (simp add: parse_ascii_digits_def)
qed

lemma parse_ascii_digits_Inr: "parse_ascii_digits s = Inr w \<Longrightarrow> s \<noteq> [] \<and> list_all is_digit s"
  by (auto simp: parse_ascii_digits_def split: if_splits)

section \<open>Dates\<close>

definition iso_date :: "LocalDate \<Rightarrow> string" where
  "iso_date d = digits_of 4 (nat (ld_year d)) @ ''-'' @ digits_of 2 (unat (ld_month d)) @ ''-''
     @ digits_of 2 (unat (ld_day d))"

lemma list_of_length_4: "length xs = 4 \<Longrightarrow> \<exists>a b c d. xs = [a, b, c, d]"
  by (simp add: eval_nat_numeral length_Suc_conv) blast

lemma list_of_length_2: "length xs = 2 \<Longrightarrow> \<exists>a b. xs = [a, b]"
  by (simp add: eval_nat_numeral length_Suc_conv) blast

text \<open>A string of the date shape is its three digit groups.\<close>

lemma date_shape:
  assumes "length v = 10"
  shows "v = slice 0 4 v @ [v ! 4] @ slice 5 7 v @ [v ! 7] @ slice 8 10 v"
proof -
  obtain a b c d e f g h i j where "v = [a, b, c, d, e, f, g, h, i, j]"
    using assms by (auto simp: eval_nat_numeral length_Suc_conv)
  then show ?thesis by (simp add: slice_def)
qed

lemma shape_slices:
  assumes "length y = 4" "length m = 2" "length d = 2"
  shows "slice 0 4 (y @ ''-'' @ m @ ''-'' @ d) = y" "slice 5 7 (y @ ''-'' @ m @ ''-'' @ d) = m"
    "slice 8 10 (y @ ''-'' @ m @ ''-'' @ d) = d" "(y @ ''-'' @ m @ ''-'' @ d) ! 4 = CHR ''-''"
    "(y @ ''-'' @ m @ ''-'' @ d) ! 7 = CHR ''-''" "length (y @ ''-'' @ m @ ''-'' @ d) = 10"
  using list_of_length_4 [OF assms(1)] list_of_length_2 [OF assms(2)] list_of_length_2 [OF assms(3)]
  by (auto simp: slice_def)

lemma digits_ascii: "list_all is_digit s \<Longrightarrow> is_ascii s"
  by (auto simp: list_all_iff is_ascii_def is_digit_iff)

text \<open>What \<open>parse_iso_date\<close> builds from the three groups.\<close>

lemma group_date:
  assumes "unat wy = a" "unat wm = b" "unat wd = c" "a < 10000" "b < 100" "c < 100"
  shows "local_date_new (as_i32 (uint (wy :: u32))) (ucast (wm :: u32)) (ucast (wd :: u32))
     = local_date_new (int a) (of_nat b) (of_nat c)"
proof -
  have "uint wy = int a" using assms(1) by auto
  moreover from this have "as_i32 (uint wy) = uint wy" using assms(4) by (intro as_i32_id) (simp add: is_i32_def)
  moreover have "wm = of_nat b" "wd = of_nat c" using assms(2,3) by auto
  moreover have "take_bit 32 b = b" "take_bit 32 c = c" using assms(5,6) by (simp_all add: take_bit_nat_eq_self)
  ultimately show ?thesis by (simp add: unsigned_of_nat)
qed

text \<open>The dates the format can express.\<close>

definition iso_expressible :: "LocalDate \<Rightarrow> bool" where
  "iso_expressible d \<longleftrightarrow> date_validate d = Inr () \<and> 0 \<le> ld_year d \<and> ld_year d \<le> 9999"

lemma groups_parse:
  assumes "list_all is_digit y" "list_all is_digit m" "list_all is_digit d"
    and "length y = 4" "length m = 2" "length d = 2"
  shows "parse_iso_date (y @ ''-'' @ m @ ''-'' @ d) =
    (let date = local_date_new (int (digits_value y)) (of_nat (digits_value m)) (of_nat (digits_value d))
     in sum_bind (date_validate date) (\<lambda>_. Inr date))"
proof -
  have ne: "y \<noteq> []" "m \<noteq> []" "d \<noteq> []" using assms(4-6) by auto
  obtain wy where wy: "parse_ascii_digits y = Inr wy" "unat wy = digits_value y"
    using parse_ascii_digits_eq [OF ne(1) assms(1)] assms(4) by auto
  obtain wm where wm: "parse_ascii_digits m = Inr wm" "unat wm = digits_value m"
    using parse_ascii_digits_eq [OF ne(2) assms(2)] assms(5) by auto
  obtain wd where wd: "parse_ascii_digits d = Inr wd" "unat wd = digits_value d"
    using parse_ascii_digits_eq [OF ne(3) assms(3)] assms(6) by auto
  have small: "digits_value y < 10000" "digits_value m < 100" "digits_value d < 100"
    using digits_value_facts [OF assms(1)] digits_value_facts [OF assms(2)] digits_value_facts [OF assms(3)]
    unfolding assms(4-6) by simp_all
  have "is_ascii (y @ ''-'' @ m @ ''-'' @ d)"
    using assms(1-3) [THEN digits_ascii] by (simp add: is_ascii_def)
  then show ?thesis
    unfolding parse_iso_date_def shape_slices [OF assms(4-6)] wy(1) wm(1) wd(1)
      group_date [OF wy(2) wm(2) wd(2) small, symmetric]
    by simp
qed

lemma iso_date_parses:
  assumes "iso_expressible d"
  shows "parse_iso_date (iso_date d) = Inr d"
proof -
  have v: "date_valid d" using assms by (simp add: iso_expressible_def date_valid_def)
  then have md: "uint (ld_month d) \<le> 12" "uint (ld_day d) \<le> 31"
    unfolding date_valid_iff by (auto split: if_splits)
  have u: "unat (ld_month d) < 100" "unat (ld_day d) < 100"
  proof -
    have w: "int (unat w) = uint w" for w :: u8 by simp
    show "unat (ld_month d) < 100" using md(1) w [of "ld_month d"] by linarith
    show "unat (ld_day d) < 100" using md(2) w [of "ld_day d"] by linarith
  qed
  have y: "nat (ld_year d) < 10000" "int (nat (ld_year d)) = ld_year d"
    using assms by (auto simp: iso_expressible_def)
  note f = digits_of_facts
  have "parse_iso_date (iso_date d) = (let date = local_date_new (ld_year d) (ld_month d) (ld_day d)
      in sum_bind (date_validate date) (\<lambda>_. Inr date))"
    unfolding iso_date_def
    by (subst groups_parse) (use f y u in simp_all)
  then show ?thesis using assms by (simp add: local_date_new_eq iso_expressible_def)
qed

lemma parse_iso_date_Inr:
  assumes "parse_iso_date v = Inr d"
  shows "iso_expressible d \<and> v = iso_date d"
proof -
  have sh: "length v = 10" "v ! 4 = CHR ''-''" "v ! 7 = CHR ''-''"
    using assms by (auto simp: parse_iso_date_def split: if_splits)
  define y m e where "y = slice 0 4 v" and "m = slice 5 7 v" and "e = slice 8 10 v"
  have v: "v = y @ ''-'' @ m @ ''-'' @ e"
    using date_shape [OF sh(1)] sh(2,3) unfolding y_def m_def e_def by simp
  have len: "length y = 4" "length m = 2" "length e = 2"
    using sh(1) by (simp_all add: y_def m_def e_def slice_def)
  have dig: "list_all is_digit y" "list_all is_digit m" "list_all is_digit e"
  proof -
    obtain wy wm wd where "parse_ascii_digits y = Inr wy" "parse_ascii_digits m = Inr wm"
      "parse_ascii_digits e = Inr wd"
      using assms unfolding parse_iso_date_def y_def m_def e_def
      by (auto simp: sum_bind_Inr_iff split: if_splits)
    then show "list_all is_digit y" "list_all is_digit m" "list_all is_digit e"
      using parse_ascii_digits_Inr by blast+
  qed
  have d: "d = local_date_new (int (digits_value y)) (of_nat (digits_value m)) (of_nat (digits_value e))"
    "date_validate d = Inr ()"
    using assms unfolding v groups_parse [OF dig len] by (auto simp: Let_def sum_bind_Inr_iff)
  have small: "digits_value y < 10000" "digits_value m < 100" "digits_value e < 100"
    and again: "digits_of 4 (digits_value y) = y" "digits_of 2 (digits_value m) = m" "digits_of 2 (digits_value e) = e"
    using digits_value_facts [OF dig(1)] digits_value_facts [OF dig(2)] digits_value_facts [OF dig(3)]
    unfolding len by simp_all
  have "take_bit 8 (digits_value m) = digits_value m" "take_bit 8 (digits_value e) = digits_value e"
    using small by (simp_all add: take_bit_nat_eq_self)
  then have "unat (ld_month d) = digits_value m" "unat (ld_day d) = digits_value e"
    by (simp_all add: d(1) local_date_new_def unsigned_of_nat)
  moreover have "ld_year d = int (digits_value y)" by (simp add: d(1) local_date_new_def)
  ultimately show ?thesis using d(2) small(1) by (simp add: iso_expressible_def iso_date_def again v)
qed

section \<open>Milliseconds\<close>

lemma checked_mul_u64_eq:
  "checked_mul_u64 a b = (if unat a * unat b < 18446744073709551616 then Some (a * b) else None)"
proof -
  have small: "int x < 18446744073709551616 \<longleftrightarrow> x < 18446744073709551616" for x by simp
  have "uint a * uint b = int (unat a * unat b)" by simp
  then show ?thesis unfolding checked_mul_u64_def by (simp only: small)
qed

lemma parse_u64_digits_eq:
  "parse_u64_digits s = (if digits_value s < 18446744073709551616 then Some (of_nat (digits_value s)) else None)"
  if "list_all is_digit s"
  using that
proof (induction s rule: rev_induct)
  case Nil
  then show ?case by (simp add: parse_u64_digits_def)
next
  case (snoc c s)
  let ?n = "digits_value s" and ?c = "digit_value c"
  have c: "?c < 10" using snoc.prems by (simp add: digit_value_less)
  have IH: "parse_u64_digits s = (if ?n < 18446744073709551616 then Some (of_nat ?n) else None)"
    using snoc by simp
  have step: "parse_u64_digits (s @ [c]) = Option.bind (parse_u64_digits s)
      (\<lambda>v. Option.bind (checked_mul_u64 v 10) (\<lambda>v. checked_add_u64 v (of_nat ?c)))"
    by (simp add: parse_u64_digits_def)
  show ?case
  proof (cases "?n < 18446744073709551616")
    case False
    then show ?thesis unfolding step IH by simp
  next
    case True
    then have n: "unat (of_nat ?n :: u64) = ?n" by (simp add: unsigned_of_nat take_bit_nat_eq_self)
    have ten: "unat (10 :: u64) = 10" by simp
    have mul: "checked_mul_u64 (of_nat ?n) 10 =
        (if ?n * 10 < 18446744073709551616 then Some (of_nat ?n * 10) else None)"
      unfolding checked_mul_u64_eq n ten ..
    have u: "unat (of_nat ?c :: u64) = ?c" using c by (simp add: unsigned_of_nat take_bit_nat_eq_self)
    show ?thesis
    proof (cases "?n * 10 < 18446744073709551616")
      case False
      then show ?thesis unfolding step IH using True mul by simp
    next
      case small: True
      then have m: "unat (of_nat ?n * 10 :: u64) = ?n * 10" by (simp add: unat_word_ariths n)
      have "checked_add_u64 (of_nat ?n * 10) (of_nat ?c) =
          (if ?n * 10 + ?c < 18446744073709551616 then Some (of_nat (?n * 10 + ?c)) else None)"
      proof (cases "?n * 10 + ?c < 18446744073709551616")
        case True
        then have "unat (of_nat (?n * 10 + ?c) :: u64) = ?n * 10 + ?c"
          by (simp only: unsigned_of_nat) (simp add: take_bit_nat_eq_self)
        with True show ?thesis unfolding if_P [OF True] checked_add_Some_iff m u by simp
      next
        case False
        then show ?thesis by (simp add: checked_add_None_iff m u)
      qed
      then show ?thesis unfolding step IH using True mul small by simp
    qed
  qed
qed

text \<open>C32: The parser of legacy due values accepts as a civil date exactly the ISO rendering of a valid date of the
  years 0 to 9999, so parsing and printing are inverse; and after the prefix \<open>unix-ms:\<close> it accepts
  exactly the nonempty digit strings whose value fits 64 bits, with that value.\<close>

theorem legacy_due_exact:
  "(parse_legacy_due v = Inr (BusinessDate.LocalDate d) \<longleftrightarrow> iso_expressible d \<and> v = iso_date d)
   \<and> parse_legacy_due (''unix-ms:'' @ s) =
      (if s \<noteq> [] \<and> list_all is_digit s
       then if digits_value s < 18446744073709551616 then Inr (BusinessDate.Instant (of_nat (digits_value s)))
         else Inl (ModelError.InvalidSchedule ''legacy due timestamp is outside the supported range'')
       else Inl (ModelError.InvalidSchedule ''legacy due timestamp must be canonical unix milliseconds''))"
proof
  show "parse_legacy_due v = Inr (BusinessDate.LocalDate d) \<longleftrightarrow> iso_expressible d \<and> v = iso_date d"
  proof
    assume "parse_legacy_due v = Inr (BusinessDate.LocalDate d)"
    then have "parse_iso_date v = Inr d"
      by (cases "parse_iso_date v"; cases "parse_explicit_timestamp v")
         (auto simp: parse_legacy_due_def Let_def split: if_splits option.splits)
    then show "iso_expressible d \<and> v = iso_date d" by (rule parse_iso_date_Inr)
  next
    assume d: "iso_expressible d \<and> v = iso_date d"
    then have parse: "parse_iso_date v = Inr d" using iso_date_parses by blast
    then have "length v = 10" by (auto simp: parse_iso_date_def split: if_splits)
    moreover have "take 8 v \<noteq> ''unix-ms:''"
    proof
      assume pre: "take 8 v = ''unix-ms:''"
      have "v ! 0 = take 8 v ! 0" by simp
      also have "\<dots> = CHR ''u''" unfolding pre by simp
      finally have "v ! 0 = CHR ''u''" .
      moreover have "is_digit (v ! 0)"
      proof -
        have y: "length (digits_of 4 (nat (ld_year d))) = 4" "list_all is_digit (digits_of 4 (nat (ld_year d)))"
          using digits_of_facts by blast+
        then have "v ! 0 = digits_of 4 (nat (ld_year d)) ! 0" using d by (simp add: iso_date_def nth_append)
        with y show ?thesis by (simp add: list_all_length)
      qed
      ultimately show False by (simp add: is_digit_iff)
    qed
    ultimately show "parse_legacy_due v = Inr (BusinessDate.LocalDate d)"
      using parse by (simp add: parse_legacy_due_def)
  qed
next
  show "parse_legacy_due (''unix-ms:'' @ s) =
      (if s \<noteq> [] \<and> list_all is_digit s
       then if digits_value s < 18446744073709551616 then Inr (BusinessDate.Instant (of_nat (digits_value s)))
         else Inl (ModelError.InvalidSchedule ''legacy due timestamp is outside the supported range'')
       else Inl (ModelError.InvalidSchedule ''legacy due timestamp must be canonical unix milliseconds''))"
    by (auto simp: parse_legacy_due_def parse_u64_digits_eq Let_def)
qed

end
