(* ===== verification/External_Waits.thy ===== *)
theory External_Waits
  imports Business_Time
begin

text \<open>
  External waits: obligations of a person, role or service outside the project that block named direct
  tasks (\<open>ExternalWait\<close> in \<open>crates/domain/src/work_model_v3.rs\<close>), and the persisted scope rows the
  status boundary reads (\<open>evaluate_external_waits\<close> in \<open>crates/domain/src/decision_inputs.rs\<close>).
\<close>

section \<open>Types\<close>

datatype wait_tag = WaitTag

type_synonym ExternalWaitId = "wait_tag ident"

datatype ExternalWaitAccountable =
    Person string string
  | Role ActorRole
  | Service string string

definition accountable_text :: "string \<Rightarrow> bool" where
  "accountable_text v \<longleftrightarrow> \<not> trim_is_empty v \<and> length v \<le> 512 \<and> \<not> list_ex is_control (utf8_chars v)"

definition accountable_validate :: "ExternalWaitAccountable \<Rightarrow> ModelError + unit" where
  "accountable_validate a =
     (let bad = Inl (InvalidExternalWait
        ''accountable person or service needs a bounded reference and display name'') in
      case a of
        Person reference display_name \<Rightarrow>
          if \<not> accountable_text reference \<or> \<not> accountable_text display_name then bad else Inr ()
      | Service reference display_name \<Rightarrow>
          if \<not> accountable_text reference \<or> \<not> accountable_text display_name then bad else Inr ()
      | Role _ \<Rightarrow> Inr ())"

datatype ExternalWaitCategory = Decision | Approval | Information | Access | Service | Other

datatype ExternalWaitState = Open | Resolved | Cancelled

datatype ExternalWaitOutcome = Approved | Rejected | DecisionProvided | OutputProvided | Declined
  | Unavailable | Cancelled

record ExternalWaitResolution =
  ewr_outcome :: ExternalWaitOutcome
  ewr_detail :: string
  ewr_output_ref :: "string option"
  ewr_supplied_by :: ExternalWaitAccountable
  ewr_recorded_by :: string
  ewr_recorded_as :: ActorRole
  ewr_recorded_at :: TimestampMs

definition wait_resolution_validate :: "ExternalWaitResolution \<Rightarrow> ModelError + unit" where
  "wait_resolution_validate r = sum_bind (accountable_validate (ewr_supplied_by r)) (\<lambda>_.
     if \<not> bounded_text 16384 (ewr_detail r)
     then Inl (InvalidExternalWait ''resolution detail must be bounded, nonempty text'')
     else if \<not> bounded_text 255 (ewr_recorded_by r)
     then Inl (InvalidExternalWait ''resolution recorder identity is invalid'')
     else if case_option False (\<lambda>v. \<not> bounded_text 2048 v) (ewr_output_ref r)
     then Inl (InvalidExternalWait ''resolution output reference is invalid'')
     else Inr ())"

record ExternalWait =
  xw_id :: ExternalWaitId
  xw_project_id :: ProjectId
  xw_source_work_id :: WorkId
  xw_affected_work_ids :: "WorkId list"
  xw_category :: ExternalWaitCategory
  xw_reason :: string
  xw_accountable :: ExternalWaitAccountable
  xw_expected_decision :: "string option"
  xw_expected_output :: "string option"
  xw_follow_up :: "BusinessDate option"
  xw_civil_time_setting_revision :: "u64 option"
  xw_revision :: u64
  xw_state :: ExternalWaitState
  xw_created_by :: string
  xw_created_at :: TimestampMs
  xw_resolution :: "ExternalWaitResolution option"

section \<open>Validation\<close>

text \<open>The checks of the wait's own fields, in the order of the source.\<close>

definition follow_up_bound :: "BusinessDate option \<Rightarrow> u64 option \<Rightarrow> bool" where
  "follow_up_bound follow_up revision \<longleftrightarrow>
     \<not> (case_option False is_local_date follow_up \<noteq> (revision \<noteq> None) \<or> revision = Some 0)"

definition wait_fields_validate :: "ExternalWait \<Rightarrow> ModelError + unit" where
  "wait_fields_validate w =
     (let invalid = (\<lambda>message. Inl (InvalidExternalWait message));
          valid_expectation = case_option False (bounded_text 4096);
          bad_expectation = case_option False (\<lambda>v. \<not> bounded_text 4096 v) in
      if xw_revision w = 0 then invalid ''wait revision must be positive''
      else if \<not> bounded_text 4096 (xw_reason w)
      then invalid ''wait reason must be bounded, nonempty text''
      else sum_bind (accountable_validate (xw_accountable w)) (\<lambda>_.
        sum_bind (case_option (Inr ()) business_date_validate (xw_follow_up w)) (\<lambda>_.
          if \<not> follow_up_bound (xw_follow_up w) (xw_civil_time_setting_revision w)
          then invalid ''date-only follow-up requires its project civil-time setting revision''
          else if \<not> valid_expectation (xw_expected_decision w) \<and> \<not> valid_expectation (xw_expected_output w)
          then invalid ''expected decision or output is required''
          else if bad_expectation (xw_expected_decision w) \<or> bad_expectation (xw_expected_output w)
          then invalid ''expected decision and output must be bounded, nonempty text when supplied''
          else if \<not> bounded_text 255 (xw_created_by w) then invalid ''creator identity is invalid''
          else Inr ())))"

text \<open>One affected task; the first component of the state is the set of tasks already seen.\<close>

definition affected_step ::
  "ExternalWait \<Rightarrow> WorkNode list \<Rightarrow> DirectDependency list \<Rightarrow> WorkId btree_set \<Rightarrow> WorkId \<Rightarrow>
     (ModelError + WorkId btree_set) run" where
  "affected_step w nodes dependencies seen work_id =
     (if bt_contains seen work_id
      then Return (Inl (InvalidExternalWait ''affected work scope contains a duplicate task''))
      else case find (\<lambda>node. wn_id node = work_id) nodes of
          None \<Rightarrow> Return (Inl (ModelError.MissingWork work_id))
        | Some node \<Rightarrow>
            if wn_project_id node \<noteq> xw_project_id w \<or> \<not> is_direct node
            then Return (Inl (InvalidExternalWait
              ''affected work must be direct tasks in the wait's project''))
            else run_bind (is_dependency_of (xw_source_work_id w) work_id dependencies) (\<lambda>depends.
              Return (if \<not> depends
                then Inl (InvalidExternalWait
                  ''affected work must be the source task or one of its dependents'')
                else Inr (bs_insert work_id seen))))"

primrec affected_loop ::
  "ExternalWait \<Rightarrow> WorkNode list \<Rightarrow> DirectDependency list \<Rightarrow> WorkId btree_set \<Rightarrow> WorkId list \<Rightarrow>
     (ModelError + unit) run" where
  "affected_loop w nodes dependencies seen [] = Return (Inr ())"
| "affected_loop w nodes dependencies seen (i # is) =
     run_bind (affected_step w nodes dependencies seen i)
       (\<lambda>r. case r of Inl e \<Rightarrow> Return (Inl e) | Inr seen \<Rightarrow> affected_loop w nodes dependencies seen is)"

definition wait_scope_validate ::
  "ExternalWait \<Rightarrow> WorkNode list \<Rightarrow> DirectDependency list \<Rightarrow> (ModelError + unit) run" where
  "wait_scope_validate w nodes dependencies =
     (case find (\<lambda>node. wn_id node = xw_source_work_id w) nodes of
        None \<Rightarrow> Return (Inl (ModelError.MissingWork (xw_source_work_id w)))
      | Some source \<Rightarrow>
          if wn_project_id source \<noteq> xw_project_id w \<or> \<not> is_direct source
          then Return (Inl (InvalidExternalWait ''wait source must be a direct task in its project''))
          else if xw_affected_work_ids w = []
          then Return (Inl (InvalidExternalWait ''wait must name at least one affected task''))
          else affected_loop w nodes dependencies [] (xw_affected_work_ids w))"

definition wait_state_validate :: "ExternalWait \<Rightarrow> ModelError + unit" where
  "wait_state_validate w =
     (case (xw_state w, xw_resolution w) of
        (ExternalWaitState.Open, None) \<Rightarrow> Inr ()
      | (ExternalWaitState.Open, Some _) \<Rightarrow>
          Inl (InvalidExternalWait ''an open wait cannot contain a resolution'')
      | (state, None) \<Rightarrow> Inl (InvalidExternalWait ''closed waits require an attributed resolution'')
      | (state, Some resolution) \<Rightarrow>
          if (state = ExternalWaitState.Cancelled) = (ewr_outcome resolution = ExternalWaitOutcome.Cancelled)
          then wait_resolution_validate resolution
          else Inl (InvalidExternalWait ''wait state and resolution outcome disagree''))"

definition wait_validate ::
  "ExternalWait \<Rightarrow> WorkNode list \<Rightarrow> DirectDependency list \<Rightarrow> (ModelError + unit) run" where
  "wait_validate w nodes dependencies =
     run_bind (validate_direct_dependencies nodes dependencies) (\<lambda>r. case r of
         Inl e \<Rightarrow> Return (Inl e)
       | Inr _ \<Rightarrow> (case wait_fields_validate w of
             Inl e \<Rightarrow> Return (Inl e)
           | Inr _ \<Rightarrow> run_bind (wait_scope_validate w nodes dependencies) (\<lambda>r. Return (case r of
                 Inl e \<Rightarrow> Inl e
               | Inr _ \<Rightarrow> wait_state_validate w))))"

section \<open>Operations\<close>

definition blocks_work :: "ExternalWait \<Rightarrow> WorkId \<Rightarrow> bool" where
  "blocks_work w work_id \<longleftrightarrow>
     xw_state w = ExternalWaitState.Open \<and> work_id \<in> set (xw_affected_work_ids w)"

definition follow_up_due :: "ExternalWait \<Rightarrow> BusinessTimeContext \<Rightarrow> ModelError + bool" where
  "follow_up_due w c = sum_bind (time_context_validate c) (\<lambda>_.
     if xw_project_id w \<noteq> bt_project_id c
     then Inl (InvalidExternalWait ''wait and business-time context belong to different projects'')
     else if case_option False (\<lambda>revision. bt_setting_revision c < revision)
          (xw_civil_time_setting_revision w)
     then Inl (InvalidExternalWait
       ''wait references an unavailable future civil-time setting revision'')
     else if xw_state w \<noteq> ExternalWaitState.Open then Inr False
     else sum_bind (case_option (Inr ()) business_date_validate (xw_follow_up w)) (\<lambda>_.
       Inr (case_option False (value_reached c) (xw_follow_up w))))"

definition wait_close ::
  "ExternalWait \<Rightarrow> ExternalWaitState \<Rightarrow> ExternalWaitResolution \<Rightarrow> ModelError + ExternalWait" where
  "wait_close w state resolution =
     (if xw_state w \<noteq> ExternalWaitState.Open
      then Inl (InvalidExternalWait ''only an open wait can be resolved or cancelled'')
      else case checked_add_u64 (xw_revision w) 1 of
          None \<Rightarrow> Inl (InvalidExternalWait ''wait revision overflow'')
        | Some revision \<Rightarrow> Inr (w\<lparr>xw_revision := revision, xw_state := state,
            xw_resolution := Some resolution\<rparr>))"

section \<open>Persisted scope rows\<close>

datatype ExternalWaitPersistedState = Open | Resolved | Cancelled | Unknown

record ExternalWaitScopeInput =
  xs_project_id :: ProjectId
  xs_wait_id :: string
  xs_affected_work_id :: WorkId
  xs_state :: ExternalWaitPersistedState
  xs_follow_up :: "BusinessDate option"
  xs_civil_time_setting_revision :: "u64 option"

record ExternalWaitDecision =
  xd_blocking_wait_ids :: "string list"
  xd_follow_up_wait_ids :: "string list"
  xd_next_follow_up_boundaries :: "BusinessDateBoundary list"

definition wait_decision_empty :: ExternalWaitDecision where
  "wait_decision_empty = \<lparr>xd_blocking_wait_ids = [], xd_follow_up_wait_ids = [],
     xd_next_follow_up_boundaries = []\<rparr>"

definition row_blocks :: "ExternalWaitScopeInput \<Rightarrow> bool" where
  "row_blocks x \<longleftrightarrow> xs_state x \<in> {ExternalWaitPersistedState.Open, Unknown}"

text \<open>The follow-up of an open row: the id when it is due, its boundary otherwise.\<close>

definition follow_up_step ::
  "BusinessTimeContext \<Rightarrow> ExternalWaitScopeInput \<Rightarrow> ExternalWaitDecision \<Rightarrow> ModelError + ExternalWaitDecision" where
  "follow_up_step c x decision =
     (case xs_follow_up x of
        None \<Rightarrow> Inr decision
      | Some follow_up \<Rightarrow>
          (case business_date_validate follow_up of
             Inl _ \<Rightarrow> Inl (InvalidExternalWait ''invalid persisted follow-up value'')
           | Inr _ \<Rightarrow> Inr
               (if value_reached c follow_up
                then decision\<lparr>xd_follow_up_wait_ids := xd_follow_up_wait_ids decision @ [xs_wait_id x]\<rparr>
                else decision\<lparr>xd_next_follow_up_boundaries :=
                  xd_next_follow_up_boundaries decision @ [start_boundary follow_up]\<rparr>)))"

definition wait_row_step ::
  "BusinessTimeContext \<Rightarrow> ExternalWaitDecision \<Rightarrow> ExternalWaitScopeInput \<Rightarrow> ModelError + ExternalWaitDecision" where
  "wait_row_step c decision x =
     (if xs_project_id x \<noteq> bt_project_id c
      then Inl (InvalidExternalWait
        ''wait scope and business-time context belong to different projects'')
      else if \<not> follow_up_bound (xs_follow_up x) (xs_civil_time_setting_revision x)
      then Inl (InvalidExternalWait
        ''date-only follow-up is missing its project civil-time setting revision'')
      else if case_option False (\<lambda>revision. bt_setting_revision c < revision)
           (xs_civil_time_setting_revision x)
      then Inl (InvalidExternalWait
        ''wait references an unavailable future civil-time setting revision'')
      else if row_blocks x
      then let decision = decision\<lparr>xd_blocking_wait_ids := xd_blocking_wait_ids decision @ [xs_wait_id x]\<rparr>
        in if xs_state x = ExternalWaitPersistedState.Open then follow_up_step c x decision
           else Inr decision
      else Inr decision)"

definition evaluate_external_waits ::
  "WorkId \<Rightarrow> BusinessTimeContext \<Rightarrow> ExternalWaitScopeInput list \<Rightarrow> ModelError + ExternalWaitDecision" where
  "evaluate_external_waits work_id c waits = sum_bind (time_context_validate c) (\<lambda>_.
     sum_bind (try_fold (wait_row_step c) wait_decision_empty
         (filter (\<lambda>x. xs_affected_work_id x = work_id) waits)) (\<lambda>decision.
       Inr \<lparr>xd_blocking_wait_ids = sort (xd_blocking_wait_ids decision),
            xd_follow_up_wait_ids = sort (xd_follow_up_wait_ids decision),
            xd_next_follow_up_boundaries = remdups_adj (xd_next_follow_up_boundaries decision)\<rparr>))"

section \<open>The scope of a wait\<close>

definition affected_ok :: "ExternalWait \<Rightarrow> WorkNode list \<Rightarrow> DirectDependency list \<Rightarrow> WorkId \<Rightarrow> bool" where
  "affected_ok w nodes dependencies i \<longleftrightarrow>
     (\<exists>node. find (\<lambda>node. wn_id node = i) nodes = Some node \<and> wn_project_id node = xw_project_id w
        \<and> is_direct node)
     \<and> (xw_source_work_id w, i) \<in> (direct_pair ` set dependencies)\<^sup>*"

lemma affected_loop_correct:
  assumes "bt_wf seen"
  shows "\<exists>r. affected_loop w nodes dependencies seen is = Return r
    \<and> (r = Inr () \<longleftrightarrow> distinct is \<and> set is \<inter> bs_elems seen = {}
         \<and> (\<forall>i \<in> set is. affected_ok w nodes dependencies i))"
  using assms
proof (induction "is" arbitrary: seen)
  case (Cons i js)
  let ?ok = "i \<notin> bs_elems seen \<and> affected_ok w nodes dependencies i"
  have step: "\<exists>r. affected_step w nodes dependencies seen i = Return r
      \<and> (if ?ok then r = Inr (bs_insert i seen) else \<exists>e. r = Inl e)"
    by (auto simp: affected_step_def affected_ok_def is_dependency_of_correct bt_contains_bs
        split: option.splits)
  show ?case
  proof (cases ?ok)
    case True
    with step have "affected_step w nodes dependencies seen i = Return (Inr (bs_insert i seen))" by auto
    moreover obtain r where "affected_loop w nodes dependencies (bs_insert i seen) js = Return r"
      "r = Inr () \<longleftrightarrow> distinct js \<and> set js \<inter> insert i (bs_elems seen) = {}
         \<and> (\<forall>i \<in> set js. affected_ok w nodes dependencies i)"
      using Cons.IH [of "bs_insert i seen"] Cons.prems by (auto simp: bs_elems_insert)
    ultimately show ?thesis using True by auto
  next
    case False
    with step obtain e where "affected_step w nodes dependencies seen i = Return (Inl e)" by auto
    with False show ?thesis by auto
  qed
qed simp

lemma find_node: "find (\<lambda>node. wn_id node = i) nodes = Some x \<Longrightarrow> x \<in> set nodes \<and> wn_id x = i"
  by (auto simp: find_Some_iff)

lemma affected_ok_node:
  assumes "affected_ok w nodes dependencies i"
  shows "(xw_source_work_id w, i) \<in> (direct_pair ` set dependencies)\<^sup>*
    \<and> (\<exists>node \<in> set nodes. wn_id node = i \<and> wn_project_id node = xw_project_id w \<and> is_direct node)"
  using assms find_node unfolding affected_ok_def by blast

lemma wait_scope_correct:
  "\<exists>r. wait_scope_validate w nodes dependencies = Return r
    \<and> (r = Inr () \<longleftrightarrow>
         (\<exists>source. find (\<lambda>node. wn_id node = xw_source_work_id w) nodes = Some source
            \<and> wn_project_id source = xw_project_id w \<and> is_direct source)
         \<and> xw_affected_work_ids w \<noteq> [] \<and> distinct (xw_affected_work_ids w)
         \<and> (\<forall>i \<in> set (xw_affected_work_ids w). affected_ok w nodes dependencies i))"
  using affected_loop_correct [of "[]" w nodes dependencies "xw_affected_work_ids w"]
  by (auto simp: wait_scope_validate_def split: option.splits)

text \<open>Validation always returns, and accepts exactly when each of its four parts does.\<close>

lemma wait_validate_parts:
  "\<exists>r. wait_validate w nodes dependencies = Return r
    \<and> (r = Inr () \<longleftrightarrow> validate_direct_dependencies nodes dependencies = Return (Inr ())
         \<and> wait_fields_validate w = Inr () \<and> wait_scope_validate w nodes dependencies = Return (Inr ())
         \<and> wait_state_validate w = Inr ())"
proof -
  obtain d where d: "validate_direct_dependencies nodes dependencies = Return d"
    using validate_direct_correct by blast
  obtain s where s: "wait_scope_validate w nodes dependencies = Return s" using wait_scope_correct by blast
  show ?thesis unfolding wait_validate_def d s
    by (cases d; cases "wait_fields_validate w"; cases s; cases "wait_state_validate w") simp_all
qed

section \<open>The rows at the status boundary\<close>

definition rows_for :: "WorkId \<Rightarrow> ExternalWaitScopeInput list \<Rightarrow> ExternalWaitScopeInput list" where
  "rows_for work_id waits = filter (\<lambda>x. xs_affected_work_id x = work_id) waits"

lemma wait_row_step_ids:
  assumes "wait_row_step c d x = Inr d'"
  shows "xd_blocking_wait_ids d' = xd_blocking_wait_ids d @ (if row_blocks x then [xs_wait_id x] else [])
    \<and> xd_follow_up_wait_ids d' = xd_follow_up_wait_ids d
        @ (if xs_state x = ExternalWaitPersistedState.Open \<and> case_option False (value_reached c) (xs_follow_up x)
           then [xs_wait_id x] else [])"
  using assms
  by (auto simp: wait_row_step_def follow_up_step_def row_blocks_def Let_def
      split: if_splits option.splits sum.splits)

lemma wait_rows_ids:
  assumes "try_fold (wait_row_step c) d xs = Inr d'"
  shows "xd_blocking_wait_ids d' = xd_blocking_wait_ids d @ map xs_wait_id (filter row_blocks xs)
    \<and> xd_follow_up_wait_ids d' = xd_follow_up_wait_ids d
        @ map xs_wait_id (filter (\<lambda>x. xs_state x = ExternalWaitPersistedState.Open
            \<and> case_option False (value_reached c) (xs_follow_up x)) xs)"
  using assms
proof (induction xs arbitrary: d)
  case (Cons x xs)
  then obtain e where "wait_row_step c d x = Inr e" "try_fold (wait_row_step c) e xs = Inr d'"
    by (auto split: sum.splits)
  with Cons.IH [of e] wait_row_step_ids [of c d x e] show ?case by auto
qed simp

lemma wait_row_step_project:
  "wait_row_step c d x = Inr d' \<Longrightarrow> xs_project_id x = bt_project_id c"
  by (auto simp: wait_row_step_def split: if_splits)

section \<open>Properties of external waits\<close>

text \<open>C33: Validating a wait always returns, and a wait it accepts has a direct source task of its project and
  names at least one task, none twice, each a direct task of the same project that is the source or
  depends on it along the given edges.  Closing an open valid wait bumps its revision, and the result
  is valid exactly when the new state is not open, the outcome says cancelled just for the state
  cancelled, and the resolution is itself valid; then the wait blocks nothing and cannot be closed
  again.\<close>

theorem wait_scope_and_close:
  assumes valid: "wait_validate w nodes dependencies = Return (Inr ())"
    and state: "xw_state w = ExternalWaitState.Open" and close: "wait_close w state resolution = Inr w'"
  shows "(\<exists>source \<in> set nodes. wn_id source = xw_source_work_id w
        \<and> wn_project_id source = xw_project_id w \<and> is_direct source)
    \<and> xw_affected_work_ids w \<noteq> [] \<and> distinct (xw_affected_work_ids w)
    \<and> (\<forall>i \<in> set (xw_affected_work_ids w).
         (xw_source_work_id w, i) \<in> (direct_pair ` set dependencies)\<^sup>*
         \<and> (\<exists>node \<in> set nodes. wn_id node = i \<and> wn_project_id node = xw_project_id w \<and> is_direct node))
    \<and> unat (xw_revision w') = unat (xw_revision w) + 1
    \<and> (\<exists>r. wait_validate w' nodes dependencies = Return r
         \<and> (r = Inr () \<longleftrightarrow> state \<noteq> ExternalWaitState.Open
              \<and> (state = ExternalWaitState.Cancelled \<longleftrightarrow> ewr_outcome resolution = ExternalWaitOutcome.Cancelled)
              \<and> wait_resolution_validate resolution = Inr ()))
    \<and> (state \<noteq> ExternalWaitState.Open \<longrightarrow>
         (\<forall>i. \<not> blocks_work w' i) \<and> (\<forall>s r. \<exists>e. wait_close w' s r = Inl e))"
proof -
  obtain n where n: "checked_add_u64 (xw_revision w) 1 = Some n"
    and w': "w' = w\<lparr>xw_revision := n, xw_state := state, xw_resolution := Some resolution\<rparr>"
    using close by (auto simp: wait_close_def split: if_splits option.splits)
  have rev: "unat n = unat (xw_revision w) + 1" using n by (simp add: checked_add_Some_iff)
  then have pos: "n \<noteq> 0" by auto
  have parts: "validate_direct_dependencies nodes dependencies = Return (Inr ())"
    "wait_fields_validate w = Inr ()" "wait_scope_validate w nodes dependencies = Return (Inr ())"
    using valid wait_validate_parts [of w nodes dependencies] by auto
  obtain r where r: "wait_validate w' nodes dependencies = Return r"
    "r = Inr () \<longleftrightarrow> validate_direct_dependencies nodes dependencies = Return (Inr ())
       \<and> wait_fields_validate w' = Inr () \<and> wait_scope_validate w' nodes dependencies = Return (Inr ())
       \<and> wait_state_validate w' = Inr ()"
    using wait_validate_parts [of w' nodes dependencies] by blast
  have fields: "wait_fields_validate w' = Inr ()"
  proof -
    have "xw_revision w \<noteq> 0" using parts(2) by (auto simp: wait_fields_validate_def Let_def)
    then have "wait_fields_validate w' = wait_fields_validate w"
      using pos by (simp add: wait_fields_validate_def Let_def w')
    then show ?thesis using parts(2) by simp
  qed
  have scope: "wait_scope_validate w' nodes dependencies = Return (Inr ())"
  proof -
    have "affected_ok w' nodes dependencies = affected_ok w nodes dependencies"
      by (rule ext) (simp add: affected_ok_def w')
    then show ?thesis
      using parts(3) wait_scope_correct [of w nodes dependencies] wait_scope_correct [of w' nodes dependencies]
      by (auto simp: w')
  qed
  have st: "wait_state_validate w' = Inr () \<longleftrightarrow> state \<noteq> ExternalWaitState.Open
      \<and> (state = ExternalWaitState.Cancelled \<longleftrightarrow> ewr_outcome resolution = ExternalWaitOutcome.Cancelled)
      \<and> wait_resolution_validate resolution = Inr ()"
    by (cases state) (auto simp: wait_state_validate_def w' split: if_splits)
  have "r = Inr () \<longleftrightarrow> state \<noteq> ExternalWaitState.Open
      \<and> (state = ExternalWaitState.Cancelled \<longleftrightarrow> ewr_outcome resolution = ExternalWaitOutcome.Cancelled)
      \<and> wait_resolution_validate resolution = Inr ()"
    unfolding r(2) st using parts(1) fields scope by blast
  moreover have "state \<noteq> ExternalWaitState.Open \<longrightarrow>
      (\<forall>i. \<not> blocks_work w' i) \<and> (\<forall>s r. \<exists>e. wait_close w' s r = Inl e)"
    by (simp add: w' blocks_work_def wait_close_def)
  moreover have source: "\<exists>source \<in> set nodes. wn_id source = xw_source_work_id w
      \<and> wn_project_id source = xw_project_id w \<and> is_direct source"
    and ids: "xw_affected_work_ids w \<noteq> []" "distinct (xw_affected_work_ids w)"
    and ok: "\<forall>i \<in> set (xw_affected_work_ids w). affected_ok w nodes dependencies i"
  proof -
    obtain q where q: "wait_scope_validate w nodes dependencies = Return q"
      "q = Inr () \<longleftrightarrow> (\<exists>source. find (\<lambda>node. wn_id node = xw_source_work_id w) nodes = Some source
            \<and> wn_project_id source = xw_project_id w \<and> is_direct source)
         \<and> xw_affected_work_ids w \<noteq> [] \<and> distinct (xw_affected_work_ids w)
         \<and> (\<forall>i \<in> set (xw_affected_work_ids w). affected_ok w nodes dependencies i)"
      using wait_scope_correct by blast
    have "q = Inr ()" using q(1) parts(3) by simp
    then show "xw_affected_work_ids w \<noteq> []" "distinct (xw_affected_work_ids w)"
      "\<forall>i \<in> set (xw_affected_work_ids w). affected_ok w nodes dependencies i"
      "\<exists>source \<in> set nodes. wn_id source = xw_source_work_id w
        \<and> wn_project_id source = xw_project_id w \<and> is_direct source"
      using q(2) find_node by blast+
  qed
  moreover have "unat (xw_revision w') = unat (xw_revision w) + 1" using rev by (simp add: w')
  moreover note r(1)
  ultimately show ?thesis using affected_ok_node by blast
qed

text \<open>The rows of external waits fail closed: whenever the evaluation answers, the blocking waits are exactly
  the open and the unknown rows of the requested work, all of the project of the clock, so a row in
  an unknown state is never taken as resolved; a due follow-up is only reported for a wait that
  still blocks; and the passage of time alone never unblocks, since the blocking waits do not depend on
  the clock.\<close>

theorem wait_rows_fail_closed:
  assumes d: "evaluate_external_waits work_id c waits = Inr d"
  shows "mset (xd_blocking_wait_ids d) = mset (map xs_wait_id (filter row_blocks (rows_for work_id waits)))
    \<and> set (xd_follow_up_wait_ids d) \<subseteq> set (xd_blocking_wait_ids d)
    \<and> (\<forall>c' d'. evaluate_external_waits work_id c' waits = Inr d' \<longrightarrow>
         xd_blocking_wait_ids d' = xd_blocking_wait_ids d)"
proof -
  have eval: "xd_blocking_wait_ids e = sort (map xs_wait_id (filter row_blocks (rows_for work_id waits)))
      \<and> xd_follow_up_wait_ids e = sort (map xs_wait_id (filter (\<lambda>x. xs_state x = ExternalWaitPersistedState.Open
            \<and> case_option False (value_reached b) (xs_follow_up x)) (rows_for work_id waits)))"
    if ev: "evaluate_external_waits work_id b waits = Inr e" for b e
  proof -
    obtain f where "try_fold (wait_row_step b) wait_decision_empty (rows_for work_id waits) = Inr f"
      "xd_blocking_wait_ids e = sort (xd_blocking_wait_ids f)"
      "xd_follow_up_wait_ids e = sort (xd_follow_up_wait_ids f)"
      using ev by (auto simp: evaluate_external_waits_def rows_for_def sum_bind_Inr_iff)
    with wait_rows_ids show ?thesis by (auto simp: wait_decision_empty_def)
  qed
  have "set (xd_follow_up_wait_ids d) \<subseteq> set (xd_blocking_wait_ids d)"
    using eval [OF d] by (auto simp: row_blocks_def)
  then show ?thesis using eval [OF d] eval by simp
qed

definition sample_dependencies :: "DirectDependency list" where
  "sample_dependencies = [\<lparr>dd_blocker_id = Ident ''A'', dd_blocked_id = Ident ''B''\<rparr>]"

definition sample_wait :: ExternalWait where
  "sample_wait = \<lparr>xw_id = Ident ''W'', xw_project_id = Ident ''P'', xw_source_work_id = Ident ''A'',
     xw_affected_work_ids = [Ident ''A'', Ident ''B''], xw_category = Decision, xw_reason = ''r'',
     xw_accountable = Role Operator, xw_expected_decision = Some ''d'', xw_expected_output = None,
     xw_follow_up = None, xw_civil_time_setting_revision = None, xw_revision = 1,
     xw_state = ExternalWaitState.Open, xw_created_by = ''c'', xw_created_at = 1, xw_resolution = None\<rparr>"

definition sample_wait_resolution :: ExternalWaitResolution where
  "sample_wait_resolution = \<lparr>ewr_outcome = DecisionProvided, ewr_detail = ''d'', ewr_output_ref = None,
     ewr_supplied_by = Role Operator, ewr_recorded_by = ''o'', ewr_recorded_as = Operator,
     ewr_recorded_at = 9\<rparr>"

lemma bounded_char:
  assumes "s \<in> {''r'', ''d'', ''c'', ''o''}" and "0 < n"
  shows "bounded_text n s"
  using assms by (auto simp: bounded_text_def trim_is_empty_def is_whitespace_def is_control_def)

theorem wait_scope_and_close_witness:
  "\<exists>w'. wait_close sample_wait ExternalWaitState.Resolved sample_wait_resolution = Inr w'
     \<and> wait_validate w' sample_nodes sample_dependencies = Return (Inr ()) \<and> \<not> blocks_work w' (Ident ''B'')"
proof -
  have d: "validate_direct_dependencies sample_nodes sample_dependencies = Return (Inr ())" by code_simp
  have s: "wait_scope_validate sample_wait sample_nodes sample_dependencies = Return (Inr ())" by code_simp
  have f: "wait_fields_validate sample_wait = Inr ()"
    by (simp add: wait_fields_validate_def sample_wait_def bounded_char accountable_validate_def
        follow_up_bound_def)
  have t: "wait_state_validate sample_wait = Inr ()" by (simp add: wait_state_validate_def sample_wait_def)
  have v: "wait_validate sample_wait sample_nodes sample_dependencies = Return (Inr ())"
    using d s f t wait_validate_parts [of sample_wait sample_nodes sample_dependencies] by auto
  have o: "xw_state sample_wait = ExternalWaitState.Open" by (simp add: sample_wait_def)
  have r: "wait_resolution_validate sample_wait_resolution = Inr ()"
    by (simp add: wait_resolution_validate_def sample_wait_resolution_def bounded_char accountable_validate_def)
  have n: "checked_add_u64 1 1 = Some 2" by code_simp
  obtain w' where c: "wait_close sample_wait ExternalWaitState.Resolved sample_wait_resolution = Inr w'"
    by (simp add: wait_close_def sample_wait_def n)
  from wait_scope_and_close [OF v o c] r c show ?thesis by (simp add: sample_wait_resolution_def)
qed

definition sample_row :: "string \<Rightarrow> ExternalWaitPersistedState \<Rightarrow> ExternalWaitScopeInput" where
  "sample_row i state = \<lparr>xs_project_id = Ident ''P'', xs_wait_id = i, xs_affected_work_id = Ident ''A'',
     xs_state = state, xs_follow_up = None, xs_civil_time_setting_revision = None\<rparr>"

theorem wait_rows_fail_closed_witness:
  "\<exists>d. evaluate_external_waits (Ident ''A'') (sample_context 7 10) [sample_row ''w1'' Unknown] = Inr d
     \<and> mset (xd_blocking_wait_ids d) = {#''w1''#}"
proof -
  let ?xs = "[sample_row ''w1'' Unknown]"
  have step: "try_fold (wait_row_step (sample_context 7 10)) wait_decision_empty
      (filter (\<lambda>x. xs_affected_work_id x = Ident ''A'') ?xs)
    = Inr (wait_decision_empty\<lparr>xd_blocking_wait_ids := [''w1'']\<rparr>)" by code_simp
  obtain d where d: "evaluate_external_waits (Ident ''A'') (sample_context 7 10) ?xs = Inr d"
    unfolding evaluate_external_waits_def sample_context_valid sum_bind_simps step by blast
  from wait_rows_fail_closed [OF d] d show ?thesis
    by (simp add: rows_for_def sample_row_def row_blocks_def)
qed

end
