(* ===== verification/Decision_Inputs.thy ===== *)
theory Decision_Inputs
  imports Dep_Eval External_Waits
begin

text \<open>
  The canonical facts of one decision and their validation (\<open>crates/domain/src/decision_inputs.rs\<close>).  A
  fact is present or explicitly unavailable; the diagnostics of a set of facts are collected in the
  order the source pushes them.
\<close>

section \<open>Identities\<close>

datatype hold_tag = HoldTag
datatype requirement_tag = RequirementTag
datatype submission_tag = SubmissionTag
datatype review_tag = ReviewTag
datatype recovery_tag = RecoveryTag
datatype delegation_tag = DelegationTag
datatype hold_code_tag = HoldCodeTag
datatype verifier_tag = VerifierTag

type_synonym HoldId = "hold_tag ident"
type_synonym RequirementId = "requirement_tag ident"
type_synonym SubmissionId = "submission_tag ident"
type_synonym ReviewId = "review_tag ident"
type_synonym RecoveryId = "recovery_tag ident"
type_synonym DelegationId = "delegation_tag ident"
type_synonym HoldCode = "hold_code_tag ident"
type_synonym VerifierPolicyId = "verifier_tag ident"
type_synonym AttemptFence = u64

record AttemptIdentity =
  ai_attempt_id :: AttemptId
  ai_fence :: AttemptFence

record ProfileIdentity =
  pi_profile_id :: ProfileId
  pi_version :: string
  pi_digest :: ContentDigest

record ProofIdentity =
  pr_entity :: EntityIdentity
  pr_proof_revision :: ProofRevision
  pr_attempt :: "AttemptIdentity option"
  pr_source_snapshot :: "SourceVersionId option"
  pr_configuration :: "ConfigIdentity option"
  pr_profile :: ProfileIdentity
  pr_policy_version :: string

definition proof_new ::
  "EntityIdentity \<Rightarrow> ProofRevision \<Rightarrow> AttemptIdentity option \<Rightarrow> SourceVersionId \<Rightarrow> ConfigIdentity \<Rightarrow>
     ProfileIdentity \<Rightarrow> string \<Rightarrow> ProofIdentity" where
  "proof_new entity proof_revision attempt source_snapshot configuration profile policy_version =
     \<lparr>pr_entity = entity, pr_proof_revision = proof_revision, pr_attempt = attempt,
      pr_source_snapshot = Some source_snapshot, pr_configuration = Some configuration,
      pr_profile = profile, pr_policy_version = policy_version\<rparr>"

definition proof_planning ::
  "EntityIdentity \<Rightarrow> ProofRevision \<Rightarrow> ProfileIdentity \<Rightarrow> string \<Rightarrow> ProofIdentity" where
  "proof_planning entity proof_revision profile policy_version =
     \<lparr>pr_entity = entity, pr_proof_revision = proof_revision, pr_attempt = None,
      pr_source_snapshot = None, pr_configuration = None, pr_profile = profile,
      pr_policy_version = policy_version\<rparr>"

definition proof_is_bound :: "ProofIdentity \<Rightarrow> bool" where
  "proof_is_bound p \<longleftrightarrow> case_option False (\<lambda>i. as_str i \<noteq> []) (pr_source_snapshot p)
     \<and> case_option False (\<lambda>i. as_str i \<noteq> []) (pr_configuration p)"

section \<open>Facts\<close>

datatype FactKind = Lifecycle | ActorAuthority | PinnedRequirements | DependencyOutcomes | Holds
  | Execution | Submission | Review | Recovery

datatype FactTarget =
    Work
  | Actor ActorId
  | Requirements
  | Dependencies
  | Holds
  | Attempt AttemptId
  | Submission SubmissionId
  | Review ReviewId
  | Recovery RecoveryId

record FactSubject =
  fs_project_id :: ProjectId
  fs_work_id :: WorkId
  fs_target :: FactTarget

definition subject_work :: "ProjectId \<Rightarrow> WorkId \<Rightarrow> FactSubject" where
  "subject_work project_id work_id =
     \<lparr>fs_project_id = project_id, fs_work_id = work_id, fs_target = Work\<rparr>"

definition subject_target :: "ProjectId \<Rightarrow> WorkId \<Rightarrow> FactTarget \<Rightarrow> FactSubject" where
  "subject_target project_id work_id t =
     \<lparr>fs_project_id = project_id, fs_work_id = work_id, fs_target = t\<rparr>"

datatype AbsenceAllowance = Required | Allowed

record AbsentDiagnostic =
  ad_fact :: FactKind
  ad_subject :: FactSubject
  ad_allowance :: AbsenceAllowance

record UnreadableDiagnostic =
  ud_fact :: FactKind
  ud_subject :: FactSubject
  ud_reason :: UnreadableReason

datatype RevisionMarker = Snapshot Revision | Entity EntityRevision | Proof ProofRevision
  | Fence AttemptFence

record StaleDiagnostic =
  sdg_fact :: FactKind
  sdg_subject :: FactSubject
  sdg_expected :: RevisionMarker
  sdg_observed :: RevisionMarker

datatype FailureReason = EvaluationFailed | ExternalCheckFailed | InvalidInput | UnknownOutcome

record FailedDiagnostic =
  fd_fact :: FactKind
  fd_subject :: FactSubject
  fd_reason :: FailureReason

datatype FactDiagnostic =
    Absent AbsentDiagnostic
  | Unreadable UnreadableDiagnostic
  | Stale StaleDiagnostic
  | Failed FailedDiagnostic

datatype 'a Fact =
    Present 'a
  | Absent AbsentDiagnostic
  | Unreadable UnreadableDiagnostic
  | Stale StaleDiagnostic
  | Failed FailedDiagnostic

definition fact_absent :: "FactKind \<Rightarrow> FactSubject \<Rightarrow> 'a Fact" where
  "fact_absent kind subject =
     Fact.Absent \<lparr>ad_fact = kind, ad_subject = subject, ad_allowance = Required\<rparr>"

definition optional_absent :: "FactKind \<Rightarrow> FactSubject \<Rightarrow> 'a Fact" where
  "optional_absent kind subject =
     Fact.Absent \<lparr>ad_fact = kind, ad_subject = subject, ad_allowance = Allowed\<rparr>"

definition fact_unreadable :: "FactKind \<Rightarrow> FactSubject \<Rightarrow> UnreadableReason \<Rightarrow> 'a Fact" where
  "fact_unreadable kind subject reason =
     Fact.Unreadable \<lparr>ud_fact = kind, ud_subject = subject, ud_reason = reason\<rparr>"

definition fact_stale ::
  "FactKind \<Rightarrow> FactSubject \<Rightarrow> RevisionMarker \<Rightarrow> RevisionMarker \<Rightarrow> 'a Fact" where
  "fact_stale kind subject expected seen =
     Fact.Stale \<lparr>sdg_fact = kind, sdg_subject = subject, sdg_expected = expected, sdg_observed = seen\<rparr>"

definition fact_failed :: "FactKind \<Rightarrow> FactSubject \<Rightarrow> FailureReason \<Rightarrow> 'a Fact" where
  "fact_failed kind subject reason =
     Fact.Failed \<lparr>fd_fact = kind, fd_subject = subject, fd_reason = reason\<rparr>"

primrec as_present :: "'a Fact \<Rightarrow> 'a option" where
  "as_present (Present v) = Some v"
| "as_present (Fact.Absent d) = None"
| "as_present (Fact.Unreadable d) = None"
| "as_present (Fact.Stale d) = None"
| "as_present (Fact.Failed d) = None"

definition is_present :: "'a Fact \<Rightarrow> bool" where
  "is_present f \<longleftrightarrow> as_present f \<noteq> None"

primrec fact_diagnostic :: "'a Fact \<Rightarrow> FactDiagnostic option" where
  "fact_diagnostic (Present v) = None"
| "fact_diagnostic (Fact.Absent d) = Some (FactDiagnostic.Absent d)"
| "fact_diagnostic (Fact.Unreadable d) = Some (FactDiagnostic.Unreadable d)"
| "fact_diagnostic (Fact.Stale d) = Some (FactDiagnostic.Stale d)"
| "fact_diagnostic (Fact.Failed d) = Some (FactDiagnostic.Failed d)"

section \<open>The inputs\<close>

datatype TerminalDecision = Closed TimestampMs | Cancelled TimestampMs

record LifecycleInput =
  li_identity :: EntityIdentity
  li_lifecycle :: PersistedLifecycle
  li_terminal_decision :: "TerminalDecision option"

datatype PrincipalBinding = Authenticated ActorId | Delegated ActorId DelegationId ActorId

record ActorAuthorityInput =
  aa_authority_root :: ActorId
  aa_project_id :: ProjectId
  aa_role :: ActorRole
  aa_principal :: PrincipalBinding
  aa_session_id :: "SessionId option"

definition authority_actor_id :: "ActorAuthorityInput \<Rightarrow> ActorId" where
  "authority_actor_id a = (case aa_principal a of
      Authenticated actor_id \<Rightarrow> actor_id | Delegated actor_id _ _ \<Rightarrow> actor_id)"

record VerifierPolicy =
  vp_id :: VerifierPolicyId
  vp_version :: string

datatype ReviewRequirementPolicy = NotRequired | Independent | OperatorAllowed

datatype ExceptionReason = RiskAccepted | ExternalEvidence | SupersededWork | DuplicateWork
  | MigrationDisposition

record RequirementExceptionInput =
  re_id :: DecisionId
  re_reason :: ExceptionReason
  re_comment :: string
  re_actor_role :: ActorRole
  re_entity_revision :: EntityRevision
  re_proof_revision :: ProofRevision
  re_expires_at :: "TimestampMs option"
  re_revoked :: bool

definition exception_applies ::
  "RequirementExceptionInput \<Rightarrow> GateState \<Rightarrow> EntityRevision \<Rightarrow> ProofRevision \<Rightarrow> TimestampMs \<Rightarrow> bool" where
  "exception_applies e raw entity proof at \<longleftrightarrow> raw = GateState.Failed \<and> re_actor_role e = Operator
     \<and> \<not> trim_is_empty (re_comment e) \<and> \<not> re_revoked e \<and> re_entity_revision e = entity
     \<and> re_proof_revision e = proof \<and> case_option True (\<lambda>expiry. at < expiry) (re_expires_at e)"

record PinnedRequirement =
  pq_exception :: "RequirementExceptionInput option"
  pq_id :: RequirementId
  pq_gate_id :: GateId
  pq_kind :: GateKind
  pq_required :: bool
  pq_state :: GateState
  pq_verifier_policy :: VerifierPolicy

record PinnedRequirementsInput =
  pqi_proof :: ProofIdentity
  pqi_requirements :: "PinnedRequirement list"
  pqi_review_policy :: ReviewRequirementPolicy

datatype DependencyOutcome = Open | Closed | Complete | Cancelled | Failed | Waived

record DependencyWaiver =
  dw_decision_id :: DecisionId
  dw_edge_revision :: EntityRevision

record DependencyOutcomeInput =
  doi_id :: DependencyId
  doi_predecessor :: EntityIdentity
  doi_successor :: EntityIdentity
  doi_policy :: DependencyPolicy
  doi_outcome :: DependencyOutcome
  doi_outcome_revision :: EntityRevision
  doi_waiver :: "DependencyWaiver option"

record IntegrityScope =
  is_project_id :: ProjectId
  is_work_id :: WorkId
  is_target :: FactTarget

datatype IntegrityLevel = Valid | Degraded | Quarantined

datatype IntegrityDiagnosticCode = MissingRequired | Corrupt | Stale | Failed | Contradictory

record IntegrityDiagnostic =
  id_scope :: IntegrityScope
  id_code :: IntegrityDiagnosticCode

record IntegrityInput =
  ii_scope :: IntegrityScope
  ii_level :: IntegrityLevel
  ii_diagnostics :: "IntegrityDiagnostic list"

datatype Availability = Live | Stale | Unavailable | Incompatible

datatype PermittedAction = Inspect | Claim | AcceptAttempt | ResumeAttempt | AttachEvidence | Submit
  | Review | Finish | Release | Recover | ResolveHold | Repair

datatype ActionDenialReason = RoleDenied | IntegrityQuarantined | MissingFact | StaleEntity
  | StaleProof | StaleFence | RecoveryRequired | PolicyDenied

record DeniedAction =
  da_action :: PermittedAction
  da_reason :: ActionDenialReason

text \<open>The \<open>BTreeSet\<close> of allowed actions is only asked for membership.\<close>

record PermittedActionsInput =
  pa_allowed :: "PermittedAction set"
  pa_denied :: "DeniedAction list"

definition permitted_none :: PermittedActionsInput where
  "permitted_none = \<lparr>pa_allowed = {}, pa_denied = []\<rparr>"

definition permitted_allowing :: "PermittedAction list \<Rightarrow> PermittedActionsInput" where
  "permitted_allowing actions = \<lparr>pa_allowed = set actions, pa_denied = []\<rparr>"

record ExecutionInput =
  xi_attempt :: AttemptIdentity
  xi_actor_id :: ActorId
  xi_session_id :: "SessionId option"
  xi_phase :: AttemptPhase
  xi_claimed_at :: TimestampMs
  xi_lease_deadline :: TimestampMs
  xi_hard_deadline :: TimestampMs
  xi_proof :: ProofIdentity

datatype SubmissionState = Sealed | Superseded | Rejected

record SubmissionInput =
  su_actor_id :: ActorId
  su_session_id :: SessionId
  su_authority_root :: ActorId
  su_id :: SubmissionId
  su_proof :: ProofIdentity
  su_summary_digest :: ContentDigest
  su_state :: SubmissionState

datatype ReviewOutcome = Pending | Approved | Rejected | Returned | Revoked

record ReviewInput =
  rv_reviewer_authority_root :: ActorId
  rv_attempt_authority_root :: ActorId
  rv_id :: ReviewId
  rv_submission_id :: SubmissionId
  rv_proof :: ProofIdentity
  rv_reviewer_id :: ActorId
  rv_attempt_actor_id :: ActorId
  rv_outcome :: ReviewOutcome

datatype RecoveryReason = Expired | StopUnknown | ResourceUnknown | Failed | CancelRequested

datatype ResourceDisposition = ConfirmedStopped | Adopted | Unknown

record RecoveryInput =
  ry_id :: RecoveryId
  ry_attempt :: AttemptIdentity
  ry_reason :: RecoveryReason
  ry_resource :: ResourceDisposition
  ry_unresolved :: bool
  ry_owner_id :: "ActorId option"

record HoldInput =
  ho_id :: HoldId
  ho_scope :: IntegrityScope
  ho_code :: HoldCode
  ho_entity_revision :: EntityRevision
  ho_active :: bool

record StatusTimingInput =
  sti_schedule :: "WorkSchedule option"
  sti_cycle_activation_at :: "TimestampMs option"
  sti_retry_not_before :: "TimestampMs option"

definition status_timing_empty :: StatusTimingInput where
  "status_timing_empty =
     \<lparr>sti_schedule = None, sti_cycle_activation_at = None, sti_retry_not_before = None\<rparr>"

record EvaluationClock =
  ec_evaluated_at :: TimestampMs
  ec_next_change_at :: "TimestampMs option"
  ec_timing :: StatusTimingInput

definition evaluation_clock_at :: "TimestampMs \<Rightarrow> EvaluationClock" where
  "evaluation_clock_at evaluated_at =
     \<lparr>ec_evaluated_at = evaluated_at, ec_next_change_at = None, ec_timing = status_timing_empty\<rparr>"

record DecisionInputs =
  di_subject :: EntityIdentity
  di_snapshot_revision :: Revision
  di_clock :: EvaluationClock
  di_availability :: Availability
  di_dispatch_policy :: DispatchPolicy
  di_lifecycle :: "LifecycleInput Fact"
  di_authority :: "ActorAuthorityInput Fact"
  di_requirements :: "PinnedRequirementsInput Fact"
  di_dependencies :: "DependencyOutcomeInput list Fact"
  di_holds :: "HoldInput list Fact"
  di_execution :: "ExecutionInput Fact"
  di_submission :: "SubmissionInput Fact"
  di_review :: "ReviewInput Fact"
  di_recovery :: "RecoveryInput Fact"
  di_integrity :: IntegrityInput
  di_permitted_actions :: PermittedActionsInput

section \<open>Diagnostics\<close>

datatype ContradictionCode = TerminalDecisionMissing | TerminalDecisionMismatch
  | NonTerminalLifecycleHasTerminalDecision | SelfDependency | WaiverMissing | ReviewPolicyMismatch
  | CurrentExecutionIsTerminal | DeadlineBeforeClaim | AttemptBindingMismatch
  | ProofRevisionMismatch | SelfReview | RecoveryDispositionMismatch | IntegrityLevelMismatch
  | ActionAllowedAndDenied | MalformedInput

datatype DuplicateKey = Requirement RequirementId | Dependency DependencyId | Hold HoldId
  | Action PermittedAction

datatype DecisionDiagnostic =
    Fact FactDiagnostic
  | Contradictory FactKind FactSubject ContradictionCode
  | IdentityMismatch FactKind FactSubject EntityIdentity EntityIdentity
  | CrossProject FactKind FactSubject ProjectId
  | Duplicate FactKind FactSubject DuplicateKey
  | Integrity IntegrityDiagnostic
  | ActionConflict PermittedAction

text \<open>\<open>if c { diagnostics.push(d) }\<close>, and a loop that pushes while it updates a set.\<close>

definition note_if :: "bool \<Rightarrow> 'd \<Rightarrow> 'd list" where
  "note_if c d = (if c then [d] else [])"

definition notes_of :: "('s \<Rightarrow> 'a \<Rightarrow> 'd list \<times> 's) \<Rightarrow> 's \<Rightarrow> 'a list \<Rightarrow> 'd list" where
  "notes_of f s xs = concat (fst (map_state f s xs))"

definition present_or :: "'d list \<Rightarrow> ('a \<Rightarrow> 'd list) \<Rightarrow> 'a Fact \<Rightarrow> 'd list" where
  "present_or d f kind = case_option d f (as_present kind)"

definition work_subject :: "DecisionInputs \<Rightarrow> FactSubject" where
  "work_subject i = subject_work (ei_project_id (di_subject i)) (ei_work_id (di_subject i))"

definition target_subject :: "DecisionInputs \<Rightarrow> FactTarget \<Rightarrow> FactSubject" where
  "target_subject i t = subject_target (ei_project_id (di_subject i)) (ei_work_id (di_subject i)) t"

text \<open>Execution has only been claimed or accepted.\<close>

definition execution_early :: "ExecutionInput \<Rightarrow> bool" where
  "execution_early x \<longleftrightarrow> xi_phase x \<in> {AttemptPhase.Claimed, AttemptPhase.Accepted}"

definition check_proof_identity ::
  "DecisionInputs \<Rightarrow> FactKind \<Rightarrow> FactSubject \<Rightarrow> ProofIdentity \<Rightarrow> DecisionDiagnostic list" where
  "check_proof_identity i kind subject proof =
     note_if (ei_project_id (pr_entity proof) \<noteq> ei_project_id (di_subject i)
         \<or> ei_work_id (pr_entity proof) \<noteq> ei_work_id (di_subject i)
         \<or> ei_revision (di_subject i) < ei_revision (pr_entity proof))
       (IdentityMismatch kind subject (di_subject i) (pr_entity proof))
     @ (let planning_only = (kind = PinnedRequirements \<and> as_present (di_submission i) = None
              \<and> as_present (di_review i) = None
              \<and> case_option True execution_early (as_present (di_execution i)));
            ownership_only = (kind = Execution
              \<and> case_option False execution_early (as_present (di_execution i)))
        in note_if (\<not> planning_only \<and> \<not> ownership_only \<and> \<not> proof_is_bound proof
              \<or> pr_proof_revision proof = 0
              \<or> as_str (pi_profile_id (pr_profile proof)) = []
              \<or> pi_version (pr_profile proof) = []
              \<or> as_str (pi_digest (pr_profile proof)) = []
              \<or> pr_policy_version proof = [])
             (Contradictory kind subject MalformedInput))"

definition check_proof_context ::
  "DecisionInputs \<Rightarrow> FactKind \<Rightarrow> ProofIdentity \<Rightarrow> DecisionDiagnostic list" where
  "check_proof_context i kind proof = present_or [] (\<lambda>requirements.
     let pinned = pqi_proof requirements;
         result_source = (kind = FactKind.Submission
           \<or> kind = FactKind.Review
             \<and> case_option False (\<lambda>s. su_proof s = proof) (as_present (di_submission i)))
     in note_if (pr_proof_revision proof \<noteq> pr_proof_revision pinned
          \<or> pr_profile proof \<noteq> pr_profile pinned
          \<or> proof_is_bound pinned
            \<and> (\<not> result_source \<and> pr_source_snapshot proof \<noteq> pr_source_snapshot pinned
               \<or> pr_configuration proof \<noteq> pr_configuration pinned))
          (Contradictory PinnedRequirements (work_subject i) ProofRevisionMismatch))
     (di_requirements i)"

fun terminal_contradiction :: "PersistedLifecycle \<Rightarrow> TerminalDecision option \<Rightarrow> ContradictionCode option" where
  "terminal_contradiction PersistedLifecycle.Closed (Some (TerminalDecision.Closed _)) = None"
| "terminal_contradiction PersistedLifecycle.Cancelled (Some (TerminalDecision.Cancelled _)) = None"
| "terminal_contradiction PersistedLifecycle.Draft None = None"
| "terminal_contradiction PersistedLifecycle.Open None = None"
| "terminal_contradiction PersistedLifecycle.Closed None = Some TerminalDecisionMissing"
| "terminal_contradiction PersistedLifecycle.Cancelled None = Some TerminalDecisionMissing"
| "terminal_contradiction PersistedLifecycle.Closed (Some (TerminalDecision.Cancelled _)) =
     Some TerminalDecisionMismatch"
| "terminal_contradiction PersistedLifecycle.Cancelled (Some (TerminalDecision.Closed _)) =
     Some TerminalDecisionMismatch"
| "terminal_contradiction _ (Some _) = Some NonTerminalLifecycleHasTerminalDecision"

definition lifecycle_diagnostics :: "DecisionInputs \<Rightarrow> DecisionDiagnostic list" where
  "lifecycle_diagnostics i = present_or [] (\<lambda>l.
     note_if (li_identity l \<noteq> di_subject i)
       (IdentityMismatch FactKind.Lifecycle (work_subject i) (di_subject i) (li_identity l))
     @ (case terminal_contradiction (li_lifecycle l) (li_terminal_decision l) of
          None \<Rightarrow> []
        | Some code \<Rightarrow> [Contradictory FactKind.Lifecycle (work_subject i) code]))
     (di_lifecycle i)"

definition authority_diagnostics :: "DecisionInputs \<Rightarrow> DecisionDiagnostic list" where
  "authority_diagnostics i = present_or [] (\<lambda>a.
     note_if (aa_project_id a \<noteq> ei_project_id (di_subject i))
       (CrossProject ActorAuthority (target_subject i (Actor (authority_actor_id a))) (aa_project_id a)))
     (di_authority i)"

definition requirement_step ::
  "DecisionInputs \<Rightarrow> RequirementId btree_set \<times> GateId btree_set \<Rightarrow> PinnedRequirement \<Rightarrow>
     DecisionDiagnostic list \<times> (RequirementId btree_set \<times> GateId btree_set)" where
  "requirement_step i = (\<lambda>(ids, gate_ids) q.
     (note_if (bt_contains ids (pq_id q))
        (Duplicate PinnedRequirements (target_subject i Requirements) (Requirement (pq_id q)))
      @ note_if (bt_contains gate_ids (pq_gate_id q))
          (Contradictory PinnedRequirements (work_subject i) ReviewPolicyMismatch),
      (bs_insert (pq_id q) ids, bs_insert (pq_gate_id q) gate_ids)))"

definition requirements_diagnostics :: "DecisionInputs \<Rightarrow> DecisionDiagnostic list" where
  "requirements_diagnostics i = present_or [] (\<lambda>r.
     check_proof_identity i PinnedRequirements (work_subject i) (pqi_proof r)
     @ notes_of (requirement_step i) ([], []) (pqi_requirements r)
     @ note_if (list_ex (\<lambda>q. pq_required q \<and> pq_kind q = GateKind.Review) (pqi_requirements r)
           \<and> pqi_review_policy r = NotRequired)
         (Contradictory PinnedRequirements (work_subject i) ReviewPolicyMismatch))
     (di_requirements i)"

definition dependency_step ::
  "DecisionInputs \<Rightarrow> DependencyId btree_set \<times> (WorkId \<times> WorkId) btree_set \<Rightarrow> DependencyOutcomeInput \<Rightarrow>
     DecisionDiagnostic list \<times> (DependencyId btree_set \<times> (WorkId \<times> WorkId) btree_set)" where
  "dependency_step i = (\<lambda>(ids, edges) e.
     let subject = target_subject i Dependencies;
         pair = (ei_work_id (doi_predecessor e), ei_work_id (doi_successor e));
         duplicate = Duplicate DependencyOutcomes subject (Dependency (doi_id e)) in
     (note_if (bt_contains ids (doi_id e)) duplicate
      @ note_if (bt_contains edges pair) duplicate
      @ note_if (doi_successor e \<noteq> di_subject i)
          (IdentityMismatch DependencyOutcomes subject (di_subject i) (doi_successor e))
      @ note_if (ei_project_id (doi_predecessor e) \<noteq> ei_project_id (di_subject i))
          (CrossProject DependencyOutcomes subject (ei_project_id (doi_predecessor e)))
      @ note_if (ei_work_id (doi_predecessor e) = ei_work_id (doi_successor e))
          (Contradictory DependencyOutcomes subject SelfDependency)
      @ note_if (doi_outcome e = Waived \<and> doi_waiver e = None)
          (Contradictory DependencyOutcomes subject WaiverMissing)
      @ note_if (case_option False (\<lambda>w. as_str (dw_decision_id w) = []
             \<or> dw_edge_revision w \<noteq> ei_revision (doi_successor e)) (doi_waiver e))
          (Contradictory DependencyOutcomes subject WaiverMissing),
      (bs_insert (doi_id e) ids, bs_insert pair edges)))"

definition dependencies_diagnostics :: "DecisionInputs \<Rightarrow> DecisionDiagnostic list" where
  "dependencies_diagnostics i =
     present_or [] (notes_of (dependency_step i) ([], [])) (di_dependencies i)"

definition hold_step ::
  "DecisionInputs \<Rightarrow> HoldId btree_set \<Rightarrow> HoldInput \<Rightarrow> DecisionDiagnostic list \<times> HoldId btree_set" where
  "hold_step i ids h =
     (note_if (bt_contains ids (ho_id h))
        (Duplicate FactKind.Holds (target_subject i FactTarget.Holds) (Hold (ho_id h)))
      @ note_if (is_project_id (ho_scope h) \<noteq> ei_project_id (di_subject i)
           \<or> is_work_id (ho_scope h) \<noteq> ei_work_id (di_subject i))
          (CrossProject FactKind.Holds (target_subject i FactTarget.Holds) (is_project_id (ho_scope h))),
      bs_insert (ho_id h) ids)"

definition holds_diagnostics :: "DecisionInputs \<Rightarrow> DecisionDiagnostic list" where
  "holds_diagnostics i = present_or [] (notes_of (hold_step i) []) (di_holds i)"

definition execution_diagnostics :: "DecisionInputs \<Rightarrow> DecisionDiagnostic list" where
  "execution_diagnostics i = present_or [] (\<lambda>x.
     let subject = target_subject i (FactTarget.Attempt (ai_attempt_id (xi_attempt x))) in
     check_proof_identity i Execution subject (xi_proof x)
     @ note_if (pr_attempt (xi_proof x) \<noteq> Some (xi_attempt x))
         (Contradictory Execution subject AttemptBindingMismatch)
     @ note_if (attempt_phase_is_terminal (xi_phase x))
         (Contradictory Execution subject CurrentExecutionIsTerminal)
     @ note_if (xi_lease_deadline x < xi_claimed_at x \<or> xi_hard_deadline x < xi_claimed_at x)
         (Contradictory Execution subject DeadlineBeforeClaim)
     @ check_proof_context i Execution (xi_proof x))
     (di_execution i)"

definition submission_diagnostics :: "DecisionInputs \<Rightarrow> DecisionDiagnostic list" where
  "submission_diagnostics i = present_or [] (\<lambda>s.
     let subject = target_subject i (FactTarget.Submission (su_id s)) in
     check_proof_identity i FactKind.Submission subject (su_proof s)
     @ check_proof_context i FactKind.Submission (su_proof s)
     @ present_or [] (\<lambda>x. note_if (pr_attempt (su_proof s) \<noteq> Some (xi_attempt x))
         (Contradictory FactKind.Submission subject AttemptBindingMismatch)) (di_execution i))
     (di_submission i)"

definition review_diagnostics :: "DecisionInputs \<Rightarrow> DecisionDiagnostic list" where
  "review_diagnostics i = present_or [] (\<lambda>r.
     let subject = target_subject i (FactTarget.Review (rv_id r)) in
     check_proof_identity i FactKind.Review subject (rv_proof r)
     @ check_proof_context i FactKind.Review (rv_proof r)
     @ note_if (rv_reviewer_id r = rv_attempt_actor_id r
           \<or> rv_reviewer_authority_root r = rv_attempt_authority_root r)
         (Contradictory FactKind.Review subject SelfReview)
     @ present_or [] (\<lambda>s. note_if (rv_submission_id r \<noteq> su_id s \<or> rv_proof r \<noteq> su_proof s)
         (Contradictory FactKind.Review subject AttemptBindingMismatch)) (di_submission i))
     (di_review i)"

definition recovery_diagnostics :: "DecisionInputs \<Rightarrow> DecisionDiagnostic list" where
  "recovery_diagnostics i = present_or [] (\<lambda>r.
     let subject = target_subject i (FactTarget.Recovery (ry_id r)) in
     note_if (\<not> ry_unresolved r \<and> ry_resource r = ResourceDisposition.Unknown)
       (Contradictory FactKind.Recovery subject RecoveryDispositionMismatch)
     @ present_or [] (\<lambda>x. note_if (ry_attempt r \<noteq> xi_attempt x)
         (Contradictory FactKind.Recovery subject AttemptBindingMismatch)) (di_execution i))
     (di_recovery i)"

definition integrity_diagnostics :: "DecisionInputs \<Rightarrow> DecisionDiagnostic list" where
  "integrity_diagnostics i =
     (let g = di_integrity i in
      note_if (is_project_id (ii_scope g) \<noteq> ei_project_id (di_subject i)
          \<or> is_work_id (ii_scope g) \<noteq> ei_work_id (di_subject i))
        (CrossProject FactKind.Lifecycle (work_subject i) (is_project_id (ii_scope g)))
      @ note_if (ii_level g = Valid \<and> ii_diagnostics g \<noteq> []
          \<or> ii_level g = Degraded \<and> ii_diagnostics g = [])
        (Contradictory FactKind.Lifecycle (work_subject i) IntegrityLevelMismatch))"

definition action_diagnostics :: "DecisionInputs \<Rightarrow> DecisionDiagnostic list" where
  "action_diagnostics i = concat (map (\<lambda>denied.
     note_if (da_action denied \<in> pa_allowed (di_permitted_actions i)) (ActionConflict (da_action denied)))
     (pa_denied (di_permitted_actions i)))"

definition structural_diagnostics :: "DecisionInputs \<Rightarrow> DecisionDiagnostic list" where
  "structural_diagnostics i = lifecycle_diagnostics i @ authority_diagnostics i
     @ requirements_diagnostics i @ dependencies_diagnostics i @ holds_diagnostics i
     @ execution_diagnostics i @ submission_diagnostics i @ review_diagnostics i
     @ recovery_diagnostics i @ integrity_diagnostics i @ action_diagnostics i"

text \<open>The macro \<open>collect_fact!\<close>.\<close>

definition collect_fact :: "'a Fact \<Rightarrow> DecisionDiagnostic list" where
  "collect_fact f = (case fact_diagnostic f of None \<Rightarrow> [] | Some d \<Rightarrow> [DecisionDiagnostic.Fact d])"

definition fact_diagnostics :: "DecisionInputs \<Rightarrow> DecisionDiagnostic list" where
  "fact_diagnostics i = collect_fact (di_lifecycle i) @ collect_fact (di_authority i)
     @ collect_fact (di_requirements i) @ collect_fact (di_dependencies i) @ collect_fact (di_holds i)
     @ collect_fact (di_execution i) @ collect_fact (di_submission i) @ collect_fact (di_review i)
     @ collect_fact (di_recovery i)"

definition inputs_diagnostics :: "DecisionInputs \<Rightarrow> DecisionDiagnostic list" where
  "inputs_diagnostics i = fact_diagnostics i @ map Integrity (ii_diagnostics (di_integrity i))
     @ structural_diagnostics i"

definition is_blocking :: "DecisionInputs \<Rightarrow> DecisionDiagnostic \<Rightarrow> bool" where
  "is_blocking i d = (case d of
      DecisionDiagnostic.Fact (FactDiagnostic.Absent item) \<Rightarrow> ad_allowance item = Required
    | Integrity _ \<Rightarrow> ii_level (di_integrity i) = Quarantined
    | _ \<Rightarrow> True)"

definition inputs_validate :: "DecisionInputs \<Rightarrow> DecisionDiagnostic list + unit" where
  "inputs_validate i =
     (let blocking = filter (is_blocking i) (inputs_diagnostics i)
      in if blocking = [] then Inr () else Inl blocking)"

definition is_decidable :: "DecisionInputs \<Rightarrow> bool" where
  "is_decidable i \<longleftrightarrow> (case inputs_validate i of Inr _ \<Rightarrow> True | Inl _ \<Rightarrow> False)"

end
