(* ===== verification/Status_Evaluator.thy ===== *)
theory Status_Evaluator
  imports Decision_Inputs
begin

text \<open>
  The status decision over canonical inputs (\<open>crates/domain/src/status_evaluator.rs\<close>), the one function
  that read views and the transactional claim both call.  The long body of \<open>evaluate_status_inner\<close> is
  split along its \<open>let\<close> bindings; its \<open>unreachable!\<close> is a \<open>Panic\<close>.
\<close>

section \<open>The context\<close>

record StatusContext =
  cx_work :: WorkItem
  cx_prerequisites :: "WorkItem list"
  cx_current_attempt :: "Attempt option"
  cx_gates :: "GateRequirement list"
  cx_actor :: ActorContext
  cx_as_of :: TimestampMs
  cx_project_revision :: Revision
  cx_retry_not_before :: "TimestampMs option"
  cx_schedule :: "WorkSchedule option"
  cx_business_schedule :: "BusinessSchedule option"
  cx_business_schedule_revision :: "u64 option"
  cx_business_schedule_setting_revision :: "u64 option"
  cx_business_time :: "BusinessTimeContext option"
  cx_business_not_before_at :: "TimestampMs option"
  cx_business_schedule_next_change_at :: "TimestampMs option"
  cx_external_wait_next_change_at :: "TimestampMs option"
  cx_external_waits :: "ExternalWaitScopeInput list"
  cx_activation_at :: "TimestampMs option"
  cx_affected_dependents :: "WorkId list"

definition context_new ::
  "WorkItem \<Rightarrow> WorkItem list \<Rightarrow> Attempt option \<Rightarrow> GateRequirement list \<Rightarrow> ActorContext \<Rightarrow> TimestampMs \<Rightarrow>
     Revision \<Rightarrow> StatusContext" where
  "context_new work prerequisites current_attempt gates actor as_of project_revision =
     \<lparr>cx_work = work, cx_prerequisites = prerequisites, cx_current_attempt = current_attempt,
      cx_gates = gates, cx_actor = actor, cx_as_of = as_of, cx_project_revision = project_revision,
      cx_retry_not_before = None, cx_schedule = None, cx_business_schedule = None,
      cx_business_schedule_revision = None, cx_business_schedule_setting_revision = None,
      cx_business_time = None, cx_business_not_before_at = None,
      cx_business_schedule_next_change_at = None, cx_external_wait_next_change_at = None,
      cx_external_waits = [], cx_activation_at = None, cx_affected_dependents = []\<rparr>"

definition with_schedule :: "StatusContext \<Rightarrow> WorkSchedule \<Rightarrow> StatusContext" where
  "with_schedule cx schedule = cx\<lparr>cx_schedule := Some schedule\<rparr>"

definition with_activation_at :: "StatusContext \<Rightarrow> TimestampMs \<Rightarrow> StatusContext" where
  "with_activation_at cx activation_at = cx\<lparr>cx_activation_at := Some activation_at\<rparr>"

text \<open>\<open>Option::filter\<close>.\<close>

definition filter_option :: "('a \<Rightarrow> bool) \<Rightarrow> 'a option \<Rightarrow> 'a option" where
  "filter_option P x = (case x of Some y \<Rightarrow> if P y then Some y else None | None \<Rightarrow> None)"

abbreviation present_fact :: "DecisionInputs option \<Rightarrow> (DecisionInputs \<Rightarrow> 'a Fact) \<Rightarrow> 'a option" where
  "present_fact facts sel \<equiv> Option.bind facts (\<lambda>f. as_present (sel f))"

abbreviation terminal :: "StatusContext \<Rightarrow> bool" where
  "terminal cx \<equiv> lifecycle_is_terminal (wi_lifecycle (cx_work cx))"

section \<open>Attempt, recovery and retry\<close>

definition relevant_attempt :: "StatusContext \<Rightarrow> Attempt option" where
  "relevant_attempt cx = filter_option (\<lambda>current. a_phase current \<notin>
     {AttemptPhase.Failed, AttemptPhase.Released, AttemptPhase.Cancelled}) (cx_current_attempt cx)"

definition live_attempt :: "StatusContext \<Rightarrow> Attempt option" where
  "live_attempt cx =
     filter_option (\<lambda>current. \<not> attempt_phase_is_terminal (a_phase current)) (relevant_attempt cx)"

definition durable_recovery :: "DecisionInputs option \<Rightarrow> RecoveryInput option" where
  "durable_recovery facts = filter_option ry_unresolved (present_fact facts di_recovery)"

definition submitted :: "DecisionInputs option \<Rightarrow> bool" where
  "submitted facts \<longleftrightarrow> case_option False (\<lambda>s. su_state s = Sealed) (present_fact facts di_submission)"

definition expiry_pending :: "StatusContext \<Rightarrow> DecisionInputs option \<Rightarrow> bool" where
  "expiry_pending cx facts \<longleftrightarrow>
     case_option False (\<lambda>recovery. ry_reason recovery = RecoveryReason.Expired) (durable_recovery facts)
     \<or> Option.bind (live_attempt cx) (\<lambda>current. expiry_reason current (cx_as_of cx)) \<noteq> None
     \<or> case_option False (\<lambda>current. a_phase current \<in> {AttemptPhase.ExpiryPending, AttemptPhase.Expired})
         (relevant_attempt cx)"

definition pending_retry :: "StatusContext \<Rightarrow> TimestampMs option" where
  "pending_retry cx = filter_option (\<lambda>at. cx_as_of cx < at) (cx_retry_not_before cx)"

section \<open>Schedules\<close>

definition schedule_decision :: "StatusContext \<Rightarrow> (TimePolicyError + ScheduleDecision) option" where
  "schedule_decision cx =
     map_option (\<lambda>schedule. evaluate_schedule schedule (cx_as_of cx) (terminal cx)) (cx_schedule cx)"

definition result_is_err :: "('e + 'a) option \<Rightarrow> bool" where
  "result_is_err r \<longleftrightarrow> (case r of Some (Inl _) \<Rightarrow> True | _ \<Rightarrow> False)"

definition result_ok :: "('e + 'a) option \<Rightarrow> 'a option" where
  "result_ok r = (case r of Some (Inr x) \<Rightarrow> Some x | _ \<Rightarrow> None)"

definition work_schedule_at :: "StatusContext \<Rightarrow> TimestampMs option" where
  "work_schedule_at cx =
     (if terminal cx then None
      else filter_option (\<lambda>at. cx_as_of cx < at)
        (Option.bind (filter_option sch_scheduled (result_ok (schedule_decision cx)))
          (\<lambda>_. Option.bind (cx_schedule cx) ws_not_before_at)))"

definition pending_activation :: "StatusContext \<Rightarrow> TimestampMs option" where
  "pending_activation cx =
     (if terminal cx then None else filter_option (\<lambda>at. cx_as_of cx < at) (cx_activation_at cx))"

definition schedule_next_change_at :: "StatusContext \<Rightarrow> TimestampMs option" where
  "schedule_next_change_at cx = Option.bind (result_ok (schedule_decision cx)) sch_next_change_at"

definition schedule_requires_project_clock :: "BusinessSchedule \<Rightarrow> bool" where
  "schedule_requires_project_clock s \<longleftrightarrow> case_option False is_local_date (bs_not_before s)"

text \<open>Without a project clock only instants are evaluated.\<close>

definition instant_schedule_view :: "StatusContext \<Rightarrow> BusinessSchedule \<Rightarrow> BusinessScheduleView" where
  "instant_schedule_view cx s =
     (let not_before = Option.bind (bs_not_before s) instant_of;
          due = Option.bind (bs_due s) instant_of in
      \<lparr>bv_available = case_option True (\<lambda>at. at \<le> cx_as_of cx) not_before,
       bv_due_today = False,
       bv_overdue = (\<not> terminal cx \<and> case_option False (\<lambda>at. at \<le> cx_as_of cx) due),
       bv_next_changes = map BusinessDateBoundary.Instant
         (option_list (filter_option (\<lambda>at. cx_as_of cx < at) not_before)
          @ (if terminal cx then [] else option_list (filter_option (\<lambda>at. cx_as_of cx < at) due)))\<rparr>)"

definition clock_mismatch :: "StatusContext \<Rightarrow> u64 option \<Rightarrow> BusinessTimeContext \<Rightarrow> bool" where
  "clock_mismatch cx setting_revision time \<longleftrightarrow> bt_as_of time \<noteq> cx_as_of cx
     \<or> bt_project_id time \<noteq> wi_project_id (cx_work cx)
     \<or> case_option False (\<lambda>revision. bt_setting_revision time < revision) setting_revision"

definition evaluate_context_schedule ::
  "StatusContext \<Rightarrow> BusinessSchedule \<Rightarrow> (ModelError + BusinessScheduleView) run" where
  "evaluate_context_schedule cx s =
     (case business_schedule_validate s of
        Inl e \<Rightarrow> Return (Inl e)
      | Inr _ \<Rightarrow>
          if cx_business_schedule_revision cx = Some 0
             \<or> cx_business_schedule_revision cx \<noteq> None \<and> schedule_has_local_dates s
               \<and> cx_business_schedule_setting_revision cx = None
          then Return (Inl (ModelError.InvalidSchedule
            ''revisioned date-only schedule is missing its setting revision''))
          else case cx_business_time cx of
              Some time \<Rightarrow>
                if clock_mismatch cx (cx_business_schedule_setting_revision cx) time
                then Return (Inl (ModelError.InvalidSchedule
                  ''business schedule context does not match the current project clock''))
                else evaluate_business_schedule s time (terminal cx)
            | None \<Rightarrow>
                if schedule_requires_project_clock s
                then Return (Inl (ModelError.InvalidSchedule
                  ''date-only not-before schedule requires a validated project civil-time context''))
                else Return (Inr (instant_schedule_view cx s)))"

type_synonym business_decision = "(ModelError + BusinessScheduleView) option"

definition business_schedule_decision :: "StatusContext \<Rightarrow> business_decision run" where
  "business_schedule_decision cx = (case cx_business_schedule cx of
       None \<Rightarrow> Return None
     | Some s \<Rightarrow> run_bind (evaluate_context_schedule cx s) (\<lambda>r. Return (Some r)))"

definition business_available :: "business_decision \<Rightarrow> bool" where
  "business_available b \<longleftrightarrow> case_option True bv_available (result_ok b)"

definition business_start :: "StatusContext \<Rightarrow> BusinessDate \<Rightarrow> TimestampMs option" where
  "business_start cx v = (case v of
       BusinessDate.LocalDate _ \<Rightarrow> cx_business_not_before_at cx
     | BusinessDate.Instant at \<Rightarrow> Some at
     | ResolvedLocal r \<Rightarrow> Some (tz_utc_instant r))"

definition business_not_before :: "StatusContext \<Rightarrow> business_decision \<Rightarrow> TimestampMs option" where
  "business_not_before cx b =
     (if business_available b \<or> terminal cx then None
      else filter_option (\<lambda>at. cx_as_of cx < at)
        (Option.bind (Option.bind (cx_business_schedule cx) bs_not_before) (business_start cx)))"

definition boundary_instants :: "StatusContext \<Rightarrow> BusinessDateBoundary list \<Rightarrow> TimestampMs list" where
  "boundary_instants cx bs = filter (\<lambda>at. cx_as_of cx < at)
     (concat (map (\<lambda>b. case b of BusinessDateBoundary.Instant at \<Rightarrow> [at] | _ \<Rightarrow> []) bs))"

definition business_next_change :: "StatusContext \<Rightarrow> business_decision \<Rightarrow> TimestampMs option" where
  "business_next_change cx b = (case cx_business_schedule_next_change_at cx of
       Some at \<Rightarrow> Some at
     | None \<Rightarrow> Option.bind (result_ok b) (\<lambda>view. iter_min (boundary_instants cx (bv_next_changes view))))"

section \<open>External waits\<close>

record WaitScan =
  sw_blocking :: "string list"
  sw_due :: "string list"
  sw_invalid :: bool

definition follow_up_reached :: "TimestampMs \<Rightarrow> LocalDate option \<Rightarrow> BusinessDate \<Rightarrow> bool" where
  "follow_up_reached as_of civil_date v = (case v of
       BusinessDate.LocalDate date \<Rightarrow> case_option False (\<lambda>civil. date_key date \<le> date_key civil) civil_date
     | BusinessDate.Instant at \<Rightarrow> at \<le> as_of
     | ResolvedLocal r \<Rightarrow> tz_utc_instant r \<le> as_of)"

definition scan_follow_up ::
  "StatusContext \<Rightarrow> ExternalWaitScopeInput \<Rightarrow> BusinessDate \<Rightarrow> WaitScan \<Rightarrow> WaitScan" where
  "scan_follow_up cx wait v s =
     (let invalid = s\<lparr>sw_invalid := True\<rparr>; due = s\<lparr>sw_due := sw_due s @ [xs_wait_id wait]\<rparr> in
      if (case business_date_validate v of Inl _ \<Rightarrow> True | Inr _ \<Rightarrow> False)
         \<or> is_local_date v \<noteq> (xs_civil_time_setting_revision wait \<noteq> None)
      then invalid
      else case cx_business_time cx of
          Some time \<Rightarrow>
            if clock_mismatch cx (xs_civil_time_setting_revision wait) time then invalid
            else if follow_up_reached (cx_as_of cx) (Some (bt_civil_date time)) v then due else s
        | None \<Rightarrow>
            if is_local_date v then invalid
            else if follow_up_reached (cx_as_of cx) None v then due else s)"

definition scan_wait :: "StatusContext \<Rightarrow> WaitScan \<Rightarrow> ExternalWaitScopeInput \<Rightarrow> WaitScan" where
  "scan_wait cx s wait =
     (if xs_project_id wait \<noteq> wi_project_id (cx_work cx) then s\<lparr>sw_invalid := True\<rparr>
      else if row_blocks wait
      then let s = s\<lparr>sw_blocking := sw_blocking s @ [xs_wait_id wait]\<rparr> in
        if xs_state wait = ExternalWaitPersistedState.Unknown then s\<lparr>sw_invalid := True\<rparr>
        else case xs_follow_up wait of Some v \<Rightarrow> scan_follow_up cx wait v s | None \<Rightarrow> s
      else s)"

definition scan_waits :: "StatusContext \<Rightarrow> WaitScan" where
  "scan_waits cx = foldl (scan_wait cx) \<lparr>sw_blocking = [], sw_due = [], sw_invalid = False\<rparr>
     (filter (\<lambda>wait. xs_affected_work_id wait = wi_id (cx_work cx)) (cx_external_waits cx))"

definition blocking_wait_ids :: "StatusContext \<Rightarrow> string list" where
  "blocking_wait_ids cx = sort_dedup (sw_blocking (scan_waits cx))"

definition due_wait_ids :: "StatusContext \<Rightarrow> string list" where
  "due_wait_ids cx = sort_dedup (sw_due (scan_waits cx))"

definition scheduled_at :: "StatusContext \<Rightarrow> business_decision \<Rightarrow> TimestampMs option" where
  "scheduled_at cx b = iter_min (option_list (work_schedule_at cx)
     @ option_list (pending_activation cx) @ option_list (business_not_before cx b))"

section \<open>Gates and holds\<close>

definition exception_satisfies :: "StatusContext \<Rightarrow> DecisionInputs option \<Rightarrow> GateId \<Rightarrow> bool" where
  "exception_satisfies cx facts gate_id \<longleftrightarrow> (case facts of None \<Rightarrow> False
     | Some f \<Rightarrow> (case as_present (di_requirements f) of None \<Rightarrow> False
         | Some requirements \<Rightarrow>
             (case find (\<lambda>gate. pq_gate_id gate = gate_id) (pqi_requirements requirements) of None \<Rightarrow> False
              | Some gate \<Rightarrow> case_option False (\<lambda>e. exception_applies e (pq_state gate)
                    (ei_revision (di_subject f)) (pr_proof_revision (pqi_proof requirements)) (cx_as_of cx))
                  (pq_exception gate))))"

text \<open>A required review gate that failed and is not excepted.\<close>

definition rejected_review :: "StatusContext \<Rightarrow> DecisionInputs option \<Rightarrow> GateRequirement \<Rightarrow> bool" where
  "rejected_review cx facts gate \<longleftrightarrow> gr_required gate \<and> gr_kind gate = GateKind.Review
     \<and> gr_state gate = GateState.Failed \<and> \<not> exception_satisfies cx facts (gr_id gate)"

definition review_hold :: "StatusContext \<Rightarrow> DecisionInputs option \<Rightarrow> ReasonCode list" where
  "review_hold cx facts = (case present_fact facts di_review of None \<Rightarrow> []
     | Some review \<Rightarrow>
         if rv_outcome review \<in> {ReviewOutcome.Rejected, Returned, Revoked}
            \<and> list_ex (rejected_review cx facts) (cx_gates cx)
         then [HardHold (''review_'' @ (case rv_outcome review of
             ReviewOutcome.Rejected \<Rightarrow> ''rejected'' | Returned \<Rightarrow> ''returned'' | _ \<Rightarrow> ''revoked''))]
         else [])"

definition early_holds ::
  "StatusContext \<Rightarrow> DecisionInputs option \<Rightarrow> business_decision \<Rightarrow> ReasonCode list" where
  "early_holds cx facts b = wi_hard_holds (cx_work cx)
     @ note_if (case_option False (\<lambda>f. \<not> is_decidable f) facts) (HardHold ''integrity_quarantined'')
     @ note_if (case_option False (\<lambda>r. ry_reason r \<noteq> RecoveryReason.Expired) (durable_recovery facts))
         (HardHold ''recovery_required'')
     @ review_hold cx facts
     @ note_if (result_is_err (schedule_decision cx)) (HardHold ''schedule_invalid'')
     @ note_if (result_is_err b) (HardHold ''business_schedule_invalid'')
     @ note_if (sw_invalid (scan_waits cx)) (HardHold ''external_wait_invalid'')"

definition sort_reasons :: "ReasonCode list \<Rightarrow> ReasonCode list" where
  "sort_reasons reasons = remdups_adj (sort_key stable_code reasons)"

definition open_prerequisites :: "StatusContext \<Rightarrow> DecisionInputs option \<Rightarrow> ReasonCode list" where
  "open_prerequisites cx facts = sort_reasons
     ((case present_fact facts di_dependencies of
         Some edges \<Rightarrow> map (\<lambda>edge. PrerequisiteOpen (ei_work_id (doi_predecessor edge)))
           (filter (\<lambda>edge. doi_outcome edge \<noteq> DependencyOutcome.Closed \<and> doi_waiver edge = None) edges)
       | None \<Rightarrow> map (\<lambda>item. PrerequisiteOpen (wi_id item))
           (filter (\<lambda>item. wi_lifecycle item \<noteq> PersistedLifecycle.Closed) (cx_prerequisites cx)))
      @ map ExternalWaitOpen (blocking_wait_ids cx))"

definition attempt_mismatch :: "StatusContext \<Rightarrow> bool" where
  "attempt_mismatch cx \<longleftrightarrow> case_option False (\<lambda>current. a_work_id current \<noteq> wi_id (cx_work cx)
     \<or> wi_kind (cx_work cx) \<noteq> WorkKind.Task) (relevant_attempt cx)"

definition declared_gate_note :: "StatusContext \<Rightarrow> GateRequirement \<Rightarrow> ReasonCode list" where
  "declared_gate_note cx declared =
     (case find (\<lambda>gate. gr_id gate = gr_id declared) (cx_gates cx) of
        None \<Rightarrow> note_if (gr_required declared) (GateMissing (gr_id declared))
      | Some actual \<Rightarrow> note_if (gr_kind actual \<noteq> gr_kind declared \<or> gr_required actual \<noteq> gr_required declared)
          (GateInvalid (gr_id declared)))"

definition duplicate_gate_step :: "GateId btree_set \<Rightarrow> GateRequirement \<Rightarrow> ReasonCode list \<times> GateId btree_set" where
  "duplicate_gate_step gate_ids gate =
     (note_if (bt_contains gate_ids (gr_id gate)) (GateInvalid (gr_id gate)), bs_insert (gr_id gate) gate_ids)"

definition gate_id_set :: "StatusContext \<Rightarrow> GateId btree_set" where
  "gate_id_set cx = foldl (\<lambda>ids gate. bs_insert (gr_id gate) ids) [] (cx_gates cx)"

definition gate_gaps :: "StatusContext \<Rightarrow> DecisionInputs option \<Rightarrow> GateId list" where
  "gate_gaps cx facts = sort_dedup
     (map gr_id (filter (\<lambda>gate. gr_required gate \<and> gr_state gate \<noteq> Satisfied
        \<and> \<not> exception_satisfies cx facts (gr_id gate)) (cx_gates cx))
      @ map gr_id (filter (\<lambda>declared. gr_required declared \<and> \<not> bt_contains (gate_id_set cx) (gr_id declared))
          (ap_gates (wi_acceptance_profile (cx_work cx)))))"

definition proof_phase :: "StatusContext \<Rightarrow> DecisionInputs option \<Rightarrow> bool" where
  "proof_phase cx facts \<longleftrightarrow> submitted facts
     \<or> case_option False (\<lambda>current. a_phase current \<in> {AttemptPhase.Verifying, AttemptPhase.Completed})
         (relevant_attempt cx)"

text \<open>The loop over the required gates pushes a hard reason for a rejected review, else a reason.\<close>

definition gate_hard_note :: "StatusContext \<Rightarrow> DecisionInputs option \<Rightarrow> GateRequirement \<Rightarrow> ReasonCode list" where
  "gate_hard_note cx facts gate = note_if (rejected_review cx facts gate) (ReasonCode.ReviewRejected (gr_id gate))"

definition gate_note :: "StatusContext \<Rightarrow> DecisionInputs option \<Rightarrow> GateRequirement \<Rightarrow> ReasonCode list" where
  "gate_note cx facts gate =
     (if \<not> gr_required gate then []
      else case gr_state gate of
          GateState.Open \<Rightarrow> note_if (proof_phase cx facts) (GateOpen (gr_id gate))
        | GateState.Failed \<Rightarrow> note_if (\<not> rejected_review cx facts gate) (GateFailed (gr_id gate))
        | Satisfied \<Rightarrow> [])"

definition hard_reasons ::
  "StatusContext \<Rightarrow> DecisionInputs option \<Rightarrow> business_decision \<Rightarrow> ReasonCode list" where
  "hard_reasons cx facts b = early_holds cx facts b
     @ note_if (attempt_mismatch cx) AttemptSubjectMismatch
     @ concat (map (declared_gate_note cx) (ap_gates (wi_acceptance_profile (cx_work cx))))
     @ notes_of duplicate_gate_step [] (cx_gates cx)
     @ concat (map (gate_hard_note cx facts) (cx_gates cx))"

section \<open>Reasons\<close>

definition is_gate_config :: "ReasonCode \<Rightarrow> bool" where
  "is_gate_config r \<longleftrightarrow> (case r of GateMissing _ \<Rightarrow> True | GateInvalid _ \<Rightarrow> True | _ \<Rightarrow> False)"

definition policy_note :: "DispatchPolicy \<Rightarrow> ReasonCode list" where
  "policy_note p = (case p of
      DispatchPolicy.Paused \<Rightarrow> [ReasonCode.Paused]
    | DispatchPolicy.OperatorOnly \<Rightarrow> [ReasonCode.OperatorOnly]
    | Automatic \<Rightarrow> [])"

definition attempt_notes :: "StatusContext \<Rightarrow> ReasonCode list" where
  "attempt_notes cx = (case relevant_attempt cx of None \<Rightarrow> []
     | Some current \<Rightarrow>
         note_if (a_lease_deadline current \<le> cx_as_of cx) ReasonCode.LeaseElapsed
         @ note_if (a_max_attempt_deadline current \<le> cx_as_of cx) ReasonCode.HardBudgetElapsed
         @ (case a_phase current of
              AttemptPhase.Claimed \<Rightarrow> [AttemptUnaccepted]
            | AttemptPhase.Accepted \<Rightarrow> [AttemptActive]
            | AttemptPhase.Running \<Rightarrow> [AttemptActive]
            | _ \<Rightarrow> []))"

definition all_reasons ::
  "StatusContext \<Rightarrow> DecisionInputs option \<Rightarrow> business_decision \<Rightarrow> ReasonCode list" where
  "all_reasons cx facts b =
     (let work = cx_work cx; hard = hard_reasons cx facts b in
      concat (map (gate_note cx facts) (cx_gates cx))
      @ wi_hard_holds work
      @ note_if (attempt_mismatch cx) AttemptSubjectMismatch
      @ filter (\<lambda>r. r \<notin> set (wi_hard_holds work) \<and> r \<noteq> AttemptSubjectMismatch \<and> \<not> is_gate_config r) hard
      @ filter is_gate_config hard
      @ open_prerequisites cx facts
      @ note_if (wi_lifecycle work = PersistedLifecycle.Draft) NotPublished
      @ policy_note (wi_dispatch_policy work)
      @ note_if (wi_kind work = WorkKind.Task \<and> ac_role (cx_actor cx) \<in> {Reviewer, Publisher})
          ReasonCode.RoleDenied
      @ map RetryNotBefore (option_list (pending_retry cx))
      @ map ScheduledStart (option_list (scheduled_at cx b))
      @ note_if (expiry_pending cx facts) ExpiryReviewRequired
      @ attempt_notes cx)"

section \<open>The primary decision\<close>

type_synonym PrimaryDecision = "DerivedStatus \<times> bool \<times> DomainAction option \<times> ReasonCode"

definition hard_reason_priority :: "ReasonCode \<Rightarrow> nat" where
  "hard_reason_priority r = (case r of
      HardHold code \<Rightarrow> if code = ''integrity_quarantined'' then 32
        else if code = ''requirements_missing'' then 33 else 30
    | ReasonCode.ReviewRejected _ \<Rightarrow> 31
    | AttemptSubjectMismatch \<Rightarrow> 32
    | GateInvalid _ \<Rightarrow> 32
    | GateMissing _ \<Rightarrow> 33
    | _ \<Rightarrow> 34)"

definition hard_key :: "ReasonCode \<Rightarrow> nat \<times> string" where
  "hard_key r = (hard_reason_priority r, stable_code r)"

text \<open>\<open>min_by\<close> keeps the first of several minimal elements.\<close>

definition select_hard_reason :: "ReasonCode list \<Rightarrow> ReasonCode option" where
  "select_hard_reason rs = (case rs of [] \<Rightarrow> None
     | r # rs \<Rightarrow> Some (foldl (\<lambda>best x. if hard_key x < hard_key best then x else best) r rs))"

definition pending_decision :: "DerivedStatus \<Rightarrow> DomainAction option \<Rightarrow> ReasonCode \<Rightarrow> PrimaryDecision" where
  "pending_decision status action reason = (status, False, action, reason)"

definition eligibility :: "WorkItem \<Rightarrow> ActorContext \<Rightarrow> PrimaryDecision" where
  "eligibility work actor =
     (if wi_dispatch_policy work = DispatchPolicy.OperatorOnly
      then let allowed = (ac_role actor = Operator) in
        (Ready, allowed, Some (if allowed then DomainAction.Claim else RequestOperatorClaim),
         ReasonCode.OperatorOnly)
      else if ac_role actor = Agent then (Ready, True, Some DomainAction.Claim, Eligible)
      else if ac_role actor = Operator then pending_decision Ready None ReasonCode.RoleDenied
      else pending_decision Ready (Some RequestOperatorClaim) ReasonCode.RoleDenied)"

definition proof_decision :: "GateRequirement list \<Rightarrow> GateId list \<Rightarrow> PrimaryDecision" where
  "proof_decision gates gaps =
     (if gaps = [] then pending_decision DerivedStatus.Complete (Some FinishClose) CloseoutPending
      else if list_all (\<lambda>i. list_ex (\<lambda>gate. gr_id gate = i \<and> gr_kind gate = GateKind.Review) gates) gaps
      then pending_decision AwaitingReview (Some RequestReview) ReasonCode.ReviewRequired
      else pending_decision NeedsVerification (Some ProvideEvidence) VerificationRequired)"

definition attempt_decision :: "StatusContext \<Rightarrow> DecisionInputs option \<Rightarrow> Attempt \<Rightarrow> PrimaryDecision run" where
  "attempt_decision cx facts current = (case a_phase current of
      AttemptPhase.Claimed \<Rightarrow>
        Return (pending_decision DerivedStatus.Claimed (Some DomainAction.AcceptAttempt) AttemptUnaccepted)
    | AttemptPhase.Accepted \<Rightarrow>
        Return (pending_decision InProgress (Some DomainAction.ResumeAttempt) AttemptActive)
    | AttemptPhase.Running \<Rightarrow>
        Return (pending_decision InProgress (Some DomainAction.ResumeAttempt) AttemptActive)
    | AttemptPhase.Verifying \<Rightarrow> Return (proof_decision (cx_gates cx) (gate_gaps cx facts))
    | AttemptPhase.Completed \<Rightarrow> Return (proof_decision (cx_gates cx) (gate_gaps cx facts))
    | AttemptPhase.Failed \<Rightarrow> Panic
    | AttemptPhase.Released \<Rightarrow> Panic
    | AttemptPhase.Cancelled \<Rightarrow> Panic
    | AttemptPhase.ExpiryPending \<Rightarrow>
        Return (pending_decision ExpiredReview (Some ReviewExpiry) ExpiryReviewRequired)
    | AttemptPhase.Expired \<Rightarrow>
        Return (pending_decision ExpiredReview (Some ReviewExpiry) ExpiryReviewRequired))"

definition failed_gate :: "GateRequirement \<Rightarrow> bool" where
  "failed_gate gate \<longleftrightarrow>
     gr_required gate \<and> gr_state gate = GateState.Failed \<and> gr_kind gate \<noteq> GateKind.Review"

definition idle_decision ::
  "StatusContext \<Rightarrow> DecisionInputs option \<Rightarrow> business_decision \<Rightarrow> PrimaryDecision" where
  "idle_decision cx facts b =
     (if submitted facts \<or> list_ex failed_gate (cx_gates cx)
      then proof_decision (cx_gates cx) (gate_gaps cx facts)
      else if wi_dispatch_policy (cx_work cx) = DispatchPolicy.Paused
      then pending_decision DerivedStatus.Paused (Some ResumePolicy) ReasonCode.Paused
      else case pending_retry cx of
          Some at \<Rightarrow> pending_decision RetryWait (Some WaitUntil) (RetryNotBefore at)
        | None \<Rightarrow> (case scheduled_at cx b of
              Some at \<Rightarrow> pending_decision Scheduled (Some WaitUntil) (ScheduledStart at)
            | None \<Rightarrow> (case open_prerequisites cx facts of
                  reason # _ \<Rightarrow> pending_decision Queued (Some WaitForPrerequisite) reason
                | [] \<Rightarrow>
                    if wi_kind (cx_work cx) \<noteq> WorkKind.Task
                    then pending_decision Queued None ContainerPlanning
                    else eligibility (cx_work cx) (cx_actor cx))))"

definition primary_decision ::
  "StatusContext \<Rightarrow> DecisionInputs option \<Rightarrow> business_decision \<Rightarrow> PrimaryDecision run" where
  "primary_decision cx facts b =
     (if wi_lifecycle (cx_work cx) = PersistedLifecycle.Closed
      then Return (pending_decision DerivedStatus.Closed None TerminalClosed)
      else if wi_lifecycle (cx_work cx) = PersistedLifecycle.Cancelled
      then Return (pending_decision DerivedStatus.Cancelled None TerminalCancelled)
      else if expiry_pending cx facts
      then Return (pending_decision ExpiredReview (Some ReviewExpiry) ExpiryReviewRequired)
      else case select_hard_reason (hard_reasons cx facts b) of
          Some reason \<Rightarrow> Return (pending_decision Blocked (Some DomainAction.ResolveHold) reason)
        | None \<Rightarrow>
            if wi_lifecycle (cx_work cx) = PersistedLifecycle.Draft
            then Return (pending_decision DerivedStatus.Draft (Some PublishWork) NotPublished)
            else (case relevant_attempt cx of
                Some current \<Rightarrow> attempt_decision cx facts current
              | None \<Rightarrow> Return (idle_decision cx facts b)))"

section \<open>The decision\<close>

definition status_timers :: "StatusContext \<Rightarrow> business_decision \<Rightarrow> TimestampMs list" where
  "status_timers cx b =
     (case live_attempt cx of None \<Rightarrow> []
      | Some current \<Rightarrow> [a_lease_deadline current, a_max_attempt_deadline current])
     @ option_list (pending_retry cx) @ option_list (scheduled_at cx b)
     @ option_list (schedule_next_change_at cx) @ option_list (business_next_change cx b)
     @ option_list (cx_external_wait_next_change_at cx)"

definition next_status_change ::
  "StatusContext \<Rightarrow> DecisionInputs option \<Rightarrow> business_decision \<Rightarrow> TimestampMs option" where
  "next_status_change cx facts b =
     (if terminal cx \<or> expiry_pending cx facts then None
      else iter_min (filter (\<lambda>at. cx_as_of cx < at) (status_timers cx b)))"

definition current_attempt_view :: "Attempt \<Rightarrow> CurrentAttempt" where
  "current_attempt_view current = \<lparr>ca_attempt_id = a_attempt_id current, ca_fence = a_fence current,
     ca_phase = a_phase current\<rparr>"

definition status_of ::
  "StatusContext \<Rightarrow> DecisionInputs option \<Rightarrow> business_decision \<Rightarrow> PrimaryDecision \<Rightarrow> StatusDecision" where
  "status_of cx facts b = (\<lambda>(display_status, claimable, action, primary).
     \<lparr>sd_work_id = wi_id (cx_work cx), sd_project_revision = cx_project_revision cx,
      sd_as_of = cx_as_of cx, sd_next_status_change_at = next_status_change cx facts b,
      sd_due_today = case_option False bv_due_today (result_ok b),
      sd_overdue = case_option False bv_overdue (result_ok b),
      sd_blocking_external_wait_ids = blocking_wait_ids cx,
      sd_follow_up_due_wait_ids = due_wait_ids cx,
      sd_display_status = display_status, sd_primary_reason = primary,
      sd_reason_codes = primary # sort_reasons (filter (\<lambda>r. r \<noteq> primary) (all_reasons cx facts b)),
      sd_claimable_for_actor = claimable, sd_next_action = action,
      sd_current_attempt = map_option current_attempt_view (relevant_attempt cx),
      sd_gate_gaps = gate_gaps cx facts,
      sd_affected_dependents = sort_dedup (cx_affected_dependents cx)\<rparr>)"

definition evaluate_status_inner :: "StatusContext \<Rightarrow> DecisionInputs option \<Rightarrow> StatusDecision run" where
  "evaluate_status_inner cx facts =
     run_bind (business_schedule_decision cx) (\<lambda>b.
       run_bind (primary_decision cx facts b) (\<lambda>primary. Return (status_of cx facts b primary)))"

definition evaluate_status :: "StatusContext \<Rightarrow> StatusDecision run" where
  "evaluate_status cx = evaluate_status_inner cx None"

definition evaluate_canonical_status :: "StatusContext \<Rightarrow> DecisionInputs \<Rightarrow> StatusDecision run" where
  "evaluate_canonical_status cx facts = evaluate_status_inner cx (Some facts)"

end
