(* ===== verification/Inputs_Facts.thy ===== *)
theory Inputs_Facts
  imports Decision_Inputs
begin

text \<open>
  What the validation of \<open>Decision_Inputs\<close> accepts: exactly the inputs whose facts are available and
  coherent with each other, stated without the loops and accumulated sets of the source.
\<close>

section \<open>Collected notes\<close>

lemma note_if_Nil [simp]: "note_if c d = [] \<longleftrightarrow> \<not> c"
  by (simp add: note_if_def)

lemma notes_of_Nil [simp]: "notes_of f s [] = []"
  by (simp add: notes_of_def)

lemma notes_of_Cons: "notes_of f s (x # xs) = fst (f s x) @ notes_of f (snd (f s x)) xs"
  by (simp add: notes_of_def Let_def case_prod_unfold)

lemma present_or_Nil: "present_or [] f v = [] \<longleftrightarrow> (\<forall>x. as_present v = Some x \<longrightarrow> f x = [])"
  by (simp add: present_or_def split: option.splits)

text \<open>A loop that checks and fills one or two sets of keys.\<close>

lemma notes_one_set:
  assumes upd: "\<And>a x. snd (f a x) = bs_insert (k x) a"
    and ok: "\<And>a x. fst (f a x) = [] \<longleftrightarrow> \<not> bt_contains a (k x) \<and> P x"
    and "bt_wf a"
  shows "notes_of f a xs = [] \<longleftrightarrow> distinct (map k xs) \<and> set (map k xs) \<inter> bs_elems a = {} \<and> (\<forall>x \<in> set xs. P x)"
  using assms(3)
proof (induction xs arbitrary: a)
  case (Cons x xs)
  then show ?case by (auto simp: notes_of_Cons upd ok bt_contains_bs bs_elems_insert)
qed simp

lemma notes_two_sets:
  assumes upd: "\<And>a b x. snd (f (a, b) x) = (bs_insert (k x) a, bs_insert (l x) b)"
    and ok: "\<And>a b x. fst (f (a, b) x) = [] \<longleftrightarrow> \<not> bt_contains a (k x) \<and> \<not> bt_contains b (l x) \<and> P x"
    and "bt_wf a" and "bt_wf b"
  shows "notes_of f (a, b) xs = [] \<longleftrightarrow> distinct (map k xs) \<and> set (map k xs) \<inter> bs_elems a = {}
     \<and> distinct (map l xs) \<and> set (map l xs) \<inter> bs_elems b = {} \<and> (\<forall>x \<in> set xs. P x)"
  using assms(3,4)
proof (induction xs arbitrary: a b)
  case (Cons x xs)
  then show ?case by (auto simp: notes_of_Cons upd ok bt_contains_bs bs_elems_insert)
qed simp

section \<open>Coherent facts\<close>

text \<open>\<open>known v P\<close>: the fact is unavailable or its value satisfies \<open>P\<close>.\<close>

definition known :: "'a Fact \<Rightarrow> ('a \<Rightarrow> bool) \<Rightarrow> bool" where
  "known v P \<longleftrightarrow> (\<forall>x. as_present v = Some x \<longrightarrow> P x)"

definition proof_identifies :: "DecisionInputs \<Rightarrow> FactKind \<Rightarrow> ProofIdentity \<Rightarrow> bool" where
  "proof_identifies i kind p \<longleftrightarrow>
     ei_project_id (pr_entity p) = ei_project_id (di_subject i)
     \<and> ei_work_id (pr_entity p) = ei_work_id (di_subject i)
     \<and> ei_revision (pr_entity p) \<le> ei_revision (di_subject i)
     \<and> (proof_is_bound p
        \<or> kind = PinnedRequirements \<and> as_present (di_submission i) = None \<and> as_present (di_review i) = None
          \<and> known (di_execution i) execution_early
        \<or> kind = Execution \<and> (\<exists>x. as_present (di_execution i) = Some x \<and> execution_early x))
     \<and> pr_proof_revision p \<noteq> 0 \<and> as_str (pi_profile_id (pr_profile p)) \<noteq> []
     \<and> pi_version (pr_profile p) \<noteq> [] \<and> as_str (pi_digest (pr_profile p)) \<noteq> [] \<and> pr_policy_version p \<noteq> []"

definition proof_agrees :: "DecisionInputs \<Rightarrow> FactKind \<Rightarrow> ProofIdentity \<Rightarrow> bool" where
  "proof_agrees i kind p \<longleftrightarrow> known (di_requirements i) (\<lambda>r.
     pr_proof_revision p = pr_proof_revision (pqi_proof r) \<and> pr_profile p = pr_profile (pqi_proof r)
     \<and> (proof_is_bound (pqi_proof r) \<longrightarrow>
          pr_configuration p = pr_configuration (pqi_proof r)
          \<and> (pr_source_snapshot p = pr_source_snapshot (pqi_proof r)
             \<or> kind = FactKind.Submission
             \<or> kind = FactKind.Review \<and> (\<exists>s. as_present (di_submission i) = Some s \<and> su_proof s = p))))"

lemma check_proof_identity_Nil: "check_proof_identity i kind subject p = [] \<longleftrightarrow> proof_identifies i kind p"
  by (auto simp: check_proof_identity_def proof_identifies_def known_def Let_def not_less split: option.splits)

lemma check_proof_context_Nil: "check_proof_context i kind p = [] \<longleftrightarrow> proof_agrees i kind p"
  by (auto simp: check_proof_context_def proof_agrees_def known_def present_or_Nil Let_def split: option.splits)

text \<open>The persisted lifecycle and the terminal decision match.\<close>

fun terminal_agrees :: "PersistedLifecycle \<Rightarrow> TerminalDecision option \<Rightarrow> bool" where
  "terminal_agrees PersistedLifecycle.Closed d \<longleftrightarrow> (\<exists>at. d = Some (TerminalDecision.Closed at))"
| "terminal_agrees PersistedLifecycle.Cancelled d \<longleftrightarrow> (\<exists>at. d = Some (TerminalDecision.Cancelled at))"
| "terminal_agrees _ d \<longleftrightarrow> d = None"

lemma terminal_contradiction_None: "terminal_contradiction l d = None \<longleftrightarrow> terminal_agrees l d"
  by (cases "(l, d)" rule: terminal_contradiction.cases) simp_all

definition requirements_coherent :: "DecisionInputs \<Rightarrow> PinnedRequirementsInput \<Rightarrow> bool" where
  "requirements_coherent i r \<longleftrightarrow> proof_identifies i PinnedRequirements (pqi_proof r)
     \<and> distinct (map pq_id (pqi_requirements r)) \<and> distinct (map pq_gate_id (pqi_requirements r))
     \<and> ((\<exists>q \<in> set (pqi_requirements r). pq_required q \<and> pq_kind q = GateKind.Review) \<longrightarrow>
          pqi_review_policy r \<noteq> NotRequired)"

definition dependency_coherent :: "DecisionInputs \<Rightarrow> DependencyOutcomeInput \<Rightarrow> bool" where
  "dependency_coherent i e \<longleftrightarrow> doi_successor e = di_subject i
     \<and> ei_project_id (doi_predecessor e) = ei_project_id (di_subject i)
     \<and> ei_work_id (doi_predecessor e) \<noteq> ei_work_id (di_subject i)
     \<and> (doi_outcome e = Waived \<longrightarrow> doi_waiver e \<noteq> None)
     \<and> (\<forall>w. doi_waiver e = Some w \<longrightarrow>
          as_str (dw_decision_id w) \<noteq> [] \<and> dw_edge_revision w = ei_revision (di_subject i))"

definition dependencies_coherent :: "DecisionInputs \<Rightarrow> DependencyOutcomeInput list \<Rightarrow> bool" where
  "dependencies_coherent i es \<longleftrightarrow> distinct (map doi_id es)
     \<and> distinct (map (\<lambda>e. ei_work_id (doi_predecessor e)) es) \<and> (\<forall>e \<in> set es. dependency_coherent i e)"

definition in_scope :: "DecisionInputs \<Rightarrow> IntegrityScope \<Rightarrow> bool" where
  "in_scope i s \<longleftrightarrow> is_project_id s = ei_project_id (di_subject i) \<and> is_work_id s = ei_work_id (di_subject i)"

definition execution_coherent :: "DecisionInputs \<Rightarrow> ExecutionInput \<Rightarrow> bool" where
  "execution_coherent i x \<longleftrightarrow> proof_identifies i Execution (xi_proof x) \<and> proof_agrees i Execution (xi_proof x)
     \<and> pr_attempt (xi_proof x) = Some (xi_attempt x) \<and> \<not> attempt_phase_is_terminal (xi_phase x)
     \<and> xi_claimed_at x \<le> xi_lease_deadline x \<and> xi_claimed_at x \<le> xi_hard_deadline x"

definition submission_coherent :: "DecisionInputs \<Rightarrow> SubmissionInput \<Rightarrow> bool" where
  "submission_coherent i s \<longleftrightarrow> proof_identifies i FactKind.Submission (su_proof s)
     \<and> proof_agrees i FactKind.Submission (su_proof s)
     \<and> known (di_execution i) (\<lambda>x. pr_attempt (su_proof s) = Some (xi_attempt x))"

definition review_coherent :: "DecisionInputs \<Rightarrow> ReviewInput \<Rightarrow> bool" where
  "review_coherent i r \<longleftrightarrow> proof_identifies i FactKind.Review (rv_proof r)
     \<and> proof_agrees i FactKind.Review (rv_proof r)
     \<and> rv_reviewer_id r \<noteq> rv_attempt_actor_id r
     \<and> rv_reviewer_authority_root r \<noteq> rv_attempt_authority_root r
     \<and> known (di_submission i) (\<lambda>s. rv_submission_id r = su_id s \<and> rv_proof r = su_proof s)"

definition recovery_coherent :: "DecisionInputs \<Rightarrow> RecoveryInput \<Rightarrow> bool" where
  "recovery_coherent i r \<longleftrightarrow> (ry_resource r = ResourceDisposition.Unknown \<longrightarrow> ry_unresolved r)
     \<and> known (di_execution i) (\<lambda>x. ry_attempt r = xi_attempt x)"

definition integrity_coherent :: "DecisionInputs \<Rightarrow> IntegrityInput \<Rightarrow> bool" where
  "integrity_coherent i g \<longleftrightarrow> in_scope i (ii_scope g)
     \<and> (ii_level g = Valid \<longrightarrow> ii_diagnostics g = []) \<and> (ii_level g = Degraded \<longrightarrow> ii_diagnostics g \<noteq> [])"

definition coherent :: "DecisionInputs \<Rightarrow> bool" where
  "coherent i \<longleftrightarrow>
     known (di_lifecycle i) (\<lambda>l. li_identity l = di_subject i
       \<and> terminal_agrees (li_lifecycle l) (li_terminal_decision l))
     \<and> known (di_authority i) (\<lambda>a. aa_project_id a = ei_project_id (di_subject i))
     \<and> known (di_requirements i) (requirements_coherent i)
     \<and> known (di_dependencies i) (dependencies_coherent i)
     \<and> known (di_holds i) (\<lambda>hs. distinct (map ho_id hs) \<and> (\<forall>h \<in> set hs. in_scope i (ho_scope h)))
     \<and> known (di_execution i) (execution_coherent i)
     \<and> known (di_submission i) (submission_coherent i)
     \<and> known (di_review i) (review_coherent i)
     \<and> known (di_recovery i) (recovery_coherent i)
     \<and> integrity_coherent i (di_integrity i)
     \<and> (\<forall>d \<in> set (pa_denied (di_permitted_actions i)). da_action d \<notin> pa_allowed (di_permitted_actions i))"

text \<open>A fact may only be missing when its absence is allowed.\<close>

definition fact_available :: "'a Fact \<Rightarrow> bool" where
  "fact_available v \<longleftrightarrow> (case v of Present _ \<Rightarrow> True | Fact.Absent d \<Rightarrow> ad_allowance d = Allowed | _ \<Rightarrow> False)"

definition facts_available :: "DecisionInputs \<Rightarrow> bool" where
  "facts_available i \<longleftrightarrow> fact_available (di_lifecycle i) \<and> fact_available (di_authority i)
     \<and> fact_available (di_requirements i) \<and> fact_available (di_dependencies i) \<and> fact_available (di_holds i)
     \<and> fact_available (di_execution i) \<and> fact_available (di_submission i) \<and> fact_available (di_review i)
     \<and> fact_available (di_recovery i)"

section \<open>Each group of diagnostics\<close>

lemma lifecycle_Nil: "lifecycle_diagnostics i = [] \<longleftrightarrow> known (di_lifecycle i) (\<lambda>l. li_identity l = di_subject i
       \<and> terminal_agrees (li_lifecycle l) (li_terminal_decision l))"
  by (auto simp: lifecycle_diagnostics_def present_or_Nil known_def terminal_contradiction_None [symmetric]
      split: option.splits)

lemma requirements_Nil: "requirements_diagnostics i = [] \<longleftrightarrow> known (di_requirements i) (requirements_coherent i)"
proof -
  have loop: "notes_of (requirement_step i) ([], []) qs = [] \<longleftrightarrow>
      distinct (map pq_id qs) \<and> distinct (map pq_gate_id qs)" for qs
    using notes_two_sets [of "requirement_step i" pq_id pq_gate_id "\<lambda>_. True" "[]" "[]" qs]
    by (simp add: requirement_step_def)
  show ?thesis
    unfolding requirements_diagnostics_def present_or_Nil known_def requirements_coherent_def
    by (auto simp: loop check_proof_identity_Nil list_ex_iff)
qed

lemma dependencies_Nil: "dependencies_diagnostics i = [] \<longleftrightarrow> known (di_dependencies i) (dependencies_coherent i)"
proof -
  have const: "distinct (map (\<lambda>e. (f e, w)) es) \<longleftrightarrow> distinct (map f es)"
    for f :: "DependencyOutcomeInput \<Rightarrow> WorkId" and w :: WorkId and es
    by (induction es) auto
  have pairs: "distinct (map (\<lambda>e. (ei_work_id (doi_predecessor e), ei_work_id (doi_successor e))) es)
      \<longleftrightarrow> distinct (map (\<lambda>e. ei_work_id (doi_predecessor e)) es)"
    if "\<forall>e \<in> set es. dependency_coherent i e" for es
  proof -
    have "map (\<lambda>e. (ei_work_id (doi_predecessor e), ei_work_id (doi_successor e))) es
        = map (\<lambda>e. (ei_work_id (doi_predecessor e), ei_work_id (di_subject i))) es"
      using that by (simp add: dependency_coherent_def)
    then show ?thesis by (simp only: const)
  qed
  have step: "fst (dependency_step i (x, y) e) = [] \<longleftrightarrow> \<not> bt_contains x (doi_id e)
      \<and> \<not> bt_contains y (ei_work_id (doi_predecessor e), ei_work_id (doi_successor e)) \<and> dependency_coherent i e"
    for x y e
    by (cases "doi_successor e = di_subject i"; cases "doi_waiver e"; cases "doi_outcome e = Waived")
       (simp_all add: dependency_step_def dependency_coherent_def Let_def)
  have "notes_of (dependency_step i) ([], []) es = [] \<longleftrightarrow> distinct (map doi_id es)
      \<and> distinct (map (\<lambda>e. (ei_work_id (doi_predecessor e), ei_work_id (doi_successor e))) es)
      \<and> (\<forall>e \<in> set es. dependency_coherent i e)" for es
    using notes_two_sets [of "dependency_step i" doi_id
        "\<lambda>e. (ei_work_id (doi_predecessor e), ei_work_id (doi_successor e))" "dependency_coherent i" "[]" "[]" es]
    unfolding step by (simp add: dependency_step_def Let_def)
  then show ?thesis
    unfolding dependencies_diagnostics_def present_or_Nil known_def dependencies_coherent_def
    using pairs by blast
qed

lemma holds_Nil: "holds_diagnostics i = [] \<longleftrightarrow>
    known (di_holds i) (\<lambda>hs. distinct (map ho_id hs) \<and> (\<forall>h \<in> set hs. in_scope i (ho_scope h)))"
proof -
  have "notes_of (hold_step i) [] hs = [] \<longleftrightarrow> distinct (map ho_id hs) \<and> (\<forall>h \<in> set hs. in_scope i (ho_scope h))" for hs
    using notes_one_set [of "hold_step i" ho_id "\<lambda>h. in_scope i (ho_scope h)" "[]" hs]
    by (simp add: hold_step_def in_scope_def)
  then show ?thesis unfolding holds_diagnostics_def present_or_Nil known_def by blast
qed

lemma execution_Nil: "execution_diagnostics i = [] \<longleftrightarrow> known (di_execution i) (execution_coherent i)"
  by (auto simp: execution_diagnostics_def present_or_Nil known_def execution_coherent_def
      check_proof_identity_Nil check_proof_context_Nil Let_def not_less)

lemma submission_Nil: "submission_diagnostics i = [] \<longleftrightarrow> known (di_submission i) (submission_coherent i)"
  by (simp add: submission_diagnostics_def present_or_Nil known_def submission_coherent_def
      check_proof_identity_Nil check_proof_context_Nil Let_def)

lemma review_Nil: "review_diagnostics i = [] \<longleftrightarrow> known (di_review i) (review_coherent i)"
  by (simp add: review_diagnostics_def present_or_Nil known_def review_coherent_def
      check_proof_identity_Nil check_proof_context_Nil Let_def)

lemma recovery_Nil: "recovery_diagnostics i = [] \<longleftrightarrow> known (di_recovery i) (recovery_coherent i)"
  by (auto simp: recovery_diagnostics_def present_or_Nil known_def recovery_coherent_def Let_def)

lemma integrity_Nil: "integrity_diagnostics i = [] \<longleftrightarrow> integrity_coherent i (di_integrity i)"
  by (auto simp: integrity_diagnostics_def integrity_coherent_def in_scope_def Let_def)

lemma structural_Nil: "structural_diagnostics i = [] \<longleftrightarrow> coherent i"
  unfolding structural_diagnostics_def append_is_Nil_conv lifecycle_Nil requirements_Nil dependencies_Nil
    holds_Nil execution_Nil submission_Nil review_Nil recovery_Nil integrity_Nil coherent_def
  by (auto simp: authority_diagnostics_def action_diagnostics_def present_or_Nil known_def)

text \<open>Every structural diagnostic blocks.\<close>

definition structural :: "DecisionDiagnostic \<Rightarrow> bool" where
  "structural d \<longleftrightarrow> (case d of DecisionDiagnostic.Fact _ \<Rightarrow> False | Integrity _ \<Rightarrow> False | _ \<Rightarrow> True)"

lemma structural_simps [simp]:
  "structural (Contradictory k s c)" "structural (IdentityMismatch k s e f)" "structural (CrossProject k s p)"
  "structural (Duplicate k s key)" "structural (ActionConflict a)"
  by (simp_all add: structural_def)

lemma structural_blocks: "structural d \<Longrightarrow> is_blocking i d"
  by (cases d) (simp_all add: structural_def is_blocking_def)

lemma all_note_if [simp]: "list_all P (note_if c d) \<longleftrightarrow> (c \<longrightarrow> P d)"
  by (simp add: note_if_def)

lemma all_notes_of:
  assumes "\<And>s x. list_all P (fst (f s x))"
  shows "list_all P (notes_of f s xs)"
  by (induction xs arbitrary: s) (simp_all add: notes_of_Cons assms)

lemma all_present_or: "(\<And>x. list_all P (f x)) \<Longrightarrow> list_all P (present_or [] f v)"
  by (simp add: present_or_def split: option.splits)

lemma structural_proofs [simp]:
  "list_all structural (check_proof_identity i kind subject p)"
  "list_all structural (check_proof_context i kind p)"
  by (simp_all add: check_proof_identity_def check_proof_context_def Let_def all_present_or)

lemma structural_all: "list_all structural (structural_diagnostics i)"
proof -
  have steps: "list_all structural (notes_of (requirement_step i) s qs)"
    "list_all structural (notes_of (dependency_step i) s' es)"
    "list_all structural (notes_of (hold_step i) s'' hs)" for s s' s'' qs es hs
    by (rule all_notes_of; simp add: requirement_step_def dependency_step_def hold_step_def case_prod_unfold Let_def)+
  have "list_all structural (lifecycle_diagnostics i)"
    by (simp add: lifecycle_diagnostics_def all_present_or split: option.splits)
  moreover have "list_all structural (authority_diagnostics i)" "list_all structural (requirements_diagnostics i)"
    "list_all structural (dependencies_diagnostics i)" "list_all structural (holds_diagnostics i)"
    by (simp_all add: authority_diagnostics_def requirements_diagnostics_def dependencies_diagnostics_def
        holds_diagnostics_def all_present_or steps)
  moreover have "list_all structural (execution_diagnostics i)" "list_all structural (submission_diagnostics i)"
    "list_all structural (review_diagnostics i)" "list_all structural (recovery_diagnostics i)"
    by (simp_all add: execution_diagnostics_def submission_diagnostics_def review_diagnostics_def
        recovery_diagnostics_def all_present_or Let_def)
  moreover have "list_all structural (integrity_diagnostics i)"
    by (simp add: integrity_diagnostics_def Let_def)
  moreover have "list_all structural (action_diagnostics i)"
    by (simp add: action_diagnostics_def list_all_iff note_if_def)
  ultimately show ?thesis by (simp add: structural_diagnostics_def)
qed

lemma collect_fact_blocking: "filter (is_blocking i) (collect_fact v) = [] \<longleftrightarrow> fact_available v"
proof -
  have "ad_allowance d = Required \<longleftrightarrow> ad_allowance d \<noteq> Allowed" for d :: AbsentDiagnostic
    by (cases "ad_allowance d") simp_all
  then show ?thesis by (cases v) (simp_all add: collect_fact_def fact_available_def is_blocking_def)
qed

section \<open>Property of the validation\<close>

text \<open>C8: The inputs of a decision are accepted exactly when they are available and coherent: every fact is present
  or allowed to be absent, integrity is not quarantined over a diagnostic, and all present facts agree
  with the subject and with each other (terminal decisions match the lifecycle, requirements, gates,
  dependencies and holds are unique and in scope, waivers are bound to the subject's revision, execution,
  submission and review are bound to one attempt and to the pinned proof, nobody reviews the own
  attempt, recovery names the current attempt, no action is both allowed and denied).\<close>

theorem decidable_iff_coherent:
  "is_decidable i \<longleftrightarrow> facts_available i \<and> coherent i
     \<and> (ii_diagnostics (di_integrity i) = [] \<or> ii_level (di_integrity i) \<in> {Valid, Degraded})"
proof -
  have structural: "filter (is_blocking i) (structural_diagnostics i) = structural_diagnostics i"
    using structural_all [of i] structural_blocks by (auto simp: filter_id_conv list_all_iff)
  have facts: "filter (is_blocking i) (fact_diagnostics i) = [] \<longleftrightarrow> facts_available i"
    by (simp only: fact_diagnostics_def filter_append append_is_Nil_conv collect_fact_blocking facts_available_def)
  have integrity: "filter (is_blocking i) (map Integrity (ii_diagnostics (di_integrity i))) = [] \<longleftrightarrow>
      ii_diagnostics (di_integrity i) = [] \<or> ii_level (di_integrity i) \<in> {Valid, Degraded}"
    by (cases "ii_level (di_integrity i)") (auto simp: filter_empty_conv is_blocking_def)
  have "is_decidable i \<longleftrightarrow> filter (is_blocking i) (inputs_diagnostics i) = []"
    by (simp add: is_decidable_def inputs_validate_def Let_def)
  then show ?thesis
    unfolding inputs_diagnostics_def filter_append append_is_Nil_conv facts structural integrity structural_Nil
    by blast
qed

end
