(* ===== verification/Status_Facts.thy ===== *)
theory Status_Facts
  imports Status_Evaluator Inputs_Facts
begin

text \<open>
  What the status decision guarantees: it never panics, work is offered for claiming exactly when every
  hold, gate, timer and prerequisite allows it, the reasons name every open obligation, and nothing
  the reader acts on changes before the announced instant.
\<close>

section \<open>The evaluator returns\<close>

lemma filter_option_Some [simp]: "filter_option P x = Some y \<longleftrightarrow> x = Some y \<and> P y"
  by (auto simp: filter_option_def split: option.splits)

lemma filter_option_None: "filter_option P x = None \<longleftrightarrow> (\<forall>y. x = Some y \<longrightarrow> \<not> P y)"
  by (auto simp: filter_option_def split: option.splits)

lemma result_ok_Some [simp]: "result_ok r = Some x \<longleftrightarrow> r = Some (Inr x)"
  by (auto simp: result_ok_def split: option.splits sum.splits)

lemma due_boundary_returns: "\<exists>r. due_boundary c overdue d = Return r"
  by (cases d) (auto simp: due_boundary_def instant_boundary_def)

lemma schedule_view_returns: "\<exists>r. evaluate_business_schedule s c closed = Return r"
proof -
  have "\<exists>r. run_bind (case bs_due s of Some d \<Rightarrow> if \<not> closed then due_boundary c overdue d else Return (Inr None)
      | None \<Rightarrow> Return (Inr None)) (\<lambda>b. Return (f b)) = Return r" for overdue and f :: "_ \<Rightarrow> ModelError + BusinessScheduleView"
    using due_boundary_returns [of c overdue "the (bs_due s)"] by (auto split: option.splits)
  then show ?thesis
    by (auto simp: evaluate_business_schedule_def Let_def not_before_boundary_eq split: sum.splits option.splits)
qed

lemma context_schedule_returns: "\<exists>r. evaluate_context_schedule cx s = Return r"
  by (auto simp: evaluate_context_schedule_def schedule_view_returns split: sum.splits option.splits)

lemma business_schedule_returns: "\<exists>b. business_schedule_decision cx = Return b"
  using context_schedule_returns [of cx "the (cx_business_schedule cx)"]
  by (auto simp: business_schedule_decision_def split: option.splits)

lemma primary_decision_returns: "\<exists>p. primary_decision cx facts b = Return p"
proof -
  have "\<exists>p. attempt_decision cx facts a = Return p" if "relevant_attempt cx = Some a" for a
    using that by (cases "a_phase a") (auto simp: attempt_decision_def relevant_attempt_def simp del: split_paired_Ex)
  then show ?thesis by (auto simp: primary_decision_def simp del: split_paired_Ex split: option.splits)
qed

lemma evaluate_iff:
  "evaluate_status_inner cx facts = Return d \<longleftrightarrow> (\<exists>b p. business_schedule_decision cx = Return b
     \<and> primary_decision cx facts b = Return p \<and> d = status_of cx facts b p)"
  by (auto simp: evaluate_status_inner_def run_bind_Return_iff)

lemma evaluate_returns: "\<exists>d. evaluate_status_inner cx facts = Return d"
  using business_schedule_returns [of cx] primary_decision_returns by (fastforce simp: evaluate_iff)

lemma sd_status_of [simp]:
  "sd_display_status (status_of cx facts b p) = fst p"
  "sd_claimable_for_actor (status_of cx facts b p) = fst (snd p)"
  "sd_next_action (status_of cx facts b p) = fst (snd (snd p))"
  "sd_primary_reason (status_of cx facts b p) = snd (snd (snd p))"
  "sd_next_status_change_at (status_of cx facts b p) = next_status_change cx facts b"
  "sd_reason_codes (status_of cx facts b p) = snd (snd (snd p))
     # sort_reasons (filter (\<lambda>r. r \<noteq> snd (snd (snd p))) (all_reasons cx facts b))"
  by (simp_all add: status_of_def case_prod_unfold)

lemma set_sort_reasons [simp]: "set (sort_reasons rs) = set rs"
  by (simp add: sort_reasons_def)

lemma sorted_sort_reasons: "sorted (map stable_code (sort_reasons rs))"
proof -
  have "sorted (map f (remdups_adj xs))" if "sorted (map f xs)" for f :: "ReasonCode \<Rightarrow> string" and xs
    using that by (induction xs rule: remdups_adj.induct) auto
  then show ?thesis by (simp add: sort_reasons_def)
qed

lemma sort_reasons_Nil [simp]: "sort_reasons rs = [] \<longleftrightarrow> rs = []"
  by (metis set_empty set_sort_reasons)

section \<open>Hard reasons\<close>

lemma select_hard_reason_None [simp]: "select_hard_reason rs = None \<longleftrightarrow> rs = []"
  by (simp add: select_hard_reason_def split: list.splits)

lemma select_hard_reason_Nil [simp]: "select_hard_reason [] = None"
  by simp

lemma select_fold:
  "(let m = foldl (\<lambda>best x. if hard_key x < hard_key best then x else best) r rs in
     m \<in> insert r (set rs) \<and> (\<forall>x \<in> insert r (set rs). hard_key m \<le> hard_key x))"
proof (induction rs arbitrary: r)
  case (Cons x rs)
  have "hard_key (if hard_key x < hard_key r then x else r) \<le> hard_key r"
    "hard_key (if hard_key x < hard_key r then x else r) \<le> hard_key x"
    by (auto simp: not_less less_imp_le)
  with Cons [of "if hard_key x < hard_key r then x else r"] show ?case
    by (auto simp: Let_def split: if_splits intro: order_trans)
qed simp

lemma select_hard_reason_Some:
  "select_hard_reason rs = Some r \<Longrightarrow> r \<in> set rs \<and> (\<forall>x \<in> set rs. hard_key r \<le> hard_key x)"
  using select_fold [of "hd rs" "tl rs"]
  by (cases rs) (auto simp: select_hard_reason_def Let_def)

text \<open>The gate rows are those of the acceptance profile.\<close>

definition gates_configured :: "StatusContext \<Rightarrow> bool" where
  "gates_configured cx \<longleftrightarrow> distinct (map gr_id (cx_gates cx))
     \<and> (\<forall>declared \<in> set (ap_gates (wi_acceptance_profile (cx_work cx))).
          case find (\<lambda>gate. gr_id gate = gr_id declared) (cx_gates cx) of
            None \<Rightarrow> \<not> gr_required declared
          | Some actual \<Rightarrow> gr_kind actual = gr_kind declared \<and> gr_required actual = gr_required declared)"

text \<open>The rows about this work item are its project's and closed.\<close>

definition wait_rows :: "StatusContext \<Rightarrow> ExternalWaitScopeInput list" where
  "wait_rows cx = filter (\<lambda>wait. xs_affected_work_id wait = wi_id (cx_work cx)) (cx_external_waits cx)"

lemma duplicate_gates_Nil:
  "notes_of duplicate_gate_step [] gates = [] \<longleftrightarrow> distinct (map gr_id gates)"
  by (subst notes_one_set [where k = gr_id and P = "\<lambda>_. True"])
    (auto simp: duplicate_gate_step_def bs_elems_def)

lemma gate_config_Nil:
  "concat (map (declared_gate_note cx) (ap_gates (wi_acceptance_profile (cx_work cx)))) = []
     \<and> notes_of duplicate_gate_step [] (cx_gates cx) = [] \<longleftrightarrow> gates_configured cx"
  by (auto simp: gates_configured_def duplicate_gates_Nil declared_gate_note_def split: option.splits)

lemma scan_wait_monotone:
  "sw_invalid s \<Longrightarrow> sw_invalid (scan_wait cx s w)"
  "set (sw_blocking s) \<subseteq> set (sw_blocking (scan_wait cx s w))"
  by (auto simp: scan_wait_def scan_follow_up_def Let_def split: option.splits)

lemma scan_waits_blocking:
  "sw_blocking (foldl (scan_wait cx) s ws) = sw_blocking s
     @ map xs_wait_id (filter (\<lambda>w. xs_project_id w = wi_project_id (cx_work cx) \<and> row_blocks w) ws)"
proof (induction ws arbitrary: s)
  case (Cons w ws)
  have "sw_blocking (scan_wait cx s w) = sw_blocking s
      @ (if xs_project_id w = wi_project_id (cx_work cx) \<and> row_blocks w then [xs_wait_id w] else [])"
    by (auto simp: scan_wait_def scan_follow_up_def Let_def split: option.splits)
  then show ?case using Cons by simp
qed simp

lemma scan_waits_clear:
  "\<not> sw_invalid (foldl (scan_wait cx) s ws) \<and> sw_blocking (foldl (scan_wait cx) s ws) = [] \<longleftrightarrow>
     \<not> sw_invalid s \<and> sw_blocking s = []
     \<and> (\<forall>w \<in> set ws. xs_project_id w = wi_project_id (cx_work cx) \<and> \<not> row_blocks w)"
proof (induction ws arbitrary: s)
  case (Cons w ws)
  have "\<not> sw_invalid (scan_wait cx s w) \<and> sw_blocking (scan_wait cx s w) = [] \<longleftrightarrow>
      \<not> sw_invalid s \<and> sw_blocking s = [] \<and> xs_project_id w = wi_project_id (cx_work cx) \<and> \<not> row_blocks w"
    by (auto simp: scan_wait_def scan_follow_up_def Let_def split: option.splits)
  then show ?case using Cons [of "scan_wait cx s w"] by auto
qed simp

lemma waits_clear:
  "\<not> sw_invalid (scan_waits cx) \<and> blocking_wait_ids cx = [] \<longleftrightarrow>
     (\<forall>w \<in> set (wait_rows cx). xs_project_id w = wi_project_id (cx_work cx) \<and> \<not> row_blocks w)"
  by (simp add: scan_waits_def blocking_wait_ids_def scan_waits_clear wait_rows_def)

section \<open>Claimable work\<close>

lemma early_holds_Nil:
  "early_holds cx facts b = [] \<longleftrightarrow> wi_hard_holds (cx_work cx) = []
     \<and> (\<forall>f. facts = Some f \<longrightarrow> is_decidable f)
     \<and> (\<forall>r. durable_recovery facts = Some r \<longrightarrow> ry_reason r = RecoveryReason.Expired)
     \<and> review_hold cx facts = [] \<and> \<not> result_is_err (schedule_decision cx) \<and> \<not> result_is_err b
     \<and> \<not> sw_invalid (scan_waits cx)"
  by (auto simp: early_holds_def split: option.splits)

lemma gate_hard_notes_Nil:
  "concat (map (gate_hard_note cx facts) (cx_gates cx)) = [] \<longleftrightarrow>
     (\<forall>gate \<in> set (cx_gates cx). \<not> rejected_review cx facts gate)"
  by (auto simp: gate_hard_note_def)

lemma review_hold_Nil:
  "\<forall>gate \<in> set (cx_gates cx). \<not> rejected_review cx facts gate \<Longrightarrow> review_hold cx facts = []"
  by (auto simp: review_hold_def list_ex_iff split: option.splits)

lemma hard_reasons_Nil:
  "hard_reasons cx facts b = [] \<longleftrightarrow> wi_hard_holds (cx_work cx) = []
     \<and> (\<forall>f. facts = Some f \<longrightarrow> is_decidable f)
     \<and> (\<forall>r. durable_recovery facts = Some r \<longrightarrow> ry_reason r = RecoveryReason.Expired)
     \<and> \<not> result_is_err (schedule_decision cx) \<and> \<not> result_is_err b \<and> \<not> sw_invalid (scan_waits cx)
     \<and> \<not> attempt_mismatch cx \<and> gates_configured cx
     \<and> (\<forall>gate \<in> set (cx_gates cx). \<not> rejected_review cx facts gate)"
  unfolding hard_reasons_def append_is_Nil_conv early_holds_Nil gate_hard_notes_Nil gate_config_Nil [symmetric]
  using review_hold_Nil [of cx facts] by auto

text \<open>Every predecessor is closed, or its edge waived.\<close>

definition dependencies_met :: "StatusContext \<Rightarrow> DecisionInputs option \<Rightarrow> bool" where
  "dependencies_met cx facts \<longleftrightarrow> (case present_fact facts di_dependencies of
     Some edges \<Rightarrow> (\<forall>edge \<in> set edges. doi_outcome edge = DependencyOutcome.Closed \<or> doi_waiver edge \<noteq> None)
   | None \<Rightarrow> (\<forall>item \<in> set (cx_prerequisites cx). wi_lifecycle item = PersistedLifecycle.Closed))"

lemma open_prerequisites_Nil:
  "open_prerequisites cx facts = [] \<longleftrightarrow> dependencies_met cx facts \<and> blocking_wait_ids cx = []"
  by (auto simp: open_prerequisites_def dependencies_met_def filter_empty_conv split: option.splits)

text \<open>No instant that delays the start lies ahead.\<close>

definition not_after :: "TimestampMs option \<Rightarrow> TimestampMs \<Rightarrow> bool" where
  "not_after t as_of \<longleftrightarrow> (\<forall>at. t = Some at \<longrightarrow> at \<le> as_of)"

text \<open>The instants of the business schedule that the evaluator can compare: a civil start date is
  compared through the civil date of the context and the start instant resolved by the caller.\<close>

definition business_start_reached :: "StatusContext \<Rightarrow> bool" where
  "business_start_reached cx \<longleftrightarrow> (\<forall>s. cx_business_schedule cx = Some s \<longrightarrow>
     (\<exists>v. evaluate_context_schedule cx s = Return (Inr v)
        \<and> (bv_available v \<or> (\<exists>date. bs_not_before s = Some (BusinessDate.LocalDate date)
              \<and> not_after (cx_business_not_before_at cx) (cx_as_of cx)))))"

definition start_reached :: "StatusContext \<Rightarrow> bool" where
  "start_reached cx \<longleftrightarrow> not_after (cx_retry_not_before cx) (cx_as_of cx)
     \<and> not_after (cx_activation_at cx) (cx_as_of cx)
     \<and> (\<forall>s. cx_schedule cx = Some s \<longrightarrow> (\<exists>decision. evaluate_schedule s (cx_as_of cx) False = Inr decision)
          \<and> not_after (ws_not_before_at s) (cx_as_of cx))
     \<and> business_start_reached cx"

definition role_claims :: "WorkItem \<Rightarrow> ActorContext \<Rightarrow> bool" where
  "role_claims work actor \<longleftrightarrow>
     wi_dispatch_policy work = DispatchPolicy.Automatic \<and> ac_role actor = Agent
     \<or> wi_dispatch_policy work = DispatchPolicy.OperatorOnly \<and> ac_role actor = Operator"

lemma eligibility_claims:
  "wi_dispatch_policy work \<noteq> DispatchPolicy.Paused \<Longrightarrow>
     fst (snd (eligibility work actor)) \<longleftrightarrow> role_claims work actor"
  by (cases "wi_dispatch_policy work"; cases "ac_role actor")
    (auto simp: eligibility_def pending_decision_def role_claims_def Let_def)

lemma eligibility_shape:
  "fst (snd (eligibility work actor)) \<Longrightarrow>
     fst (eligibility work actor) = Ready \<and> fst (snd (snd (eligibility work actor))) = Some DomainAction.Claim"
  by (auto simp: eligibility_def pending_decision_def Let_def split: if_splits)

lemma pending_not_claimable [simp]: "fst (snd (pending_decision s a r)) = False"
  by (simp add: pending_decision_def)

lemma proof_not_claimable [simp]: "fst (snd (proof_decision gates gaps)) = False"
  by (simp add: proof_decision_def)

lemma attempt_not_claimable:
  "attempt_decision cx facts a = Return p \<Longrightarrow> \<not> fst (snd p)"
  by (auto simp: attempt_decision_def split: AttemptPhase.splits)

lemma idle_claimable:
  "fst (snd (idle_decision cx facts b)) \<longleftrightarrow> \<not> submitted facts \<and> \<not> list_ex failed_gate (cx_gates cx)
     \<and> pending_retry cx = None \<and> scheduled_at cx b = None \<and> open_prerequisites cx facts = []
     \<and> wi_kind (cx_work cx) = WorkKind.Task \<and> role_claims (cx_work cx) (cx_actor cx)"
  using eligibility_claims [of "cx_work cx" "cx_actor cx"]
  by (auto simp: idle_decision_def role_claims_def split: option.splits list.splits)

lemma idle_shape:
  "fst (snd (idle_decision cx facts b)) \<Longrightarrow> fst (idle_decision cx facts b) = Ready
     \<and> fst (snd (snd (idle_decision cx facts b))) = Some DomainAction.Claim"
  using eligibility_shape [of "cx_work cx" "cx_actor cx"]
  by (auto simp: idle_decision_def split: option.splits list.splits if_splits)

lemma primary_claimable:
  assumes "primary_decision cx facts b = Return p"
  shows "fst (snd p) \<longleftrightarrow> wi_lifecycle (cx_work cx) = PersistedLifecycle.Open \<and> \<not> expiry_pending cx facts
     \<and> hard_reasons cx facts b = [] \<and> relevant_attempt cx = None \<and> fst (snd (idle_decision cx facts b))"
  using assms attempt_not_claimable [of cx facts _ p]
  by (cases "wi_lifecycle (cx_work cx)")
    (auto simp: primary_decision_def split: if_splits option.splits)

lemma primary_idle:
  "primary_decision cx facts b = Return p \<Longrightarrow> wi_lifecycle (cx_work cx) = PersistedLifecycle.Open \<Longrightarrow>
     \<not> expiry_pending cx facts \<Longrightarrow> hard_reasons cx facts b = [] \<Longrightarrow> relevant_attempt cx = None \<Longrightarrow>
     p = idle_decision cx facts b"
  by (simp add: primary_decision_def)

lemma option_list_Nil [simp]: "option_list x = [] \<longleftrightarrow> x = None"
  by (cases x) (simp_all add: option_list_def)

lemma scheduled_at_None:
  "scheduled_at cx b = None \<longleftrightarrow>
     work_schedule_at cx = None \<and> pending_activation cx = None \<and> business_not_before cx b = None"
  by (simp add: scheduled_at_def iter_min_None)

lemma work_schedule_reached:
  assumes "\<not> terminal cx"
  shows "\<not> result_is_err (schedule_decision cx) \<and> work_schedule_at cx = None \<longleftrightarrow>
     (\<forall>s. cx_schedule cx = Some s \<longrightarrow> (\<exists>decision. evaluate_schedule s (cx_as_of cx) False = Inr decision)
        \<and> not_after (ws_not_before_at s) (cx_as_of cx))"
proof (cases "cx_schedule cx")
  case None
  then show ?thesis
    by (simp add: schedule_decision_def work_schedule_at_def result_is_err_def result_ok_def filter_option_def)
next
  case (Some s)
  show ?thesis
  proof (cases "evaluate_schedule s (cx_as_of cx) False")
    case (Inl e)
    with Some assms show ?thesis by (simp add: schedule_decision_def result_is_err_def)
  next
    case (Inr decision)
    then have "sch_scheduled decision \<longleftrightarrow> \<not> not_after (ws_not_before_at s) (cx_as_of cx)"
      by (auto simp: evaluate_schedule_def Let_def not_after_def not_le split: if_splits option.splits)
    with Some Inr assms show ?thesis
      by (auto simp: schedule_decision_def work_schedule_at_def result_is_err_def result_ok_def
          filter_option_def not_after_def split: option.splits)
  qed
qed

lemma unavailable_start_ahead:
  assumes "evaluate_context_schedule cx s = Return (Inr v)" and "\<not> bv_available v"
  obtains d where "bs_not_before s = Some d" "\<And>at. instant_of d = Some at \<Longrightarrow> cx_as_of cx < at"
proof (cases "cx_business_time cx")
  case None
  with assms(1) have "v = instant_schedule_view cx s"
    by (auto simp: evaluate_context_schedule_def split: sum.splits if_splits)
  with assms(2) obtain d at where "bs_not_before s = Some d" "instant_of d = Some at" "cx_as_of cx < at"
    by (auto simp: instant_schedule_view_def Let_def not_le bind_eq_Some_conv split: option.splits)
  then show ?thesis using that by auto
next
  case (Some time)
  with assms(1) have now: "bt_as_of time = cx_as_of cx"
    and view: "evaluate_business_schedule s time (terminal cx) = Return (Inr v)"
    by (auto simp: evaluate_context_schedule_def clock_mismatch_def split: sum.splits if_splits)
  from view assms(2) have "\<not> case_option True (value_reached time) (bs_not_before s)"
    by (auto simp: evaluate_view_iff view_of_def start_part_eq)
  then obtain d where "bs_not_before s = Some d" "\<not> value_reached time d"
    by (auto split: option.splits)
  then show ?thesis using that now by (auto simp: value_reached_def split: BusinessDate.splits)
qed

lemma business_start_None:
  assumes open_work: "\<not> terminal cx" and b: "business_schedule_decision cx = Return b"
  shows "\<not> result_is_err b \<and> business_not_before cx b = None \<longleftrightarrow> business_start_reached cx"
proof (cases "cx_business_schedule cx")
  case None
  with b show ?thesis
    by (simp add: business_schedule_decision_def business_start_reached_def result_is_err_def
        business_not_before_def business_available_def filter_option_def)
next
  case (Some s)
  with b obtain r where r: "evaluate_context_schedule cx s = Return r" "b = Some r"
    by (auto simp: business_schedule_decision_def run_bind_Return_iff)
  show ?thesis
  proof (cases r)
    case (Inl e)
    with Some r show ?thesis by (simp add: business_start_reached_def result_is_err_def)
  next
    case (Inr v)
    show ?thesis
    proof (cases "bv_available v")
      case True
      with Some r Inr show ?thesis
        by (simp add: business_start_reached_def result_is_err_def business_not_before_def business_available_def
            result_ok_def)
    next
      case False
      with r Inr obtain d where d: "bs_not_before s = Some d"
        "\<And>at. instant_of d = Some at \<Longrightarrow> cx_as_of cx < at"
        using unavailable_start_ahead [of cx s v] by metis
      with Some r Inr False open_work show ?thesis
        by (cases d) (auto simp: business_start_reached_def result_is_err_def business_not_before_def
            business_available_def result_ok_def business_start_def filter_option_None not_after_def not_less)
    qed
  qed
qed

lemma start_reached_iff:
  assumes "\<not> terminal cx" and "business_schedule_decision cx = Return b"
  shows "\<not> result_is_err (schedule_decision cx) \<and> \<not> result_is_err b \<and> pending_retry cx = None
     \<and> scheduled_at cx b = None \<longleftrightarrow> start_reached cx"
  using work_schedule_reached [OF assms(1)] business_start_None [OF assms] assms(1)
  by (auto simp: scheduled_at_None start_reached_def pending_retry_def pending_activation_def
      filter_option_None not_after_def not_less)

text \<open>Nothing holds the work: no hold of its own, coherent facts, no recovery, well-configured gates
  of which none failed, no sealed submission, no current attempt, clean waits.\<close>

definition nothing_holds :: "StatusContext \<Rightarrow> DecisionInputs option \<Rightarrow> bool" where
  "nothing_holds cx facts \<longleftrightarrow> wi_hard_holds (cx_work cx) = []
     \<and> (\<forall>f. facts = Some f \<longrightarrow> is_decidable f) \<and> durable_recovery facts = None \<and> \<not> submitted facts
     \<and> relevant_attempt cx = None \<and> gates_configured cx
     \<and> (\<forall>gate \<in> set (cx_gates cx). gr_required gate \<and> gr_state gate = GateState.Failed \<longrightarrow>
          gr_kind gate = GateKind.Review \<and> exception_satisfies cx facts (gr_id gate))
     \<and> (\<forall>w \<in> set (wait_rows cx). xs_project_id w = wi_project_id (cx_work cx) \<and> \<not> row_blocks w)"

lemma no_attempt_expiry:
  "relevant_attempt cx = None \<Longrightarrow> expiry_pending cx facts \<longleftrightarrow>
     (\<exists>r. durable_recovery facts = Some r \<and> ry_reason r = RecoveryReason.Expired)"
  by (auto simp: expiry_pending_def live_attempt_def filter_option_def split: option.splits)

lemma failed_gates_split:
  "\<not> list_ex failed_gate (cx_gates cx) \<and> (\<forall>gate \<in> set (cx_gates cx). \<not> rejected_review cx facts gate) \<longleftrightarrow>
     (\<forall>gate \<in> set (cx_gates cx). gr_required gate \<and> gr_state gate = GateState.Failed \<longrightarrow>
        gr_kind gate = GateKind.Review \<and> exception_satisfies cx facts (gr_id gate))"
  by (auto simp: list_ex_iff failed_gate_def rejected_review_def)

text \<open>C1: The status evaluator is total, and it lets an actor claim work exactly when the work is an open
  task, nothing holds it, every delay of its start has been reached, every predecessor is closed or
  waived, and the actor's role fits the dispatch policy (agents for automatic work, operators for
  operator-only work, nobody for paused work); work it offers is shown as ready, with claiming as the
  next action.  A date-only business start whose civil date lies ahead delays the work only through
  the start instant the caller resolved.\<close>

theorem claimable_exact:
  "\<exists>d. evaluate_status_inner cx facts = Return d
     \<and> (sd_claimable_for_actor d \<longleftrightarrow>
          wi_lifecycle (cx_work cx) = PersistedLifecycle.Open \<and> wi_kind (cx_work cx) = WorkKind.Task
          \<and> nothing_holds cx facts \<and> start_reached cx \<and> dependencies_met cx facts
          \<and> role_claims (cx_work cx) (cx_actor cx))
     \<and> (sd_claimable_for_actor d = False
        \<or> sd_display_status d = Ready \<and> sd_next_action d = Some DomainAction.Claim)"
proof -
  obtain b where b: "business_schedule_decision cx = Return b" using business_schedule_returns by blast
  obtain p where p: "primary_decision cx facts b = Return p" using primary_decision_returns by blast
  have "fst (snd p) \<longleftrightarrow> wi_lifecycle (cx_work cx) = PersistedLifecycle.Open \<and> wi_kind (cx_work cx) = WorkKind.Task
      \<and> nothing_holds cx facts \<and> start_reached cx \<and> dependencies_met cx facts
      \<and> role_claims (cx_work cx) (cx_actor cx)"
  proof (cases "wi_lifecycle (cx_work cx) = PersistedLifecycle.Open \<and> relevant_attempt cx = None")
    case True
    then have "\<not> terminal cx" by simp
    note start = start_reached_iff [OF this b]
    have recovery: "durable_recovery facts = None \<longleftrightarrow> \<not> expiry_pending cx facts
        \<and> (\<forall>r. durable_recovery facts = Some r \<longrightarrow> ry_reason r = RecoveryReason.Expired)"
      using True by (auto simp: no_attempt_expiry)
    have subject: "\<not> attempt_mismatch cx" using True by (simp add: attempt_mismatch_def)
    show ?thesis
      unfolding primary_claimable [OF p] idle_claimable hard_reasons_Nil open_prerequisites_Nil
        nothing_holds_def waits_clear [symmetric] failed_gates_split [symmetric] recovery
        start [symmetric]
      using True subject by blast
  next
    case False
    then show ?thesis using primary_claimable [OF p] by (auto simp: nothing_holds_def)
  qed
  moreover have "fst (snd p) \<longrightarrow> fst p = Ready \<and> fst (snd (snd p)) = Some DomainAction.Claim"
    using primary_claimable [OF p] primary_idle [OF p] idle_shape [of cx facts b] by metis
  moreover have "evaluate_status_inner cx facts = Return (status_of cx facts b p)"
    using b p by (simp add: evaluate_status_inner_def)
  ultimately show ?thesis by (intro exI [of _ "status_of cx facts b p"]) (simp only: sd_status_of, blast)
qed

section \<open>Reported reasons\<close>

lemma set_note_if: "x \<in> set (note_if c d) \<longleftrightarrow> c \<and> x = d"
  by (auto simp: note_if_def)

lemma set_notes_of: "(\<And>a y z. z \<in> set (fst (f a y)) \<Longrightarrow> P z) \<Longrightarrow> z \<in> set (notes_of f s ys) \<Longrightarrow> P z"
  by (induction ys arbitrary: s) (auto simp: notes_of_Cons)

lemma mismatch_reported:
  assumes "AttemptSubjectMismatch \<in> set (hard_reasons cx facts b)"
  shows "AttemptSubjectMismatch \<in> set (wi_hard_holds (cx_work cx)) \<or> attempt_mismatch cx"
proof -
  have "AttemptSubjectMismatch \<notin> set (review_hold cx facts)"
    by (simp add: review_hold_def split: option.splits)
  moreover have "AttemptSubjectMismatch \<notin> set (declared_gate_note cx g)" for g
    by (simp add: declared_gate_note_def note_if_def split: option.splits)
  moreover have "AttemptSubjectMismatch \<notin> set (notes_of duplicate_gate_step [] (cx_gates cx))"
    by (rule notI, drule set_notes_of [of duplicate_gate_step "\<lambda>z. z \<noteq> AttemptSubjectMismatch", rotated])
      (auto simp: duplicate_gate_step_def set_note_if)
  ultimately show ?thesis
    using assms by (auto simp: hard_reasons_def early_holds_def gate_hard_note_def set_note_if)
qed

lemma hard_reasons_reported: "set (hard_reasons cx facts b) \<subseteq> set (all_reasons cx facts b)"
  using mismatch_reported [of cx facts b] by (auto simp: all_reasons_def Let_def set_note_if)

text \<open>C22: The decision reports its primary reason first and once, and after it, in the order of their stable
  codes, every other applicable fact: each hard hold, gate misconfiguration and rejected review, each
  open prerequisite and blocking wait, the pending retry and start instants and the elapsed deadlines
  of the current attempt.  For open work with a hard reason and no expired attempt the primary reason
  is one of least priority number among them.\<close>

theorem reasons_complete:
  "\<exists>d b. evaluate_status_inner cx facts = Return d \<and> business_schedule_decision cx = Return b
     \<and> (\<exists>rest. sd_reason_codes d = sd_primary_reason d # rest \<and> sd_primary_reason d \<notin> set rest
          \<and> sorted (map stable_code rest)
          \<and> set rest = set (all_reasons cx facts b) - {sd_primary_reason d})
     \<and> set (hard_reasons cx facts b) \<union> set (open_prerequisites cx facts)
         \<union> RetryNotBefore ` set (option_list (pending_retry cx))
         \<union> ScheduledStart ` set (option_list (scheduled_at cx b)) \<subseteq> set (sd_reason_codes d)
     \<and> (lifecycle_is_terminal (wi_lifecycle (cx_work cx)) \<or> expiry_pending cx facts
        \<or> hard_reasons cx facts b = []
        \<or> sd_display_status d = Blocked \<and> sd_primary_reason d \<in> set (hard_reasons cx facts b)
          \<and> hard_reason_priority (sd_primary_reason d)
              = Min (hard_reason_priority ` set (hard_reasons cx facts b)))"
proof -
  obtain b where b: "business_schedule_decision cx = Return b" using business_schedule_returns by blast
  obtain p where p: "primary_decision cx facts b = Return p" using primary_decision_returns by blast
  let ?d = "status_of cx facts b p"
  have ev: "evaluate_status_inner cx facts = Return ?d" using b p by (simp add: evaluate_status_inner_def)
  have codes: "set (sd_reason_codes ?d) = insert (sd_primary_reason ?d) (set (all_reasons cx facts b))"
    by auto
  have reported: "set (open_prerequisites cx facts) \<union> RetryNotBefore ` set (option_list (pending_retry cx))
      \<union> ScheduledStart ` set (option_list (scheduled_at cx b)) \<subseteq> set (all_reasons cx facts b)"
    by (auto simp: all_reasons_def Let_def)
  have blocked: "lifecycle_is_terminal (wi_lifecycle (cx_work cx)) \<or> expiry_pending cx facts
      \<or> hard_reasons cx facts b = []
      \<or> sd_display_status ?d = Blocked \<and> sd_primary_reason ?d \<in> set (hard_reasons cx facts b)
        \<and> hard_reason_priority (sd_primary_reason ?d)
            = Min (hard_reason_priority ` set (hard_reasons cx facts b))"
  proof (cases "select_hard_reason (hard_reasons cx facts b)")
    case (Some r)
    then have r: "r \<in> set (hard_reasons cx facts b)"
        "\<forall>x \<in> set (hard_reasons cx facts b). hard_reason_priority r \<le> hard_reason_priority x"
      using select_hard_reason_Some [OF Some] by (auto simp: hard_key_def less_eq_prod_def)
    then have "Min (hard_reason_priority ` set (hard_reasons cx facts b)) = hard_reason_priority r"
      by (intro Min_eqI) auto
    note r = r(1) this
    with r p Some show ?thesis
      by (cases "wi_lifecycle (cx_work cx)") (auto simp: primary_decision_def pending_decision_def split: if_splits)
  qed simp
  show ?thesis
    using ev b codes reported blocked hard_reasons_reported [of cx facts b]
    by (intro exI [of _ ?d] exI [of _ b]) (auto simp: sorted_sort_reasons simp del: sort_reasons_Nil)
qed

end
