(* ===== verification/Status_Timers.thy ===== *)
theory Status_Timers
  imports Status_Facts
begin

text \<open>
  The status timers: until the instant the decision announces, the same facts give the same status.
\<close>

section \<open>The same facts read later\<close>

definition at_time :: "StatusContext \<Rightarrow> TimestampMs \<Rightarrow> StatusContext" where
  "at_time cx t = cx\<lparr>cx_as_of := t,
     cx_business_time := map_option (\<lambda>c. c\<lparr>bt_as_of := t\<rparr>) (cx_business_time cx)\<rparr>"

lemma at_time_simps [simp]:
  "cx_as_of (at_time cx t) = t"
  "cx_business_time (at_time cx t) = map_option (\<lambda>c. c\<lparr>bt_as_of := t\<rparr>) (cx_business_time cx)"
  "cx_work (at_time cx t) = cx_work cx"
  "cx_prerequisites (at_time cx t) = cx_prerequisites cx"
  "cx_current_attempt (at_time cx t) = cx_current_attempt cx"
  "cx_gates (at_time cx t) = cx_gates cx"
  "cx_actor (at_time cx t) = cx_actor cx"
  "cx_retry_not_before (at_time cx t) = cx_retry_not_before cx"
  "cx_schedule (at_time cx t) = cx_schedule cx"
  "cx_business_schedule (at_time cx t) = cx_business_schedule cx"
  "cx_business_schedule_revision (at_time cx t) = cx_business_schedule_revision cx"
  "cx_business_schedule_setting_revision (at_time cx t) = cx_business_schedule_setting_revision cx"
  "cx_business_not_before_at (at_time cx t) = cx_business_not_before_at cx"
  "cx_external_waits (at_time cx t) = cx_external_waits cx"
  "cx_activation_at (at_time cx t) = cx_activation_at cx"
  by (simp_all add: at_time_def)

definition clock_agrees :: "StatusContext \<Rightarrow> bool" where
  "clock_agrees cx \<longleftrightarrow> (\<forall>c. cx_business_time cx = Some c \<longrightarrow> bt_as_of c = cx_as_of cx)"

lemma relevant_at_time [simp]: "relevant_attempt (at_time cx t) = relevant_attempt cx"
  by (simp add: relevant_attempt_def)

lemma live_at_time [simp]: "live_attempt (at_time cx t) = live_attempt cx"
  by (simp add: live_attempt_def)

lemma mismatch_at_time [simp]: "attempt_mismatch (at_time cx t) = attempt_mismatch cx"
  by (simp add: attempt_mismatch_def split: option.splits)

section \<open>External waits\<close>

lemma clock_mismatch_at_time:
  "bt_as_of c = cx_as_of cx \<Longrightarrow>
     clock_mismatch (at_time cx t) r (c\<lparr>bt_as_of := t\<rparr>) = clock_mismatch cx r c"
  by (simp add: clock_mismatch_def split: option.splits)

text \<open>Only the follow-ups that are due depend on the instant.\<close>

definition scan_core :: "WaitScan \<Rightarrow> string list \<times> bool" where
  "scan_core s = (sw_blocking s, sw_invalid s)"

lemma scan_follow_up_at_time:
  assumes "clock_agrees cx" and "scan_core s' = scan_core s"
  shows "scan_core (scan_follow_up (at_time cx t) w v s') = scan_core (scan_follow_up cx w v s)"
proof (cases "cx_business_time cx")
  case None
  with assms(2) show ?thesis by (simp add: scan_follow_up_def scan_core_def Let_def)
next
  case (Some c)
  with assms(1) have "bt_as_of c = cx_as_of cx" by (simp add: clock_agrees_def)
  with Some assms(2) show ?thesis
    by (auto simp: scan_follow_up_def scan_core_def Let_def clock_mismatch_at_time)
qed

lemma scan_wait_at_time:
  assumes "clock_agrees cx" and "scan_core s' = scan_core s"
  shows "scan_core (scan_wait (at_time cx t) s' w) = scan_core (scan_wait cx s w)"
proof -
  let ?u' = "s'\<lparr>sw_blocking := sw_blocking s' @ [xs_wait_id w]\<rparr>"
  let ?u = "s\<lparr>sw_blocking := sw_blocking s @ [xs_wait_id w]\<rparr>"
  have "scan_core (scan_follow_up (at_time cx t) w v ?u') = scan_core (scan_follow_up cx w v ?u)" for v
    using assms by (intro scan_follow_up_at_time) (simp_all add: scan_core_def)
  then show ?thesis
    using assms(2) by (simp add: scan_wait_def scan_core_def Let_def split: option.splits)
qed

lemma scan_waits_at_time:
  assumes "clock_agrees cx"
  shows "sw_blocking (scan_waits (at_time cx t)) = sw_blocking (scan_waits cx)"
    and "sw_invalid (scan_waits (at_time cx t)) = sw_invalid (scan_waits cx)"
proof -
  have "scan_core (foldl (scan_wait (at_time cx t)) s' ws) = scan_core (foldl (scan_wait cx) s ws)"
    if "scan_core s' = scan_core s" for s' s ws
    using that by (induction ws arbitrary: s' s) (simp_all add: scan_wait_at_time [OF assms])
  from this [of "\<lparr>sw_blocking = [], sw_due = [], sw_invalid = False\<rparr>"]
  have "scan_core (scan_waits (at_time cx t)) = scan_core (scan_waits cx)"
    by (simp add: scan_waits_def)
  then show "sw_blocking (scan_waits (at_time cx t)) = sw_blocking (scan_waits cx)"
    and "sw_invalid (scan_waits (at_time cx t)) = sw_invalid (scan_waits cx)"
    by (simp_all add: scan_core_def)
qed

lemma blocking_at_time: "clock_agrees cx \<Longrightarrow> blocking_wait_ids (at_time cx t) = blocking_wait_ids cx"
  by (simp add: blocking_wait_ids_def scan_waits_at_time)

lemma prerequisites_at_time:
  "clock_agrees cx \<Longrightarrow> open_prerequisites (at_time cx t) facts = open_prerequisites cx facts"
  by (simp add: open_prerequisites_def blocking_at_time cong: option.case_cong)

section \<open>Start instants\<close>

text \<open>An instant that was ahead is still ahead.\<close>

definition still_ahead :: "StatusContext \<Rightarrow> TimestampMs \<Rightarrow> TimestampMs option \<Rightarrow> bool" where
  "still_ahead cx t x \<longleftrightarrow> (\<forall>at. x = Some at \<longrightarrow> cx_as_of cx < at \<longrightarrow> t < at)"

lemma filter_ahead:
  "cx_as_of cx \<le> t \<Longrightarrow> still_ahead cx t x \<Longrightarrow>
     filter_option (\<lambda>at. t < at) x = filter_option (\<lambda>at. cx_as_of cx < at) x"
  by (auto simp: filter_option_def still_ahead_def split: option.splits)

lemma schedule_err_at_time:
  "result_is_err (schedule_decision (at_time cx t)) = result_is_err (schedule_decision cx)"
  by (simp add: schedule_decision_def result_is_err_def evaluate_schedule_def Let_def split: option.splits)

definition schedule_start :: "StatusContext \<Rightarrow> TimestampMs option" where
  "schedule_start cx = (if result_is_err (schedule_decision cx) then None
     else Option.bind (cx_schedule cx) ws_not_before_at)"

lemma work_schedule_at_eq:
  "\<not> terminal cx \<Longrightarrow> work_schedule_at cx = filter_option (\<lambda>at. cx_as_of cx < at) (schedule_start cx)"
  by (cases "cx_schedule cx"; cases "ws_not_before_at (the (cx_schedule cx))")
    (auto simp: work_schedule_at_def schedule_start_def schedule_decision_def result_is_err_def result_ok_def
      filter_option_def evaluate_schedule_def Let_def split: option.splits)

lemma schedule_start_at_time: "schedule_start (at_time cx t) = schedule_start cx"
  by (simp add: schedule_start_def schedule_err_at_time)

lemma due_part_at_time:
  "(\<exists>b. due_part s (c\<lparr>bt_as_of := t\<rparr>) closed b) \<longleftrightarrow> (\<exists>b. due_part s c closed b)"
  by (cases "bs_due s"; cases "the (bs_due s)")
    (auto simp: due_part_def due_boundary_def instant_boundary_def split: if_splits)

lemma context_valid_at_time [simp]:
  "time_context_validate (c\<lparr>bt_as_of := t\<rparr>) = time_context_validate c"
  by (simp add: time_context_validate_def)

lemma schedule_ok_at_time:
  "(\<exists>v. evaluate_business_schedule s (c\<lparr>bt_as_of := t\<rparr>) closed = Return (Inr v)) \<longleftrightarrow>
   (\<exists>v. evaluate_business_schedule s c closed = Return (Inr v))"
  using due_part_at_time [of s t c closed] by (auto simp: evaluate_view_iff)

lemma context_ok_at_time:
  assumes "clock_agrees cx"
  shows "(\<exists>v. evaluate_context_schedule (at_time cx t) s = Return (Inr v)) \<longleftrightarrow>
    (\<exists>v. evaluate_context_schedule cx s = Return (Inr v))"
proof (cases "cx_business_time cx")
  case None
  then show ?thesis by (simp add: evaluate_context_schedule_def split: sum.splits)
next
  case (Some c)
  with assms have "bt_as_of c = cx_as_of cx" by (simp add: clock_agrees_def)
  with Some show ?thesis
    using schedule_ok_at_time [of s t c "terminal cx"]
    by (auto simp: evaluate_context_schedule_def clock_mismatch_at_time split: sum.splits)
qed

lemma business_err_at_time:
  assumes "clock_agrees cx" and "business_schedule_decision cx = Return b"
    and "business_schedule_decision (at_time cx t) = Return b'"
  shows "result_is_err b' = result_is_err b"
proof (cases "cx_business_schedule cx")
  case None
  with assms(2,3) show ?thesis by (simp add: business_schedule_decision_def)
next
  case (Some s)
  with assms(2,3) obtain r r' where r: "evaluate_context_schedule cx s = Return r" "b = Some r"
    and r': "evaluate_context_schedule (at_time cx t) s = Return r'" "b' = Some r'"
    by (auto simp: business_schedule_decision_def run_bind_Return_iff)
  with context_ok_at_time [OF assms(1), of t s] show ?thesis
    by (cases r; cases r') (auto simp: result_is_err_def)
qed

text \<open>The instant at which a business schedule starts, as the evaluator sees it.\<close>

definition civil_start_ahead :: "StatusContext \<Rightarrow> LocalDate \<Rightarrow> bool" where
  "civil_start_ahead cx date \<longleftrightarrow> (case cx_business_time cx of
     Some c \<Rightarrow> date_key (bt_civil_date c) < date_key date | None \<Rightarrow> False)"

definition business_start_at :: "StatusContext \<Rightarrow> TimestampMs option" where
  "business_start_at cx = (case Option.bind (cx_business_schedule cx) bs_not_before of
       None \<Rightarrow> None
     | Some (BusinessDate.LocalDate date) \<Rightarrow>
         if civil_start_ahead cx date then cx_business_not_before_at cx else None
     | Some d \<Rightarrow> instant_of d)"

lemma civil_start_at_time [simp]: "civil_start_ahead (at_time cx t) date = civil_start_ahead cx date"
  by (simp add: civil_start_ahead_def split: option.splits)

lemma business_start_at_time [simp]: "business_start_at (at_time cx t) = business_start_at cx"
  by (simp add: business_start_at_def split: option.splits BusinessDate.splits)

lemma context_available:
  assumes "evaluate_context_schedule cx s = Return (Inr v)"
  shows "bv_available v \<longleftrightarrow> (case bs_not_before s of None \<Rightarrow> True
    | Some (BusinessDate.LocalDate date) \<Rightarrow> \<not> civil_start_ahead cx date
    | Some d \<Rightarrow> case_option True (\<lambda>at. at \<le> cx_as_of cx) (instant_of d))"
proof (cases "cx_business_time cx")
  case None
  with assms have "v = instant_schedule_view cx s" "\<not> schedule_requires_project_clock s"
    by (auto simp: evaluate_context_schedule_def split: sum.splits if_splits)
  with None show ?thesis
    by (auto simp: instant_schedule_view_def Let_def schedule_requires_project_clock_def civil_start_ahead_def
        split: option.splits BusinessDate.splits)
next
  case (Some c)
  with assms have "bt_as_of c = cx_as_of cx"
    and "evaluate_business_schedule s c (terminal cx) = Return (Inr v)"
    by (auto simp: evaluate_context_schedule_def clock_mismatch_def split: sum.splits if_splits)
  with Some show ?thesis
    by (auto simp: evaluate_view_iff view_of_def start_part_eq value_reached_def civil_start_ahead_def not_less
        split: option.splits BusinessDate.splits)
qed

lemma business_not_before_eq:
  assumes "\<not> terminal cx" and "business_schedule_decision cx = Return b" and "\<not> result_is_err b"
  shows "business_not_before cx b = filter_option (\<lambda>at. cx_as_of cx < at) (business_start_at cx)"
proof (cases "cx_business_schedule cx")
  case None
  with assms(2) show ?thesis
    by (auto simp: business_schedule_decision_def business_not_before_def business_start_at_def
        business_available_def result_ok_def filter_option_def)
next
  case (Some s)
  with assms(2,3) obtain v where v: "evaluate_context_schedule cx s = Return (Inr v)" "b = Some (Inr v)"
    by (auto simp: business_schedule_decision_def run_bind_Return_iff result_is_err_def split: sum.splits)
  show ?thesis
  proof (cases "bs_not_before s")
    case None
    with Some v assms(1) context_available [OF v(1)] show ?thesis
      by (simp add: business_not_before_def business_start_at_def business_available_def result_ok_def filter_option_def)
  next
    case (Some d)
    with \<open>cx_business_schedule cx = Some s\<close> v assms(1) context_available [OF v(1)] show ?thesis
      by (cases d) (auto simp: business_not_before_def business_start_at_def business_available_def
          result_ok_def filter_option_def business_start_def not_le)
  qed
qed

lemma business_err_not_before: "result_is_err b \<Longrightarrow> business_not_before cx b = None"
  by (auto simp: result_is_err_def business_not_before_def business_available_def result_ok_def
      split: option.splits sum.splits)

lemma in_option_list [simp]: "u \<in> set (option_list x) \<longleftrightarrow> x = Some u"
  by (cases x) (auto simp: option_list_def)

section \<open>The announced instant\<close>

lemma timers_ahead:
  assumes quiet: "\<forall>n. next_status_change cx facts b = Some n \<longrightarrow> t < n"
    and active: "\<not> terminal cx" "\<not> expiry_pending cx facts"
    and u: "u \<in> set (status_timers cx b)" "cx_as_of cx < u"
  shows "t < u"
proof (rule iter_min_quiet)
  show "u \<in> set (filter (\<lambda>at. cx_as_of cx < at) (status_timers cx b))" using u by simp
  show "\<forall>n. iter_min (filter (\<lambda>at. cx_as_of cx < at) (status_timers cx b)) = Some n \<longrightarrow> t < n"
    using quiet active by (auto simp: next_status_change_def)
qed

lemma starts_ahead:
  assumes quiet: "\<forall>n. next_status_change cx facts b = Some n \<longrightarrow> t < n"
    and active: "\<not> terminal cx" "\<not> expiry_pending cx facts"
    and x: "filter_option (\<lambda>at. cx_as_of cx < at) x
       \<in> {work_schedule_at cx, pending_activation cx, business_not_before cx b}"
  shows "still_ahead cx t x"
  unfolding still_ahead_def
proof (intro allI impI)
  fix at assume at: "x = Some at" "cx_as_of cx < at"
  let ?starts = "option_list (work_schedule_at cx) @ option_list (pending_activation cx)
      @ option_list (business_not_before cx b)"
  have ahead: "cx_as_of cx < u" if "u \<in> set ?starts" for u
    using that by (auto simp: work_schedule_at_def pending_activation_def business_not_before_def split: if_splits)
  have mem: "at \<in> set ?starts"
    using x at by (auto simp: filter_option_def)
  then obtain m where m: "iter_min ?starts = Some m"
    using iter_min_None [of ?starts] by (cases "iter_min ?starts") auto
  from iter_min_Some [OF m] mem ahead have "m \<le> at" "cx_as_of cx < m" by auto
  moreover have "m \<in> set (status_timers cx b)" using m by (simp add: status_timers_def scheduled_at_def)
  ultimately show "t < at" using timers_ahead [OF quiet active] by (blast intro: less_le_trans)
qed

lemma expiry_at_time:
  assumes quiet: "\<forall>n. next_status_change cx facts b = Some n \<longrightarrow> t < n"
    and later: "cx_as_of cx \<le> t" and active: "\<not> terminal cx"
  shows "expiry_pending (at_time cx t) facts = expiry_pending cx facts"
proof (cases "expiry_pending cx facts")
  case True
  have "expiry_reason a t \<noteq> None" if "expiry_reason a (cx_as_of cx) \<noteq> None" for a
    using that later by (auto simp: expiry_reason_def split: if_splits)
  with True show ?thesis
    by (auto simp: expiry_pending_def bind_eq_Some_conv split: option.splits)
next
  case False
  have "expiry_reason a t = None" if a: "live_attempt cx = Some a" for a
  proof -
    have "expiry_reason a (cx_as_of cx) = None" using False a by (simp add: expiry_pending_def)
    then have "cx_as_of cx < a_lease_deadline a" "cx_as_of cx < a_max_attempt_deadline a"
      by (auto simp: expiry_reason_def not_le split: if_splits)
    moreover have "a_lease_deadline a \<in> set (status_timers cx b)" "a_max_attempt_deadline a \<in> set (status_timers cx b)"
      using a by (simp_all add: status_timers_def)
    ultimately have "t < a_lease_deadline a" "t < a_max_attempt_deadline a"
      using timers_ahead [OF quiet active False] by blast+
    then show ?thesis by (simp add: expiry_reason_def not_le)
  qed
  with False show ?thesis
    by (cases "live_attempt cx") (simp_all add: expiry_pending_def)
qed

lemma scheduled_at_time:
  assumes quiet: "\<forall>n. next_status_change cx facts b = Some n \<longrightarrow> t < n"
    and later: "cx_as_of cx \<le> t" and active: "\<not> terminal cx" "\<not> expiry_pending cx facts"
    and clock: "clock_agrees cx" and b: "business_schedule_decision cx = Return b"
    and b': "business_schedule_decision (at_time cx t) = Return b'"
  shows "scheduled_at (at_time cx t) b' = scheduled_at cx b"
proof -
  note ahead = filter_ahead [OF later starts_ahead [OF quiet active]]
  have open_later: "\<not> terminal (at_time cx t)" using active by simp
  have work: "work_schedule_at (at_time cx t) = work_schedule_at cx"
    using ahead [of "schedule_start cx"] work_schedule_at_eq [OF active(1)] work_schedule_at_eq [OF open_later]
    by (simp add: schedule_start_at_time)
  have activation: "pending_activation (at_time cx t) = pending_activation cx"
    using ahead [of "cx_activation_at cx"] active by (simp add: pending_activation_def)
  have "business_not_before (at_time cx t) b' = business_not_before cx b"
  proof (cases "result_is_err b")
    case True
    with business_err_at_time [OF clock b b'] show ?thesis by (simp add: business_err_not_before)
  next
    case False
    with business_err_at_time [OF clock b b'] business_not_before_eq [OF active(1) b]
      business_not_before_eq [OF open_later b'] ahead [of "business_start_at cx"]
    show ?thesis by simp
  qed
  with work activation show ?thesis by (simp add: scheduled_at_def)
qed

lemma retry_at_time:
  assumes quiet: "\<forall>n. next_status_change cx facts b = Some n \<longrightarrow> t < n"
    and later: "cx_as_of cx \<le> t" and active: "\<not> terminal cx" "\<not> expiry_pending cx facts"
  shows "pending_retry (at_time cx t) = pending_retry cx"
proof -
  have "t < at" if "cx_retry_not_before cx = Some at" "cx_as_of cx < at" for at
    using that by (intro timers_ahead [OF quiet active]) (simp_all add: status_timers_def pending_retry_def filter_option_def)
  then show ?thesis
    using filter_ahead [OF later, of "cx_retry_not_before cx"] by (simp add: pending_retry_def still_ahead_def)
qed

section \<open>Gates\<close>

definition exceptions_stay :: "StatusContext \<Rightarrow> DecisionInputs option \<Rightarrow> TimestampMs \<Rightarrow> bool" where
  "exceptions_stay cx facts t \<longleftrightarrow>
     exception_satisfies (at_time cx t) facts = exception_satisfies cx facts"

lemma gates_at_time:
  assumes "exceptions_stay cx facts t"
  shows "gate_gaps (at_time cx t) facts = gate_gaps cx facts"
    and "rejected_review (at_time cx t) facts = rejected_review cx facts"
  using assms by (simp_all add: exceptions_stay_def gate_gaps_def rejected_review_def [abs_def] gate_id_set_def)

lemma hard_reasons_at_time:
  assumes "exceptions_stay cx facts t" and "clock_agrees cx" and "result_is_err b' = result_is_err b"
  shows "hard_reasons (at_time cx t) facts b' = hard_reasons cx facts b"
  using assms gates_at_time [OF assms(1)]
  by (simp add: hard_reasons_def early_holds_def review_hold_def schedule_err_at_time scan_waits_at_time
      declared_gate_note_def [abs_def] gate_hard_note_def [abs_def] cong: option.case_cong)

lemma attempt_decision_at_time:
  "exceptions_stay cx facts t \<Longrightarrow> attempt_decision (at_time cx t) facts a = attempt_decision cx facts a"
  by (simp add: attempt_decision_def gates_at_time cong: AttemptPhase.case_cong)

lemma primary_at_time:
  assumes quiet: "\<forall>n. next_status_change cx facts b = Some n \<longrightarrow> t < n"
    and later: "cx_as_of cx \<le> t" and stay: "exceptions_stay cx facts t" and clock: "clock_agrees cx"
    and b: "business_schedule_decision cx = Return b"
    and b': "business_schedule_decision (at_time cx t) = Return b'"
  shows "primary_decision (at_time cx t) facts b' = primary_decision cx facts b"
proof (cases "terminal cx")
  case True
  then show ?thesis by (cases "wi_lifecycle (cx_work cx)") (simp_all add: primary_decision_def)
next
  case False
  note expiry = expiry_at_time [OF quiet later False]
  show ?thesis
  proof (cases "expiry_pending cx facts")
    case True
    with False expiry show ?thesis by (simp add: primary_decision_def)
  next
    case no_expiry: False
    have "idle_decision (at_time cx t) facts b' = idle_decision cx facts b"
      using scheduled_at_time [OF quiet later False no_expiry clock b b'] retry_at_time [OF quiet later False no_expiry]
      by (simp add: idle_decision_def gates_at_time [OF stay] prerequisites_at_time [OF clock]
          cong: option.case_cong list.case_cong)
    moreover have "hard_reasons (at_time cx t) facts b' = hard_reasons cx facts b"
      by (rule hard_reasons_at_time [OF stay clock business_err_at_time [OF clock b b']])
    ultimately show ?thesis
      using expiry by (simp add: primary_decision_def attempt_decision_at_time [OF stay] cong: option.case_cong)
  qed
qed

text \<open>C6: Until the instant a status decision announces as its next change, the same facts read on the same
  civil date give the same display status, primary reason, claimability, next action and gate gaps,
  provided that no requirement exception expires in between: such an expiry is the one clock the
  decision depends on and does not announce.\<close>

theorem status_until_next_change:
  assumes ev: "evaluate_status_inner cx facts = Return d" and later: "cx_as_of cx \<le> t"
    and quiet: "\<forall>n. sd_next_status_change_at d = Some n \<longrightarrow> t < n"
    and clock: "clock_agrees cx" and stay: "exceptions_stay cx facts t"
  shows "\<exists>d'. evaluate_status_inner (at_time cx t) facts = Return d' \<and> sd_as_of d' = t
     \<and> sd_display_status d' = sd_display_status d \<and> sd_primary_reason d' = sd_primary_reason d
     \<and> sd_claimable_for_actor d' = sd_claimable_for_actor d \<and> sd_next_action d' = sd_next_action d
     \<and> sd_gate_gaps d' = sd_gate_gaps d"
proof -
  from ev obtain b p where b: "business_schedule_decision cx = Return b"
    and p: "primary_decision cx facts b = Return p" and d: "d = status_of cx facts b p"
    by (auto simp: evaluate_iff)
  obtain b' where b': "business_schedule_decision (at_time cx t) = Return b'"
    using business_schedule_returns by blast
  have "primary_decision (at_time cx t) facts b' = Return p"
    using primary_at_time [OF _ later stay clock b b'] quiet p by (simp add: d)
  with b' have "evaluate_status_inner (at_time cx t) facts = Return (status_of (at_time cx t) facts b' p)"
    by (simp add: evaluate_status_inner_def)
  then show ?thesis
    by (simp add: d) (simp add: status_of_def case_prod_unfold gates_at_time [OF stay])
qed

definition sample_open_task :: WorkItem where
  "sample_open_task = work_item_open (work_item_new (Ident ''P'') (Ident ''w'') WorkKind.Task None ''T'')"

definition sample_status_context :: "TimestampMs \<Rightarrow> StatusContext" where
  "sample_status_context t = context_new sample_open_task [] None (ap_gates (wi_acceptance_profile sample_open_task))
     \<lparr>ac_actor_id = Ident ''a'', ac_role = Agent\<rparr> t (1)
     \<lparr>cx_retry_not_before := Some 300, cx_activation_at := Some 500\<rparr>"

theorem status_until_next_change_witness:
  "\<exists>d'. evaluate_status_inner (at_time (sample_status_context 100) 200) None = Return d'
     \<and> sd_display_status d' = RetryWait \<and> \<not> sd_claimable_for_actor d'"
proof -
  let ?c = "sample_status_context 100"
  obtain d where d: "evaluate_status_inner ?c None = Return d" using evaluate_returns by blast
  have bs: "business_schedule_decision ?c = Return None"
    by (simp add: business_schedule_decision_def sample_status_context_def context_new_def)
  have "next_status_change ?c None None = Some 300 \<and> (case primary_decision ?c None None of
      Return p \<Rightarrow> fst p = RetryWait \<and> \<not> fst (snd p) | _ \<Rightarrow> False)"
    by code_simp
  then have now: "sd_next_status_change_at d = Some 300" "sd_display_status d = RetryWait"
    "\<not> sd_claimable_for_actor d"
    using d bs by (auto simp: evaluate_iff split: run.splits)
  have "cx_as_of ?c \<le> 200" "clock_agrees ?c" "exceptions_stay ?c None 200"
    by (simp_all add: sample_status_context_def context_new_def clock_agrees_def exceptions_stay_def
        exception_satisfies_def [abs_def])
  moreover have "\<forall>n. sd_next_status_change_at d = Some n \<longrightarrow> 200 < n" using now by simp
  ultimately show ?thesis using status_until_next_change [OF d, of 200] now by auto
qed

text \<open>The announced instant does not look at the requirements, so it cannot announce the expiry of a
  requirement exception.\<close>

lemma timers_ignore_requirements:
  "next_status_change cx (Some (f\<lparr>di_requirements := r\<rparr>)) b = next_status_change cx (Some f) b"
  by (simp add: next_status_change_def expiry_pending_def durable_recovery_def)

end
