(* ===== verification/Acceptance.thy ===== *)
theory Acceptance
  imports Decision_Inputs
begin

text \<open>
  The interpretation of pinned requirements, evidence, reviews and exceptions
  (\<open>crates/domain/src/acceptance.rs\<close>).  The diagnostics are collected in the order the source pushes
  them; an \<open>unreachable!\<close> is a \<open>Panic\<close>.
\<close>

section \<open>Subjects\<close>

datatype evidence_tag = EvidenceTag
datatype closeout_tag = CloseoutTag
datatype exception_tag = ExceptionTag

type_synonym EvidenceId = "evidence_tag ident"
type_synonym CloseoutId = "closeout_tag ident"
type_synonym ExceptionId = "exception_tag ident"

datatype ProofContext =
    TaskAttempt AttemptIdentity
  | ContainerCloseout CloseoutId EntityRevision

definition context_task :: "AttemptIdentity \<Rightarrow> ProofContext" where
  "context_task attempt = TaskAttempt attempt"

definition context_container :: "CloseoutId \<Rightarrow> EntityRevision \<Rightarrow> ProofContext" where
  "context_container closeout_id scope_revision = ContainerCloseout closeout_id scope_revision"

definition context_is_task :: "ProofContext \<Rightarrow> bool" where
  "context_is_task c \<longleftrightarrow> (case c of TaskAttempt _ \<Rightarrow> True | _ \<Rightarrow> False)"

definition context_is_container :: "ProofContext \<Rightarrow> bool" where
  "context_is_container c \<longleftrightarrow> (case c of ContainerCloseout _ _ \<Rightarrow> True | _ \<Rightarrow> False)"

record AcceptanceSubject =
  sj_proof :: ProofIdentity
  sj_context :: ProofContext

datatype SubjectValidationError = TaskProofMustBindAttempt | ContainerProofCannotBindAttempt

definition acceptance_task ::
  "ProofIdentity \<Rightarrow> AttemptIdentity \<Rightarrow> SubjectValidationError + AcceptanceSubject" where
  "acceptance_task proof attempt =
     (if pr_attempt proof \<noteq> Some attempt then Inl TaskProofMustBindAttempt
      else Inr \<lparr>sj_proof = proof, sj_context = TaskAttempt attempt\<rparr>)"

definition acceptance_container ::
  "ProofIdentity \<Rightarrow> CloseoutId \<Rightarrow> EntityRevision \<Rightarrow> SubjectValidationError + AcceptanceSubject" where
  "acceptance_container proof closeout_id scope_revision =
     (if pr_attempt proof \<noteq> None then Inl ContainerProofCannotBindAttempt
      else Inr \<lparr>sj_proof = proof, sj_context = ContainerCloseout closeout_id scope_revision\<rparr>)"

definition subject_project_id :: "AcceptanceSubject \<Rightarrow> ProjectId" where
  "subject_project_id s = ei_project_id (pr_entity (sj_proof s))"

definition subject_work_id :: "AcceptanceSubject \<Rightarrow> WorkId" where
  "subject_work_id s = ei_work_id (pr_entity (sj_proof s))"

definition subject_is_task :: "AcceptanceSubject \<Rightarrow> bool" where
  "subject_is_task s \<longleftrightarrow> context_is_task (sj_context s)"

definition subject_is_container :: "AcceptanceSubject \<Rightarrow> bool" where
  "subject_is_container s \<longleftrightarrow> context_is_container (sj_context s)"

definition same_work_and_attempt :: "AcceptanceSubject \<Rightarrow> AcceptanceSubject \<Rightarrow> bool" where
  "same_work_and_attempt s other \<longleftrightarrow>
     ei_project_id (pr_entity (sj_proof s)) = ei_project_id (pr_entity (sj_proof other))
     \<and> ei_work_id (pr_entity (sj_proof s)) = ei_work_id (pr_entity (sj_proof other))
     \<and> (case (sj_context s, sj_context other) of
          (TaskAttempt _, TaskAttempt _) \<Rightarrow> True
        | (ContainerCloseout _ _, ContainerCloseout _ _) \<Rightarrow> True
        | _ \<Rightarrow> False)"

section \<open>Declarations\<close>

record RequirementReference =
  rqr_id :: RequirementId
  rqr_gate_id :: GateId
  rqr_kind :: GateKind
  rqr_profile :: ProfileIdentity
  rqr_declaration_digest :: ContentDigest

datatype RequirementPurpose = TaskProof | ContainerScope | CloseoutSummary

record RequirementDeclarationBody =
  rbd_reference :: RequirementReference
  rbd_subject :: AcceptanceSubject
  rbd_purpose :: RequirementPurpose
  rbd_required :: bool
  rbd_verifier_policy :: VerifierPolicy
  rbd_required_observables :: "string btree_set"
  rbd_review_policy :: ReviewRequirementPolicy

datatype RequirementDeclaration =
    Present RequirementDeclarationBody
  | Deleted RequirementReference
  | Mismatched RequirementReference RequirementReference

definition declaration_present :: "RequirementDeclarationBody \<Rightarrow> RequirementDeclaration" where
  "declaration_present body = RequirementDeclaration.Present body"

definition declaration_deleted :: "RequirementReference \<Rightarrow> RequirementDeclaration" where
  "declaration_deleted expected = RequirementDeclaration.Deleted expected"

definition declaration_mismatched ::
  "RequirementReference \<Rightarrow> RequirementReference \<Rightarrow> RequirementDeclaration" where
  "declaration_mismatched expected seen = RequirementDeclaration.Mismatched expected seen"

primrec declaration_reference :: "RequirementDeclaration \<Rightarrow> RequirementReference" where
  "declaration_reference (RequirementDeclaration.Present body) = rbd_reference body"
| "declaration_reference (RequirementDeclaration.Deleted expected) = expected"
| "declaration_reference (RequirementDeclaration.Mismatched expected seen) = expected"

section \<open>Evidence, reviews and exceptions\<close>

datatype EvidenceFailureReason = NonZeroExit | VerifierRejected | UnknownOutcome

datatype EvidenceDisposition = Current | Superseded | Revoked | Late

datatype EvidenceResult = Passed | Failed EvidenceFailureReason | Stale | Altered

record EvidenceObservation =
  evo_id :: EvidenceId
  evo_requirement :: RequirementReference
  evo_subject :: AcceptanceSubject
  evo_observed_at :: TimestampMs
  evo_result :: EvidenceResult
  evo_disposition :: EvidenceDisposition
  evo_observables :: "string btree_set"
  evo_artifact_digest :: "ContentDigest option"
  evo_attested :: bool

datatype ReviewVerdict = Pending | Approved | Rejected | Returned | Revoked

record ReviewDecision =
  rvd_id :: ReviewId
  rvd_requirement :: RequirementReference
  rvd_subject :: AcceptanceSubject
  rvd_submission_id :: SubmissionId
  rvd_reviewer_id :: ActorId
  rvd_reviewer_role :: ActorRole
  rvd_attempt_actor_id :: ActorId
  rvd_outcome :: ReviewVerdict
  rvd_decided_at :: TimestampMs
  rvd_reason :: string

primrec exception_reason_code :: "ExceptionReason \<Rightarrow> string" where
  "exception_reason_code RiskAccepted = ''risk_accepted''"
| "exception_reason_code ExternalEvidence = ''external_evidence''"
| "exception_reason_code SupersededWork = ''superseded_work''"
| "exception_reason_code DuplicateWork = ''duplicate_work''"
| "exception_reason_code MigrationDisposition = ''migration_disposition''"

record ForceException =
  fex_id :: ExceptionId
  fex_requirement :: RequirementReference
  fex_subject :: AcceptanceSubject
  fex_actor_id :: ActorId
  fex_actor_role :: ActorRole
  fex_reason :: ExceptionReason
  fex_comment :: string
  fex_expires_at :: "TimestampMs option"
  fex_revoked :: bool

section \<open>Assessments\<close>

datatype DeclarationProblem = Missing | Deleted | Mismatched | Duplicate | WrongSubject

datatype StaleProofReason = Superseded | Late | SubjectRevision | ProofRevision | AttemptFence

datatype IrrelevantProofReason = ForeignWork | WrongGate | WrongProfile | WrongContext

datatype ReviewState =
    Missing
  | Pending ReviewId
  | Approved ReviewId
  | Rejected ReviewId
  | Returned ReviewId
  | Revoked ReviewId
  | SelfReviewRejected ReviewId
  | Unauthorized ReviewId
  | Irrelevant ReviewId

datatype RawRequirementState =
    Missing
  | Passed EvidenceId
  | Failed EvidenceId EvidenceFailureReason
  | Stale EvidenceId StaleProofReason
  | Altered EvidenceId
  | Irrelevant EvidenceId IrrelevantProofReason
  | Declaration DeclarationProblem
  | Review ReviewState

definition is_unsatisfied :: "RawRequirementState \<Rightarrow> bool" where
  "is_unsatisfied raw \<longleftrightarrow> (case raw of
      RawRequirementState.Passed _ \<Rightarrow> False
    | RawRequirementState.Review (ReviewState.Approved _) \<Rightarrow> False
    | _ \<Rightarrow> True)"

primrec raw_evidence_id :: "RawRequirementState \<Rightarrow> EvidenceId option" where
  "raw_evidence_id RawRequirementState.Missing = None"
| "raw_evidence_id (RawRequirementState.Passed i) = Some i"
| "raw_evidence_id (RawRequirementState.Failed i _) = Some i"
| "raw_evidence_id (RawRequirementState.Stale i _) = Some i"
| "raw_evidence_id (RawRequirementState.Altered i) = Some i"
| "raw_evidence_id (RawRequirementState.Irrelevant i _) = Some i"
| "raw_evidence_id (RawRequirementState.Declaration _) = None"
| "raw_evidence_id (RawRequirementState.Review _) = None"

datatype EffectiveRequirementState =
    Satisfied
  | SatisfiedByException ExceptionId
  | Unsatisfied
  | NotRequired

definition effective_is_satisfied :: "EffectiveRequirementState \<Rightarrow> bool" where
  "effective_is_satisfied e \<longleftrightarrow> (case e of
      EffectiveRequirementState.Satisfied \<Rightarrow> True | SatisfiedByException _ \<Rightarrow> True | _ \<Rightarrow> False)"

record RequirementAssessment =
  ras_reference :: RequirementReference
  ras_purpose :: RequirementPurpose
  ras_required :: bool
  ras_raw :: RawRequirementState
  ras_effective :: EffectiveRequirementState
  ras_exception_id :: "ExceptionId option"

datatype ExceptionInvalidReason = WrongRole | EmptyComment | Expired | Revoked | WrongRequirement
  | WrongSubject

datatype AcceptanceDiagnostic =
    EmptyRequirementSet
  | Declaration RequirementReference DeclarationProblem
  | DeclarationMismatch RequirementReference RequirementReference
  | WrongRequirementSubject RequirementId
  | DuplicateRequirement RequirementId
  | DuplicateEvidence EvidenceId
  | DuplicateReview ReviewId
  | IrrelevantEvidence EvidenceId IrrelevantProofReason
  | StaleEvidence EvidenceId StaleProofReason
  | AlteredEvidence EvidenceId
  | SelfReviewRejected ReviewId
  | ReviewUnauthorized ReviewId
  | ReviewRejected ReviewId
  | ReviewReturned ReviewId
  | ReviewRevoked ReviewId
  | InvalidException ExceptionId ExceptionInvalidReason
  | InvalidCloseoutRequirement RequirementId

datatype CloseoutKind = Task | Container

datatype ContainerAttemptPolicy = Forbidden

datatype CloseoutAssessment =
    Task "RequirementId list" "RequirementId list" bool bool
  | Container "RequirementId list" "RequirementId list" bool bool ContainerAttemptPolicy

definition closeout_kind :: "CloseoutAssessment \<Rightarrow> CloseoutKind" where
  "closeout_kind c = (case c of CloseoutAssessment.Task _ _ _ _ \<Rightarrow> CloseoutKind.Task
     | CloseoutAssessment.Container _ _ _ _ _ \<Rightarrow> CloseoutKind.Container)"

definition container_attempt_policy :: "CloseoutAssessment \<Rightarrow> ContainerAttemptPolicy option" where
  "container_attempt_policy c = (case c of CloseoutAssessment.Container _ _ _ _ p \<Rightarrow> Some p
     | CloseoutAssessment.Task _ _ _ _ \<Rightarrow> None)"

definition closeout_is_ready :: "CloseoutAssessment \<Rightarrow> bool" where
  "closeout_is_ready c \<longleftrightarrow> (case c of
      CloseoutAssessment.Task _ _ proof_satisfied summary_satisfied \<Rightarrow> proof_satisfied \<and> summary_satisfied
    | CloseoutAssessment.Container _ _ scope_satisfied summary_satisfied _ \<Rightarrow>
        scope_satisfied \<and> summary_satisfied)"

record AcceptanceInput =
  acn_subject :: AcceptanceSubject
  acn_current_submission_id :: SubmissionId
  acn_declarations :: "RequirementDeclaration list"
  acn_evidence :: "EvidenceObservation list"
  acn_reviews :: "ReviewDecision list"
  acn_exceptions :: "ForceException list"
  acn_evaluated_at :: TimestampMs

record AcceptanceInterpretation =
  act_subject :: AcceptanceSubject
  act_requirements :: "RequirementAssessment list"
  act_diagnostics :: "AcceptanceDiagnostic list"
  act_closeout :: CloseoutAssessment

definition blocks_declaration :: "AcceptanceDiagnostic \<Rightarrow> bool" where
  "blocks_declaration d \<longleftrightarrow> (case d of
      EmptyRequirementSet \<Rightarrow> True
    | AcceptanceDiagnostic.Declaration _ _ \<Rightarrow> True
    | DeclarationMismatch _ _ \<Rightarrow> True
    | WrongRequirementSubject _ \<Rightarrow> True
    | DuplicateRequirement _ \<Rightarrow> True
    | DuplicateEvidence _ \<Rightarrow> True
    | DuplicateReview _ \<Rightarrow> True
    | InvalidCloseoutRequirement _ \<Rightarrow> True
    | _ \<Rightarrow> False)"

definition has_blocking_declaration_issue :: "AcceptanceInterpretation \<Rightarrow> bool" where
  "has_blocking_declaration_issue i \<longleftrightarrow> list_ex blocks_declaration (act_diagnostics i)"

definition required_satisfied :: "AcceptanceInterpretation \<Rightarrow> bool" where
  "required_satisfied i \<longleftrightarrow> \<not> has_blocking_declaration_issue i
     \<and> list_all (\<lambda>item. effective_is_satisfied (ras_effective item)) (filter ras_required (act_requirements i))"

definition has_failures :: "AcceptanceInterpretation \<Rightarrow> bool" where
  "has_failures i \<longleftrightarrow> list_ex (\<lambda>item. ras_required item \<and> is_unsatisfied (ras_raw item)) (act_requirements i)"

definition assessment_of :: "AcceptanceInterpretation \<Rightarrow> RequirementId \<Rightarrow> RequirementAssessment option" where
  "assessment_of i k = find (\<lambda>item. rqr_id (ras_reference item) = k) (act_requirements i)"

definition effectively_satisfied :: "AcceptanceInterpretation \<Rightarrow> RequirementId \<Rightarrow> bool" where
  "effectively_satisfied i k \<longleftrightarrow>
     case_option False (\<lambda>item. effective_is_satisfied (ras_effective item)) (assessment_of i k)"

definition closeout_ready :: "AcceptanceInterpretation \<Rightarrow> bool" where
  "closeout_ready i \<longleftrightarrow> required_satisfied i \<and> closeout_is_ready (act_closeout i)"

section \<open>Evidence\<close>

definition purpose_matches_subject :: "RequirementPurpose \<Rightarrow> AcceptanceSubject \<Rightarrow> bool" where
  "purpose_matches_subject purpose subject \<longleftrightarrow> (case purpose of
      TaskProof \<Rightarrow> subject_is_task subject
    | ContainerScope \<Rightarrow> subject_is_container subject
    | CloseoutSummary \<Rightarrow> True)"

definition purpose_for_kind :: "GateKind \<Rightarrow> bool \<Rightarrow> RequirementPurpose" where
  "purpose_for_kind kind container =
     (if kind = GateKind.Summary then CloseoutSummary
      else if container then ContainerScope else TaskProof)"

definition irrelevant_reason ::
  "EvidenceObservation \<Rightarrow> AcceptanceInput \<Rightarrow> RequirementDeclarationBody \<Rightarrow> IrrelevantProofReason" where
  "irrelevant_reason evidence input body =
     (if subject_project_id (evo_subject evidence) \<noteq> subject_project_id (acn_subject input)
         \<or> subject_work_id (evo_subject evidence) \<noteq> subject_work_id (acn_subject input)
      then ForeignWork
      else if subject_is_task (evo_subject evidence) \<noteq> subject_is_task (acn_subject input) then WrongContext
      else if rqr_profile (evo_requirement evidence) \<noteq> rqr_profile (rbd_reference body) then WrongProfile
      else WrongGate)"

definition unmatched_evidence_reason ::
  "EvidenceObservation \<Rightarrow> AcceptanceInput \<Rightarrow> IrrelevantProofReason" where
  "unmatched_evidence_reason evidence input =
     (if subject_project_id (evo_subject evidence) \<noteq> subject_project_id (acn_subject input)
         \<or> subject_work_id (evo_subject evidence) \<noteq> subject_work_id (acn_subject input)
      then ForeignWork
      else if subject_is_task (evo_subject evidence) \<noteq> subject_is_task (acn_subject input) then WrongContext
      else WrongGate)"

definition stale_reason :: "EvidenceObservation \<Rightarrow> AcceptanceInput \<Rightarrow> StaleProofReason" where
  "stale_reason evidence input =
     (if (case (sj_context (evo_subject evidence), sj_context (acn_subject input)) of
            (TaskAttempt old, TaskAttempt current) \<Rightarrow>
              ai_attempt_id old = ai_attempt_id current \<and> ai_fence old \<noteq> ai_fence current
          | _ \<Rightarrow> False)
      then StaleProofReason.AttemptFence
      else if pr_proof_revision (sj_proof (evo_subject evidence))
            \<noteq> pr_proof_revision (sj_proof (acn_subject input))
      then StaleProofReason.ProofRevision
      else SubjectRevision)"

text \<open>The five vectors the loop over the evidence fills.\<close>

record EvidenceGroups =
  eg_exact :: "EvidenceObservation list"
  eg_invalidated :: "EvidenceObservation list"
  eg_stale :: "EvidenceObservation list"
  eg_irrelevant :: "EvidenceObservation list"
  eg_mismatched :: "EvidenceObservation list"

definition classify_evidence ::
  "RequirementDeclarationBody \<Rightarrow> AcceptanceInput \<Rightarrow> EvidenceGroups \<Rightarrow> EvidenceObservation \<Rightarrow> EvidenceGroups" where
  "classify_evidence body input g evidence =
     (if evo_requirement evidence \<noteq> rbd_reference body
      then g\<lparr>eg_mismatched := eg_mismatched g @ [evidence]\<rparr>
      else if evo_subject evidence = acn_subject input
      then (if evo_disposition evidence = EvidenceDisposition.Current
            then g\<lparr>eg_exact := eg_exact g @ [evidence]\<rparr>
            else g\<lparr>eg_invalidated := eg_invalidated g @ [evidence]\<rparr>)
      else if same_work_and_attempt (evo_subject evidence) (acn_subject input)
      then g\<lparr>eg_stale := eg_stale g @ [evidence]\<rparr>
      else g\<lparr>eg_irrelevant := eg_irrelevant g @ [evidence]\<rparr>)"

definition evidence_groups :: "RequirementDeclarationBody \<Rightarrow> AcceptanceInput \<Rightarrow> EvidenceGroups" where
  "evidence_groups body input = foldl (classify_evidence body input)
     \<lparr>eg_exact = [], eg_invalidated = [], eg_stale = [], eg_irrelevant = [], eg_mismatched = []\<rparr>
     (filter (\<lambda>item. rqr_id (evo_requirement item) = rqr_id (rbd_reference body)) (acn_evidence input))"

definition evidence_key :: "EvidenceObservation \<Rightarrow> TimestampMs \<times> EvidenceId" where
  "evidence_key e = (evo_observed_at e, evo_id e)"

definition by_recency :: "EvidenceObservation list \<Rightarrow> EvidenceObservation list" where
  "by_recency es = sort_key evidence_key es"

text \<open>\<open>slice.last()\<close>.\<close>

definition last_of :: "'a list \<Rightarrow> 'a option" where
  "last_of xs = (if xs = [] then None else Some (last xs))"

primrec invalidated_notes :: "EvidenceObservation list \<Rightarrow> AcceptanceDiagnostic list run" where
  "invalidated_notes [] = Return []"
| "invalidated_notes (e # es) = (case evo_disposition e of
      EvidenceDisposition.Superseded \<Rightarrow>
        run_bind (invalidated_notes es) (\<lambda>ds. Return (StaleEvidence (evo_id e) StaleProofReason.Superseded # ds))
    | EvidenceDisposition.Late \<Rightarrow>
        run_bind (invalidated_notes es) (\<lambda>ds. Return (StaleEvidence (evo_id e) StaleProofReason.Late # ds))
    | EvidenceDisposition.Revoked \<Rightarrow>
        run_bind (invalidated_notes es) (\<lambda>ds. Return (AlteredEvidence (evo_id e) # ds))
    | Current \<Rightarrow> Panic)"

definition bs_subset :: "'a::linorder btree_set \<Rightarrow> 'a btree_set \<Rightarrow> bool" where
  "bs_subset a b \<longleftrightarrow> list_all (bt_contains b) (bt_keys a)"

definition proves_body :: "RequirementDeclarationBody \<Rightarrow> EvidenceObservation \<Rightarrow> bool" where
  "proves_body body e \<longleftrightarrow> bs_subset (rbd_required_observables body) (evo_observables e)
     \<and> evo_artifact_digest e \<noteq> None \<and> (rqr_kind (rbd_reference body) = GateKind.Verification \<longrightarrow> evo_attested e)"

definition emit_raw_diagnostic :: "RawRequirementState \<Rightarrow> AcceptanceDiagnostic list" where
  "emit_raw_diagnostic raw = (case raw of
      RawRequirementState.Stale evidence_id reason \<Rightarrow> [StaleEvidence evidence_id reason]
    | RawRequirementState.Altered i \<Rightarrow> [AlteredEvidence i]
    | RawRequirementState.Irrelevant evidence_id reason \<Rightarrow> [IrrelevantEvidence evidence_id reason]
    | _ \<Rightarrow> [])"

definition exact_state ::
  "RequirementDeclarationBody \<Rightarrow> EvidenceObservation \<Rightarrow> RawRequirementState \<times> AcceptanceDiagnostic list" where
  "exact_state body e = (case evo_disposition e of
      Current \<Rightarrow> (case evo_result e of
          EvidenceResult.Passed \<Rightarrow>
            if proves_body body e then (RawRequirementState.Passed (evo_id e), [])
            else (RawRequirementState.Altered (evo_id e), [AlteredEvidence (evo_id e)])
        | EvidenceResult.Failed reason \<Rightarrow> (RawRequirementState.Failed (evo_id e) reason, [])
        | EvidenceResult.Stale \<Rightarrow> (RawRequirementState.Stale (evo_id e) StaleProofReason.ProofRevision, [])
        | EvidenceResult.Altered \<Rightarrow> (RawRequirementState.Altered (evo_id e), []))
    | EvidenceDisposition.Superseded \<Rightarrow> (RawRequirementState.Stale (evo_id e) StaleProofReason.Superseded, [])
    | EvidenceDisposition.Late \<Rightarrow> (RawRequirementState.Stale (evo_id e) StaleProofReason.Late, [])
    | EvidenceDisposition.Revoked \<Rightarrow> (RawRequirementState.Altered (evo_id e), []))"

definition evidence_state ::
  "RequirementDeclarationBody \<Rightarrow> AcceptanceInput \<Rightarrow> EvidenceGroups \<Rightarrow>
     RawRequirementState \<times> AcceptanceDiagnostic list" where
  "evidence_state body input g = (case last_of (by_recency (eg_exact g)) of
      Some e \<Rightarrow> (case exact_state body e of (raw, ds) \<Rightarrow> (raw, ds @ emit_raw_diagnostic raw))
    | None \<Rightarrow> (case last_of (by_recency (eg_stale g)) of
        Some e \<Rightarrow> (RawRequirementState.Stale (evo_id e) (stale_reason e input), [])
      | None \<Rightarrow> (case last_of (by_recency (eg_irrelevant g)) of
          Some e \<Rightarrow> (RawRequirementState.Irrelevant (evo_id e) (irrelevant_reason e input body), [])
        | None \<Rightarrow>
            (if eg_mismatched g \<noteq> [] then RawRequirementState.Declaration DeclarationProblem.Mismatched
             else RawRequirementState.Missing, []))))"

definition interpret_evidence ::
  "RequirementDeclarationBody \<Rightarrow> AcceptanceInput \<Rightarrow> (RawRequirementState \<times> AcceptanceDiagnostic list) run" where
  "interpret_evidence body input =
     (let g = evidence_groups body input;
          stale = map (\<lambda>e. StaleEvidence (evo_id e) (stale_reason e input)) (by_recency (eg_stale g));
          irrelevant = map (\<lambda>e. IrrelevantEvidence (evo_id e) (irrelevant_reason e input body))
            (by_recency (eg_irrelevant g));
          mismatched = (case last_of (eg_mismatched g) of
              Some e \<Rightarrow> [DeclarationMismatch (rbd_reference body) (evo_requirement e)] | None \<Rightarrow> [])
      in run_bind (invalidated_notes (by_recency (eg_invalidated g))) (\<lambda>invalidated.
           case evidence_state body input g of (raw, ds) \<Rightarrow>
             Return (raw, stale @ invalidated @ irrelevant @ mismatched @ ds)))"

section \<open>Reviews\<close>

definition review_is_authorized :: "ReviewDecision \<Rightarrow> ReviewRequirementPolicy \<Rightarrow> bool" where
  "review_is_authorized review policy \<longleftrightarrow> (case policy of
      ReviewRequirementPolicy.NotRequired \<Rightarrow> False
    | Independent \<Rightarrow> rvd_reviewer_role review = Reviewer
    | OperatorAllowed \<Rightarrow> rvd_reviewer_role review = Operator)"

definition review_key :: "ReviewDecision \<Rightarrow> TimestampMs \<times> ReviewId" where
  "review_key r = (rvd_decided_at r, rvd_id r)"

definition matching_reviews :: "RequirementDeclarationBody \<Rightarrow> AcceptanceInput \<Rightarrow> ReviewDecision list" where
  "matching_reviews body input = filter (\<lambda>r. rvd_requirement r = rbd_reference body)
     (filter (\<lambda>r. rqr_id (rvd_requirement r) = rqr_id (rbd_reference body)) (acn_reviews input))"

definition current_review :: "AcceptanceInput \<Rightarrow> ReviewDecision \<Rightarrow> bool" where
  "current_review input r \<longleftrightarrow>
     rvd_subject r = acn_subject input \<and> rvd_submission_id r = acn_current_submission_id input"

text \<open>The state of the latest review and the diagnostic pushed with it.\<close>

definition exact_review ::
  "RequirementDeclarationBody \<Rightarrow> ReviewDecision \<Rightarrow> ReviewState \<times> AcceptanceDiagnostic list" where
  "exact_review body r =
     (let i = rvd_id r in
      if rvd_reviewer_id r = rvd_attempt_actor_id r
      then (ReviewState.SelfReviewRejected i, [AcceptanceDiagnostic.SelfReviewRejected i])
      else if \<not> review_is_authorized r (rbd_review_policy body)
      then (Unauthorized i, [ReviewUnauthorized i])
      else case rvd_outcome r of
          ReviewVerdict.Pending \<Rightarrow> (ReviewState.Pending i, [])
        | ReviewVerdict.Approved \<Rightarrow> (ReviewState.Approved i, [])
        | ReviewVerdict.Rejected \<Rightarrow> (ReviewState.Rejected i, [AcceptanceDiagnostic.ReviewRejected i])
        | ReviewVerdict.Returned \<Rightarrow> (ReviewState.Returned i, [ReviewReturned i])
        | ReviewVerdict.Revoked \<Rightarrow> (ReviewState.Revoked i, [ReviewRevoked i]))"

text \<open>The source pushes the diagnostic of a review to the shared vector and to the returned one.\<close>

definition interpret_review ::
  "RequirementDeclarationBody \<Rightarrow> AcceptanceInput \<Rightarrow>
     RawRequirementState \<times> AcceptanceDiagnostic list \<times> AcceptanceDiagnostic list" where
  "interpret_review body input =
     (let reviews = matching_reviews body input;
          exact = sort_key review_key (filter (current_review input) reviews);
          irrelevant = filter (\<lambda>r. \<not> current_review input r) reviews
      in case last_of exact of
           Some r \<Rightarrow> (case exact_review body r of (state, ds) \<Rightarrow> (RawRequirementState.Review state, ds, ds))
         | None \<Rightarrow> (case last_of irrelevant of
             Some r \<Rightarrow> (RawRequirementState.Review (ReviewState.Irrelevant (rvd_id r)), [], [])
           | None \<Rightarrow> (RawRequirementState.Review ReviewState.Missing, [], [])))"

section \<open>Exceptions\<close>

definition body_referencing ::
  "RequirementReference \<Rightarrow> RequirementDeclaration \<Rightarrow> RequirementReference option" where
  "body_referencing reference d = (case d of
      RequirementDeclaration.Present body \<Rightarrow>
        if rbd_reference body = reference then Some (rbd_reference body) else None
    | _ \<Rightarrow> None)"

text \<open>\<open>Iterator::find_map\<close>.\<close>

primrec find_map :: "('a \<Rightarrow> 'b option) \<Rightarrow> 'a list \<Rightarrow> 'b option" where
  "find_map f [] = None"
| "find_map f (x # xs) = (case f x of Some y \<Rightarrow> Some y | None \<Rightarrow> find_map f xs)"

definition exception_problem :: "AcceptanceInput \<Rightarrow> ForceException \<Rightarrow> ExceptionInvalidReason option" where
  "exception_problem input x =
     (if fex_actor_role x \<noteq> Operator then Some WrongRole
      else if trim_is_empty (fex_comment x) then Some EmptyComment
      else if fex_revoked x then Some ExceptionInvalidReason.Revoked
      else if case_option False (\<lambda>at. at \<le> acn_evaluated_at input) (fex_expires_at x)
      then Some ExceptionInvalidReason.Expired
      else if fex_subject x \<noteq> acn_subject input then Some ExceptionInvalidReason.WrongSubject
      else if \<not> list_ex (\<lambda>d. body_referencing (fex_requirement x) d \<noteq> None) (acn_declarations input)
      then Some WrongRequirement
      else None)"

definition validate_exception_records :: "AcceptanceInput \<Rightarrow> AcceptanceDiagnostic list" where
  "validate_exception_records input = concat (map (\<lambda>x. case exception_problem input x of
     Some reason \<Rightarrow> [InvalidException (fex_id x) reason] | None \<Rightarrow> []) (acn_exceptions input))"

definition exception_is_valid :: "ForceException \<Rightarrow> AcceptanceInput \<Rightarrow> bool" where
  "exception_is_valid x input \<longleftrightarrow> fex_actor_role x = Operator \<and> \<not> trim_is_empty (fex_comment x)
     \<and> \<not> fex_revoked x \<and> case_option True (\<lambda>at. acn_evaluated_at input < at) (fex_expires_at x)
     \<and> fex_requirement x = (case find_map (body_referencing (fex_requirement x)) (acn_declarations input) of
          Some reference \<Rightarrow> reference | None \<Rightarrow> fex_requirement x)
     \<and> fex_subject x = acn_subject input"

definition exception_applies_to_raw :: "RawRequirementState \<Rightarrow> bool" where
  "exception_applies_to_raw raw \<longleftrightarrow> (case raw of
      RawRequirementState.Failed _ _ \<Rightarrow> True
    | RawRequirementState.Stale _ _ \<Rightarrow> True
    | RawRequirementState.Altered _ \<Rightarrow> True
    | RawRequirementState.Review (ReviewState.Rejected _) \<Rightarrow> True
    | RawRequirementState.Review (ReviewState.Returned _) \<Rightarrow> True
    | RawRequirementState.Review (ReviewState.Revoked _) \<Rightarrow> True
    | _ \<Rightarrow> False)"

text \<open>\<open>Iterator::max_by\<close> on the exception id: the last of the greatest elements.\<close>

definition latest_exception :: "ForceException list \<Rightarrow> ForceException option" where
  "latest_exception xs = (case xs of [] \<Rightarrow> None
     | x # xs \<Rightarrow> Some (foldl (\<lambda>best y. if fex_id y < fex_id best then best else y) x xs))"

definition selected_exception ::
  "RequirementReference \<Rightarrow> AcceptanceInput \<Rightarrow> ForceException option" where
  "selected_exception reference input = latest_exception
     (filter (\<lambda>x. fex_requirement x = reference \<and> fex_subject x = acn_subject input) (acn_exceptions input))"

definition effective_state ::
  "RequirementReference \<Rightarrow> bool \<Rightarrow> RawRequirementState \<Rightarrow> AcceptanceInput \<Rightarrow>
     EffectiveRequirementState \<times> ExceptionId option" where
  "effective_state reference required raw input =
     (if \<not> required then (EffectiveRequirementState.NotRequired, None)
      else case selected_exception reference input of
          Some x \<Rightarrow>
            if is_unsatisfied raw \<and> exception_is_valid x input \<and> exception_applies_to_raw raw
            then (SatisfiedByException (fex_id x), Some (fex_id x))
            else (if is_unsatisfied raw then Unsatisfied else EffectiveRequirementState.Satisfied, None)
        | None \<Rightarrow> (if is_unsatisfied raw then Unsatisfied else EffectiveRequirementState.Satisfied, None))"

definition assessment_for ::
  "RequirementReference \<Rightarrow> RequirementPurpose \<Rightarrow> bool \<Rightarrow> RawRequirementState \<Rightarrow>
     RequirementDeclarationBody \<Rightarrow> AcceptanceInput \<Rightarrow> RequirementAssessment \<times> AcceptanceDiagnostic list" where
  "assessment_for reference purpose required raw body input =
     (case effective_state reference required raw input of (effective, exception_id) \<Rightarrow>
        (\<lparr>ras_reference = reference, ras_purpose = purpose, ras_required = required, ras_raw = raw,
          ras_effective = effective, ras_exception_id = exception_id\<rparr>,
         note_if (rqr_kind (rbd_reference body) = GateKind.Review
             \<and> rbd_review_policy body = ReviewRequirementPolicy.NotRequired)
           (InvalidCloseoutRequirement (rqr_id (rbd_reference body)))))"

section \<open>The interpretation\<close>

definition declaration_step ::
  "AcceptanceInput \<Rightarrow> RequirementId btree_set \<Rightarrow> RequirementDeclaration \<Rightarrow>
     AcceptanceDiagnostic list \<times> RequirementId btree_set" where
  "declaration_step input seen d =
     (let i = rqr_id (declaration_reference d) in
      (note_if (bt_contains seen i) (DuplicateRequirement i)
       @ (case d of
            RequirementDeclaration.Present body \<Rightarrow>
              note_if (rbd_subject body \<noteq> acn_subject input) (WrongRequirementSubject (rqr_id (rbd_reference body)))
              @ note_if (\<not> purpose_matches_subject (rbd_purpose body) (rbd_subject body))
                  (InvalidCloseoutRequirement (rqr_id (rbd_reference body)))
          | _ \<Rightarrow> []),
       bs_insert i seen))"

definition evidence_id_step ::
  "EvidenceId btree_set \<Rightarrow> EvidenceObservation \<Rightarrow> AcceptanceDiagnostic list \<times> EvidenceId btree_set" where
  "evidence_id_step seen e =
     (note_if (bt_contains seen (evo_id e)) (DuplicateEvidence (evo_id e)), bs_insert (evo_id e) seen)"

definition review_id_step ::
  "ReviewId btree_set \<Rightarrow> ReviewDecision \<Rightarrow> AcceptanceDiagnostic list \<times> ReviewId btree_set" where
  "review_id_step seen r =
     (note_if (bt_contains seen (rvd_id r)) (DuplicateReview (rvd_id r)), bs_insert (rvd_id r) seen)"

definition absent_assessment ::
  "RequirementReference \<Rightarrow> DeclarationProblem \<Rightarrow> AcceptanceInput \<Rightarrow> RequirementAssessment" where
  "absent_assessment expected problem input =
     \<lparr>ras_reference = expected,
      ras_purpose = purpose_for_kind (rqr_kind expected) (subject_is_container (acn_subject input)),
      ras_required = True, ras_raw = RawRequirementState.Declaration problem,
      ras_effective = Unsatisfied, ras_exception_id = None\<rparr>"

definition interpret_body ::
  "RequirementDeclarationBody \<Rightarrow> AcceptanceInput \<Rightarrow> (RawRequirementState \<times> AcceptanceDiagnostic list) run" where
  "interpret_body body input =
     (if rbd_subject body \<noteq> acn_subject input \<or> \<not> purpose_matches_subject (rbd_purpose body) (rbd_subject body)
      then Return (RawRequirementState.Declaration DeclarationProblem.WrongSubject, [])
      else if rqr_kind (rbd_reference body) = GateKind.Review
      then (case interpret_review body input of (raw, pushed, local) \<Rightarrow> Return (raw, pushed @ local))
      else interpret_evidence body input)"

definition assess_declaration ::
  "AcceptanceInput \<Rightarrow> RequirementDeclaration \<Rightarrow> (RequirementAssessment \<times> AcceptanceDiagnostic list) run" where
  "assess_declaration input d = (case d of
      RequirementDeclaration.Present body \<Rightarrow> run_bind (interpret_body body input) (\<lambda>(raw, ds).
        case assessment_for (rbd_reference body) (rbd_purpose body) (rbd_required body) raw body input of
          (assessment, pushed) \<Rightarrow> Return (assessment, ds @ pushed))
    | RequirementDeclaration.Deleted expected \<Rightarrow> Return
        (absent_assessment expected DeclarationProblem.Deleted input,
         [AcceptanceDiagnostic.Declaration expected DeclarationProblem.Deleted])
    | RequirementDeclaration.Mismatched expected seen \<Rightarrow> Return
        (absent_assessment expected DeclarationProblem.Mismatched input, [DeclarationMismatch expected seen]))"

primrec assess_declarations ::
  "AcceptanceInput \<Rightarrow> RequirementDeclaration list \<Rightarrow>
     (RequirementAssessment list \<times> AcceptanceDiagnostic list) run" where
  "assess_declarations input [] = Return ([], [])"
| "assess_declarations input (d # ds) = run_bind (assess_declaration input d) (\<lambda>(a, pushed).
     run_bind (assess_declarations input ds) (\<lambda>(as, rest). Return (a # as, pushed @ rest)))"

definition evidence_note :: "AcceptanceInput \<Rightarrow> EvidenceObservation \<Rightarrow> AcceptanceDiagnostic list" where
  "evidence_note input e =
     (case find (\<lambda>d. rqr_id (declaration_reference d) = rqr_id (evo_requirement e)) (acn_declarations input) of
        None \<Rightarrow>
          if evo_subject e = acn_subject input
          then [AcceptanceDiagnostic.Declaration (evo_requirement e) DeclarationProblem.Missing]
          else [IrrelevantEvidence (evo_id e) (unmatched_evidence_reason e input)]
      | Some (RequirementDeclaration.Present body) \<Rightarrow>
          note_if (rbd_reference body \<noteq> evo_requirement e)
            (DeclarationMismatch (rbd_reference body) (evo_requirement e))
      | Some (RequirementDeclaration.Deleted expected) \<Rightarrow>
          [AcceptanceDiagnostic.Declaration expected DeclarationProblem.Deleted]
      | Some (RequirementDeclaration.Mismatched expected seen) \<Rightarrow> [DeclarationMismatch expected seen])"

definition closeout_ids :: "RequirementAssessment list \<Rightarrow> RequirementPurpose \<Rightarrow> RequirementId list" where
  "closeout_ids rs purpose = map (\<lambda>item. rqr_id (ras_reference item))
     (filter (\<lambda>item. ras_purpose item = purpose \<and> ras_required item) rs)"

definition closeout_satisfied :: "RequirementAssessment list \<Rightarrow> RequirementPurpose \<Rightarrow> bool" where
  "closeout_satisfied rs purpose \<longleftrightarrow> list_all (\<lambda>item. effective_is_satisfied (ras_effective item))
     (filter (\<lambda>item. ras_purpose item = purpose \<and> ras_required item) rs)"

definition build_closeout :: "RequirementAssessment list \<Rightarrow> bool \<Rightarrow> CloseoutAssessment" where
  "build_closeout rs container =
     (if container
      then CloseoutAssessment.Container (closeout_ids rs ContainerScope) (closeout_ids rs CloseoutSummary)
        (closeout_satisfied rs ContainerScope) (closeout_satisfied rs CloseoutSummary) Forbidden
      else CloseoutAssessment.Task (closeout_ids rs TaskProof) (closeout_ids rs CloseoutSummary)
        (closeout_satisfied rs TaskProof) (closeout_satisfied rs CloseoutSummary))"

definition input_notes :: "AcceptanceInput \<Rightarrow> AcceptanceDiagnostic list" where
  "input_notes input = note_if (acn_declarations input = []) EmptyRequirementSet
     @ notes_of (declaration_step input) [] (acn_declarations input)
     @ notes_of evidence_id_step [] (acn_evidence input)
     @ notes_of review_id_step [] (acn_reviews input)
     @ validate_exception_records input"

definition interpret_acceptance :: "AcceptanceInput \<Rightarrow> AcceptanceInterpretation run" where
  "interpret_acceptance input = run_bind (assess_declarations input (acn_declarations input)) (\<lambda>(rs, ds).
     Return \<lparr>act_subject = acn_subject input, act_requirements = rs,
       act_diagnostics = input_notes input @ ds @ concat (map (evidence_note input) (acn_evidence input)),
       act_closeout = build_closeout rs (subject_is_container (acn_subject input))\<rparr>)"

definition evaluate_acceptance :: "AcceptanceInput \<Rightarrow> AcceptanceInterpretation run" where
  "evaluate_acceptance input = interpret_acceptance input"

end
