(* ===== verification/Acceptance_Facts.thy ===== *)
theory Acceptance_Facts
  imports Acceptance Inputs_Facts
begin

text \<open>
  What the acceptance interpretation guarantees: the latest observation about exactly this subject
  decides, foreign and stale observations never shadow it, and a ready closeout rests on proof, an
  independent approval or a scoped operator exception for every required declaration.
\<close>

section \<open>Recency\<close>

lemma last_of_Some: "last_of xs = Some x \<longleftrightarrow> xs \<noteq> [] \<and> last xs = x"
  by (simp add: last_of_def)

lemma last_of_None [simp]: "last_of xs = None \<longleftrightarrow> xs = []"
  by (simp add: last_of_def)

lemma last_of_Nil [simp]: "last_of [] = None"
  by simp

lemma sort_key_Nil_iff [simp]: "sort_key k xs = [] \<longleftrightarrow> xs = []"
  by (metis set_empty set_sort)

lemma sorted_key_last: "sorted (map k xs) \<Longrightarrow> x \<in> set xs \<Longrightarrow> k x \<le> k (last xs)"
  for k :: "'a \<Rightarrow> 'b::linorder"
  by (induction xs) auto

text \<open>The last element of a list sorted by a key is one of greatest key.\<close>

lemma last_of_sort_key:
  assumes "last_of (sort_key k xs) = Some x"
  shows "x \<in> set xs \<and> (\<forall>y \<in> set xs. k y \<le> k x)"
proof -
  from assms have ne: "sort_key k xs \<noteq> []" and x: "last (sort_key k xs) = x" by (auto simp: last_of_Some)
  have "sorted (map k (sort_key k xs))" by simp
  then have "\<forall>y \<in> set (sort_key k xs). k y \<le> k x" using sorted_key_last [of k] x by metis
  moreover have "x \<in> set (sort_key k xs)" using last_in_set [OF ne] x by simp
  ultimately show ?thesis by simp
qed

lemma last_of_sort_key_unique:
  assumes "x \<in> set xs" and "\<forall>y \<in> set xs. y = x \<or> k y < k x"
  shows "last_of (sort_key k xs) = Some x"
proof -
  have "sort_key k xs \<noteq> []" using assms(1) by (metis empty_iff empty_set set_sort)
  then obtain z where z: "last_of (sort_key k xs) = Some z" by (cases "last_of (sort_key k xs)") auto
  with last_of_sort_key [OF z] assms show ?thesis by (metis leD)
qed

section \<open>Evidence\<close>

definition exact_for :: "RequirementDeclarationBody \<Rightarrow> AcceptanceInput \<Rightarrow> EvidenceObservation \<Rightarrow> bool" where
  "exact_for body input e \<longleftrightarrow> evo_requirement e = rbd_reference body \<and> evo_subject e = acn_subject input
     \<and> evo_disposition e = Current"

lemma groups_fold:
  "eg_exact (foldl (classify_evidence body input) g es) = eg_exact g @ filter (exact_for body input) es"
  "eg_invalidated (foldl (classify_evidence body input) g es) = eg_invalidated g
     @ filter (\<lambda>e. evo_requirement e = rbd_reference body \<and> evo_subject e = acn_subject input
         \<and> evo_disposition e \<noteq> Current) es"
  "eg_stale (foldl (classify_evidence body input) g es) = eg_stale g
     @ filter (\<lambda>e. evo_requirement e = rbd_reference body \<and> evo_subject e \<noteq> acn_subject input
         \<and> same_work_and_attempt (evo_subject e) (acn_subject input)) es"
  "eg_irrelevant (foldl (classify_evidence body input) g es) = eg_irrelevant g
     @ filter (\<lambda>e. evo_requirement e = rbd_reference body \<and> evo_subject e \<noteq> acn_subject input
         \<and> \<not> same_work_and_attempt (evo_subject e) (acn_subject input)) es"
  "eg_mismatched (foldl (classify_evidence body input) g es) = eg_mismatched g
     @ filter (\<lambda>e. evo_requirement e \<noteq> rbd_reference body) es"
  by (induction es arbitrary: g) (auto simp: classify_evidence_def exact_for_def)

lemma filter_absorb: "(\<And>x. P x \<Longrightarrow> Q x) \<Longrightarrow> filter P (filter Q xs) = filter P xs"
  by (induction xs) auto

lemma eg_exact_eq: "eg_exact (evidence_groups body input) = filter (exact_for body input) (acn_evidence input)"
  unfolding evidence_groups_def groups_fold by (simp only: EvidenceGroups.simps append_Nil)
    (rule filter_absorb, simp add: exact_for_def)

lemma eg_stale_set: "set (eg_stale (evidence_groups body input)) \<subseteq> {e \<in> set (acn_evidence input).
     evo_requirement e = rbd_reference body \<and> same_work_and_attempt (evo_subject e) (acn_subject input)}"
  unfolding evidence_groups_def groups_fold by auto

lemma invalidated_returns:
  "\<forall>e \<in> set es. evo_disposition e \<noteq> Current \<Longrightarrow> \<exists>ds. invalidated_notes es = Return ds"
  by (induction es) (auto split: EvidenceDisposition.splits)

lemma interpret_evidence_returns:
  obtains ds where "interpret_evidence body input
     = Return (fst (evidence_state body input (evidence_groups body input)), ds)"
proof -
  let ?g = "evidence_groups body input"
  have "\<forall>e \<in> set (by_recency (eg_invalidated ?g)). evo_disposition e \<noteq> Current"
    unfolding evidence_groups_def groups_fold by_recency_def by auto
  from invalidated_returns [OF this] that show ?thesis
    by (auto simp: interpret_evidence_def Let_def case_prod_unfold)
qed

text \<open>The verdict of one current observation about exactly this subject.\<close>

definition verdict :: "RequirementDeclarationBody \<Rightarrow> EvidenceObservation \<Rightarrow> RawRequirementState" where
  "verdict body e = (case evo_result e of
      EvidenceResult.Passed \<Rightarrow>
        if bs_elems (rbd_required_observables body) \<subseteq> bs_elems (evo_observables e)
           \<and> evo_artifact_digest e \<noteq> None
           \<and> (rqr_kind (rbd_reference body) = GateKind.Verification \<longrightarrow> evo_attested e)
        then RawRequirementState.Passed (evo_id e) else RawRequirementState.Altered (evo_id e)
    | EvidenceResult.Failed reason \<Rightarrow> RawRequirementState.Failed (evo_id e) reason
    | EvidenceResult.Stale \<Rightarrow> RawRequirementState.Stale (evo_id e) StaleProofReason.ProofRevision
    | EvidenceResult.Altered \<Rightarrow> RawRequirementState.Altered (evo_id e))"

lemma bs_subset_iff: "bs_subset a b \<longleftrightarrow> bs_elems a \<subseteq> bs_elems b"
  by (auto simp: bs_subset_def list_all_iff bt_keys_bs bt_contains_bs)

lemma exact_state_verdict: "evo_disposition e = Current \<Longrightarrow> fst (exact_state body e) = verdict body e"
  by (simp add: exact_state_def verdict_def proves_body_def bs_subset_iff split: EvidenceResult.splits)

lemma evidence_state_exact:
  "last_of (by_recency (eg_exact g)) = Some e \<Longrightarrow> fst (evidence_state body input g) = fst (exact_state body e)"
  by (simp add: evidence_state_def case_prod_unfold)

text \<open>What else the observations of a requirement can be: of the same attempt at another state of the
  subject, of other work or another attempt, or of the same requirement id under an altered declaration.\<close>

definition outdated_for :: "RequirementDeclarationBody \<Rightarrow> AcceptanceInput \<Rightarrow> EvidenceObservation \<Rightarrow> bool" where
  "outdated_for body input e \<longleftrightarrow> evo_requirement e = rbd_reference body \<and> evo_subject e \<noteq> acn_subject input
     \<and> same_work_and_attempt (evo_subject e) (acn_subject input)"

definition foreign_for :: "RequirementDeclarationBody \<Rightarrow> AcceptanceInput \<Rightarrow> EvidenceObservation \<Rightarrow> bool" where
  "foreign_for body input e \<longleftrightarrow> evo_requirement e = rbd_reference body \<and> evo_subject e \<noteq> acn_subject input
     \<and> \<not> same_work_and_attempt (evo_subject e) (acn_subject input)"

definition altered_for :: "RequirementDeclarationBody \<Rightarrow> EvidenceObservation \<Rightarrow> bool" where
  "altered_for body e \<longleftrightarrow> evo_requirement e \<noteq> rbd_reference body
     \<and> rqr_id (evo_requirement e) = rqr_id (rbd_reference body)"

definition latest_of :: "(EvidenceObservation \<Rightarrow> bool) \<Rightarrow> EvidenceObservation list \<Rightarrow> EvidenceObservation \<Rightarrow> bool" where
  "latest_of P es e \<longleftrightarrow> e \<in> set es \<and> P e \<and> (\<forall>y \<in> set es. P y \<longrightarrow> evidence_key y \<le> evidence_key e)"

lemma last_by_recency:
  "case last_of (by_recency (filter P es)) of None \<Rightarrow> \<not> (\<exists>e \<in> set es. P e) | Some e \<Rightarrow> latest_of P es e"
proof (cases "last_of (by_recency (filter P es))")
  case None
  then show ?thesis by (simp add: by_recency_def filter_empty_conv)
next
  case (Some e)
  with last_of_sort_key [of evidence_key "filter P es" e] show ?thesis
    by (auto simp: by_recency_def latest_of_def)
qed

lemma other_groups_eq:
  "eg_stale (evidence_groups body input) = filter (outdated_for body input) (acn_evidence input)"
  "eg_irrelevant (evidence_groups body input) = filter (foreign_for body input) (acn_evidence input)"
  "eg_mismatched (evidence_groups body input) = filter (altered_for body) (acn_evidence input)"
  unfolding evidence_groups_def groups_fold
  by (simp_all only: EvidenceGroups.simps append_Nil filter_filter)
    (rule filter_cong, auto simp: outdated_for_def foreign_for_def altered_for_def)+

definition decided_by ::
  "RequirementDeclarationBody \<Rightarrow> AcceptanceInput \<Rightarrow> EvidenceObservation list \<Rightarrow> RawRequirementState \<Rightarrow> bool" where
  "decided_by body input es raw \<longleftrightarrow>
     (if \<exists>e \<in> set es. exact_for body input e
      then \<exists>e. latest_of (exact_for body input) es e \<and> raw = verdict body e
      else if \<exists>e \<in> set es. outdated_for body input e
      then \<exists>e. latest_of (outdated_for body input) es e
        \<and> raw = RawRequirementState.Stale (evo_id e) (stale_reason e input)
      else if \<exists>e \<in> set es. foreign_for body input e
      then \<exists>e. latest_of (foreign_for body input) es e
        \<and> raw = RawRequirementState.Irrelevant (evo_id e) (irrelevant_reason e input body)
      else raw = (if \<exists>e \<in> set es. altered_for body e
        then RawRequirementState.Declaration DeclarationProblem.Mismatched else RawRequirementState.Missing))"

lemma evidence_state_decided:
  "decided_by body input (acn_evidence input) (fst (evidence_state body input (evidence_groups body input)))"
proof -
  note exact = last_by_recency [where P = "exact_for body input" and es = "acn_evidence input", folded eg_exact_eq]
  note outdated = last_by_recency [where P = "outdated_for body input" and es = "acn_evidence input", folded other_groups_eq]
  note foreign = last_by_recency [where P = "foreign_for body input" and es = "acn_evidence input", folded other_groups_eq]
  have altered: "eg_mismatched (evidence_groups body input) \<noteq> [] \<longleftrightarrow> (\<exists>e \<in> set (acn_evidence input). altered_for body e)"
    by (simp add: other_groups_eq filter_empty_conv)
  have some: "latest_of P es e \<Longrightarrow> \<exists>e \<in> set es. P e" for P es e by (auto simp: latest_of_def)
  have verdict: "latest_of (exact_for body input) (acn_evidence input) e \<Longrightarrow> fst (exact_state body e) = verdict body e" for e
    by (simp add: latest_of_def exact_for_def exact_state_verdict)
  show ?thesis
  proof (cases "last_of (by_recency (eg_exact (evidence_groups body input)))")
    case (Some e)
    with exact have e: "latest_of (exact_for body input) (acn_evidence input) e" by simp
    with some [OF e] verdict [OF e] evidence_state_exact [OF Some] show ?thesis
      unfolding decided_by_def by auto
  next
    case no_exact: None
    with exact have none: "\<not> (\<exists>e \<in> set (acn_evidence input). exact_for body input e)" by simp
    show ?thesis
    proof (cases "last_of (by_recency (eg_stale (evidence_groups body input)))")
      case (Some e)
      with outdated have e: "latest_of (outdated_for body input) (acn_evidence input) e" by simp
      with some [OF e] none no_exact Some show ?thesis
        unfolding decided_by_def evidence_state_def by auto
    next
      case no_outdated: None
      with outdated have none': "\<not> (\<exists>e \<in> set (acn_evidence input). outdated_for body input e)" by simp
      show ?thesis
      proof (cases "last_of (by_recency (eg_irrelevant (evidence_groups body input)))")
        case (Some e)
        with foreign have e: "latest_of (foreign_for body input) (acn_evidence input) e" by simp
        with some [OF e] none none' no_exact no_outdated Some show ?thesis
          unfolding decided_by_def evidence_state_def by auto
      next
        case no_foreign: None
        with foreign have "\<not> (\<exists>e \<in> set (acn_evidence input). foreign_for body input e)" by simp
        with none none' no_exact no_outdated no_foreign altered show ?thesis
          unfolding decided_by_def evidence_state_def by auto
      qed
    qed
  qed
qed

lemma latest_of_strict:
  assumes "latest_of P es x" and "e \<in> set es" and "P e"
    and "\<forall>y \<in> set es. P y \<longrightarrow> y = e \<or> evidence_key y < evidence_key e"
  shows "x = e"
  using assms by (auto simp: latest_of_def dest: leD)

lemma verdict_satisfied:
  "\<not> is_unsatisfied (verdict body e) \<longleftrightarrow> verdict body e = RawRequirementState.Passed (evo_id e)"
  by (simp add: verdict_def is_unsatisfied_def split: EvidenceResult.splits)

text \<open>C25: The latest current observation about exactly this requirement and this subject decides the raw
  state of the requirement, whatever else was observed: newer observations about other subjects,
  earlier attempts or altered declarations, and invalidated ones, never shadow it, and the order in
  which observations are supplied does not matter.  A pass counts only with every required
  observable, an artifact and, for verifications, an attestation.  Nothing else proves the requirement:
  its state is satisfied only when such a latest observation passes it, and without a current observation
  about exactly this subject it is stale by the latest outdated observation, irrelevant by the latest
  foreign one, mismatched by an altered declaration, or missing.\<close>

theorem latest_evidence_decides:
  "\<exists>raw ds. interpret_evidence body input = Return (raw, ds)
     \<and> (\<forall>e \<in> set (acn_evidence input). exact_for body input e
          \<and> (\<forall>y \<in> set (acn_evidence input). exact_for body input y \<longrightarrow> y = e \<or> evidence_key y < evidence_key e)
        \<longrightarrow> raw = verdict body e)
     \<and> (\<not> is_unsatisfied raw \<longrightarrow> (\<exists>e. latest_of (exact_for body input) (acn_evidence input) e
          \<and> evo_result e = EvidenceResult.Passed \<and> raw = RawRequirementState.Passed (evo_id e)
          \<and> verdict body e = raw))
     \<and> decided_by body input (acn_evidence input) raw"
proof -
  let ?raw = "fst (evidence_state body input (evidence_groups body input))"
  note decided = evidence_state_decided [of body input]
  have found: "\<exists>e. latest_of (exact_for body input) (acn_evidence input) e \<and> ?raw = verdict body e"
    if "\<exists>e \<in> set (acn_evidence input). exact_for body input e"
    using decided that unfolding decided_by_def by (simp only: if_True simp_thms)
  have "?raw = verdict body e" if e: "e \<in> set (acn_evidence input)" "exact_for body input e"
    "\<forall>y \<in> set (acn_evidence input). exact_for body input y \<longrightarrow> y = e \<or> evidence_key y < evidence_key e" for e
    using found e(1,2) latest_of_strict [OF _ e] by blast
  moreover have "\<exists>e. latest_of (exact_for body input) (acn_evidence input) e
      \<and> evo_result e = EvidenceResult.Passed \<and> ?raw = RawRequirementState.Passed (evo_id e) \<and> verdict body e = ?raw"
    if good: "\<not> is_unsatisfied ?raw"
  proof -
    have "\<exists>e \<in> set (acn_evidence input). exact_for body input e"
      using decided good unfolding decided_by_def by (auto simp: is_unsatisfied_def split: if_splits)
    from found [OF this] obtain e
      where e: "latest_of (exact_for body input) (acn_evidence input) e" "?raw = verdict body e" by blast
    with good have pass: "verdict body e = RawRequirementState.Passed (evo_id e)" by (simp add: verdict_satisfied)
    then have "evo_result e = EvidenceResult.Passed" by (simp add: verdict_def split: EvidenceResult.splits)
    with e pass show ?thesis by auto
  qed
  moreover obtain ds where "interpret_evidence body input = Return (?raw, ds)"
    by (rule interpret_evidence_returns)
  ultimately show ?thesis using decided by (intro exI [of _ ?raw] exI [of _ ds]) blast
qed

definition sample_profile :: ProfileIdentity where
  "sample_profile = \<lparr>pi_profile_id = Ident ''p'', pi_version = ''1'', pi_digest = Ident ''d''\<rparr>"

definition sample_subject :: "u64 \<Rightarrow> AcceptanceSubject" where
  "sample_subject revision =
     (let attempt = \<lparr>ai_attempt_id = Ident ''a'', ai_fence = 1\<rparr> in
      \<lparr>sj_proof = \<lparr>pr_entity = \<lparr>ei_project_id = Ident ''P'', ei_work_id = Ident ''w'', ei_revision = 1\<rparr>,
         pr_proof_revision = revision, pr_attempt = Some attempt, pr_source_snapshot = None,
         pr_configuration = None, pr_profile = sample_profile, pr_policy_version = ''1''\<rparr>,
       sj_context = TaskAttempt attempt\<rparr>)"

definition sample_reference :: RequirementReference where
  "sample_reference = \<lparr>rqr_id = Ident ''r'', rqr_gate_id = Ident ''g'', rqr_kind = GateKind.Verification,
     rqr_profile = sample_profile, rqr_declaration_digest = Ident ''c''\<rparr>"

definition sample_body :: RequirementDeclarationBody where
  "sample_body = \<lparr>rbd_reference = sample_reference, rbd_subject = sample_subject 2, rbd_purpose = TaskProof,
     rbd_required = True, rbd_verifier_policy = \<lparr>vp_id = Ident ''v'', vp_version = ''1''\<rparr>,
     rbd_required_observables = [(''o'', ())], rbd_review_policy = ReviewRequirementPolicy.NotRequired\<rparr>"

definition sample_evidence :: "string \<Rightarrow> u64 \<Rightarrow> TimestampMs \<Rightarrow> EvidenceResult \<Rightarrow> EvidenceObservation" where
  "sample_evidence i revision at result = \<lparr>evo_id = Ident i, evo_requirement = sample_reference,
     evo_subject = sample_subject revision, evo_observed_at = at, evo_result = result,
     evo_disposition = Current, evo_observables = [(''o'', ())], evo_artifact_digest = Some (Ident ''x''),
     evo_attested = True\<rparr>"

text \<open>A current pass, an older current failure, and a newer failure of an earlier proof revision.\<close>

definition sample_input :: AcceptanceInput where
  "sample_input = \<lparr>acn_subject = sample_subject 2, acn_current_submission_id = Ident ''s'',
     acn_declarations = [RequirementDeclaration.Present sample_body],
     acn_evidence = [sample_evidence ''e3'' 1 30 (EvidenceResult.Failed NonZeroExit),
       sample_evidence ''e2'' 2 20 EvidenceResult.Passed,
       sample_evidence ''e1'' 2 10 (EvidenceResult.Failed NonZeroExit)],
     acn_reviews = [], acn_exceptions = [], acn_evaluated_at = 40\<rparr>"

lemmas sample_defs = sample_profile_def sample_subject_def sample_reference_def sample_body_def
  sample_evidence_def sample_input_def

theorem latest_evidence_decides_witness:
  "\<exists>ds. interpret_evidence sample_body sample_input = Return (RawRequirementState.Passed (Ident ''e2''), ds)"
proof -
  let ?e = "sample_evidence ''e2'' 2 20 EvidenceResult.Passed"
  have "?e \<in> set (acn_evidence sample_input)" by (simp add: sample_input_def)
  moreover have "exact_for sample_body sample_input ?e" by (simp add: exact_for_def sample_defs Let_def)
  moreover have "\<forall>y \<in> set (acn_evidence sample_input).
      exact_for sample_body sample_input y \<longrightarrow> y = ?e \<or> evidence_key y < evidence_key ?e"
    by (simp add: exact_for_def evidence_key_def sample_defs Let_def less_prod_def)
  moreover have "verdict sample_body ?e = RawRequirementState.Passed (Ident ''e2'')"
    by (simp add: verdict_def sample_defs)
  ultimately show ?thesis using latest_evidence_decides [of sample_body sample_input] by metis
qed

section \<open>Reviews\<close>

definition review_for :: "RequirementDeclarationBody \<Rightarrow> AcceptanceInput \<Rightarrow> ReviewDecision \<Rightarrow> bool" where
  "review_for body input r \<longleftrightarrow> rvd_requirement r = rbd_reference body \<and> current_review input r"

lemma interpret_review_cases:
  "fst (interpret_review body input) =
     (case last_of (sort_key review_key (filter (review_for body input) (acn_reviews input))) of
        Some r \<Rightarrow> RawRequirementState.Review (fst (exact_review body r))
      | None \<Rightarrow> fst (interpret_review body input))"
proof -
  have "filter (current_review input) (matching_reviews body input) = filter (review_for body input) (acn_reviews input)"
    unfolding matching_reviews_def by (simp add: filter_filter) (rule filter_cong, auto simp: review_for_def)
  then show ?thesis
    by (simp add: interpret_review_def Let_def case_prod_unfold split: option.splits)
qed

section \<open>Requirements\<close>

text \<open>\<open>e\<close> is the latest observation of exactly this subject and proves the requirement.\<close>

definition proving_evidence :: "AcceptanceInput \<Rightarrow> RequirementDeclarationBody \<Rightarrow> EvidenceObservation \<Rightarrow> bool" where
  "proving_evidence input body e \<longleftrightarrow> e \<in> set (acn_evidence input) \<and> exact_for body input e
     \<and> (\<forall>y \<in> set (acn_evidence input). exact_for body input y \<longrightarrow> evidence_key y \<le> evidence_key e)
     \<and> verdict body e = RawRequirementState.Passed (evo_id e)"

text \<open>\<open>r\<close> is the latest review of the current submission, an independent and authorized approval.\<close>

definition approving_review :: "AcceptanceInput \<Rightarrow> RequirementDeclarationBody \<Rightarrow> ReviewDecision \<Rightarrow> bool" where
  "approving_review input body r \<longleftrightarrow> r \<in> set (acn_reviews input) \<and> review_for body input r
     \<and> (\<forall>y \<in> set (acn_reviews input). review_for body input y \<longrightarrow> review_key y \<le> review_key r)
     \<and> rvd_outcome r = ReviewVerdict.Approved \<and> rvd_reviewer_id r \<noteq> rvd_attempt_actor_id r
     \<and> (rbd_review_policy body, rvd_reviewer_role r) \<in> {(Independent, Reviewer), (OperatorAllowed, Operator)}"

definition proven :: "AcceptanceInput \<Rightarrow> RequirementDeclarationBody \<Rightarrow> bool" where
  "proven input body \<longleftrightarrow> (if rqr_kind (rbd_reference body) = GateKind.Review
     then \<exists>r. approving_review input body r else \<exists>e. proving_evidence input body e)"

text \<open>A recorded negative fact: an observation of this work, or a review that turned it down.\<close>

definition negative_fact :: "AcceptanceInput \<Rightarrow> RequirementDeclarationBody \<Rightarrow> bool" where
  "negative_fact input body \<longleftrightarrow> (if rqr_kind (rbd_reference body) = GateKind.Review
     then \<exists>r \<in> set (acn_reviews input). review_for body input r
       \<and> rvd_outcome r \<in> {ReviewVerdict.Rejected, ReviewVerdict.Returned, ReviewVerdict.Revoked}
     else \<exists>e \<in> set (acn_evidence input). evo_requirement e = rbd_reference body
       \<and> (evo_subject e = acn_subject input \<or> same_work_and_attempt (evo_subject e) (acn_subject input)))"

text \<open>An operator exception in force for this requirement and subject.\<close>

definition exception_in_force ::
  "AcceptanceInput \<Rightarrow> RequirementDeclarationBody \<Rightarrow> ForceException \<Rightarrow> bool" where
  "exception_in_force input body x \<longleftrightarrow> x \<in> set (acn_exceptions input)
     \<and> fex_requirement x = rbd_reference body \<and> fex_subject x = acn_subject input
     \<and> fex_actor_role x = Operator \<and> \<not> trim_is_empty (fex_comment x) \<and> \<not> fex_revoked x
     \<and> (\<forall>at. fex_expires_at x = Some at \<longrightarrow> acn_evaluated_at input < at)"

lemma evidence_state_satisfied:
  assumes "\<not> is_unsatisfied (fst (evidence_state body input (evidence_groups body input)))"
  shows "\<exists>e. proving_evidence input body e"
proof (cases "last_of (by_recency (eg_exact (evidence_groups body input)))")
  case None
  with assms show ?thesis
    by (auto simp: evidence_state_def is_unsatisfied_def split: option.splits if_splits)
next
  case (Some e)
  from last_of_sort_key [OF Some [unfolded by_recency_def eg_exact_eq]]
  have e: "e \<in> set (acn_evidence input)" "exact_for body input e"
    "\<forall>y \<in> set (acn_evidence input). exact_for body input y \<longrightarrow> evidence_key y \<le> evidence_key e" by auto
  then have "fst (evidence_state body input (evidence_groups body input)) = verdict body e"
    using evidence_state_exact [OF Some] exact_state_verdict by (metis exact_for_def)
  with assms e show ?thesis by (auto simp: proving_evidence_def verdict_satisfied)
qed

lemma evidence_state_negative:
  assumes "exception_applies_to_raw (fst (evidence_state body input (evidence_groups body input)))"
  shows "\<exists>e \<in> set (acn_evidence input). evo_requirement e = rbd_reference body
       \<and> (evo_subject e = acn_subject input \<or> same_work_and_attempt (evo_subject e) (acn_subject input))"
proof (cases "last_of (by_recency (eg_exact (evidence_groups body input)))")
  case (Some e)
  from last_of_sort_key [OF Some [unfolded by_recency_def eg_exact_eq]] show ?thesis
    by (auto simp: exact_for_def)
next
  case exact: None
  show ?thesis
  proof (cases "last_of (by_recency (eg_stale (evidence_groups body input)))")
    case None
    with exact assms show ?thesis
      by (auto simp: evidence_state_def exception_applies_to_raw_def split: option.splits if_splits)
  next
    case (Some e)
    from last_of_sort_key [OF Some [unfolded by_recency_def]] eg_stale_set [of body input] show ?thesis by auto
  qed
qed

lemma exact_review_state:
  "fst (exact_review body r) = ReviewState.Approved i \<longleftrightarrow> i = rvd_id r
     \<and> rvd_outcome r = ReviewVerdict.Approved \<and> rvd_reviewer_id r \<noteq> rvd_attempt_actor_id r
     \<and> (rbd_review_policy body, rvd_reviewer_role r) \<in> {(Independent, Reviewer), (OperatorAllowed, Operator)}"
  by (cases "rbd_review_policy body")
    (auto simp: exact_review_def Let_def review_is_authorized_def split: ReviewVerdict.splits)

lemma review_state_satisfied:
  assumes "\<not> is_unsatisfied (fst (interpret_review body input))"
  shows "\<exists>r. approving_review input body r"
proof (cases "last_of (sort_key review_key (filter (review_for body input) (acn_reviews input)))")
  case None
  then have none: "filter (current_review input) (matching_reviews body input) = []"
    by (auto simp: filter_empty_conv matching_reviews_def review_for_def)
  with assms show ?thesis
    by (simp add: interpret_review_def Let_def is_unsatisfied_def split: option.splits)
next
  case (Some r)
  with assms have "\<not> is_unsatisfied (RawRequirementState.Review (fst (exact_review body r)))"
    by (subst (asm) interpret_review_cases) simp
  then obtain i where "fst (exact_review body r) = ReviewState.Approved i"
    by (auto simp: is_unsatisfied_def split: ReviewState.splits)
  with last_of_sort_key [OF Some] show ?thesis
    unfolding exact_review_state approving_review_def by auto
qed

lemma review_state_negative:
  assumes "exception_applies_to_raw (fst (interpret_review body input))"
  shows "\<exists>r \<in> set (acn_reviews input). review_for body input r
       \<and> rvd_outcome r \<in> {ReviewVerdict.Rejected, ReviewVerdict.Returned, ReviewVerdict.Revoked}"
proof (cases "last_of (sort_key review_key (filter (review_for body input) (acn_reviews input)))")
  case None
  then have none: "filter (current_review input) (matching_reviews body input) = []"
    by (auto simp: filter_empty_conv matching_reviews_def review_for_def)
  with assms show ?thesis
    by (simp add: interpret_review_def Let_def exception_applies_to_raw_def split: option.splits)
next
  case (Some r)
  with assms have "exception_applies_to_raw (RawRequirementState.Review (fst (exact_review body r)))"
    by (subst (asm) interpret_review_cases) simp
  then have "rvd_outcome r \<in> {ReviewVerdict.Rejected, ReviewVerdict.Returned, ReviewVerdict.Revoked}"
    by (auto simp: exact_review_def Let_def exception_applies_to_raw_def split: if_splits ReviewVerdict.splits)
  with last_of_sort_key [OF Some] show ?thesis by auto
qed

definition body_fits :: "AcceptanceInput \<Rightarrow> RequirementDeclarationBody \<Rightarrow> bool" where
  "body_fits input body \<longleftrightarrow> rbd_subject body = acn_subject input
     \<and> purpose_matches_subject (rbd_purpose body) (rbd_subject body)"

lemma interpret_body_returns: "\<exists>raw ds. interpret_body body input = Return (raw, ds)"
proof -
  obtain ds where "interpret_evidence body input
      = Return (fst (evidence_state body input (evidence_groups body input)), ds)"
    by (rule interpret_evidence_returns)
  then show ?thesis by (simp add: interpret_body_def case_prod_unfold)
qed

lemma interpret_body_raw:
  assumes "interpret_body body input = Return (raw, ds)" and "body_fits input body"
  shows "\<not> is_unsatisfied raw \<Longrightarrow> proven input body"
    and "exception_applies_to_raw raw \<Longrightarrow> negative_fact input body"
  using assms interpret_evidence_returns [of body input] evidence_state_satisfied [of body input]
    evidence_state_negative [of body input] review_state_satisfied [of body input]
    review_state_negative [of body input]
  by (auto simp: interpret_body_def body_fits_def proven_def negative_fact_def case_prod_unfold split: if_splits)

section \<open>Exceptions\<close>

lemma latest_exception_mem: "latest_exception xs = Some x \<Longrightarrow> x \<in> set xs"
proof -
  have "foldl (\<lambda>best y. if fex_id y < fex_id best then best else y) z zs \<in> insert z (set zs)" for z zs
    by (induction zs arbitrary: z) auto
  then show "latest_exception xs = Some x \<Longrightarrow> x \<in> set xs"
    by (cases xs) (auto simp: latest_exception_def)
qed

lemma effective_satisfied:
  assumes "effective_is_satisfied (fst (effective_state (rbd_reference body) True raw input))"
  shows "\<not> is_unsatisfied raw
     \<or> exception_applies_to_raw raw \<and> (\<exists>x. exception_in_force input body x)"
proof (cases "selected_exception (rbd_reference body) input")
  case None
  with assms show ?thesis by (auto simp: effective_state_def effective_is_satisfied_def split: if_splits)
next
  case (Some x)
  then have "x \<in> set (acn_exceptions input)" "fex_requirement x = rbd_reference body" "fex_subject x = acn_subject input"
    using latest_exception_mem [OF Some [unfolded selected_exception_def]] by auto
  with Some assms show ?thesis
    by (auto simp: effective_state_def effective_is_satisfied_def exception_in_force_def exception_is_valid_def
        split: if_splits option.splits)
qed

section \<open>Ready closeouts\<close>

lemma assess_returns: "\<exists>a ds. assess_declaration input d = Return (a, ds)"
  using interpret_body_returns [of "case d of RequirementDeclaration.Present body \<Rightarrow> body" input]
  by (cases d) (auto simp: assess_declaration_def case_prod_unfold)

lemma assessments_return: "\<exists>rs pushed. assess_declarations input ds = Return (rs, pushed)"
proof (induction ds)
  case (Cons d ds)
  with assess_returns [of input d] show ?case by auto
qed simp

lemma interpretation_returns: "\<exists>i. interpret_acceptance input = Return i"
  using assessments_return [of input "acn_declarations input"] by (auto simp: interpret_acceptance_def)

lemma assessments_collect:
  assumes "assess_declarations input ds = Return (rs, pushed)" and "d \<in> set ds"
  shows "\<exists>a n. assess_declaration input d = Return (a, n) \<and> a \<in> set rs \<and> set n \<subseteq> set pushed"
  using assms
proof (induction ds arbitrary: rs pushed)
  case (Cons x ds)
  then obtain a n rs' n' where x: "assess_declaration input x = Return (a, n)"
    and rest: "assess_declarations input ds = Return (rs', n')" and eq: "rs = a # rs'" "pushed = n @ n'"
    by (auto simp: run_bind_Return_iff)
  show ?case
  proof (cases "d = x")
    case True
    with x eq show ?thesis by auto
  next
    case False
    with Cons.prems have "d \<in> set ds" by simp
    from Cons.IH [OF rest this] eq show ?thesis by fastforce
  qed
qed simp

lemma no_blocking_notes:
  assumes "\<not> has_blocking_declaration_issue i" and "d \<in> set (act_diagnostics i)"
  shows "\<not> blocks_declaration d"
  using assms by (auto simp: has_blocking_declaration_issue_def list_ex_iff)

text \<open>A loop that only pushes diagnostics accepted by \<open>P\<close> when none is accepted pushes nothing.\<close>

lemma notes_all_accepted:
  assumes push: "\<And>s x n. n \<in> set (fst (f s x)) \<Longrightarrow> P n" and none: "\<And>n. n \<in> set (notes_of f s xs) \<Longrightarrow> \<not> P n"
  shows "notes_of f s xs = []"
  using none
proof (induction xs arbitrary: s)
  case (Cons x xs)
  have "fst (f s x) = []"
    using push Cons.prems by (metis Un_iff last_in_set notes_of_Cons set_append)
  moreover have "notes_of f (snd (f s x)) xs = []"
    using Cons by (simp add: notes_of_Cons)
  ultimately show ?case by (simp add: notes_of_Cons)
qed simp

definition declaration_fits :: "AcceptanceInput \<Rightarrow> RequirementDeclaration \<Rightarrow> bool" where
  "declaration_fits input d \<longleftrightarrow> (\<forall>body. d = RequirementDeclaration.Present body \<longrightarrow> body_fits input body)"

lemma declaration_notes_Nil:
  "notes_of (declaration_step input) [] ds = [] \<longleftrightarrow>
     distinct (map (\<lambda>d. rqr_id (declaration_reference d)) ds) \<and> (\<forall>d \<in> set ds. declaration_fits input d)"
  by (subst notes_one_set [where k = "\<lambda>d. rqr_id (declaration_reference d)" and P = "declaration_fits input"])
    (auto simp: declaration_step_def Let_def declaration_fits_def body_fits_def split: RequirementDeclaration.splits)

lemma evidence_ids_Nil: "notes_of evidence_id_step [] es = [] \<longleftrightarrow> distinct (map evo_id es)"
  by (subst notes_one_set [where k = evo_id and P = "\<lambda>_. True"]) (auto simp: evidence_id_step_def)

lemma review_ids_Nil: "notes_of review_id_step [] rs = [] \<longleftrightarrow> distinct (map rvd_id rs)"
  by (subst notes_one_set [where k = rvd_id and P = "\<lambda>_. True"]) (auto simp: review_id_step_def)

lemma input_clean:
  assumes i: "interpret_acceptance input = Return i" and clean: "\<not> has_blocking_declaration_issue i"
  shows "acn_declarations input \<noteq> []"
    and "distinct (map (\<lambda>d. rqr_id (declaration_reference d)) (acn_declarations input))"
    and "distinct (map evo_id (acn_evidence input))" and "distinct (map rvd_id (acn_reviews input))"
    and "\<forall>d \<in> set (acn_declarations input). declaration_fits input d"
proof -
  have "set (input_notes input) \<subseteq> set (act_diagnostics i)"
    using i by (auto simp: interpret_acceptance_def run_bind_Return_iff)
  with no_blocking_notes [OF clean] have none: "n \<in> set (input_notes input) \<Longrightarrow> \<not> blocks_declaration n" for n
    by auto
  show "acn_declarations input \<noteq> []"
    using none [of EmptyRequirementSet] by (auto simp: input_notes_def note_if_def blocks_declaration_def)
  have "notes_of (declaration_step input) [] (acn_declarations input) = []"
    using none by (intro notes_all_accepted [where P = blocks_declaration])
      (auto simp: declaration_step_def Let_def note_if_def blocks_declaration_def input_notes_def
        split: if_splits RequirementDeclaration.splits)
  then show "distinct (map (\<lambda>d. rqr_id (declaration_reference d)) (acn_declarations input))"
    and "\<forall>d \<in> set (acn_declarations input). declaration_fits input d"
    by (simp_all add: declaration_notes_Nil)
  have "notes_of evidence_id_step [] (acn_evidence input) = []"
    using none by (intro notes_all_accepted [where P = blocks_declaration])
      (auto simp: evidence_id_step_def note_if_def blocks_declaration_def input_notes_def split: if_splits)
  then show "distinct (map evo_id (acn_evidence input))" by (simp add: evidence_ids_Nil)
  have "notes_of review_id_step [] (acn_reviews input) = []"
    using none by (intro notes_all_accepted [where P = blocks_declaration])
      (auto simp: review_id_step_def note_if_def blocks_declaration_def input_notes_def split: if_splits)
  then show "distinct (map rvd_id (acn_reviews input))" by (simp add: review_ids_Nil)
qed

text \<open>The assessment of one declaration of a clean input whose required items are satisfied.\<close>

lemma declaration_present_proven:
  assumes a: "assess_declaration input d = Return (a, n)" and fits: "declaration_fits input d"
    and clean: "\<forall>x \<in> set n. \<not> blocks_declaration x"
    and satisfied: "ras_required a \<Longrightarrow> effective_is_satisfied (ras_effective a)"
  shows "\<exists>body. d = RequirementDeclaration.Present body \<and> body_fits input body
     \<and> (rbd_required body \<longrightarrow> proven input body
        \<or> ras_required a \<and> is_unsatisfied (ras_raw a) \<and> negative_fact input body
          \<and> (\<exists>x. exception_in_force input body x))"
proof (cases d)
  case (Present body)
  with fits have fit: "body_fits input body" by (simp add: declaration_fits_def)
  from a Present obtain raw ds where raw: "interpret_body body input = Return (raw, ds)"
    and parts: "ras_required a = rbd_required body" "ras_raw a = raw"
      "ras_effective a = fst (effective_state (rbd_reference body) (rbd_required body) raw input)"
    by (auto simp: assess_declaration_def run_bind_Return_iff assessment_for_def case_prod_unfold)
  from interpret_body_raw [OF raw fit] effective_satisfied [of body raw input] satisfied parts
  show ?thesis using Present fit by auto
next
  case (Deleted expected)
  with a clean show ?thesis by (auto simp: assess_declaration_def blocks_declaration_def)
next
  case (Mismatched expected seen)
  with a clean show ?thesis by (auto simp: assess_declaration_def blocks_declaration_def)
qed

text \<open>C3: A closeout that the interpretation reports ready rests on a non-empty,
  duplicate-free set of present declarations about exactly this subject, each required one of which
  is proven (by the latest observation of this subject, or by the latest review of the current
  submission being an independent, authorized approval) or excepted: then an operator exception is in
  force for it, a negative fact is on record (an exception never stands in for missing proof), and
  the failure stays visible.\<close>

theorem closeout_ready_sound:
  assumes i: "interpret_acceptance input = Return i" and ready: "closeout_ready i"
  shows "acn_declarations input \<noteq> []
     \<and> distinct (map (\<lambda>d. rqr_id (declaration_reference d)) (acn_declarations input))
     \<and> distinct (map evo_id (acn_evidence input)) \<and> distinct (map rvd_id (acn_reviews input))
     \<and> (\<forall>d \<in> set (acn_declarations input). \<exists>body. d = RequirementDeclaration.Present body
          \<and> body_fits input body
          \<and> (rbd_required body \<longrightarrow> proven input body
             \<or> has_failures i \<and> negative_fact input body \<and> (\<exists>x. exception_in_force input body x)))"
proof -
  have clean: "\<not> has_blocking_declaration_issue i"
    and satisfied: "\<And>a. a \<in> set (act_requirements i) \<Longrightarrow> ras_required a \<Longrightarrow> effective_is_satisfied (ras_effective a)"
    using ready by (auto simp: closeout_ready_def required_satisfied_def list_all_iff)
  obtain rs pushed where rs: "assess_declarations input (acn_declarations input) = Return (rs, pushed)"
    and eq: "i = \<lparr>act_subject = acn_subject input, act_requirements = rs,
       act_diagnostics = input_notes input @ pushed @ concat (map (evidence_note input) (acn_evidence input)),
       act_closeout = build_closeout rs (subject_is_container (acn_subject input))\<rparr>"
    using i by (auto simp: interpret_acceptance_def run_bind_Return_iff)
  then have parts: "act_requirements i = rs" "set pushed \<subseteq> set (act_diagnostics i)" by auto
  have "\<exists>body. d = RequirementDeclaration.Present body \<and> body_fits input body
      \<and> (rbd_required body \<longrightarrow> proven input body
         \<or> has_failures i \<and> negative_fact input body \<and> (\<exists>x. exception_in_force input body x))"
    if d: "d \<in> set (acn_declarations input)" for d
  proof -
    obtain a n where a: "assess_declaration input d = Return (a, n)" "a \<in> set rs" "set n \<subseteq> set pushed"
      using assessments_collect [OF rs d] by blast
    have "\<forall>x \<in> set n. \<not> blocks_declaration x" using no_blocking_notes [OF clean] a(3) parts(2) by blast
    moreover have "declaration_fits input d" using input_clean(5) [OF i clean] d by blast
    moreover have "ras_required a \<Longrightarrow> effective_is_satisfied (ras_effective a)"
      using satisfied a(2) parts(1) by simp
    ultimately have "\<exists>body. d = RequirementDeclaration.Present body \<and> body_fits input body
      \<and> (rbd_required body \<longrightarrow> proven input body
         \<or> ras_required a \<and> is_unsatisfied (ras_raw a) \<and> negative_fact input body
           \<and> (\<exists>x. exception_in_force input body x))"
      using a(1) by (intro declaration_present_proven)
    moreover have "has_failures i" if "ras_required a" "is_unsatisfied (ras_raw a)"
      using that a(2) parts(1) by (auto simp: has_failures_def list_ex_iff)
    ultimately show ?thesis by blast
  qed
  with input_clean [OF i clean] show ?thesis by blast
qed

definition sample_closeout :: AcceptanceInput where
  "sample_closeout = sample_input\<lparr>acn_evidence := [sample_evidence ''e2'' 2 20 EvidenceResult.Passed]\<rparr>"

theorem closeout_ready_sound_witness:
  "\<exists>i. interpret_acceptance sample_closeout = Return i \<and> closeout_ready i \<and> proven sample_closeout sample_body"
proof -
  obtain i where i: "interpret_acceptance sample_closeout = Return i" using interpretation_returns by blast
  have "(case interpret_acceptance sample_closeout of Return i \<Rightarrow> closeout_ready i \<and> \<not> has_failures i | _ \<Rightarrow> False)"
    by code_simp
  then have ready: "closeout_ready i" "\<not> has_failures i" by (simp_all add: i)
  have "RequirementDeclaration.Present sample_body \<in> set (acn_declarations sample_closeout)" "rbd_required sample_body"
    by (simp_all add: sample_closeout_def sample_input_def sample_body_def)
  with closeout_ready_sound [OF i ready(1)] i ready show ?thesis by fastforce
qed

end
