(* ===== verification/Actions.thy ===== *)
theory Actions
  imports Status_Evaluator
begin

text \<open>
  Action descriptors and authorization (\<open>crates/domain/src/actions.rs\<close>) and the paired status/action
  decision (\<open>crates/domain/src/decision_api.rs\<close>).  The guards of a denial are tried in the order of the
  source's early returns.
\<close>

section \<open>The vocabulary\<close>

datatype ActionKind = Inspect | ReadHistory | ReadOperation | Export | Publish | Claim | AcceptAttempt
  | StartAttempt | Checkpoint | AttachEvidence | Submit | RequestReview | Review | FinishClose | Close
  | Stop | Release | PausePolicy | ResumePolicy | Cancel | Reopen | Retry | RevokeReview
  | RevokeException | ResolveHold | WaiveDependency | ForceGate | Recover | ReconcileResource | Repair

definition ALL_ACTIONS :: "ActionKind list" where
  "ALL_ACTIONS = [ActionKind.Inspect, ReadHistory, ReadOperation, Export, ActionKind.Publish,
     ActionKind.Claim, ActionKind.AcceptAttempt, StartAttempt, ActionKind.Checkpoint,
     ActionKind.AttachEvidence, ActionKind.Submit, ActionKind.RequestReview, ActionKind.Review,
     ActionKind.FinishClose, ActionKind.Close, Stop, ActionKind.Release, PausePolicy,
     ActionKind.ResumePolicy, Cancel, Reopen, Retry, RevokeReview, RevokeException,
     ActionKind.ResolveHold, WaiveDependency, ForceGate, ActionKind.Recover, ReconcileResource,
     ActionKind.Repair]"

text \<open>The derived order of the kinds is their position in the declaration.\<close>

fun position :: "'a list \<Rightarrow> 'a \<Rightarrow> nat" where
  "position [] x = 0"
| "position (y # ys) x = (if x = y then 0 else Suc (position ys x))"

definition action_index :: "ActionKind \<Rightarrow> nat" where
  "action_index a = position ALL_ACTIONS a"

definition all_action_kinds :: "ActionKind list" where
  "all_action_kinds = ALL_ACTIONS"

datatype ActionInputKind = ExpectedProjectRevision | ExpectedEntityRevision | ExpectedProofRevision
  | AttemptId | Fence | SessionId | OperationId | Confirmation | Reason | Comment | Evidence | Summary
  | ReviewDecision | RecoveryDisposition

definition input_kind_index :: "ActionInputKind \<Rightarrow> nat" where
  "input_kind_index = position [ExpectedProjectRevision, ExpectedEntityRevision, ExpectedProofRevision,
     ActionInputKind.AttemptId, ActionInputKind.Fence, SessionId, OperationId, Confirmation, Reason,
     Comment, Evidence, ActionInputKind.Summary, ActionInputKind.ReviewDecision, RecoveryDisposition]"

record ActionRequest =
  ar_action :: ActionKind
  ar_target :: EntityIdentity
  ar_expected_project_revision :: Revision
  ar_expected_proof_revision :: "ProofRevision option"
  ar_attempt :: "AttemptIdentity option"

record ActionDescriptor =
  acd_action :: ActionKind
  acd_target :: EntityIdentity
  acd_expected_project_revision :: Revision
  acd_expected_entity_revision :: EntityRevision
  acd_expected_proof_revision :: "ProofRevision option"
  acd_attempt :: "AttemptIdentity option"
  acd_required_roles :: "ActorRole list"
  acd_required_inputs :: "ActionInputKind list"
  acd_confirmation :: "string option"
  acd_read_only :: bool
  acd_recovery :: bool

definition descriptor_request :: "ActionDescriptor \<Rightarrow> ActionRequest" where
  "descriptor_request d = \<lparr>ar_action = acd_action d, ar_target = acd_target d,
     ar_expected_project_revision = acd_expected_project_revision d,
     ar_expected_proof_revision = acd_expected_proof_revision d, ar_attempt = acd_attempt d\<rparr>"

datatype ActionDenial =
    Unauthenticated
  | ScopeMismatch
  | InvalidFacts
  | AvailabilityUnavailable Availability
  | IntegrityQuarantined
  | IntegrityDegraded
  | RoleDenied "ActorRole list" ActorRole
  | DelegationInvalid
  | PolicyDenied
  | StatusDenied DerivedStatus
  | HoldActive HoldCode
  | StaleSnapshot Revision Revision
  | StaleEntity EntityRevision EntityRevision
  | StaleProof "ProofRevision option" "ProofRevision option"
  | MissingAttempt
  | StaleFence "AttemptIdentity option" "AttemptIdentity option"
  | AttemptOwnerMismatch
  | AttemptPhaseDenied AttemptPhase
  | MissingSubmission
  | ReviewNotIndependent
  | RecoveryRequired
  | NoActiveHold
  | ActionNotApplicable

primrec denial_stable_code :: "ActionDenial \<Rightarrow> string" where
  "denial_stable_code Unauthenticated = ''unauthenticated''"
| "denial_stable_code ActionDenial.ScopeMismatch = ''scope_mismatch''"
| "denial_stable_code InvalidFacts = ''invalid_facts''"
| "denial_stable_code (AvailabilityUnavailable _) = ''availability_unavailable''"
| "denial_stable_code ActionDenial.IntegrityQuarantined = ''integrity_quarantined''"
| "denial_stable_code IntegrityDegraded = ''integrity_degraded''"
| "denial_stable_code (ActionDenial.RoleDenied _ _) = ''role_denied''"
| "denial_stable_code DelegationInvalid = ''delegation_invalid''"
| "denial_stable_code ActionDenial.PolicyDenied = ''policy_denied''"
| "denial_stable_code (StatusDenied _) = ''status_denied''"
| "denial_stable_code (HoldActive _) = ''hold_active''"
| "denial_stable_code (StaleSnapshot _ _) = ''stale_snapshot''"
| "denial_stable_code (ActionDenial.StaleEntity _ _) = ''stale_entity''"
| "denial_stable_code (ActionDenial.StaleProof _ _) = ''stale_proof''"
| "denial_stable_code MissingAttempt = ''attempt_missing''"
| "denial_stable_code (ActionDenial.StaleFence _ _) = ''stale_fence''"
| "denial_stable_code AttemptOwnerMismatch = ''attempt_owner_mismatch''"
| "denial_stable_code (AttemptPhaseDenied _) = ''attempt_phase_denied''"
| "denial_stable_code MissingSubmission = ''submission_missing''"
| "denial_stable_code ReviewNotIndependent = ''review_not_independent''"
| "denial_stable_code ActionDenial.RecoveryRequired = ''recovery_required''"
| "denial_stable_code NoActiveHold = ''hold_missing''"
| "denial_stable_code ActionNotApplicable = ''action_not_applicable''"

record DeniedDescriptor =
  dnd_descriptor :: ActionDescriptor
  dnd_reason :: ActionDenial
  dnd_recovery :: "ActionKind list"

datatype ActionAuthorization = Allowed ActionDescriptor | Denied DeniedDescriptor

record ActionDecision =
  adn_allowed :: "ActionDescriptor list"
  adn_denied :: "DeniedDescriptor list"

definition decision_allows :: "ActionDecision \<Rightarrow> ActionKind \<Rightarrow> bool" where
  "decision_allows d a \<longleftrightarrow> list_ex (\<lambda>descriptor. acd_action descriptor = a) (adn_allowed d)"

definition decision_denial :: "ActionDecision \<Rightarrow> ActionKind \<Rightarrow> DeniedDescriptor option" where
  "decision_denial d a = find (\<lambda>denied. acd_action (dnd_descriptor denied) = a) (adn_denied d)"

record ActionEvaluationInput =
  aei_facts :: DecisionInputs
  aei_status :: DerivedStatus
  aei_reasons :: "ReasonCode list"

definition action_input_new ::
  "DecisionInputs \<Rightarrow> DerivedStatus \<Rightarrow> ReasonCode list \<Rightarrow> ActionEvaluationInput" where
  "action_input_new facts status reasons =
     \<lparr>aei_facts = facts, aei_status = status, aei_reasons = reasons\<rparr>"

section \<open>Classes of actions\<close>

definition is_read_only :: "ActionKind \<Rightarrow> bool" where
  "is_read_only a \<longleftrightarrow> a \<in> {ActionKind.Inspect, ReadHistory, ReadOperation, Export}"

definition is_recovery_action :: "ActionKind \<Rightarrow> bool" where
  "is_recovery_action a \<longleftrightarrow> a \<in> {Stop, ActionKind.Release, ActionKind.ResolveHold, ActionKind.Recover,
     ReconcileResource, ActionKind.Repair, ActionKind.Review, RevokeReview, RevokeException,
     WaiveDependency, ForceGate}"

definition action_requires_attempt :: "ActionKind \<Rightarrow> bool" where
  "action_requires_attempt a \<longleftrightarrow> a \<in> {ActionKind.AcceptAttempt, StartAttempt, ActionKind.Checkpoint,
     ActionKind.AttachEvidence, ActionKind.Submit, ActionKind.RequestReview, ActionKind.Review,
     ActionKind.FinishClose, ActionKind.Close, Stop, ActionKind.Release, ActionKind.Recover,
     ReconcileResource}"

definition action_requires_proof :: "ActionKind \<Rightarrow> bool" where
  "action_requires_proof a \<longleftrightarrow> a \<in> {ActionKind.Checkpoint, ActionKind.AttachEvidence, ActionKind.Submit,
     ActionKind.RequestReview, ActionKind.Review, ActionKind.FinishClose, ActionKind.Close, ForceGate,
     RevokeReview, RevokeException, Retry, Reopen, WaiveDependency}"

definition action_requires_session :: "ActionKind \<Rightarrow> bool" where
  "action_requires_session a \<longleftrightarrow> \<not> is_read_only a"

definition requires_attempt_owner :: "ActionKind \<Rightarrow> bool" where
  "requires_attempt_owner a \<longleftrightarrow> a \<in> {ActionKind.AcceptAttempt, StartAttempt, ActionKind.Checkpoint,
     ActionKind.AttachEvidence, ActionKind.Submit, ActionKind.RequestReview, ActionKind.FinishClose,
     ActionKind.Close, Stop, ActionKind.Release}"

definition confirmation_for :: "ActionKind \<Rightarrow> string option" where
  "confirmation_for a = (case a of
      ActionKind.Publish \<Rightarrow> Some ''Publish this work for execution?''
    | ActionKind.FinishClose \<Rightarrow> Some ''Submit the close intent for this exact proof context?''
    | ActionKind.Close \<Rightarrow> Some ''Finalize accepted closeout for this exact proof context?''
    | Stop \<Rightarrow> Some ''Request a safe stop and retain recovery history?''
    | ActionKind.Release \<Rightarrow> Some ''Release the current attempt without asserting success?''
    | PausePolicy \<Rightarrow> Some ''Pause dispatch for this work item?''
    | ActionKind.ResumePolicy \<Rightarrow> Some ''Resume the previously configured dispatch policy?''
    | Cancel \<Rightarrow> Some ''Cancel this work item with an audited reason?''
    | Reopen \<Rightarrow> Some ''Reopen this terminal work item with an audited reason?''
    | Retry \<Rightarrow> Some ''Begin a new proof generation, preserving all prior results?''
    | RevokeReview \<Rightarrow> Some ''Revoke this exact review and invalidate its accepted outcome?''
    | RevokeException \<Rightarrow> Some ''Revoke this exception without deleting its history?''
    | ActionKind.ResolveHold \<Rightarrow> Some ''Resolve the named hold with an audited reason?''
    | WaiveDependency \<Rightarrow> Some ''Record a scoped dependency waiver?''
    | ForceGate \<Rightarrow> Some ''Record a scoped gate exception without altering evidence?''
    | ActionKind.Recover \<Rightarrow> Some ''Record or resolve the safe recovery disposition?''
    | ReconcileResource \<Rightarrow> Some ''Reconcile the external resource disposition?''
    | ActionKind.Repair \<Rightarrow> Some ''Repair or rebuild the affected projection?''
    | _ \<Rightarrow> None)"

section \<open>Facts the policy reads\<close>

definition authority_of :: "DecisionInputs \<Rightarrow> ActionDenial + ActorAuthorityInput" where
  "authority_of facts = (case di_authority facts of
      Fact.Present authority \<Rightarrow>
        if aa_project_id authority \<noteq> ei_project_id (di_subject facts)
           \<or> as_str (authority_actor_id authority) = []
        then Inl ActionDenial.ScopeMismatch else Inr authority
    | _ \<Rightarrow> Inl Unauthenticated)"

text \<open>\<open>Option::or_else\<close>.\<close>

definition or_else :: "'a option \<Rightarrow> 'a option \<Rightarrow> 'a option" where
  "or_else x y = (case x of Some v \<Rightarrow> Some v | None \<Rightarrow> y)"

definition current_proof_revision :: "DecisionInputs \<Rightarrow> ProofRevision option" where
  "current_proof_revision facts =
     or_else (or_else (or_else
       (map_option (\<lambda>r. pr_proof_revision (pqi_proof r)) (as_present (di_requirements facts)))
       (map_option (\<lambda>x. pr_proof_revision (xi_proof x)) (as_present (di_execution facts))))
       (map_option (\<lambda>s. pr_proof_revision (su_proof s)) (as_present (di_submission facts))))
       (map_option (\<lambda>r. pr_proof_revision (rv_proof r)) (as_present (di_review facts)))"

definition current_attempt :: "DecisionInputs \<Rightarrow> AttemptIdentity option" where
  "current_attempt facts =
     or_else (or_else (or_else
       (map_option xi_attempt (as_present (di_execution facts)))
       (Option.bind (as_present (di_submission facts)) (\<lambda>s. pr_attempt (su_proof s))))
       (Option.bind (as_present (di_review facts)) (\<lambda>r. pr_attempt (rv_proof r))))
       (map_option ry_attempt (as_present (di_recovery facts)))"

definition current_attempt_actor :: "DecisionInputs \<Rightarrow> ActorId option" where
  "current_attempt_actor facts = or_else
     (map_option xi_actor_id (as_present (di_execution facts)))
     (map_option su_actor_id (as_present (di_submission facts)))"

definition unresolved_recovery :: "DecisionInputs \<Rightarrow> bool" where
  "unresolved_recovery facts \<longleftrightarrow> case_option False ry_unresolved (as_present (di_recovery facts))"

text \<open>The tuple \<open>(&hold.id, &hold.code, hold.entity_revision)\<close> in its derived order.\<close>

definition hold_less :: "HoldInput \<Rightarrow> HoldInput \<Rightarrow> bool" where
  "hold_less h k \<longleftrightarrow> ho_id h < ho_id k
     \<or> ho_id h = ho_id k \<and> (ho_code h < ho_code k
        \<or> ho_code h = ho_code k \<and> ho_entity_revision h < ho_entity_revision k)"

primrec active_hold_from ::
  "DecisionInputs \<Rightarrow> HoldInput option \<Rightarrow> HoldInput list \<Rightarrow> ActionDenial + HoldInput option" where
  "active_hold_from facts selected [] = Inr selected"
| "active_hold_from facts selected (hold # holds) =
     (if is_project_id (ho_scope hold) \<noteq> ei_project_id (di_subject facts)
         \<or> is_work_id (ho_scope hold) \<noteq> ei_work_id (di_subject facts)
      then Inl ActionDenial.ScopeMismatch
      else if ho_active hold \<and> ho_entity_revision hold \<noteq> ei_revision (di_subject facts)
      then Inl (ActionDenial.StaleEntity (ei_revision (di_subject facts)) (ho_entity_revision hold))
      else active_hold_from facts
        (if ho_active hold \<and> case_option True (\<lambda>current. hold_less hold current) selected
         then Some hold else selected) holds)"

definition active_hold :: "DecisionInputs \<Rightarrow> ActionDenial + HoldInput option" where
  "active_hold facts = (case as_present (di_holds facts) of
      None \<Rightarrow> Inr None | Some holds \<Rightarrow> active_hold_from facts None holds)"

definition passes_hold :: "ActionKind \<Rightarrow> bool" where
  "passes_hold a \<longleftrightarrow> a \<in> {ActionKind.Inspect, ReadHistory, ReadOperation, Export, Stop,
     ActionKind.Release, ActionKind.Recover, ReconcileResource, ActionKind.ResolveHold,
     ActionKind.Repair, ActionKind.Review, RevokeReview, RevokeException, WaiveDependency, ForceGate}"

definition hold_denial :: "DecisionInputs \<Rightarrow> ActionKind \<Rightarrow> ActionDenial option" where
  "hold_denial facts a = (case active_hold facts of
      Inl reason \<Rightarrow> Some reason
    | Inr None \<Rightarrow> None
    | Inr (Some hold) \<Rightarrow> if passes_hold a then None else Some (HoldActive (ho_code hold)))"

definition required_roles :: "DecisionInputs \<Rightarrow> ActionKind \<Rightarrow> ActorRole list" where
  "required_roles facts a =
     (if is_read_only a then []
      else if a = ActionKind.Publish then [Publisher, Operator]
      else if a = ActionKind.Claim
      then (if di_dispatch_policy facts = DispatchPolicy.OperatorOnly then [Operator] else [Agent])
      else if a \<in> {ActionKind.AcceptAttempt, StartAttempt, ActionKind.Checkpoint, ActionKind.AttachEvidence,
        ActionKind.Submit, ActionKind.RequestReview, ActionKind.FinishClose, ActionKind.Close}
      then [Agent, Operator]
      else if a \<in> {ActionKind.Review, RevokeReview} then [Reviewer, Operator]
      else if a \<in> {Stop, ActionKind.Release, ActionKind.Recover} then [Agent, Operator]
      else [Operator])"

definition mapped_permission :: "ActionKind \<Rightarrow> PermittedAction option" where
  "mapped_permission a = (case a of
      ActionKind.Inspect \<Rightarrow> Some PermittedAction.Inspect
    | ReadHistory \<Rightarrow> Some PermittedAction.Inspect
    | ReadOperation \<Rightarrow> Some PermittedAction.Inspect
    | Export \<Rightarrow> Some PermittedAction.Inspect
    | ActionKind.Claim \<Rightarrow> Some PermittedAction.Claim
    | ActionKind.AcceptAttempt \<Rightarrow> Some PermittedAction.AcceptAttempt
    | StartAttempt \<Rightarrow> Some PermittedAction.ResumeAttempt
    | ActionKind.Checkpoint \<Rightarrow> Some PermittedAction.AttachEvidence
    | ActionKind.AttachEvidence \<Rightarrow> Some PermittedAction.AttachEvidence
    | ActionKind.Submit \<Rightarrow> Some PermittedAction.Submit
    | ActionKind.RequestReview \<Rightarrow> Some PermittedAction.Review
    | ActionKind.Review \<Rightarrow> Some PermittedAction.Review
    | RevokeReview \<Rightarrow> Some PermittedAction.Review
    | ActionKind.FinishClose \<Rightarrow> Some PermittedAction.Finish
    | ActionKind.Close \<Rightarrow> Some PermittedAction.Finish
    | ActionKind.Release \<Rightarrow> Some PermittedAction.Release
    | Stop \<Rightarrow> Some PermittedAction.Recover
    | ActionKind.Recover \<Rightarrow> Some PermittedAction.Recover
    | ReconcileResource \<Rightarrow> Some PermittedAction.Recover
    | ActionKind.ResolveHold \<Rightarrow> Some PermittedAction.ResolveHold
    | ActionKind.Repair \<Rightarrow> Some PermittedAction.Repair
    | _ \<Rightarrow> None)"

section \<open>Descriptors\<close>

definition reasoned_action :: "ActionKind \<Rightarrow> bool" where
  "reasoned_action a \<longleftrightarrow> a \<in> {Cancel, Reopen, Retry, RevokeReview, RevokeException, WaiveDependency,
     ForceGate, ActionKind.ResolveHold}"

definition required_inputs :: "DecisionInputs \<Rightarrow> ActionKind \<Rightarrow> ActionInputKind list" where
  "required_inputs facts a = remdups_adj (sort_key input_kind_index
     ([ExpectedProjectRevision, ExpectedEntityRevision]
      @ note_if (action_requires_proof a \<and> current_proof_revision facts \<noteq> None) ExpectedProofRevision
      @ (if action_requires_attempt a then [ActionInputKind.AttemptId, ActionInputKind.Fence] else [])
      @ note_if (\<not> is_read_only a) OperationId
      @ note_if (action_requires_session a) SessionId
      @ (if confirmation_for a \<noteq> None
         then Confirmation # (if reasoned_action a then [Reason, Comment] else []) else [])
      @ note_if (a \<in> {ActionKind.AttachEvidence, ActionKind.Submit}) Evidence
      @ note_if (a \<in> {ActionKind.FinishClose, ActionKind.Close}) ActionInputKind.Summary
      @ note_if (a = ActionKind.Review) ActionInputKind.ReviewDecision
      @ note_if (a \<in> {ActionKind.Recover, ReconcileResource}) RecoveryDisposition))"

definition action_descriptor :: "ActionEvaluationInput \<Rightarrow> ActionKind \<Rightarrow> ActionDescriptor" where
  "action_descriptor input a =
     (let facts = aei_facts input in
      \<lparr>acd_action = a, acd_target = di_subject facts,
       acd_expected_project_revision = di_snapshot_revision facts,
       acd_expected_entity_revision = ei_revision (di_subject facts),
       acd_expected_proof_revision = current_proof_revision facts,
       acd_attempt = current_attempt facts, acd_required_roles = required_roles facts a,
       acd_required_inputs = required_inputs facts a, acd_confirmation = confirmation_for a,
       acd_read_only = is_read_only a, acd_recovery = is_recovery_action a\<rparr>)"

section \<open>Status denials\<close>

definition deny_unless :: "bool \<Rightarrow> ActionDenial \<Rightarrow> ActionDenial option" where
  "deny_unless c reason = (if c then None else Some reason)"

definition phase_denial :: "DecisionInputs \<Rightarrow> (AttemptPhase \<Rightarrow> bool) \<Rightarrow> ActionDenial option" where
  "phase_denial facts ok = (case as_present (di_execution facts) of
      Some attempt \<Rightarrow> deny_unless (ok (xi_phase attempt)) (AttemptPhaseDenied (xi_phase attempt))
    | None \<Rightarrow> Some MissingAttempt)"

abbreviation has_submission :: "DecisionInputs \<Rightarrow> bool" where
  "has_submission facts \<equiv> as_present (di_submission facts) \<noteq> None"

text \<open>The actor's authority is the one that submitted.\<close>

definition submitter_authority :: "DecisionInputs \<Rightarrow> bool" where
  "submitter_authority facts \<longleftrightarrow> (case (as_present (di_submission facts), as_present (di_authority facts)) of
      (Some submission, Some authority) \<Rightarrow> aa_authority_root authority = su_authority_root submission
    | _ \<Rightarrow> False)"

definition review_dependent :: "DecisionInputs \<Rightarrow> ActorId \<Rightarrow> bool" where
  "review_dependent facts actor_id \<longleftrightarrow> current_attempt_actor facts = Some actor_id
     \<or> submitter_authority facts
     \<or> case_option False (\<lambda>review. rv_attempt_actor_id review = actor_id) (as_present (di_review facts))"

definition finish_close_ready :: "DecisionInputs \<Rightarrow> DerivedStatus \<Rightarrow> bool" where
  "finish_close_ready facts status \<longleftrightarrow>
     status \<in> {InProgress, NeedsVerification, AwaitingReview, DerivedStatus.Complete, Blocked}
     \<and> (status \<noteq> Blocked
        \<or> \<not> case_option False (\<lambda>review. rv_outcome review
              \<in> {ReviewOutcome.Rejected, Returned, Revoked}) (as_present (di_review facts))
          \<and> (case_option False (\<lambda>attempt. xi_phase attempt
                \<in> {AttemptPhase.Running, AttemptPhase.Verifying}) (as_present (di_execution facts))
             \<or> case_option False (\<lambda>submission. su_state submission = Sealed)
                (as_present (di_submission facts))))"

abbreviation ended :: "DerivedStatus \<Rightarrow> bool" where
  "ended status \<equiv> status \<in> {DerivedStatus.Closed, DerivedStatus.Cancelled}"

definition status_denial :: "ActionEvaluationInput \<Rightarrow> ActionKind \<Rightarrow> ActorId \<Rightarrow> ActionDenial option" where
  "status_denial input a actor_id =
     (let facts = aei_facts input; status = aei_status input;
          execution = as_present (di_execution facts) in
      case a of
        ActionKind.Inspect \<Rightarrow> None
      | ReadHistory \<Rightarrow> None
      | ReadOperation \<Rightarrow> None
      | Export \<Rightarrow> None
      | ActionKind.Publish \<Rightarrow> deny_unless (status = DerivedStatus.Draft) (StatusDenied status)
      | ActionKind.Claim \<Rightarrow>
          if di_dispatch_policy facts = DispatchPolicy.Paused then Some ActionDenial.PolicyDenied
          else deny_unless (status = Ready) (StatusDenied status)
      | ActionKind.AcceptAttempt \<Rightarrow> phase_denial facts (\<lambda>p. p = AttemptPhase.Claimed)
      | StartAttempt \<Rightarrow> phase_denial facts (\<lambda>p. p = AttemptPhase.Accepted)
      | ActionKind.AttachEvidence \<Rightarrow>
          if has_submission facts \<and> status \<in> {NeedsVerification, AwaitingReview, Blocked} then None
          else phase_denial facts (\<lambda>p. p \<in> {AttemptPhase.Running, AttemptPhase.Verifying}
            \<and> status \<in> {InProgress, NeedsVerification})
      | ActionKind.Checkpoint \<Rightarrow> phase_denial facts (\<lambda>p. p \<in> {AttemptPhase.Running, AttemptPhase.Verifying}
            \<and> status \<in> {InProgress, NeedsVerification})
      | ActionKind.Submit \<Rightarrow> phase_denial facts (\<lambda>p. p = AttemptPhase.Running)
      | ActionKind.RequestReview \<Rightarrow>
          if status = AwaitingReview \<and> has_submission facts then None
          else if \<not> has_submission facts then Some MissingSubmission
          else Some (StatusDenied status)
      | ActionKind.Review \<Rightarrow>
          if status \<in> {AwaitingReview, Blocked} \<and> has_submission facts
          then deny_unless (\<not> review_dependent facts actor_id) ReviewNotIndependent
          else Some (StatusDenied status)
      | ActionKind.FinishClose \<Rightarrow> deny_unless (finish_close_ready facts status) (StatusDenied status)
      | ActionKind.Close \<Rightarrow>
          if status = DerivedStatus.Complete \<and> has_submission facts then None
          else if status = DerivedStatus.Complete then Some MissingSubmission
          else Some (StatusDenied status)
      | Stop \<Rightarrow> deny_unless (execution \<noteq> None \<or> unresolved_recovery facts) ActionDenial.RecoveryRequired
      | ActionKind.Release \<Rightarrow> deny_unless (execution \<noteq> None) MissingAttempt
      | PausePolicy \<Rightarrow> deny_unless (\<not> ended status) (StatusDenied status)
      | ActionKind.ResumePolicy \<Rightarrow>
          deny_unless (status \<in> {DerivedStatus.Paused, RetryWait}) (StatusDenied status)
      | Cancel \<Rightarrow> deny_unless (\<not> ended status) (StatusDenied status)
      | Reopen \<Rightarrow> deny_unless (ended status) (StatusDenied status)
      | Retry \<Rightarrow> deny_unless (\<not> ended status \<and> status \<noteq> DerivedStatus.Draft \<and> execution = None
            \<and> \<not> unresolved_recovery facts) ActionDenial.RecoveryRequired
      | RevokeReview \<Rightarrow>
          if has_submission facts \<and> as_present (di_review facts) \<noteq> None
          then deny_unless (\<not> submitter_authority facts) ReviewNotIndependent
          else Some MissingSubmission
      | RevokeException \<Rightarrow> deny_unless (as_present (di_requirements facts) \<noteq> None) InvalidFacts
      | ActionKind.ResolveHold \<Rightarrow>
          deny_unless (case active_hold facts of Inr (Some _) \<Rightarrow> True | _ \<Rightarrow> False) NoActiveHold
      | WaiveDependency \<Rightarrow> deny_unless (status \<in> {Queued, Blocked}
            \<and> as_present (di_dependencies facts) \<noteq> None) (StatusDenied status)
      | ForceGate \<Rightarrow> deny_unless (status \<in> {Blocked, NeedsVerification}
            \<and> as_present (di_requirements facts) \<noteq> None) (StatusDenied status)
      | ActionKind.Recover \<Rightarrow>
          deny_unless (status = ExpiredReview \<or> unresolved_recovery facts) ActionDenial.RecoveryRequired
      | ReconcileResource \<Rightarrow>
          deny_unless (as_present (di_recovery facts) \<noteq> None) ActionDenial.RecoveryRequired
      | ActionKind.Repair \<Rightarrow> deny_unless (ii_level (di_integrity facts) \<noteq> Valid
            \<or> \<not> is_decidable facts) ActionNotApplicable)"

section \<open>Denials\<close>

definition binding_denial ::
  "DecisionInputs \<Rightarrow> ActionDescriptor \<Rightarrow> ActionRequest \<Rightarrow> ActionDenial option" where
  "binding_denial facts d request =
     (if ar_action request \<noteq> acd_action d
         \<or> ei_project_id (ar_target request) \<noteq> ei_project_id (di_subject facts)
         \<or> ei_work_id (ar_target request) \<noteq> ei_work_id (di_subject facts)
      then Some ActionDenial.ScopeMismatch
      else if ei_revision (ar_target request) \<noteq> ei_revision (di_subject facts)
      then Some (ActionDenial.StaleEntity (ei_revision (di_subject facts)) (ei_revision (ar_target request)))
      else if ar_expected_project_revision request \<noteq> di_snapshot_revision facts
      then Some (StaleSnapshot (di_snapshot_revision facts) (ar_expected_project_revision request))
      else if ar_expected_proof_revision request \<noteq> acd_expected_proof_revision d
         \<and> action_requires_proof (ar_action request)
      then Some (ActionDenial.StaleProof (acd_expected_proof_revision d) (ar_expected_proof_revision request))
      else if action_requires_attempt (ar_action request) \<and> ar_attempt request \<noteq> acd_attempt d
      then (if acd_attempt d = None then Some MissingAttempt
            else Some (ActionDenial.StaleFence (acd_attempt d) (ar_attempt request)))
      else None)"

definition integrity_denial ::
  "DecisionInputs \<Rightarrow> ActionDescriptor \<Rightarrow> ActionKind \<Rightarrow> ActionDenial option" where
  "integrity_denial facts d a =
     (let read_only = acd_read_only d; level = ii_level (di_integrity facts) in
      if di_availability facts \<noteq> Live \<and> \<not> read_only
      then Some (AvailabilityUnavailable (di_availability facts))
      else if level = Quarantined \<and> \<not> read_only \<and> a \<notin> {ActionKind.Repair, ActionKind.Recover}
      then Some ActionDenial.IntegrityQuarantined
      else if level = Degraded \<and> \<not> read_only \<and> \<not> is_recovery_action a then Some IntegrityDegraded
      else if \<not> is_decidable facts \<and> \<not> read_only \<and> a \<noteq> ActionKind.Repair then Some InvalidFacts
      else None)"

definition delegation_broken :: "ActorAuthorityInput \<Rightarrow> bool" where
  "delegation_broken authority \<longleftrightarrow> (case aa_principal authority of
      Delegated actor_id delegation_id delegator_id \<Rightarrow>
        as_str actor_id = [] \<or> as_str delegation_id = [] \<or> as_str delegator_id = []
    | _ \<Rightarrow> False)"

definition role_denial ::
  "DecisionInputs \<Rightarrow> ActionDescriptor \<Rightarrow> ActorAuthorityInput \<Rightarrow> ActionDenial option" where
  "role_denial facts d authority =
     (let roles = acd_required_roles d in
      if roles \<noteq> [] \<and> aa_role authority \<notin> set roles
      then Some (ActionDenial.RoleDenied roles (aa_role authority))
      else if delegation_broken authority then Some DelegationInvalid
      else None)"

definition proof_unbound :: "DecisionInputs \<Rightarrow> ActionKind \<Rightarrow> bool" where
  "proof_unbound facts a \<longleftrightarrow>
     a \<in> {StartAttempt, ActionKind.Checkpoint, ActionKind.AttachEvidence, ActionKind.Submit}
     \<and> \<not> case_option False (\<lambda>execution. proof_is_bound (xi_proof execution)) (as_present (di_execution facts))
     \<and> \<not> (a = ActionKind.AttachEvidence
          \<and> case_option False (\<lambda>submission. proof_is_bound (su_proof submission))
              (as_present (di_submission facts)))"

definition owner_session :: "DecisionInputs \<Rightarrow> SessionId option" where
  "owner_session facts = or_else
     (Option.bind (as_present (di_execution facts)) xi_session_id)
     (map_option su_session_id (as_present (di_submission facts)))"

definition owner_denial ::
  "DecisionInputs \<Rightarrow> ActionKind \<Rightarrow> ActorAuthorityInput \<Rightarrow> ActionDenial option" where
  "owner_denial facts a authority =
     (if proof_unbound facts a then Some InvalidFacts
      else if requires_attempt_owner a
         \<and> case_option False (\<lambda>session. aa_session_id authority \<noteq> Some session) (owner_session facts)
      then Some AttemptOwnerMismatch
      else if action_requires_session a \<and> aa_session_id authority = None then Some ActionDenial.PolicyDenied
      else if requires_attempt_owner a \<and> current_attempt_actor facts \<noteq> Some (authority_actor_id authority)
      then Some AttemptOwnerMismatch
      else None)"

definition policy_denial :: "DecisionInputs \<Rightarrow> ActionKind \<Rightarrow> ActionDenial option" where
  "policy_denial facts a = (case mapped_permission a of
      None \<Rightarrow> None
    | Some policy_action \<Rightarrow>
        if policy_action \<notin> pa_allowed (di_permitted_actions facts)
           \<or> list_ex (\<lambda>denied. da_action denied = policy_action) (pa_denied (di_permitted_actions facts))
        then Some ActionDenial.PolicyDenied else None)"

definition deny_reason ::
  "ActionEvaluationInput \<Rightarrow> ActionDescriptor \<Rightarrow> ActionRequest \<Rightarrow> ActionDenial option" where
  "deny_reason input d request =
     (let facts = aei_facts input; a = ar_action request in
      case authority_of facts of
        Inl reason \<Rightarrow> Some reason
      | Inr authority \<Rightarrow>
          or_else (binding_denial facts d request)
            (or_else (integrity_denial facts d a)
              (or_else (role_denial facts d authority)
                (or_else (owner_denial facts a authority)
                  (or_else (hold_denial facts a)
                    (or_else (policy_denial facts a)
                      (status_denial input a (authority_actor_id authority))))))))"

definition recovery_routes :: "DecisionInputs \<Rightarrow> ActionKind \<Rightarrow> ActionDenial \<Rightarrow> ActionKind list" where
  "recovery_routes facts a reason =
     (let stop = note_if (current_attempt facts \<noteq> None) Stop;
          recover = [ActionKind.Inspect, ReadHistory, ActionKind.Recover] @ stop;
          routes = (case reason of
              StaleSnapshot _ _ \<Rightarrow> [ActionKind.Inspect, ReadOperation]
            | ActionDenial.StaleEntity _ _ \<Rightarrow> [ActionKind.Inspect, ReadOperation]
            | ActionDenial.StaleProof _ _ \<Rightarrow> [ActionKind.Inspect, ReadOperation]
            | ActionDenial.StaleFence _ _ \<Rightarrow> [ActionKind.Inspect, ReadOperation]
            | AvailabilityUnavailable _ \<Rightarrow> [ActionKind.Inspect, ReadOperation]
            | ActionDenial.IntegrityQuarantined \<Rightarrow> [ActionKind.Inspect, Export, ActionKind.Repair]
            | IntegrityDegraded \<Rightarrow> [ActionKind.Inspect, Export, ActionKind.Repair]
            | InvalidFacts \<Rightarrow> [ActionKind.Inspect, Export, ActionKind.Repair]
            | HoldActive _ \<Rightarrow> [ActionKind.Inspect, ActionKind.ResolveHold] @ stop
            | StatusDenied status \<Rightarrow> if status \<in> {Blocked, ExpiredReview} then recover else []
            | ActionDenial.RecoveryRequired \<Rightarrow> recover
            | ActionDenial.RoleDenied _ _ \<Rightarrow> [ActionKind.Inspect, ReadHistory]
            | Unauthenticated \<Rightarrow> [ActionKind.Inspect, ReadHistory]
            | MissingSubmission \<Rightarrow> [ActionKind.Inspect, ActionKind.AttachEvidence]
            | AttemptPhaseDenied _ \<Rightarrow> [ActionKind.Inspect, ReadHistory]
            | ReviewNotIndependent \<Rightarrow> [ActionKind.Inspect, ActionKind.RequestReview]
            | NoActiveHold \<Rightarrow> [ActionKind.Inspect]
            | _ \<Rightarrow> [])
      in remdups_adj (sort_key action_index
           (routes @ note_if (a \<noteq> ActionKind.Inspect \<and> is_read_only a) ActionKind.Inspect)))"

definition evaluate_action :: "ActionEvaluationInput \<Rightarrow> ActionRequest \<Rightarrow> ActionAuthorization" where
  "evaluate_action input request =
     (let d = action_descriptor input (ar_action request) in
      case deny_reason input d request of
        Some reason \<Rightarrow> Denied \<lparr>dnd_descriptor = d, dnd_reason = reason,
          dnd_recovery = recovery_routes (aei_facts input) (ar_action request) reason\<rparr>
      | None \<Rightarrow> Allowed d)"

definition action_step :: "ActionEvaluationInput \<Rightarrow> ActionDecision \<Rightarrow> ActionKind \<Rightarrow> ActionDecision" where
  "action_step input decision a =
     (case evaluate_action input (descriptor_request (action_descriptor input a)) of
        Allowed d \<Rightarrow> decision\<lparr>adn_allowed := adn_allowed decision @ [d]\<rparr>
      | Denied denied \<Rightarrow> decision\<lparr>adn_denied := adn_denied decision @ [denied]\<rparr>)"

definition evaluate_actions :: "ActionEvaluationInput \<Rightarrow> ActionDecision" where
  "evaluate_actions input =
     foldl (action_step input) \<lparr>adn_allowed = [], adn_denied = []\<rparr> all_action_kinds"

end
