(* ===== verification/Decision_Api.thy ===== *)
theory Decision_Api
  imports Actions
begin

text \<open>
  The paired status and action decision (\<open>crates/domain/src/decision_api.rs\<close>): the caller's status
  context is bound to the canonical facts before both evaluators run over it.
\<close>

datatype DecisionContextMismatch = Subject | ProjectRevision | Clock | Lifecycle | Actor
  | AcceptanceProfile | GateRequirements | Dependencies | Execution | DispatchPolicy | Timing

record DecisionActionView =
  dav_status :: StatusDecision
  dav_actions :: ActionDecision

datatype DecisionApiError =
    MissingFact FactKind
  | InvalidFacts "DecisionDiagnostic list"
  | ContextMismatch DecisionContextMismatch

definition same_gates :: "GateRequirement list \<Rightarrow> GateRequirement list \<Rightarrow> bool" where
  "same_gates left right \<longleftrightarrow> length left = length right
     \<and> list_all (\<lambda>(l, r). l = r) (zip (sort_key gr_id left) (sort_key gr_id right))"

definition same_current_attempt :: "Attempt option \<Rightarrow> DecisionInputs \<Rightarrow> WorkId \<Rightarrow> bool" where
  "same_current_attempt attempt facts work_id \<longleftrightarrow>
     \<not> case_option False (\<lambda>a. a_work_id a \<noteq> work_id) attempt
     \<and> (case (filter_option (\<lambda>a. \<not> attempt_phase_is_terminal (a_phase a)) attempt,
              as_present (di_execution facts)) of
          (None, None) \<Rightarrow> True
        | (Some a, Some x) \<Rightarrow> a_work_id a = work_id
            \<and> a_attempt_id a = ai_attempt_id (xi_attempt x)
            \<and> a_fence a = ai_fence (xi_attempt x)
            \<and> a_actor_id a = xi_actor_id x \<and> a_session_id a = xi_session_id x
            \<and> a_phase a = xi_phase x \<and> a_claimed_at a = xi_claimed_at x
            \<and> a_lease_deadline a = xi_lease_deadline x
            \<and> a_max_attempt_deadline a = xi_hard_deadline x
        | _ \<Rightarrow> False)"

definition context_mismatch :: "DecisionContextMismatch \<Rightarrow> DecisionApiError + 'a" where
  "context_mismatch field = Inl (ContextMismatch field)"

definition declared_gates :: "PinnedRequirementsInput \<Rightarrow> GateRequirement list" where
  "declared_gates r = map (\<lambda>q. \<lparr>gr_id = pq_gate_id q, gr_kind = pq_kind q, gr_required = pq_required q,
     gr_state = pq_state q\<rparr>) (pqi_requirements r)"

definition same_dependencies :: "StatusContext \<Rightarrow> DecisionInputs \<Rightarrow> bool" where
  "same_dependencies cx facts \<longleftrightarrow> (case as_present (di_dependencies facts) of
      Some edges \<Rightarrow>
        sort (map (\<lambda>edge. (ei_project_id (doi_predecessor edge), ei_work_id (doi_predecessor edge))) edges)
        = sort (map (\<lambda>work. (wi_project_id work, wi_id work)) (cx_prerequisites cx))
    | None \<Rightarrow> cx_prerequisites cx = [])"

text \<open>The checks in the order of their early returns.\<close>

definition validate_facts :: "StatusContext \<Rightarrow> DecisionInputs \<Rightarrow> DecisionApiError + unit" where
  "validate_facts cx facts =
     (case as_present (di_lifecycle facts) of
        None \<Rightarrow> Inl (MissingFact FactKind.Lifecycle)
      | Some lifecycle \<Rightarrow>
          if li_identity lifecycle \<noteq> di_subject facts
             \<or> li_lifecycle lifecycle \<noteq> wi_lifecycle (cx_work cx)
          then context_mismatch DecisionContextMismatch.Lifecycle
          else case as_present (di_authority facts) of
              None \<Rightarrow> Inl (MissingFact ActorAuthority)
            | Some authority \<Rightarrow>
                if aa_project_id authority \<noteq> ei_project_id (di_subject facts)
                   \<or> authority_actor_id authority \<noteq> ac_actor_id (cx_actor cx)
                   \<or> aa_role authority \<noteq> ac_role (cx_actor cx)
                then context_mismatch DecisionContextMismatch.Actor
                else case as_present (di_requirements facts) of
                    None \<Rightarrow> Inl (MissingFact PinnedRequirements)
                  | Some requirements \<Rightarrow>
                      let profile = wi_acceptance_profile (cx_work cx) in
                      if pi_profile_id (pr_profile (pqi_proof requirements)) \<noteq> ap_id profile
                         \<or> pi_version (pr_profile (pqi_proof requirements)) \<noteq> ap_version profile
                      then context_mismatch DecisionContextMismatch.AcceptanceProfile
                      else if \<not> same_gates (declared_gates requirements) (ap_gates profile)
                         \<or> \<not> same_gates (declared_gates requirements) (cx_gates cx)
                      then context_mismatch DecisionContextMismatch.GateRequirements
                      else if \<not> same_dependencies cx facts
                      then context_mismatch DecisionContextMismatch.Dependencies
                      else if \<not> same_current_attempt (cx_current_attempt cx) facts (ei_work_id (di_subject facts))
                      then context_mismatch DecisionContextMismatch.Execution
                      else Inr ())"

definition validate_context :: "StatusContext \<Rightarrow> DecisionInputs \<Rightarrow> DecisionApiError + unit" where
  "validate_context cx facts =
     (let timing = ec_timing (di_clock facts) in
      if wi_project_id (cx_work cx) \<noteq> ei_project_id (di_subject facts)
         \<or> wi_id (cx_work cx) \<noteq> ei_work_id (di_subject facts)
      then context_mismatch DecisionContextMismatch.Subject
      else if cx_project_revision cx \<noteq> di_snapshot_revision facts
      then context_mismatch DecisionContextMismatch.ProjectRevision
      else if cx_as_of cx \<noteq> ec_evaluated_at (di_clock facts)
      then context_mismatch DecisionContextMismatch.Clock
      else if wi_dispatch_policy (cx_work cx) \<noteq> di_dispatch_policy facts
      then context_mismatch DecisionContextMismatch.DispatchPolicy
      else if cx_schedule cx \<noteq> sti_schedule timing
         \<or> cx_activation_at cx \<noteq> sti_cycle_activation_at timing
         \<or> cx_retry_not_before cx \<noteq> sti_retry_not_before timing
      then context_mismatch Timing
      else validate_facts cx facts)"

definition evaluate_decision_actions ::
  "StatusContext \<Rightarrow> DecisionInputs \<Rightarrow> (DecisionApiError + DecisionActionView) run" where
  "evaluate_decision_actions cx facts = (case validate_context cx facts of
      Inl e \<Rightarrow> Return (Inl e)
    | Inr _ \<Rightarrow> run_bind (evaluate_canonical_status cx facts) (\<lambda>status.
        let actions = evaluate_actions
              (action_input_new facts (sd_display_status status) (sd_reason_codes status)) in
        Return (Inr \<lparr>dav_status = status\<lparr>sd_claimable_for_actor := decision_allows actions ActionKind.Claim\<rparr>,
                     dav_actions = actions\<rparr>)))"

end
