(* ===== verification/Actions_Facts.thy ===== *)
theory Actions_Facts
  imports Decision_Api Status_Facts
begin

text \<open>
  What the action policy guarantees: the read projection and the mutation path decide alike, every
  action is decided exactly once, and an action is authorized exactly when the policy, stated a second time
  as positive conditions, admits it.
\<close>

section \<open>Denials\<close>

lemma or_else_None [simp]: "or_else x y = None \<longleftrightarrow> x = None \<and> y = None"
  by (simp add: or_else_def split: option.splits)

lemma evaluate_action_Allowed:
  "evaluate_action input request = Allowed d \<longleftrightarrow>
     d = action_descriptor input (ar_action request)
     \<and> deny_reason input (action_descriptor input (ar_action request)) request = None"
  by (auto simp: evaluate_action_def Let_def split: option.splits)

text \<open>The request carries the identities the descriptor of its action expects.\<close>

definition request_binds :: "DecisionInputs \<Rightarrow> ActionRequest \<Rightarrow> bool" where
  "request_binds facts request \<longleftrightarrow> ar_target request = di_subject facts
     \<and> ar_expected_project_revision request = di_snapshot_revision facts
     \<and> (ar_action request \<in> {ActionKind.Checkpoint, ActionKind.AttachEvidence, ActionKind.Submit,
          ActionKind.RequestReview, ActionKind.Review, ActionKind.FinishClose, ActionKind.Close, ForceGate,
          RevokeReview, RevokeException, Retry, Reopen, WaiveDependency} \<longrightarrow>
        ar_expected_proof_revision request = current_proof_revision facts)
     \<and> (ar_action request \<in> {ActionKind.AcceptAttempt, StartAttempt, ActionKind.Checkpoint,
          ActionKind.AttachEvidence, ActionKind.Submit, ActionKind.RequestReview, ActionKind.Review,
          ActionKind.FinishClose, ActionKind.Close, Stop, ActionKind.Release, ActionKind.Recover,
          ReconcileResource} \<longrightarrow>
        ar_attempt request = current_attempt facts)"

lemma descriptor_fields [simp]:
  "acd_action (action_descriptor input a) = a"
  "acd_target (action_descriptor input a) = di_subject (aei_facts input)"
  "acd_expected_project_revision (action_descriptor input a) = di_snapshot_revision (aei_facts input)"
  "acd_expected_proof_revision (action_descriptor input a) = current_proof_revision (aei_facts input)"
  "acd_attempt (action_descriptor input a) = current_attempt (aei_facts input)"
  "acd_required_roles (action_descriptor input a) = required_roles (aei_facts input) a"
  "acd_read_only (action_descriptor input a) = is_read_only a"
  by (simp_all add: action_descriptor_def Let_def)

lemma request_fields [simp]:
  "ar_action (descriptor_request d) = acd_action d"
  "ar_target (descriptor_request d) = acd_target d"
  "ar_expected_project_revision (descriptor_request d) = acd_expected_project_revision d"
  "ar_expected_proof_revision (descriptor_request d) = acd_expected_proof_revision d"
  "ar_attempt (descriptor_request d) = acd_attempt d"
  by (simp_all add: descriptor_request_def)

lemma binding_denial_None:
  "binding_denial (aei_facts input) (action_descriptor input (ar_action request)) request = None
     \<longleftrightarrow> request_binds (aei_facts input) request"
  unfolding binding_denial_def request_binds_def action_requires_proof_def [symmetric]
    action_requires_attempt_def [symmetric]
  by (auto split: if_splits)

text \<open>The rest of a decision depends on the action alone.\<close>

definition action_clear :: "ActionEvaluationInput \<Rightarrow> ActionKind \<Rightarrow> ActorAuthorityInput \<Rightarrow> bool" where
  "action_clear input a authority \<longleftrightarrow> authority_of (aei_facts input) = Inr authority
     \<and> integrity_denial (aei_facts input) (action_descriptor input a) a = None
     \<and> role_denial (aei_facts input) (action_descriptor input a) authority = None
     \<and> owner_denial (aei_facts input) a authority = None
     \<and> hold_denial (aei_facts input) a = None \<and> policy_denial (aei_facts input) a = None
     \<and> status_denial input a (authority_actor_id authority) = None"

lemma deny_reason_None:
  "deny_reason input (action_descriptor input (ar_action request)) request = None \<longleftrightarrow>
     request_binds (aei_facts input) request \<and> (\<exists>authority. action_clear input (ar_action request) authority)"
  by (cases "authority_of (aei_facts input)")
    (auto simp: deny_reason_def Let_def action_clear_def binding_denial_None)

lemma own_request_binds [simp]:
  "request_binds (aei_facts input) (descriptor_request (action_descriptor input a))"
  by (simp add: request_binds_def)

lemma own_action_Allowed:
  "evaluate_action input (descriptor_request (action_descriptor input a)) = Allowed d \<longleftrightarrow>
     d = action_descriptor input a \<and> (\<exists>authority. action_clear input a authority)"
  using deny_reason_None [of input "descriptor_request (action_descriptor input a)"]
  by (simp add: evaluate_action_Allowed)

lemma evaluate_action_Denied:
  "evaluate_action input request = Denied x \<Longrightarrow> dnd_descriptor x = action_descriptor input (ar_action request)"
  by (auto simp: evaluate_action_def Let_def split: option.splits)

section \<open>All actions\<close>

abbreviation cleared :: "ActionEvaluationInput \<Rightarrow> ActionKind \<Rightarrow> bool" where
  "cleared input a \<equiv> \<exists>authority. action_clear input a authority"

lemma action_step_cases:
  "adn_allowed (action_step input decision a) =
     adn_allowed decision @ (if cleared input a then [action_descriptor input a] else [])"
  "map (\<lambda>d. acd_action (dnd_descriptor d)) (adn_denied (action_step input decision a)) =
     map (\<lambda>d. acd_action (dnd_descriptor d)) (adn_denied decision) @ (if cleared input a then [] else [a])"
proof -
  let ?r = "descriptor_request (action_descriptor input a)"
  have "adn_allowed (action_step input decision a) =
      adn_allowed decision @ (if cleared input a then [action_descriptor input a] else [])
    \<and> map (\<lambda>d. acd_action (dnd_descriptor d)) (adn_denied (action_step input decision a)) =
      map (\<lambda>d. acd_action (dnd_descriptor d)) (adn_denied decision) @ (if cleared input a then [] else [a])"
  proof (cases "evaluate_action input ?r")
    case (Allowed d)
    then have "d = action_descriptor input a" "cleared input a" using own_action_Allowed [of input a] by auto
    with Allowed show ?thesis by (simp add: action_step_def)
  next
    case (Denied x)
    then have "\<not> cleared input a" "acd_action (dnd_descriptor x) = a"
      using own_action_Allowed [of input a] evaluate_action_Denied [OF Denied] by auto
    with Denied show ?thesis by (simp add: action_step_def)
  qed
  then show "adn_allowed (action_step input decision a) =
     adn_allowed decision @ (if cleared input a then [action_descriptor input a] else [])"
    and "map (\<lambda>d. acd_action (dnd_descriptor d)) (adn_denied (action_step input decision a)) =
     map (\<lambda>d. acd_action (dnd_descriptor d)) (adn_denied decision) @ (if cleared input a then [] else [a])"
    by blast+
qed

lemma actions_fold:
  "adn_allowed (foldl (action_step input) decision as) =
     adn_allowed decision @ map (action_descriptor input) (filter (cleared input) as)"
  "map (\<lambda>d. acd_action (dnd_descriptor d)) (adn_denied (foldl (action_step input) decision as)) =
     map (\<lambda>d. acd_action (dnd_descriptor d)) (adn_denied decision) @ filter (\<lambda>a. \<not> cleared input a) as"
  by (induction as arbitrary: decision) (simp_all add: action_step_cases)

lemma allowed_actions:
  "adn_allowed (evaluate_actions input) = map (action_descriptor input) (filter (cleared input) ALL_ACTIONS)"
  "map (\<lambda>d. acd_action (dnd_descriptor d)) (adn_denied (evaluate_actions input)) =
     filter (\<lambda>a. \<not> cleared input a) ALL_ACTIONS"
  by (simp_all add: evaluate_actions_def actions_fold all_action_kinds_def)

lemma all_actions_complete: "a \<in> set ALL_ACTIONS"
  by (cases a) (simp_all add: ALL_ACTIONS_def)

lemma all_actions_distinct: "distinct ALL_ACTIONS"
  by (simp add: ALL_ACTIONS_def)

lemma decision_allows_iff: "decision_allows (evaluate_actions input) a \<longleftrightarrow> cleared input a"
  using all_actions_complete [of a] by (auto simp: decision_allows_def list_ex_iff allowed_actions)

text \<open>C5: The projection of all actions and the authorization of one request decide alike: a request is
  authorized exactly when it carries the identities of the current descriptor (target, snapshot
  revision, and, where the action needs them, proof revision and fenced attempt) and its action is among the
  allowed ones.  The projection decides each of the thirty actions exactly once, in the order of
  their declaration.\<close>

theorem mutation_matches_projection:
  "((\<exists>d. evaluate_action input request = Allowed d) \<longleftrightarrow>
      request_binds (aei_facts input) request
      \<and> decision_allows (evaluate_actions input) (ar_action request))
   \<and> mset (map acd_action (adn_allowed (evaluate_actions input))
        @ map (\<lambda>d. acd_action (dnd_descriptor d)) (adn_denied (evaluate_actions input))) = mset ALL_ACTIONS
   \<and> sorted (map action_index (map acd_action (adn_allowed (evaluate_actions input))))
   \<and> sorted (map action_index (map (\<lambda>d. acd_action (dnd_descriptor d)) (adn_denied (evaluate_actions input))))"
proof (intro conjI)
  show "(\<exists>d. evaluate_action input request = Allowed d) \<longleftrightarrow>
      request_binds (aei_facts input) request
      \<and> decision_allows (evaluate_actions input) (ar_action request)"
    by (auto simp: evaluate_action_Allowed deny_reason_None decision_allows_iff)
  have allowed: "map acd_action (adn_allowed (evaluate_actions input)) = filter (cleared input) ALL_ACTIONS"
    by (simp add: allowed_actions comp_def)
  show "mset (map acd_action (adn_allowed (evaluate_actions input))
      @ map (\<lambda>d. acd_action (dnd_descriptor d)) (adn_denied (evaluate_actions input))) = mset ALL_ACTIONS"
    unfolding allowed allowed_actions(2) by simp
  have "sorted (map action_index ALL_ACTIONS)" by code_simp
  then have part: "sorted (map action_index (filter P ALL_ACTIONS))" for P
    by (rule sorted_filter)
  show "sorted (map action_index (map acd_action (adn_allowed (evaluate_actions input))))"
    unfolding allowed by (rule part)
  show "sorted (map action_index (map (\<lambda>d. acd_action (dnd_descriptor d)) (adn_denied (evaluate_actions input))))"
    unfolding allowed_actions(2) by (rule part)
qed

section \<open>Authorized mutations\<close>

lemma integrity_clear:
  "integrity_denial (aei_facts input) (action_descriptor input a) a = None \<longleftrightarrow> is_read_only a
     \<or> di_availability (aei_facts input) = Live
       \<and> (ii_level (di_integrity (aei_facts input)) = Quarantined \<longrightarrow> a \<in> {ActionKind.Repair, ActionKind.Recover})
       \<and> (ii_level (di_integrity (aei_facts input)) = Degraded \<longrightarrow> is_recovery_action a)
       \<and> (is_decidable (aei_facts input) \<or> a = ActionKind.Repair)"
  by (auto simp: integrity_denial_def Let_def split: if_splits)

lemma authority_clear:
  "authority_of facts = Inr authority \<longleftrightarrow> as_present (di_authority facts) = Some authority
     \<and> aa_project_id authority = ei_project_id (di_subject facts) \<and> as_str (authority_actor_id authority) \<noteq> []"
  by (cases "di_authority facts") (auto simp: authority_of_def)

lemma role_clear:
  "role_denial (aei_facts input) (action_descriptor input a) authority = None \<longleftrightarrow>
     (required_roles (aei_facts input) a \<noteq> [] \<longrightarrow> aa_role authority \<in> set (required_roles (aei_facts input) a))
     \<and> \<not> delegation_broken authority"
  by (auto simp: role_denial_def Let_def split: if_splits)

lemma required_roles_Nil [simp]: "required_roles facts a = [] \<longleftrightarrow> is_read_only a"
  by (simp add: required_roles_def)

lemma policy_clear:
  "policy_denial facts a = None \<longleftrightarrow> (\<forall>p. mapped_permission a = Some p \<longrightarrow> p \<in> pa_allowed (di_permitted_actions facts)
     \<and> p \<notin> da_action ` set (pa_denied (di_permitted_actions facts)))"
  by (auto simp: policy_denial_def list_ex_iff split: option.splits)

lemma active_hold_from_mem:
  "active_hold_from facts selected holds = Inr r \<Longrightarrow>
     (r = None \<longleftrightarrow> selected = None \<and> (\<forall>h \<in> set holds. \<not> ho_active h))"
  by (induction holds arbitrary: selected) (auto split: if_splits option.splits)

lemma hold_clear:
  assumes "hold_denial facts a = None" and "\<not> passes_hold a" and "as_present (di_holds facts) = Some holds"
  shows "\<forall>h \<in> set holds. \<not> ho_active h"
  using assms active_hold_from_mem [of facts None holds]
  by (auto simp: hold_denial_def active_hold_def split: sum.splits option.splits)

lemma claim_clear:
  "status_denial input ActionKind.Claim actor_id = None \<Longrightarrow>
     aei_status input = Ready \<and> di_dispatch_policy (aei_facts input) \<noteq> DispatchPolicy.Paused"
  by (auto simp: status_denial_def Let_def deny_unless_def split: if_splits)

section \<open>The policy as a specification\<close>

text \<open>
  The policy a second time, as positive conditions and independently of the denials: what each role may
  do, what each permission grants, and when each action applies.  Reading needs no role and no session;
  remedial actions pass an active hold and a degraded store.
\<close>

abbreviation reading :: "ActionKind set" where
  "reading \<equiv> {ActionKind.Inspect, ReadHistory, ReadOperation, Export}"

abbreviation remedial :: "ActionKind set" where
  "remedial \<equiv> {Stop, ActionKind.Release, ActionKind.ResolveHold, ActionKind.Recover, ReconcileResource,
     ActionKind.Repair, ActionKind.Review, RevokeReview, RevokeException, WaiveDependency, ForceGate}"

abbreviation executing :: "ActionKind set" where
  "executing \<equiv> {ActionKind.AcceptAttempt, StartAttempt, ActionKind.Checkpoint, ActionKind.AttachEvidence,
     ActionKind.Submit, ActionKind.RequestReview, ActionKind.FinishClose, ActionKind.Close}"

primrec role_may :: "DispatchPolicy \<Rightarrow> ActorRole \<Rightarrow> ActionKind set" where
  "role_may policy Agent = reading \<union> executing \<union> {Stop, ActionKind.Release, ActionKind.Recover}
     \<union> (if policy = DispatchPolicy.OperatorOnly then {} else {ActionKind.Claim})"
| "role_may policy Reviewer = reading \<union> {ActionKind.Review, RevokeReview}"
| "role_may policy Operator = (if policy = DispatchPolicy.OperatorOnly then UNIV else UNIV - {ActionKind.Claim})"
| "role_may policy Publisher = reading \<union> {ActionKind.Publish}"

primrec grants :: "PermittedAction \<Rightarrow> ActionKind set" where
  "grants PermittedAction.Inspect = reading"
| "grants PermittedAction.Claim = {ActionKind.Claim}"
| "grants PermittedAction.AcceptAttempt = {ActionKind.AcceptAttempt}"
| "grants ResumeAttempt = {StartAttempt}"
| "grants PermittedAction.AttachEvidence = {ActionKind.Checkpoint, ActionKind.AttachEvidence}"
| "grants PermittedAction.Submit = {ActionKind.Submit}"
| "grants PermittedAction.Review = {ActionKind.RequestReview, ActionKind.Review, RevokeReview}"
| "grants PermittedAction.Finish = {ActionKind.FinishClose, ActionKind.Close}"
| "grants PermittedAction.Release = {ActionKind.Release}"
| "grants PermittedAction.Recover = {Stop, ActionKind.Recover, ReconcileResource}"
| "grants PermittedAction.ResolveHold = {ActionKind.ResolveHold}"
| "grants PermittedAction.Repair = {ActionKind.Repair}"

definition in_phase :: "DecisionInputs \<Rightarrow> AttemptPhase set \<Rightarrow> bool" where
  "in_phase facts phases \<longleftrightarrow>
     case_option False (\<lambda>attempt. xi_phase attempt \<in> phases) (as_present (di_execution facts))"

text \<open>When the state of the item lets the actor do the action.\<close>

primrec applicable :: "DecisionInputs \<Rightarrow> DerivedStatus \<Rightarrow> ActorAuthorityInput \<Rightarrow> ActionKind \<Rightarrow> bool" where
  "applicable facts status authority ActionKind.Inspect = True"
| "applicable facts status authority ReadHistory = True"
| "applicable facts status authority ReadOperation = True"
| "applicable facts status authority Export = True"
| "applicable facts status authority ActionKind.Publish = (status = DerivedStatus.Draft)"
| "applicable facts status authority ActionKind.Claim =
     (status = Ready \<and> di_dispatch_policy facts \<noteq> DispatchPolicy.Paused)"
| "applicable facts status authority ActionKind.AcceptAttempt = in_phase facts {AttemptPhase.Claimed}"
| "applicable facts status authority StartAttempt = in_phase facts {AttemptPhase.Accepted}"
| "applicable facts status authority ActionKind.Checkpoint =
     (in_phase facts {AttemptPhase.Running, AttemptPhase.Verifying} \<and> status \<in> {InProgress, NeedsVerification})"
| "applicable facts status authority ActionKind.AttachEvidence =
     (in_phase facts {AttemptPhase.Running, AttemptPhase.Verifying} \<and> status \<in> {InProgress, NeedsVerification}
      \<or> has_submission facts \<and> status \<in> {NeedsVerification, AwaitingReview, Blocked})"
| "applicable facts status authority ActionKind.Submit = in_phase facts {AttemptPhase.Running}"
| "applicable facts status authority ActionKind.RequestReview =
     (has_submission facts \<and> status = AwaitingReview)"
| "applicable facts status authority ActionKind.Review =
     (has_submission facts \<and> status \<in> {AwaitingReview, Blocked}
      \<and> current_attempt_actor facts \<noteq> Some (authority_actor_id authority)
      \<and> map_option su_authority_root (as_present (di_submission facts)) \<noteq> Some (aa_authority_root authority)
      \<and> map_option rv_attempt_actor_id (as_present (di_review facts)) \<noteq> Some (authority_actor_id authority))"
| "applicable facts status authority ActionKind.FinishClose =
     (status \<in> {InProgress, NeedsVerification, AwaitingReview, DerivedStatus.Complete}
      \<or> status = Blocked
        \<and> map_option rv_outcome (as_present (di_review facts))
            \<notin> Some ` {ReviewOutcome.Rejected, Returned, Revoked}
        \<and> (in_phase facts {AttemptPhase.Running, AttemptPhase.Verifying}
           \<or> map_option su_state (as_present (di_submission facts)) = Some Sealed))"
| "applicable facts status authority ActionKind.Close =
     (has_submission facts \<and> status = DerivedStatus.Complete)"
| "applicable facts status authority Stop =
     (as_present (di_execution facts) \<noteq> None
      \<or> map_option ry_unresolved (as_present (di_recovery facts)) = Some True)"
| "applicable facts status authority ActionKind.Release = (as_present (di_execution facts) \<noteq> None)"
| "applicable facts status authority PausePolicy = (status \<notin> {DerivedStatus.Closed, DerivedStatus.Cancelled})"
| "applicable facts status authority ActionKind.ResumePolicy = (status \<in> {DerivedStatus.Paused, RetryWait})"
| "applicable facts status authority Cancel = (status \<notin> {DerivedStatus.Closed, DerivedStatus.Cancelled})"
| "applicable facts status authority Reopen = (status \<in> {DerivedStatus.Closed, DerivedStatus.Cancelled})"
| "applicable facts status authority Retry =
     (status \<notin> {DerivedStatus.Draft, DerivedStatus.Closed, DerivedStatus.Cancelled}
      \<and> as_present (di_execution facts) = None
      \<and> map_option ry_unresolved (as_present (di_recovery facts)) \<noteq> Some True)"
| "applicable facts status authority RevokeReview =
     (has_submission facts \<and> as_present (di_review facts) \<noteq> None
      \<and> map_option su_authority_root (as_present (di_submission facts)) \<noteq> Some (aa_authority_root authority))"
| "applicable facts status authority RevokeException = (as_present (di_requirements facts) \<noteq> None)"
| "applicable facts status authority ActionKind.ResolveHold =
     case_option False (list_ex ho_active) (as_present (di_holds facts))"
| "applicable facts status authority WaiveDependency =
     (status \<in> {Queued, Blocked} \<and> as_present (di_dependencies facts) \<noteq> None)"
| "applicable facts status authority ForceGate =
     (status \<in> {Blocked, NeedsVerification} \<and> as_present (di_requirements facts) \<noteq> None)"
| "applicable facts status authority ActionKind.Recover =
     (status = ExpiredReview \<or> map_option ry_unresolved (as_present (di_recovery facts)) = Some True)"
| "applicable facts status authority ReconcileResource = (as_present (di_recovery facts) \<noteq> None)"
| "applicable facts status authority ActionKind.Repair =
     (ii_level (di_integrity facts) \<noteq> Valid \<or> \<not> is_decidable facts)"

text \<open>The recorded holds concern this item at its current revision, and none is active unless the action
  passes holds.\<close>

definition holds_admit :: "DecisionInputs \<Rightarrow> ActionKind \<Rightarrow> bool" where
  "holds_admit facts a \<longleftrightarrow> case_option True (list_all (\<lambda>h.
       is_project_id (ho_scope h) = ei_project_id (di_subject facts)
       \<and> is_work_id (ho_scope h) = ei_work_id (di_subject facts)
       \<and> (\<not> ho_active h \<or> ho_entity_revision h = ei_revision (di_subject facts)
                         \<and> a \<in> reading \<union> remedial))) (as_present (di_holds facts))"

text \<open>The proof an execution step works under is bound to a source and a configuration; evidence may be
  attached under the proof of the submission instead.\<close>

definition proof_stands :: "DecisionInputs \<Rightarrow> ActionKind \<Rightarrow> bool" where
  "proof_stands facts a \<longleftrightarrow>
     a \<notin> {StartAttempt, ActionKind.Checkpoint, ActionKind.AttachEvidence, ActionKind.Submit}
     \<or> case_option False (\<lambda>x. proof_is_bound (xi_proof x)) (as_present (di_execution facts))
     \<or> a = ActionKind.AttachEvidence
       \<and> case_option False (\<lambda>s. proof_is_bound (su_proof s)) (as_present (di_submission facts))"

text \<open>The actor's own side: an authenticated actor of this project with an intact delegation, a role that
  may do the action, a session unless it only reads, and the attempt's own actor and session where the
  action belongs to the attempt.\<close>

definition actor_may :: "DecisionInputs \<Rightarrow> ActionKind \<Rightarrow> ActorAuthorityInput \<Rightarrow> bool" where
  "actor_may facts a authority \<longleftrightarrow> as_present (di_authority facts) = Some authority
     \<and> aa_project_id authority = ei_project_id (di_subject facts)
     \<and> as_str (authority_actor_id authority) \<noteq> []
     \<and> (case aa_principal authority of
          Delegated actor_id delegation_id delegator_id \<Rightarrow>
            as_str actor_id \<noteq> [] \<and> as_str delegation_id \<noteq> [] \<and> as_str delegator_id \<noteq> []
        | _ \<Rightarrow> True)
     \<and> a \<in> role_may (di_dispatch_policy facts) (aa_role authority)
     \<and> (a \<in> reading \<or> aa_session_id authority \<noteq> None)
     \<and> (a \<in> executing \<union> {Stop, ActionKind.Release} \<longrightarrow>
          current_attempt_actor facts = Some (authority_actor_id authority)
          \<and> owner_session facts \<in> {None, aa_session_id authority})"

text \<open>The store's side: writes need a live store; quarantined facts admit only repair and recovery,
  degraded facts only remedial actions, and incoherent facts only repair.\<close>

definition store_admits :: "DecisionInputs \<Rightarrow> ActionKind \<Rightarrow> bool" where
  "store_admits facts a \<longleftrightarrow> a \<in> reading
     \<or> di_availability facts = Live
       \<and> (case ii_level (di_integrity facts) of
            Quarantined \<Rightarrow> a \<in> {ActionKind.Repair, ActionKind.Recover}
          | Degraded \<Rightarrow> a \<in> remedial
          | _ \<Rightarrow> True)
       \<and> (is_decidable facts \<or> a = ActionKind.Repair)"

definition permission_granted :: "DecisionInputs \<Rightarrow> ActionKind \<Rightarrow> bool" where
  "permission_granted facts a \<longleftrightarrow> (\<forall>p. a \<in> grants p \<longrightarrow> p \<in> pa_allowed (di_permitted_actions facts)
     \<and> p \<notin> da_action ` set (pa_denied (di_permitted_actions facts)))"

section \<open>The denials implement the specification\<close>

lemma store_spec:
  "integrity_denial (aei_facts input) (action_descriptor input a) a = None \<longleftrightarrow> store_admits (aei_facts input) a"
  unfolding integrity_clear store_admits_def is_read_only_def is_recovery_action_def
  by (cases "ii_level (di_integrity (aei_facts input))") auto

lemma role_spec:
  "(required_roles facts a \<noteq> [] \<longrightarrow> role \<in> set (required_roles facts a)) \<longleftrightarrow>
     a \<in> role_may (di_dispatch_policy facts) role"
  by (cases role; cases a) (simp_all add: required_roles_def is_read_only_def)

lemma actor_spec:
  "authority_of facts = Inr authority
     \<and> (required_roles facts a \<noteq> [] \<longrightarrow> aa_role authority \<in> set (required_roles facts a))
     \<and> \<not> delegation_broken authority \<and> owner_denial facts a authority = None
   \<longleftrightarrow> actor_may facts a authority \<and> proof_stands facts a"
proof -
  have owner: "owner_denial facts a authority = None \<longleftrightarrow> proof_stands facts a
     \<and> (a \<in> reading \<or> aa_session_id authority \<noteq> None)
     \<and> (a \<in> executing \<union> {Stop, ActionKind.Release} \<longrightarrow>
          current_attempt_actor facts = Some (authority_actor_id authority)
          \<and> owner_session facts \<in> {None, aa_session_id authority})"
  proof -
    have "requires_attempt_owner a \<longleftrightarrow> a \<in> executing \<union> {Stop, ActionKind.Release}"
      by (simp add: requires_attempt_owner_def) blast
    moreover have "proof_unbound facts a \<longleftrightarrow> \<not> proof_stands facts a"
      by (auto simp: proof_unbound_def proof_stands_def)
    moreover have "action_requires_session a \<longleftrightarrow> a \<notin> reading"
      by (simp add: action_requires_session_def is_read_only_def)
    ultimately show ?thesis
      unfolding owner_denial_def
      by (cases "owner_session facts") (auto simp del: insert_iff)
  qed
  have "\<not> delegation_broken authority \<longleftrightarrow> (case aa_principal authority of
          Delegated actor_id delegation_id delegator_id \<Rightarrow>
            as_str actor_id \<noteq> [] \<and> as_str delegation_id \<noteq> [] \<and> as_str delegator_id \<noteq> []
        | _ \<Rightarrow> True)"
    by (cases "aa_principal authority") (simp_all add: delegation_broken_def)
  then show ?thesis
    unfolding owner role_spec authority_clear actor_may_def by blast
qed

lemma active_hold_from_ok:
  "(\<exists>r. active_hold_from facts selected holds = Inr r) \<longleftrightarrow> list_all (\<lambda>h.
     is_project_id (ho_scope h) = ei_project_id (di_subject facts)
     \<and> is_work_id (ho_scope h) = ei_work_id (di_subject facts)
     \<and> (\<not> ho_active h \<or> ho_entity_revision h = ei_revision (di_subject facts))) holds"
  by (induction holds arbitrary: selected) auto

lemma passes_hold_spec: "passes_hold a \<longleftrightarrow> a \<in> reading \<union> remedial"
  by (cases a) (simp_all add: passes_hold_def)

lemma hold_spec:
  "hold_denial facts a = None \<longleftrightarrow> holds_admit facts a"
  "holds_admit facts a \<Longrightarrow> (case active_hold facts of Inr (Some _) \<Rightarrow> True | _ \<Rightarrow> False)
     \<longleftrightarrow> case_option False (list_ex ho_active) (as_present (di_holds facts))"
proof -
  have "(hold_denial facts a = None \<longleftrightarrow> holds_admit facts a)
    \<and> (holds_admit facts a \<longrightarrow> (case active_hold facts of Inr (Some _) \<Rightarrow> True | _ \<Rightarrow> False)
         = case_option False (list_ex ho_active) (as_present (di_holds facts)))"
  proof (cases "as_present (di_holds facts)")
    case None
    then show ?thesis by (simp add: hold_denial_def active_hold_def holds_admit_def)
  next
    case (Some holds)
    have "(\<exists>r. active_hold facts = Inr r) \<longleftrightarrow> list_all (\<lambda>h.
        is_project_id (ho_scope h) = ei_project_id (di_subject facts)
        \<and> is_work_id (ho_scope h) = ei_work_id (di_subject facts)
        \<and> (\<not> ho_active h \<or> ho_entity_revision h = ei_revision (di_subject facts))) holds"
      by (simp add: active_hold_def Some active_hold_from_ok)
    moreover have "active_hold facts = Inr r \<Longrightarrow> r = None \<longleftrightarrow> \<not> list_ex ho_active holds" for r
      using active_hold_from_mem [of facts None holds r] by (simp add: active_hold_def Some list_ex_iff)
    ultimately show ?thesis
      unfolding hold_denial_def holds_admit_def passes_hold_spec [symmetric] Some
      by (cases "active_hold facts") (auto simp: list_all_iff list_ex_iff split: option.splits)
  qed
  then show "hold_denial facts a = None \<longleftrightarrow> holds_admit facts a"
    "holds_admit facts a \<Longrightarrow> (case active_hold facts of Inr (Some _) \<Rightarrow> True | _ \<Rightarrow> False)
     \<longleftrightarrow> case_option False (list_ex ho_active) (as_present (di_holds facts))"
    by blast+
qed

lemma mapped_permission_spec: "mapped_permission a = Some p \<longleftrightarrow> a \<in> grants p"
  by (cases p; cases a) (simp_all add: mapped_permission_def)

lemma policy_spec: "policy_denial facts a = None \<longleftrightarrow> permission_granted facts a"
  by (simp add: policy_clear mapped_permission_spec permission_granted_def)

lemma phase_spec:
  "phase_denial facts ok = None \<longleftrightarrow> case_option False (\<lambda>attempt. ok (xi_phase attempt)) (as_present (di_execution facts))"
  by (simp add: phase_denial_def deny_unless_def split: option.split)

lemma status_spec:
  assumes authority: "as_present (di_authority (aei_facts input)) = Some authority"
    and holds: "holds_admit (aei_facts input) a"
  shows "status_denial input a (authority_actor_id authority) = None
     \<longleftrightarrow> applicable (aei_facts input) (aei_status input) authority a"
proof (cases "a = ActionKind.ResolveHold")
  case True
  with hold_spec(2) [OF holds] show ?thesis
    by (simp add: status_denial_def Let_def deny_unless_def)
next
  case False
  have submitter: "submitter_authority (aei_facts input) \<longleftrightarrow>
      map_option su_authority_root (as_present (di_submission (aei_facts input))) = Some (aa_authority_root authority)"
    by (auto simp: submitter_authority_def authority split: option.splits)
  have recovery: "unresolved_recovery (aei_facts input) \<longleftrightarrow>
      map_option ry_unresolved (as_present (di_recovery (aei_facts input))) = Some True"
    by (simp add: unresolved_recovery_def split: option.split)
  have dependent: "review_dependent (aei_facts input) (authority_actor_id authority) \<longleftrightarrow>
      current_attempt_actor (aei_facts input) = Some (authority_actor_id authority)
      \<or> map_option su_authority_root (as_present (di_submission (aei_facts input))) = Some (aa_authority_root authority)
      \<or> map_option rv_attempt_actor_id (as_present (di_review (aei_facts input))) = Some (authority_actor_id authority)"
    unfolding review_dependent_def submitter by (simp split: option.split)
  have close: "finish_close_ready (aei_facts input) (aei_status input) \<longleftrightarrow>
      applicable (aei_facts input) (aei_status input) authority ActionKind.FinishClose"
    by (cases "aei_status input") (auto simp: finish_close_ready_def in_phase_def split: option.split)
  from False show ?thesis
    by (cases a) (auto simp: status_denial_def Let_def deny_unless_def phase_spec in_phase_def
      submitter recovery dependent close simp del: applicable.simps(14) split: if_splits option.splits)
qed

text \<open>C4: An action is authorized exactly when every guard of the policy is satisfied, each stated apart
  from the code that denies it.  The request carries the current identities; the actor is authenticated for
  this project with an intact delegation, has a role that may do the action, a session unless it only
  reads, and is the attempt's own actor in its own session where the action belongs to the attempt; the
  proof of an execution step is bound; the store is live and sound enough; the recorded holds are this
  item's and none is active unless the action is remedial; the action's permission is granted and not
  denied; and the item is in a status, with an attempt in a phase, a submission, a review, a recovery or an
  independent reviewer, as the action needs it.  The authorization then carries the action's current
  descriptor.\<close>

theorem authorized_mutation_sound:
  "evaluate_action input request = Allowed d \<longleftrightarrow>
     d = action_descriptor input (ar_action request) \<and> request_binds (aei_facts input) request
     \<and> (\<exists>authority. actor_may (aei_facts input) (ar_action request) authority
         \<and> applicable (aei_facts input) (aei_status input) authority (ar_action request))
     \<and> proof_stands (aei_facts input) (ar_action request)
     \<and> store_admits (aei_facts input) (ar_action request)
     \<and> holds_admit (aei_facts input) (ar_action request)
     \<and> permission_granted (aei_facts input) (ar_action request)"
proof -
  have present: "actor_may facts a authority \<Longrightarrow> as_present (di_authority facts) = Some authority"
    for facts a authority by (simp add: actor_may_def)
  have "action_clear input a authority \<longleftrightarrow> actor_may (aei_facts input) a authority
      \<and> applicable (aei_facts input) (aei_status input) authority a \<and> proof_stands (aei_facts input) a
      \<and> store_admits (aei_facts input) a \<and> holds_admit (aei_facts input) a
      \<and> permission_granted (aei_facts input) a" for a authority
    using actor_spec [of "aei_facts input" authority a] present status_spec
    unfolding action_clear_def role_clear store_spec hold_spec(1) policy_spec by blast
  then show ?thesis
    unfolding evaluate_action_Allowed deny_reason_None by blast
qed

definition sample_operator :: ActorAuthorityInput where
  "sample_operator = \<lparr>aa_authority_root = Ident ''o'', aa_project_id = Ident ''P'', aa_role = Operator,
     aa_principal = Authenticated (Ident ''o''), aa_session_id = Some (Ident ''s'')\<rparr>"

definition sample_broken_facts :: DecisionInputs where
  "sample_broken_facts =
     (let subject = \<lparr>ei_project_id = Ident ''P'', ei_work_id = Ident ''w'', ei_revision = 1\<rparr>;
          scope = subject_work (Ident ''P'') (Ident ''w'') in
      \<lparr>di_subject = subject, di_snapshot_revision = 5, di_clock = evaluation_clock_at 100,
       di_availability = Live, di_dispatch_policy = Automatic,
       di_lifecycle = fact_absent FactKind.Lifecycle scope, di_authority = Fact.Present sample_operator,
       di_requirements = fact_absent PinnedRequirements scope,
       di_dependencies = fact_absent DependencyOutcomes scope, di_holds = fact_absent FactKind.Holds scope,
       di_execution = optional_absent FactKind.Execution scope,
       di_submission = optional_absent FactKind.Submission scope,
       di_review = optional_absent FactKind.Review scope, di_recovery = optional_absent FactKind.Recovery scope,
       di_integrity = \<lparr>ii_scope = \<lparr>is_project_id = Ident ''P'', is_work_id = Ident ''w'', is_target = Work\<rparr>,
         ii_level = Degraded, ii_diagnostics = []\<rparr>,
       di_permitted_actions = permitted_allowing [PermittedAction.Repair]\<rparr>)"

theorem authorized_mutation_sound_witness:
  "\<exists>input request d. evaluate_action input request = Allowed d \<and> ar_action request = ActionKind.Repair
     \<and> \<not> is_decidable (aei_facts input) \<and> store_admits (aei_facts input) (ar_action request)"
proof -
  let ?i = "action_input_new sample_broken_facts Blocked []"
  let ?r = "descriptor_request (action_descriptor ?i ActionKind.Repair)"
  have "(case evaluate_action ?i ?r of Allowed d \<Rightarrow> True | _ \<Rightarrow> False) \<and> \<not> is_decidable (aei_facts ?i)"
    by code_simp
  then obtain d where d: "evaluate_action ?i ?r = Allowed d" and facts: "\<not> is_decidable (aei_facts ?i)"
    by (auto split: ActionAuthorization.splits)
  have "store_admits (aei_facts ?i) (ar_action ?r)"
    using d unfolding authorized_mutation_sound by blast
  with d facts show ?thesis by (intro exI [of _ ?i] exI [of _ ?r] exI [of _ d]) simp
qed

end
