(* ===== verification/Paired_Decision.thy ===== *)
theory Paired_Decision
  imports Actions_Facts
begin

text \<open>
  The paired decision: the context it accepts is bound to the facts, and its claim affordance implies
  the evaluator's own.
\<close>

section \<open>The bound context\<close>

lemma same_gates_mset: "same_gates left right \<Longrightarrow> mset left = mset right"
proof -
  assume same: "same_gates left right"
  then have len: "length (sort_key gr_id left) = length (sort_key gr_id right)"
    by (simp add: same_gates_def)
  from same have eq: "\<forall>(l, r) \<in> set (zip (sort_key gr_id left) (sort_key gr_id right)). l = r"
    by (auto simp: same_gates_def list_all_iff)
  have "xs = ys" if "length xs = length ys" "\<forall>(x, y) \<in> set (zip xs ys). x = y" for xs ys :: "GateRequirement list"
    using that by (induction xs ys rule: list_induct2) auto
  from this [OF len eq] show ?thesis by (metis mset_sort)
qed

lemma validate_context_ok:
  assumes "validate_context cx facts = Inr ()"
  obtains lifecycle authority requirements where
    "wi_project_id (cx_work cx) = ei_project_id (di_subject facts)"
    "wi_id (cx_work cx) = ei_work_id (di_subject facts)"
    "cx_as_of cx = ec_evaluated_at (di_clock facts)"
    "wi_dispatch_policy (cx_work cx) = di_dispatch_policy facts"
    "as_present (di_lifecycle facts) = Some lifecycle" "li_lifecycle lifecycle = wi_lifecycle (cx_work cx)"
    "as_present (di_authority facts) = Some authority" "aa_role authority = ac_role (cx_actor cx)"
    "authority_actor_id authority = ac_actor_id (cx_actor cx)"
    "as_present (di_requirements facts) = Some requirements"
    "mset (cx_gates cx) = mset (declared_gates requirements)"
  using assms same_gates_mset
  by (fastforce simp: validate_context_def validate_facts_def context_mismatch_def Let_def
      split: if_splits option.splits)

section \<open>Ready work\<close>

lemma attempt_not_ready: "attempt_decision cx facts a = Return p \<Longrightarrow> fst p \<noteq> Ready"
  by (auto simp: attempt_decision_def pending_decision_def proof_decision_def split: AttemptPhase.splits if_splits)

lemma idle_ready:
  "fst (idle_decision cx facts b) = Ready \<Longrightarrow>
     idle_decision cx facts b = eligibility (cx_work cx) (cx_actor cx)
     \<and> wi_dispatch_policy (cx_work cx) \<noteq> DispatchPolicy.Paused"
  by (auto simp: idle_decision_def pending_decision_def proof_decision_def
      split: if_splits option.splits list.splits)

text \<open>Ready is only shown when nothing but the role of the actor can prevent a claim.\<close>

lemma primary_ready:
  assumes p: "primary_decision cx facts b = Return p" and ready: "fst p = Ready"
  shows "fst (snd p) \<longleftrightarrow> role_claims (cx_work cx) (cx_actor cx)"
proof -
  have "p = idle_decision cx facts b"
    using p ready attempt_not_ready [of cx facts _ p]
    by (auto simp: primary_decision_def pending_decision_def split: if_splits option.splits)
  with ready idle_ready [of cx facts b] have "p = eligibility (cx_work cx) (cx_actor cx)"
    "wi_dispatch_policy (cx_work cx) \<noteq> DispatchPolicy.Paused" by simp_all
  then show ?thesis using eligibility_claims by simp
qed

lemma claim_roles:
  "aa_role authority \<in> set (required_roles facts ActionKind.Claim) \<longleftrightarrow>
     aa_role authority = (if di_dispatch_policy facts = DispatchPolicy.OperatorOnly then Operator else Agent)"
  by (simp add: required_roles_def is_read_only_def)

text \<open>C2: The paired decision offers a claim only for work its own status evaluation offers to this actor:
  when the returned view allows claiming (which is also what its claimable bit says), the evaluator,
  run on the same context and facts, shows the work as ready and claimable, the store is live, the
  facts are coherent and undamaged, no active hold stands and the permission to claim is granted.\<close>

theorem paired_claim_sound:
  assumes view: "evaluate_decision_actions cx facts = Return (Inr v)"
    and offered: "sd_claimable_for_actor (dav_status v)"
  shows "\<exists>d. evaluate_canonical_status cx facts = Return d \<and> sd_claimable_for_actor d
     \<and> sd_display_status d = Ready \<and> decision_allows (dav_actions v) ActionKind.Claim
     \<and> dav_status v = d \<and> di_availability facts = Live \<and> ii_level (di_integrity facts) = Valid \<and> is_decidable facts
     \<and> PermittedAction.Claim \<in> pa_allowed (di_permitted_actions facts)
     \<and> (\<forall>holds. as_present (di_holds facts) = Some holds \<longrightarrow> (\<forall>h \<in> set holds. \<not> ho_active h))"
proof -
  from view obtain d where valid: "validate_context cx facts = Inr ()"
    and d: "evaluate_canonical_status cx facts = Return d"
    and v: "v = \<lparr>dav_status = d\<lparr>sd_claimable_for_actor := decision_allows (evaluate_actions
        (action_input_new facts (sd_display_status d) (sd_reason_codes d))) ActionKind.Claim\<rparr>,
      dav_actions = evaluate_actions (action_input_new facts (sd_display_status d) (sd_reason_codes d))\<rparr>"
    by (auto simp: evaluate_decision_actions_def Let_def run_bind_Return_iff split: sum.splits)
  let ?i = "action_input_new facts (sd_display_status d) (sd_reason_codes d)"
  have facts: "aei_facts ?i = facts" "aei_status ?i = sd_display_status d" by (simp_all add: action_input_new_def)
  have allows: "decision_allows (evaluate_actions ?i) ActionKind.Claim" using offered v by simp
  then obtain authority where "action_clear ?i ActionKind.Claim authority" by (auto simp: decision_allows_iff)
  note clear = this [unfolded action_clear_def integrity_clear authority_clear role_clear policy_clear, unfolded facts]
  have classes: "\<not> is_read_only ActionKind.Claim" "\<not> is_recovery_action ActionKind.Claim"
    "\<not> passes_hold ActionKind.Claim" "mapped_permission ActionKind.Claim = Some PermittedAction.Claim"
    by (simp_all add: is_read_only_def is_recovery_action_def passes_hold_def mapped_permission_def)
  have auth: "as_present (di_authority facts) = Some authority"
      "aa_role authority \<in> set (required_roles facts ActionKind.Claim)" "di_availability facts = Live"
      "ii_level (di_integrity facts) \<noteq> Quarantined" "ii_level (di_integrity facts) \<noteq> Degraded"
      "is_decidable facts" "PermittedAction.Claim \<in> pa_allowed (di_permitted_actions facts)"
    using clear classes by auto
  have holds: "\<forall>h \<in> set holds. \<not> ho_active h" if "as_present (di_holds facts) = Some holds" for holds
    using clear classes hold_clear that by blast
  have "status_denial ?i ActionKind.Claim (authority_actor_id authority) = None" using clear by blast
  from claim_clear [OF this] have ready: "sd_display_status d = Ready"
      "di_dispatch_policy facts \<noteq> DispatchPolicy.Paused" by (simp_all add: facts)
  have level: "ii_level (di_integrity facts) = Valid" using auth(4,5) by (cases "ii_level (di_integrity facts)") auto
  have role: "role_claims (cx_work cx) (cx_actor cx)"
    using valid auth(1,2) ready(2)
    by (elim validate_context_ok) (cases "di_dispatch_policy facts"; auto simp: claim_roles role_claims_def)
  from d obtain b p where p: "primary_decision cx (Some facts) b = Return p" "d = status_of cx (Some facts) b p"
    by (auto simp: evaluate_canonical_status_def evaluate_iff)
  have "sd_claimable_for_actor d"
    using primary_ready [OF p(1)] ready(1) role p(2) by simp
  with d v allows auth holds level ready(1) show ?thesis by (intro exI [of _ d]) simp
qed

definition sample_open_work :: WorkItem where
  "sample_open_work = work_item_open (work_item_new (Ident ''P'') (Ident ''w'') WorkKind.Task None ''T'')
     \<lparr>wi_acceptance_profile := \<lparr>ap_id = Ident ''p'', ap_version = ''1'',
        ap_gates = take 1 (ap_gates focused)\<rparr>\<rparr>"

definition sample_agent :: ActorAuthorityInput where
  "sample_agent = \<lparr>aa_authority_root = Ident ''o'', aa_project_id = Ident ''P'', aa_role = Agent,
     aa_principal = Authenticated (Ident ''a''), aa_session_id = Some (Ident ''s'')\<rparr>"

definition sample_claim_context :: StatusContext where
  "sample_claim_context = context_new sample_open_work [] None (ap_gates (wi_acceptance_profile sample_open_work))
     \<lparr>ac_actor_id = Ident ''a'', ac_role = Agent\<rparr> 100 5"

definition sample_claim_facts :: DecisionInputs where
  "sample_claim_facts =
     (let subject = \<lparr>ei_project_id = Ident ''P'', ei_work_id = Ident ''w'', ei_revision = 1\<rparr>;
          scope = subject_work (Ident ''P'') (Ident ''w'');
          profile = wi_acceptance_profile sample_open_work in
      \<lparr>di_subject = subject, di_snapshot_revision = 5, di_clock = evaluation_clock_at 100,
       di_availability = Live, di_dispatch_policy = Automatic,
       di_lifecycle = Fact.Present \<lparr>li_identity = subject, li_lifecycle = PersistedLifecycle.Open,
         li_terminal_decision = None\<rparr>,
       di_authority = Fact.Present sample_agent,
       di_requirements = Fact.Present \<lparr>pqi_proof = proof_planning subject 1
           \<lparr>pi_profile_id = ap_id profile, pi_version = ap_version profile, pi_digest = Ident ''d''\<rparr> ''1'',
         pqi_requirements = map (\<lambda>g. \<lparr>pq_exception = None, pq_id = Ident (as_str (gr_id g)), pq_gate_id = gr_id g,
           pq_kind = gr_kind g, pq_required = gr_required g, pq_state = gr_state g,
           pq_verifier_policy = \<lparr>vp_id = Ident ''v'', vp_version = ''1''\<rparr>\<rparr>) (ap_gates profile),
         pqi_review_policy = NotRequired\<rparr>,
       di_dependencies = Fact.Present [], di_holds = Fact.Present [],
       di_execution = optional_absent FactKind.Execution scope,
       di_submission = optional_absent FactKind.Submission scope,
       di_review = optional_absent FactKind.Review scope, di_recovery = optional_absent FactKind.Recovery scope,
       di_integrity = \<lparr>ii_scope = \<lparr>is_project_id = Ident ''P'', is_work_id = Ident ''w'', is_target = Work\<rparr>,
         ii_level = Valid, ii_diagnostics = []\<rparr>,
       di_permitted_actions = permitted_allowing [PermittedAction.Claim]\<rparr>)"

text \<open>What the sample evaluates to.\<close>

lemma sample_claim_evaluates:
  "(case primary_decision sample_claim_context (Some sample_claim_facts) None of
      Return p \<Rightarrow> fst p = Ready | _ \<Rightarrow> False)
   \<and> validate_context sample_claim_context sample_claim_facts = Inr ()
   \<and> is_decidable sample_claim_facts
   \<and> authority_of sample_claim_facts = Inr sample_agent
   \<and> owner_denial sample_claim_facts ActionKind.Claim sample_agent = None
   \<and> hold_denial sample_claim_facts ActionKind.Claim = None
   \<and> policy_denial sample_claim_facts ActionKind.Claim = None
   \<and> required_roles sample_claim_facts ActionKind.Claim = [Agent]"
  by code_simp

lemma sample_claim_facts_fields:
  "di_availability sample_claim_facts = Live" "ii_level (di_integrity sample_claim_facts) = Valid"
  "di_dispatch_policy sample_claim_facts = Automatic" "aa_role sample_agent = Agent"
  "\<not> delegation_broken sample_agent" "as_present (di_execution sample_claim_facts) = None"
  by (simp_all add: sample_claim_facts_def sample_agent_def delegation_broken_def optional_absent_def Let_def)

lemma sample_claim_ready:
  "\<exists>d. evaluate_canonical_status sample_claim_context sample_claim_facts = Return d
     \<and> sd_display_status d = Ready"
proof -
  have "business_schedule_decision sample_claim_context = Return None"
    by (simp add: business_schedule_decision_def sample_claim_context_def context_new_def)
  with sample_claim_evaluates show ?thesis
    by (auto simp: evaluate_canonical_status_def evaluate_iff split: run.splits)
qed

lemma sample_claim_cleared:
  "action_clear (action_input_new sample_claim_facts Ready reasons) ActionKind.Claim sample_agent"
proof -
  let ?i = "action_input_new sample_claim_facts Ready reasons"
  have input: "aei_facts ?i = sample_claim_facts" "aei_status ?i = Ready" by (simp_all add: action_input_new_def)
  have "integrity_denial (aei_facts ?i) (action_descriptor ?i ActionKind.Claim) ActionKind.Claim = None"
    by (simp only: integrity_clear) (simp add: input sample_claim_facts_fields sample_claim_evaluates)
  moreover have "role_denial (aei_facts ?i) (action_descriptor ?i ActionKind.Claim) sample_agent = None"
    by (simp only: role_clear) (simp add: input sample_claim_facts_fields sample_claim_evaluates)
  moreover have "status_denial ?i ActionKind.Claim (authority_actor_id sample_agent) = None"
    by (simp add: status_denial_def Let_def deny_unless_def input sample_claim_facts_fields)
  ultimately show ?thesis by (simp add: action_clear_def input sample_claim_evaluates)
qed

text \<open>The sample work item is offered: the facts bind the context, the evaluator shows it as ready and no
  guard denies the claim.\<close>

theorem paired_claim_sound_witness:
  "\<exists>d. evaluate_canonical_status sample_claim_context sample_claim_facts = Return d
     \<and> sd_claimable_for_actor d \<and> sd_display_status d = Ready"
proof -
  from sample_claim_ready obtain d where
    d: "evaluate_canonical_status sample_claim_context sample_claim_facts = Return d" "sd_display_status d = Ready"
    by blast
  then obtain v where v: "evaluate_decision_actions sample_claim_context sample_claim_facts = Return (Inr v)"
    and "dav_status v = d\<lparr>sd_claimable_for_actor := decision_allows (evaluate_actions
        (action_input_new sample_claim_facts Ready (sd_reason_codes d))) ActionKind.Claim\<rparr>"
    by (simp add: evaluate_decision_actions_def sample_claim_evaluates Let_def)
  then have "sd_claimable_for_actor (dav_status v)" using sample_claim_cleared decision_allows_iff by auto
  from paired_claim_sound [OF v this] show ?thesis by blast
qed

end
