(* ===== verification/Global_Manager.thy ===== *)
theory Global_Manager
  imports Stack_Search Ordered_Map
begin

text \<open>
  Installation-wide management records (\<open>crates/domain/src/global_manager.rs\<close>): their vocabularies and
  record checks, the hierarchy of management items, the cycle check of one new dependency and the
  topological check of a whole dependency graph.
\<close>

section \<open>Errors and identifiers\<close>

datatype GlobalManagerDomainError =
    InvalidIdentifier string
  | InvalidCategory string
  | InvalidCaptureDigest string
  | InvalidCaptureSourceRef string
  | InvalidItemKind string
  | InvalidRelationshipKind string
  | EmptyTitle
  | EmptyLabel
  | SubtaskNeedsParent
  | OnlySubtasksMayHaveParent
  | InvalidHierarchy
  | DependencyCycle

definition validate_identifier :: "string \<Rightarrow> GlobalManagerDomainError + unit" where
  "validate_identifier v =
     (if trim_is_empty v \<or> 255 < length v \<or> list_ex is_control (utf8_chars v)
      then Inl (InvalidIdentifier v) else Inr ())"

text \<open>\<open>if let Some(id) = ... { validate_identifier(id)?; }\<close>.\<close>

definition validate_optional_identifier :: "string option \<Rightarrow> GlobalManagerDomainError + unit" where
  "validate_optional_identifier v = case_option (Inr ()) validate_identifier v"

section \<open>Activity events and note links\<close>

record GlobalActivityEvent =
  gae_operation_id :: string
  gae_revision :: u64
  gae_command :: string
  gae_entity_kind :: "string option"
  gae_entity_id :: "string option"
  gae_project_id :: "string option"
  gae_source_id :: "string option"
  gae_target_id :: "string option"
  gae_title :: "string option"
  gae_summary :: string
  gae_created_at :: string

record ManagementNoteLink =
  mnl_note_id :: string
  mnl_item_id :: string
  mnl_project_id :: "string option"

definition note_link_validate :: "ManagementNoteLink \<Rightarrow> GlobalManagerDomainError + unit" where
  "note_link_validate link =
     sum_bind (validate_identifier (mnl_note_id link)) (\<lambda>_.
     sum_bind (validate_identifier (mnl_item_id link)) (\<lambda>_.
     validate_optional_identifier (mnl_project_id link)))"

section \<open>Status categories\<close>

datatype StatusCategory = Open | Active | Waiting | Blocked | Completed | Cancelled | Inbox

definition PERSONAL_INBOX_STATUS_ID :: string where
  "PERSONAL_INBOX_STATUS_ID = ''personal-inbox''"

primrec category_as_str :: "StatusCategory \<Rightarrow> string" where
  "category_as_str Open = ''open''"
| "category_as_str Active = ''active''"
| "category_as_str Waiting = ''waiting''"
| "category_as_str Blocked = ''blocked''"
| "category_as_str Completed = ''completed''"
| "category_as_str Cancelled = ''cancelled''"
| "category_as_str Inbox = ''inbox''"

definition category_try_from :: "string \<Rightarrow> GlobalManagerDomainError + StatusCategory" where
  "category_try_from v =
     (if v = ''open'' then Inr Open
      else if v = ''active'' then Inr Active
      else if v = ''waiting'' then Inr Waiting
      else if v = ''blocked'' then Inr Blocked
      else if v = ''completed'' then Inr Completed
      else if v = ''cancelled'' then Inr Cancelled
      else if v = ''inbox'' then Inr Inbox
      else Inl (InvalidCategory v))"

section \<open>Capture origins\<close>

record CaptureOrigin =
  co_digest :: string
  co_source_ref :: "string option"

definition is_hex_digit :: "char \<Rightarrow> bool" where
  "is_hex_digit c \<longleftrightarrow> CHR ''0'' \<le> c \<and> c \<le> CHR ''9'' \<or> CHR ''a'' \<le> c \<and> c \<le> CHR ''f''"

definition capture_origin_validate :: "CaptureOrigin \<Rightarrow> GlobalManagerDomainError + unit" where
  "capture_origin_validate origin =
     (let hex = drop 7 (co_digest origin) in
      if take 7 (co_digest origin) \<noteq> ''sha256:'' then Inl (InvalidCaptureDigest (co_digest origin))
      else if length hex \<noteq> 64 \<or> \<not> list_all is_hex_digit hex
      then Inl (InvalidCaptureDigest (co_digest origin))
      else case co_source_ref origin of
          None \<Rightarrow> Inr ()
        | Some source_ref \<Rightarrow>
            if trim_is_empty source_ref \<or> 4096 < length source_ref
               \<or> list_ex is_control (utf8_chars source_ref)
            then Inl (InvalidCaptureSourceRef source_ref) else Inr ())"

section \<open>Relationships\<close>

datatype ManagementItemKind = Task | Subtask | Milestone

datatype ManagementRelationshipKind = DependsOn | Blocks | Related

definition relationship_try_from :: "string \<Rightarrow> GlobalManagerDomainError + ManagementRelationshipKind" where
  "relationship_try_from v =
     (if v = ''depends_on'' then Inr DependsOn
      else if v = ''blocks'' then Inr Blocks
      else if v = ''related'' then Inr Related
      else Inl (InvalidRelationshipKind v))"

fun prerequisite_to_dependent ::
  "string \<Rightarrow> string \<Rightarrow> ManagementRelationshipKind \<Rightarrow> (string \<times> string) option" where
  "prerequisite_to_dependent source target Blocks = Some (source, target)"
| "prerequisite_to_dependent source target DependsOn = Some (target, source)"
| "prerequisite_to_dependent source target Related = None"

datatype ManagementPrerequisiteState = Satisfied | Incomplete | ArchivedIncomplete | Cancelled | Missing

fun management_prerequisite_state :: "StatusCategory option \<Rightarrow> bool \<Rightarrow> ManagementPrerequisiteState" where
  "management_prerequisite_state (Some Completed) _ = Satisfied"
| "management_prerequisite_state (Some StatusCategory.Cancelled) _ = ManagementPrerequisiteState.Cancelled"
| "management_prerequisite_state (Some _) archived = (if archived then ArchivedIncomplete else Incomplete)"
| "management_prerequisite_state None _ = Missing"

section \<open>Management items\<close>

primrec item_kind_as_str :: "ManagementItemKind \<Rightarrow> string" where
  "item_kind_as_str Task = ''task''"
| "item_kind_as_str Subtask = ''subtask''"
| "item_kind_as_str Milestone = ''milestone''"

definition item_kind_try_from :: "string \<Rightarrow> GlobalManagerDomainError + ManagementItemKind" where
  "item_kind_try_from v =
     (if v = ''task'' \<or> v = ''todo'' then Inr Task
      else if v = ''subtask'' then Inr Subtask
      else if v = ''milestone'' then Inr Milestone
      else Inl (InvalidItemKind v))"

record WorkflowStatus =
  ws_id :: string
  ws_label :: string
  ws_category :: StatusCategory
  ws_position :: int

definition workflow_status_validate :: "WorkflowStatus \<Rightarrow> GlobalManagerDomainError + unit" where
  "workflow_status_validate s =
     sum_bind (validate_identifier (ws_id s)) (\<lambda>_.
     if trim_is_empty (ws_label s) then Inl EmptyLabel else Inr ())"

record ManagementItem =
  mi_id :: string
  mi_project_id :: "string option"
  mi_parent_id :: "string option"
  mi_kind :: ManagementItemKind
  mi_title :: string
  mi_description :: string
  mi_status_id :: string
  mi_priority :: u8
  mi_due_at :: "string option"
  mi_follow_up_at :: "string option"
  mi_archived :: bool
  mi_position :: int

definition management_item_validate :: "ManagementItem \<Rightarrow> GlobalManagerDomainError + unit" where
  "management_item_validate item =
     sum_bind (validate_identifier (mi_id item)) (\<lambda>_.
     sum_bind (validate_identifier (mi_status_id item)) (\<lambda>_.
     sum_bind (validate_optional_identifier (mi_project_id item)) (\<lambda>_.
     sum_bind (validate_optional_identifier (mi_parent_id item)) (\<lambda>_.
     if trim_is_empty (mi_title item) then Inl EmptyTitle
     else if mi_kind item = Subtask \<and> mi_parent_id item = None then Inl SubtaskNeedsParent
     else Inr ()))))"

definition validate_item_parent ::
  "ManagementItemKind \<Rightarrow> ManagementItemKind option \<Rightarrow> GlobalManagerDomainError + unit" where
  "validate_item_parent child parent =
     (if child = Milestone \<and> parent = None
        \<or> child = Task \<and> (parent = None \<or> parent = Some Milestone)
        \<or> child = Subtask \<and> (parent = Some Task \<or> parent = Some Subtask)
      then Inr () else Inl InvalidHierarchy)"

section \<open>One new dependency\<close>

text \<open>The successor lists: \<open>adjacency.entry(from).or_default().push(to)\<close>.\<close>

definition adjacent :: "(string, string list) btree_map \<Rightarrow> string \<Rightarrow> string list" where
  "adjacent adjacency node = case_option [] id (bt_get adjacency node)"

definition push_dependency ::
  "(string, string list) btree_map \<Rightarrow> string \<times> string \<Rightarrow> (string, string list) btree_map" where
  "push_dependency adjacency edge =
     bt_insert (fst edge) (adjacent adjacency (fst edge) @ [snd edge]) adjacency"

text \<open>The work list is a stack; its top is the head.\<close>

primrec dependency_search ::
  "nat \<Rightarrow> (string \<Rightarrow> string list) \<Rightarrow> string \<Rightarrow> string btree_set \<Rightarrow> string list \<Rightarrow> bool run" where
  "dependency_search 0 successors prerequisite seen stack = OutOfFuel"
| "dependency_search (Suc fuel) successors prerequisite seen stack =
     (case stack of
        [] \<Rightarrow> Return False
      | node # stack \<Rightarrow>
          if node = prerequisite then Return True
          else if bt_contains seen node then dependency_search fuel successors prerequisite seen stack
          else dependency_search fuel successors prerequisite (bs_insert node seen)
                 (rev (successors node) @ stack))"

definition validate_management_dependency ::
  "string \<Rightarrow> string \<Rightarrow> (string \<times> string) list \<Rightarrow> (GlobalManagerDomainError + unit) run" where
  "validate_management_dependency prerequisite dependent edges =
     (case sum_bind (validate_identifier prerequisite) (\<lambda>_. validate_identifier dependent) of
        Inl e \<Rightarrow> Return (Inl e)
      | Inr _ \<Rightarrow>
          if prerequisite = dependent then Return (Inl DependencyCycle)
          else run_bind (dependency_search (length edges + 2)
              (adjacent (foldl push_dependency [] edges)) prerequisite [] [dependent])
            (\<lambda>found. Return (if found then Inl DependencyCycle else Inr ())))"

section \<open>The whole graph\<close>

type_synonym graph_build = "(string, string list) btree_map \<times> (string, nat) btree_map"

definition or_default :: "string \<Rightarrow> (string, nat) btree_map \<Rightarrow> (string, nat) btree_map" where
  "or_default node degrees = (if bt_contains degrees node then degrees else bt_insert node 0 degrees)"

text \<open>The counters are \<open>usize\<close>: none exceeds the number of edges of the slice.\<close>

definition graph_edge_step :: "graph_build \<Rightarrow> string \<times> string \<Rightarrow> GlobalManagerDomainError + graph_build" where
  "graph_edge_step g edge =
     sum_bind (validate_identifier (fst edge)) (\<lambda>_.
     sum_bind (validate_identifier (snd edge)) (\<lambda>_.
     if fst edge = snd edge then Inl DependencyCycle
     else let degrees = or_default (fst edge) (snd g);
              degree = case_option 0 id (bt_get degrees (snd edge)) in
          Inr (push_dependency (fst g) edge, bt_insert (snd edge) (degree + 1) degrees)))"

text \<open>The inner loop: a missing endpoint is the \<open>expect\<close>, a decrement below zero the overflow panic.\<close>

primrec release_successors ::
  "(string, nat) btree_map \<Rightarrow> string list \<Rightarrow> string list \<Rightarrow> ((string, nat) btree_map \<times> string list) run" where
  "release_successors degrees ready [] = Return (degrees, ready)"
| "release_successors degrees ready (n # ns) =
     (case bt_get degrees n of
        None \<Rightarrow> Panic
      | Some degree \<Rightarrow>
          if degree = 0 then Panic
          else release_successors (bt_insert n (degree - 1) degrees)
                 (if degree - 1 = 0 then ready @ [n] else ready) ns)"

primrec topological_visits ::
  "nat \<Rightarrow> (string \<Rightarrow> string list) \<Rightarrow> (string, nat) btree_map \<Rightarrow> string list \<Rightarrow> nat \<Rightarrow> nat run" where
  "topological_visits 0 successors degrees ready visited = OutOfFuel"
| "topological_visits (Suc fuel) successors degrees ready visited =
     (case ready of
        [] \<Rightarrow> Return visited
      | node # ready \<Rightarrow> run_bind (release_successors degrees ready (successors node))
          (\<lambda>(degrees, ready). topological_visits fuel successors degrees ready (visited + 1)))"

definition validate_management_graph ::
  "(string \<times> string) list \<Rightarrow> (GlobalManagerDomainError + unit) run" where
  "validate_management_graph edges =
     (case try_fold graph_edge_step ([], []) edges of
        Inl e \<Rightarrow> Return (Inl e)
      | Inr (adjacency, degrees) \<Rightarrow>
          run_bind (topological_visits (length degrees + 1) (adjacent adjacency) degrees
              (map fst (filter (\<lambda>entry. snd entry = 0) degrees)) 0)
            (\<lambda>visited. Return (if visited = length degrees then Inr () else Inl DependencyCycle)))"

end
