(* ===== verification/Manager_Facts.thy ===== *)
theory Manager_Facts
  imports Global_Manager
begin

text \<open>
  The two dependency checks of the management records decide what they promise: one rejects exactly the
  edges that would close a cycle, the other accepts exactly the acyclic graphs, and the second stays
  true while edges accepted by the first are added.
\<close>

section \<open>Adjacency\<close>

lemma push_edges:
  "bt_wf m \<Longrightarrow> bt_wf (foldl push_dependency m es)
   \<and> adjacent (foldl push_dependency m es) u = adjacent m u @ map snd (filter (\<lambda>e. fst e = u) es)"
proof (induction es arbitrary: m)
  case (Cons e es)
  have "bt_wf (push_dependency m e)" using Cons.prems by (simp add: push_dependency_def)
  moreover have "adjacent (push_dependency m e) u = adjacent m u @ (if fst e = u then [snd e] else [])"
    using Cons.prems by (simp add: push_dependency_def adjacent_def bt_get_insert)
  ultimately show ?case using Cons.IH [of "push_dependency m e"] by simp
qed simp

abbreviation edge_successors :: "(string \<times> string) list \<Rightarrow> string \<Rightarrow> string list" where
  "edge_successors es u \<equiv> map snd (filter (\<lambda>e. fst e = u) es)"

lemma adjacent_edges: "adjacent (foldl push_dependency [] es) = edge_successors es"
  using push_edges [of "[]" es] by (auto simp: adjacent_def)

interpretation mg: succ_graph "edge_successors es" for es .

lemma arcs_edges: "mg.arcs es = set es"
  by (force simp: mg.arcs_def)

section \<open>One new dependency\<close>

lemma dependency_search_decides:
  assumes N: "finite N" "\<And>u. edge_successors es u \<noteq> [] \<Longrightarrow> u \<in> N" and wf: "bt_wf seen"
  shows "length stack + mg.pending es N (bs_elems seen) < fuel \<Longrightarrow> t \<notin> bs_elems seen \<Longrightarrow>
    (\<And>u. u \<in> bs_elems seen \<Longrightarrow> set (edge_successors es u) \<subseteq> bs_elems seen \<union> set stack) \<Longrightarrow>
    \<exists>b. dependency_search fuel (edge_successors es) t seen stack = Return b
      \<and> mg.decides es t (bs_elems seen) (set stack) b"
  using wf
proof (induction fuel arbitrary: seen stack)
  case (Suc fuel)
  show ?case
  proof (cases stack)
    case Nil
    with Suc.prems(2,3) have "mg.decides es t (bs_elems seen) (set stack) False"
      by (auto simp: mg.decides_def mg.closed_def intro!: exI [of _ "bs_elems seen"])
    with Nil show ?thesis by (intro exI [of _ False]) simp
  next
    case (Cons u rest)
    consider (found) "u = t" | (old) "u \<noteq> t" "u \<in> bs_elems seen" | (new) "u \<noteq> t" "u \<notin> bs_elems seen"
      by blast
    then show ?thesis
    proof cases
      case found
      with Cons show ?thesis by (auto simp: mg.decides_def intro!: exI [of _ True])
    next
      case old
      have "\<exists>b. dependency_search fuel (edge_successors es) t seen rest = Return b
          \<and> mg.decides es t (bs_elems seen) (set rest) b"
        by (rule Suc.IH) (use Suc.prems Cons old in auto)
      moreover have "mg.decides es t (bs_elems seen) (set rest) b \<Longrightarrow>
          mg.decides es t (bs_elems seen) (set stack) b" for b
        using old Cons by (auto simp: mg.decides_def split: if_splits)
      ultimately show ?thesis using Cons old by (auto simp: bt_contains_bs)
    next
      case new
      let ?rest = "rev (edge_successors es u) @ rest" and ?seen = "bs_insert u seen"
      have seen: "bs_elems ?seen = insert u (bs_elems seen)" using Suc.prems(4) by simp
      have work: "length (edge_successors es u) + mg.pending es N (bs_elems ?seen)
          = mg.pending es N (bs_elems seen)"
      proof (cases "edge_successors es u = []")
        case True
        then show ?thesis using mg.pending_sink [OF True N(1)] by (simp add: seen)
      next
        case False
        then show ?thesis using mg.pending_visit [OF N(1) N(2) [OF False] new(2)] by (simp add: seen)
      qed
      have "\<exists>b. dependency_search fuel (edge_successors es) t ?seen ?rest = Return b
          \<and> mg.decides es t (bs_elems ?seen) (set ?rest) b"
      proof (rule Suc.IH)
        show "length ?rest + mg.pending es N (bs_elems ?seen) < fuel"
          using Suc.prems(1) Cons work by simp
        show "t \<notin> bs_elems ?seen" using Suc.prems(2) new(1) seen by auto
        show "bt_wf ?seen" using Suc.prems(4) by simp
        show "set (edge_successors es v) \<subseteq> bs_elems ?seen \<union> set ?rest" if "v \<in> bs_elems ?seen" for v
          using Suc.prems(3) [of v] Cons that unfolding seen by auto
      qed
      then obtain b where b: "dependency_search fuel (edge_successors es) t ?seen ?rest = Return b"
        "mg.decides es t (insert u (bs_elems seen)) (set (edge_successors es u) \<union> set rest) b"
        unfolding seen by auto
      have "mg.decides es t (bs_elems seen) (set stack) b"
      proof (cases b)
        case True
        with b(2) obtain v where "v \<in> set (edge_successors es u) \<union> set rest" "(v, t) \<in> (mg.arcs es)\<^sup>*"
          by (auto simp: mg.decides_def)
        moreover have "(u, v) \<in> mg.arcs es" if "v \<in> set (edge_successors es u)"
          using that by (simp add: mg.arcs_def)
        ultimately have "\<exists>w \<in> set stack. (w, t) \<in> (mg.arcs es)\<^sup>*"
          using Cons by (auto intro: converse_rtrancl_into_rtrancl)
        with True show ?thesis by (simp add: mg.decides_def)
      next
        case False
        with b(2) Cons show ?thesis by (auto simp: mg.decides_def)
      qed
      with b(1) new Cons show ?thesis by (auto simp: bt_contains_bs)
    qed
  qed
qed simp

lemma dependency_search_edges:
  "dependency_search (length es + 2) (edge_successors es) t [] [start]
     = Return ((start, t) \<in> (set es)\<^sup>*)"
proof -
  let ?N = "fst ` set es"
  have N: "u \<in> ?N" if "edge_successors es u \<noteq> []" for u
    using that by (auto simp: filter_empty_conv)
  have "mg.pending es ?N {} = length es"
    using sum_length_filter [of ?N fst es] by (simp add: mg.pending_def)
  then have "length [start] + mg.pending es ?N (bs_elems []) < length es + 2" by simp
  from dependency_search_decides [OF _ N bt_wf_Nil this, of t]
  obtain b where b: "dependency_search (length es + 2) (edge_successors es) t [] [start] = Return b"
    "mg.decides es t {} {start} b" by (auto simp del: dependency_search.simps)
  from mg.decides_iff [OF b(2)] have "b \<longleftrightarrow> (start, t) \<in> (set es)\<^sup>*" by (simp add: arcs_edges)
  with b(1) show ?thesis by (simp del: dependency_search.simps)
qed

text \<open>The check of one management dependency always returns, and decides exactly whether the new edge
  would close a cycle: after both identifiers are accepted (the prerequisite first), it is rejected
  precisely when the prerequisite is already reachable from the dependent over the given edges, the
  edge from an item to itself included.\<close>

lemma dependency_decision:
  "validate_management_dependency p d edges = Return
     (sum_bind (validate_identifier p) (\<lambda>_. sum_bind (validate_identifier d) (\<lambda>_.
        if (d, p) \<in> (set edges)\<^sup>* then Inl DependencyCycle else Inr ())))"
  by (cases "validate_identifier p"; cases "validate_identifier d")
    (simp_all add: validate_management_dependency_def adjacent_edges dependency_search_edges
      del: dependency_search.simps add_2_eq_Suc')

section \<open>The whole graph\<close>

text \<open>What the build loop has collected from a list of edges.\<close>

definition nodes :: "(string \<times> string) list \<Rightarrow> string set" where
  "nodes es = fst ` set es \<union> snd ` set es"

definition indegree :: "(string \<times> string) list \<Rightarrow> string \<Rightarrow> nat" where
  "indegree es n = length (filter (\<lambda>e. snd e = n) es)"

definition built :: "(string \<times> string) list \<Rightarrow> graph_build \<Rightarrow> bool" where
  "built es g \<longleftrightarrow> fst g = foldl push_dependency [] es \<and> bt_wf (snd g)
     \<and> (\<forall>n. bt_get (snd g) n = (if n \<in> nodes es then Some (indegree es n) else None))"

definition valid_edge :: "string \<times> string \<Rightarrow> bool" where
  "valid_edge e \<longleftrightarrow> validate_identifier (fst e) = Inr () \<and> validate_identifier (snd e) = Inr ()
     \<and> fst e \<noteq> snd e"

lemma indegree_None: "n \<notin> nodes es \<Longrightarrow> indegree es n = 0"
  by (auto simp: indegree_def nodes_def filter_empty_conv)

lemma or_default_simps:
  "bt_wf m \<Longrightarrow> bt_wf (or_default n m)"
  "bt_wf m \<Longrightarrow> bt_get (or_default n m) k = (if k = n \<and> bt_get m n = None then Some 0 else bt_get m k)"
  by (auto simp: or_default_def bt_contains_def bt_get_insert)

lemma graph_edge_built:
  assumes "built es g"
  shows "if valid_edge e then \<exists>h. graph_edge_step g e = Inr h \<and> built (es @ [e]) h
     else \<exists>x. graph_edge_step g e = Inl x"
proof (cases "valid_edge e")
  case True
  let ?d = "or_default (fst e) (snd g)"
  have wf: "bt_wf (snd g)" "bt_wf ?d"
    and get: "\<And>n. bt_get (snd g) n = (if n \<in> nodes es then Some (indegree es n) else None)"
    using assms by (simp_all add: built_def or_default_simps)
  have d: "bt_get ?d n = (if n \<in> insert (fst e) (nodes es) then Some (indegree es n) else None)" for n
    using wf(1) get [of n] get [of "fst e"] indegree_None [of n es] by (auto simp: or_default_simps)
  have total: "case_option 0 id (bt_get ?d n) = indegree es n" for n
    using indegree_None [of n es] by (simp add: d)
  let ?g = "(push_dependency (fst g) e, bt_insert (snd e) (indegree es (snd e) + 1) ?d)"
  have "graph_edge_step g e = Inr ?g"
    using True total [of "snd e"] by (simp add: graph_edge_step_def valid_edge_def)
  moreover have "indegree (es @ [e]) n = indegree es n + (if snd e = n then 1 else 0)" for n
    by (simp add: indegree_def)
  then have "built (es @ [e]) ?g"
    using assms wf by (auto simp: built_def bt_get_insert d nodes_def)
  ultimately show ?thesis using True by auto
next
  case False
  then show ?thesis
    by (cases "validate_identifier (fst e)"; cases "validate_identifier (snd e)")
      (auto simp: graph_edge_step_def valid_edge_def)
qed

lemma graph_build:
  "if list_all valid_edge es then \<exists>g. try_fold graph_edge_step ([], []) es = Inr g \<and> built es g
   else \<exists>x. try_fold graph_edge_step ([], []) es = Inl x"
proof -
  have start: "built [] ([], [])" by (simp add: built_def nodes_def)
  have "(\<forall>i < length es. valid_edge (es ! i)) \<longleftrightarrow> list_all valid_edge es" by (simp add: list_all_length)
  moreover have "if \<forall>i < length es. valid_edge (es ! i)
      then \<exists>g. try_fold graph_edge_step ([], []) es = Inr g \<and> built ([] @ es) g
      else \<exists>x. try_fold graph_edge_step ([], []) es = Inl x"
    by (rule try_fold_prefix [where P = built and ok = "\<lambda>_. valid_edge", OF graph_edge_built start])
  ultimately show ?thesis by (simp only: append_Nil)
qed

text \<open>Releasing a node's successors: each occurrence takes one from its counter.\<close>

lemma release_successors_counts:
  assumes "bt_wf m" and "\<And>n. n \<in> set ns \<Longrightarrow> \<exists>k. bt_get m n = Some k \<and> count_list ns n \<le> k"
    and "distinct ready" and "\<And>n. n \<in> set ready \<Longrightarrow> n \<notin> set ns"
  shows "\<exists>m' ready'. release_successors m ready ns = Return (m', ready') \<and> bt_wf m'
     \<and> (\<forall>n. bt_get m' n = map_option (\<lambda>k. k - count_list ns n) (bt_get m n))
     \<and> distinct ready' \<and> set ready' = set ready \<union> {n \<in> set ns. bt_get m' n = Some 0}"
  using assms
proof (induction ns arbitrary: m ready)
  case Nil
  then show ?case by (simp add: option.map_ident)
next
  case (Cons a ns)
  obtain k where k: "bt_get m a = Some k" "0 < k" "count_list ns a \<le> k - 1"
    using Cons.prems(2) [of a] by auto
  let ?m = "bt_insert a (k - 1) m" and ?ready = "if k - 1 = 0 then ready @ [a] else ready"
  have get: "bt_get ?m n = (if n = a then Some (k - 1) else bt_get m n)" for n
    using Cons.prems(1) by (simp add: bt_get_insert)
  have "\<exists>m' ready'. release_successors ?m ?ready ns = Return (m', ready') \<and> bt_wf m'
     \<and> (\<forall>n. bt_get m' n = map_option (\<lambda>k. k - count_list ns n) (bt_get ?m n))
     \<and> distinct ready' \<and> set ready' = set ?ready \<union> {n \<in> set ns. bt_get m' n = Some 0}"
  proof (rule Cons.IH)
    show "\<exists>j. bt_get ?m n = Some j \<and> count_list ns n \<le> j" if "n \<in> set ns" for n
      using Cons.prems(2) [of n] that k get by (cases "n = a") auto
    show "n \<notin> set ns" if "n \<in> set ?ready" for n
      using Cons.prems(4) [of n] that k(3) count_list_0_iff [of ns a] by (auto split: if_splits)
    show "distinct ?ready" using Cons.prems(3,4) by auto
  qed (use Cons.prems(1) in simp)
  then obtain m' ready' where r: "release_successors ?m ?ready ns = Return (m', ready')" "bt_wf m'"
    "\<And>n. bt_get m' n = map_option (\<lambda>k. k - count_list ns n) (bt_get ?m n)"
    "distinct ready'" "set ready' = set ?ready \<union> {n \<in> set ns. bt_get m' n = Some 0}" by blast
  have "bt_get m' n = map_option (\<lambda>k. k - count_list (a # ns) n) (bt_get m n)" for n
    using r(3) [of n] k get by simp
  moreover have "set ready' = set ready \<union> {n \<in> set (a # ns). bt_get m' n = Some 0}"
    using r(3) [of a] r(5) k(3) get [of a] count_list_0_iff [of ns a] by auto
  ultimately show ?case using r(1,2,4) k by simp
qed

text \<open>The state of the visit: \<open>D\<close> holds the visited nodes, the counters what still enters a node from
  outside of it, the queue the nodes that are free now.\<close>

definition remaining :: "(string \<times> string) list \<Rightarrow> string set \<Rightarrow> string \<Rightarrow> nat" where
  "remaining es D n = length (filter (\<lambda>e. snd e = n \<and> fst e \<notin> D) es)"

definition visiting ::
  "(string \<times> string) list \<Rightarrow> string set \<Rightarrow> (string, nat) btree_map \<Rightarrow> string list \<Rightarrow> bool" where
  "visiting es D m ready \<longleftrightarrow> bt_wf m \<and> distinct ready
     \<and> (\<forall>n. bt_get m n = (if n \<in> nodes es then Some (remaining es D n) else None))
     \<and> set ready \<inter> D = {} \<and> set ready \<union> D = {n \<in> nodes es. remaining es D n = 0}
     \<and> D \<subseteq> Wellfounded.acc (set es)"

lemma remaining_0: "remaining es D n = 0 \<longleftrightarrow> (\<forall>u. (u, n) \<in> set es \<longrightarrow> u \<in> D)"
  by (auto simp: remaining_def filter_empty_conv)

lemma remaining_insert:
  "w \<notin> D \<Longrightarrow> remaining es D n = remaining es (insert w D) n + count_list (edge_successors es w) n"
  unfolding remaining_def by (induction es) auto

lemma in_nodes: "(u, v) \<in> set es \<Longrightarrow> u \<in> nodes es \<and> v \<in> nodes es"
  by (force simp: nodes_def)

lemma visit_step:
  assumes v: "visiting es D m (w # ready)"
  shows "\<exists>m' ready'. release_successors m ready (edge_successors es w) = Return (m', ready')
     \<and> visiting es (insert w D) m' ready'"
proof -
  let ?ns = "edge_successors es w"
  have wf: "bt_wf m" and dist: "distinct (w # ready)" and new: "w \<notin> D" "set ready \<inter> D = {}"
    and get: "\<And>n. bt_get m n = (if n \<in> nodes es then Some (remaining es D n) else None)"
    and free: "insert w (set ready \<union> D) = {n \<in> nodes es. remaining es D n = 0}"
    and acc: "D \<subseteq> Wellfounded.acc (set es)"
    using v by (auto simp: visiting_def)
  have ns: "n \<in> nodes es \<and> 0 < remaining es D n" if "n \<in> set ?ns" for n
    using that new(1) in_nodes [of w n es] remaining_0 [of es D n] by auto
  have "\<exists>m' ready'. release_successors m ready ?ns = Return (m', ready') \<and> bt_wf m'
     \<and> (\<forall>n. bt_get m' n = map_option (\<lambda>k. k - count_list ?ns n) (bt_get m n))
     \<and> distinct ready' \<and> set ready' = set ready \<union> {n \<in> set ?ns. bt_get m' n = Some 0}"
  proof (rule release_successors_counts [OF wf])
    show "\<exists>k. bt_get m n = Some k \<and> count_list ?ns n \<le> k" if "n \<in> set ?ns" for n
      using ns [OF that] remaining_insert [OF new(1), of es n] get [of n] by simp
    show "n \<notin> set ?ns" if "n \<in> set ready" for n
    proof
      assume "n \<in> set ?ns"
      from ns [OF this] have "0 < remaining es D n" by simp
      moreover have "n \<in> {n \<in> nodes es. remaining es D n = 0}" unfolding free [symmetric] using that by simp
      ultimately show False by simp
    qed
  qed (use dist in simp)
  then obtain m' ready' where r: "release_successors m ready ?ns = Return (m', ready')" "bt_wf m'"
    "\<And>n. bt_get m' n = map_option (\<lambda>k. k - count_list ?ns n) (bt_get m n)"
    "distinct ready'" "set ready' = set ready \<union> {n \<in> set ?ns. bt_get m' n = Some 0}" by blast
  have get': "bt_get m' n = (if n \<in> nodes es then Some (remaining es (insert w D) n) else None)" for n
    using r(3) [of n] get [of n] remaining_insert [OF new(1), of es n] by simp
  have zero: "remaining es (insert w D) n = 0 \<longleftrightarrow> remaining es D n = 0 \<or> n \<in> set ?ns \<and> bt_get m' n = Some 0"
    if "n \<in> nodes es" for n
    using remaining_insert [OF new(1), of es n] get' [of n] that count_list_0_iff [of ?ns n]
    by (cases "n \<in> set ?ns") (simp_all del: count_list_0_iff)
  have fresh: "n \<notin> insert w D" if "n \<in> set ?ns" for n
  proof
    assume "n \<in> insert w D"
    then have "n \<in> insert w (set ready \<union> D)" by blast
    then show False using ns [OF that] unfolding free by simp
  qed
  have disjoint: "set ready' \<inter> insert w D = {}"
  proof -
    have "set ready \<inter> insert w D = {}" using new(2) dist by simp
    then show ?thesis unfolding r(5) using fresh by blast
  qed
  have covers: "set ready' \<union> insert w D = {n \<in> nodes es. remaining es (insert w D) n = 0}" (is "?L = ?R")
  proof (rule set_eqI)
    fix n
    have "n \<in> ?R \<longleftrightarrow> n \<in> nodes es \<and> (remaining es D n = 0 \<or> n \<in> set ?ns \<and> bt_get m' n = Some 0)"
      using zero [of n] by blast
    also have "\<dots> \<longleftrightarrow> n \<in> insert w (set ready \<union> D) \<or> n \<in> set ?ns \<and> bt_get m' n = Some 0"
      unfolding free using ns [of n] by blast
    also have "\<dots> \<longleftrightarrow> n \<in> ?L" unfolding r(5) by blast
    finally show "n \<in> ?L \<longleftrightarrow> n \<in> ?R" by (rule sym)
  qed
  have "w \<in> {n \<in> nodes es. remaining es D n = 0}" unfolding free [symmetric] by simp
  then have preds: "u \<in> D" if "(u, w) \<in> set es" for u using that remaining_0 [of es D w] by simp
  have "w \<in> Wellfounded.acc (set es)" by (rule accI) (rule subsetD [OF acc preds])
  with acc have accs: "insert w D \<subseteq> Wellfounded.acc (set es)" by simp
  have "visiting es (insert w D) m' ready'"
    unfolding visiting_def by (intro conjI allI) (rule r(2) r(4) get' disjoint covers accs)+
  with r(1) show ?thesis by blast
qed

lemma visiting_end:
  assumes v: "visiting es D m []"
  shows "D \<subseteq> nodes es \<and> (D = nodes es \<longleftrightarrow> acyclic (set es))"
proof -
  have D: "D = {n \<in> nodes es. remaining es D n = 0}" and acc: "D \<subseteq> Wellfounded.acc (set es)"
    using v by (simp_all add: visiting_def)
  have "acyclic (set es)" if "D = nodes es"
  proof -
    have "x \<in> Wellfounded.acc (set es)" for x
      using acc that in_nodes [of _ x es] by (cases "x \<in> nodes es") (auto intro: accI)
    then show ?thesis by (intro wf_acyclic) (simp add: wf_iff_acc)
  qed
  moreover have "D = nodes es" if "acyclic (set es)"
  proof (rule ccontr)
    assume "D \<noteq> nodes es"
    with D have ex: "\<exists>x. x \<in> nodes es - D" by blast
    have "wf (set es)" using that by (simp add: finite_acyclic_wf)
    with ex obtain z where z: "z \<in> nodes es - D" "\<And>y. (y, z) \<in> set es \<Longrightarrow> y \<notin> nodes es - D"
      by (metis wfE_min)
    then have "remaining es D z = 0" using in_nodes [of _ z es] by (auto simp: remaining_0)
    with z(1) D show False by blast
  qed
  ultimately show ?thesis using D by blast
qed

lemma topological_visits_decide:
  "visiting es D m ready \<Longrightarrow> card (nodes es) < fuel + card D \<Longrightarrow>
     \<exists>E. topological_visits fuel (edge_successors es) m ready (card D) = Return (card E)
       \<and> E \<subseteq> nodes es \<and> (E = nodes es \<longleftrightarrow> acyclic (set es))"
proof (induction fuel arbitrary: D m ready)
  case 0
  have "D \<subseteq> nodes es" using 0(1) by (auto simp: visiting_def)
  then have "card D \<le> card (nodes es)" by (intro card_mono) (simp_all add: nodes_def)
  with 0(2) show ?case by simp
next
  case (Suc fuel)
  show ?case
  proof (cases ready)
    case Nil
    then show ?thesis using visiting_end [of es D m] Suc.prems(1) by auto
  next
    case (Cons w rest)
    with Suc.prems(1) obtain m' ready' where r:
      "release_successors m rest (edge_successors es w) = Return (m', ready')" "visiting es (insert w D) m' ready'"
      using visit_step by blast
    have "D \<subseteq> nodes es" "w \<notin> D" using Suc.prems(1) Cons by (auto simp: visiting_def)
    then have "card (insert w D) = card D + 1" using finite_subset [of D "nodes es"] by (simp add: nodes_def)
    with Suc.IH [OF r(2)] Suc.prems(2) r(1) Cons show ?thesis by simp
  qed
qed

lemma graph_decision:
  "\<exists>r. validate_management_graph edges = Return r
     \<and> (r = Inr () \<longleftrightarrow>
          list_all (\<lambda>e. validate_identifier (fst e) = Inr () \<and> validate_identifier (snd e) = Inr ()) edges
          \<and> acyclic (set edges))"
proof -
  have loops: "list_all valid_edge edges" if "acyclic (set edges)"
    "list_all (\<lambda>e. validate_identifier (fst e) = Inr () \<and> validate_identifier (snd e) = Inr ()) edges"
    using that by (force simp: list_all_iff valid_edge_def acyclic_def)
  show ?thesis
  proof (cases "list_all valid_edge edges")
    case True
    then obtain g where g: "try_fold graph_edge_step ([], []) edges = Inr g" "built edges g"
      using graph_build [of edges] by auto
    let ?m = "snd g"
    have m: "bt_wf ?m" "\<And>n. bt_get ?m n = (if n \<in> nodes edges then Some (indegree edges n) else None)"
      using g(2) by (simp_all add: built_def)
    have keys: "set (map fst ?m) = nodes edges"
      using set_bt_keys [of ?m] m(2) by (auto simp: bt_keys_def dom_def split: if_splits)
    have size: "length ?m = card (nodes edges)"
      using m(1) distinct_card [of "map fst ?m"] keys by (simp add: bt_wf_def)
    have "remaining edges {} = indegree edges" by (simp add: fun_eq_iff remaining_def indegree_def)
    moreover have "n \<in> fst ` {entry \<in> set ?m. snd entry = 0} \<longleftrightarrow> n \<in> nodes edges \<and> indegree edges n = 0" for n
      using bt_get_in_set [OF m(1), of n 0] m(2) [of n] by (force split: if_splits)
    ultimately have "visiting edges {} ?m (map fst (filter (\<lambda>entry. snd entry = 0) ?m))"
      using m distinct_map_filter [of fst ?m] by (auto simp: visiting_def bt_wf_def)
    from topological_visits_decide [OF this, of "length ?m + 1"] obtain E where
      E: "topological_visits (length ?m + 1) (edge_successors edges) ?m
          (map fst (filter (\<lambda>entry. snd entry = 0) ?m)) 0 = Return (card E)"
        "E \<subseteq> nodes edges" "E = nodes edges \<longleftrightarrow> acyclic (set edges)"
      by (auto simp: size)
    have "card E = card (nodes edges) \<longleftrightarrow> E = nodes edges"
      using E(2) card_subset_eq [of "nodes edges" E] by (auto simp: nodes_def)
    moreover have "fst g = foldl push_dependency [] edges" using g(2) by (simp add: built_def)
    ultimately show ?thesis
      using g(1) E(1,3) True
      by (simp add: validate_management_graph_def case_prod_beta adjacent_edges size list_all_iff valid_edge_def
          del: topological_visits.simps)
  next
    case False
    then obtain x where "try_fold graph_edge_step ([], []) edges = Inl x" using graph_build [of edges] by auto
    with False loops show ?thesis by (auto simp: validate_management_graph_def)
  qed
qed

text \<open>C14: The check of a whole management graph always returns (no counter underflows, no endpoint is
  missing), and accepts exactly the edge lists whose identifiers are all valid and whose edges form no
  cycle.\<close>

theorem management_graph_decided:
  "\<exists>r. validate_management_graph edges = Return r
     \<and> (r = Inr () \<longleftrightarrow>
          list_all (\<lambda>e. validate_identifier (fst e) = Inr () \<and> validate_identifier (snd e) = Inr ()) edges
          \<and> acyclic (set edges))"
  by (rule graph_decision)

text \<open>C18: The two checks fit together: on a graph the whole check accepts, the check of one new edge
  accepts it exactly when the whole check accepts the graph with the edge appended.\<close>

theorem management_edge_extends:
  assumes "validate_management_graph edges = Return (Inr ())"
  shows "validate_management_dependency p d edges = Return (Inr ())
     \<longleftrightarrow> validate_management_graph (edges @ [(p, d)]) = Return (Inr ())"
proof -
  have graph: "validate_management_graph es = Return (Inr ()) \<longleftrightarrow>
      list_all (\<lambda>e. validate_identifier (fst e) = Inr () \<and> validate_identifier (snd e) = Inr ()) es
      \<and> acyclic (set es)" for es
    using graph_decision [of es] by auto
  have "acyclic (set (edges @ [(p, d)])) \<longleftrightarrow> acyclic (set edges) \<and> (d, p) \<notin> (set edges)\<^sup>*"
    by (simp add: acyclic_insert)
  with assms show ?thesis
    unfolding graph dependency_decision
    by (auto simp: sum_bind_Inr_iff split: if_splits)
qed

lemma short_identifiers:
  "validate_identifier ''a'' = Inr ()" "validate_identifier ''b'' = Inr ()" "validate_identifier ''c'' = Inr ()"
  by (simp_all add: validate_identifier_def trim_is_empty_def is_whitespace_def is_control_def)

theorem management_edge_extends_witness:
  "validate_management_graph [(''a'', ''b''), (''b'', ''c'')] = Return (Inr ())
   \<and> validate_management_graph [(''a'', ''b''), (''b'', ''a'')] \<noteq> Return (Inr ())"
proof -
  have "validate_management_graph [(''a'', ''b'')] = Return (Inr ())"
    by (simp add: validate_management_graph_def graph_edge_step_def short_identifiers Let_def or_default_def
        bt_contains_def bt_get_def push_dependency_def adjacent_def)
  moreover have "validate_management_dependency ''b'' ''c'' [(''a'', ''b'')] = Return (Inr ())"
    "validate_management_dependency ''b'' ''a'' [(''a'', ''b'')] \<noteq> Return (Inr ())"
    by (simp_all add: validate_management_dependency_def short_identifiers push_dependency_def adjacent_def bt_get_def
        bt_contains_def)
  ultimately show ?thesis
    using management_edge_extends [of "[(''a'', ''b'')]" "''b''" "''c''"]
      management_edge_extends [of "[(''a'', ''b'')]" "''b''" "''a''"] by simp
qed

end
