(* ===== verification/Deliverables.thy ===== *)
theory Deliverables
  imports Ordered_Map
begin

text \<open>
  Output requirements and exact-version input references
  (\<open>crates/domain/src/deliverables.rs\<close>): bounded declarations and their checks.  The error carries the
  message the code formats.
\<close>

section \<open>Declarations\<close>

definition MAX_DELIVERABLE_REQUIREMENTS :: nat where "MAX_DELIVERABLE_REQUIREMENTS = 64"
definition MAX_REQUIREMENT_MEDIA_TYPES :: nat where "MAX_REQUIREMENT_MEDIA_TYPES = 32"
definition MAX_REQUIREMENT_CRITERIA :: nat where "MAX_REQUIREMENT_CRITERIA = 32"
definition MAX_REQUIREMENT_CARDINALITY :: u32 where "MAX_REQUIREMENT_CARDINALITY = 100"
definition MAX_INPUT_ARTIFACT_REFS :: nat where "MAX_INPUT_ARTIFACT_REFS = 100"
definition MAX_CRITERION_BYTES :: u64 where "MAX_CRITERION_BYTES = 1073741824"

datatype DeliverableType = Code | Document | Image | Dataset | Report | Archive | Other

primrec deliverable_type_as_str :: "DeliverableType \<Rightarrow> string" where
  "deliverable_type_as_str Code = ''code''"
| "deliverable_type_as_str Document = ''document''"
| "deliverable_type_as_str Image = ''image''"
| "deliverable_type_as_str Dataset = ''dataset''"
| "deliverable_type_as_str Report = ''report''"
| "deliverable_type_as_str Archive = ''archive''"
| "deliverable_type_as_str Other = ''other''"

datatype DeliverableCriterion = NonEmpty | MinBytes u64 | MaxBytes u64 | DigestPresent | JsonDocument
  | TextContains string

record DeliverableRequirement =
  dr_key :: string
  dr_purpose :: string
  dr_required :: bool
  dr_deliverable_type :: DeliverableType
  dr_allowed_media_types :: "string list"
  dr_min_count :: u32
  dr_max_count :: u32
  dr_criteria :: "DeliverableCriterion list"

datatype InputArtifactRole = Context | AcceptedInput | Reference

primrec input_role_as_str :: "InputArtifactRole \<Rightarrow> string" where
  "input_role_as_str Context = ''context''"
| "input_role_as_str AcceptedInput = ''accepted_input''"
| "input_role_as_str Reference = ''reference''"

datatype InputArtifactScope = Project | Private

primrec input_scope_as_str :: "InputArtifactScope \<Rightarrow> string" where
  "input_scope_as_str Project = ''project''"
| "input_scope_as_str Private = ''private''"

record ArtifactProductionIdentity =
  api_work_id :: WorkId
  api_attempt_id :: AttemptId
  api_result_id :: string

record AcceptedResultIdentity =
  ari_producer :: ArtifactProductionIdentity
  ari_decision_id :: string
  ari_submission_id :: string
  ari_artifact_set_digest :: string

record InputArtifactRef =
  iar_input_key :: "string option"
  iar_required :: bool
  iar_project_id :: ProjectId
  iar_source_version_id :: SourceVersionId
  iar_content_digest :: string
  iar_media_type :: "string option"
  iar_byte_count :: "u64 option"
  iar_availability :: "string option"
  iar_role :: InputArtifactRole
  iar_scope :: InputArtifactScope
  iar_produced_by :: "ArtifactProductionIdentity option"
  iar_accepted_result :: "AcceptedResultIdentity option"

datatype DeliverableValidationError = DeliverableValidationError string

section \<open>Keys and media types\<close>

definition ascii_between :: "char \<Rightarrow> char \<Rightarrow> char \<Rightarrow> bool" where
  "ascii_between low high byte \<longleftrightarrow> low \<le> byte \<and> byte \<le> high"

definition lowercase_or_digit :: "char \<Rightarrow> bool" where
  "lowercase_or_digit byte \<longleftrightarrow> ascii_between CHR ''a'' CHR ''z'' byte \<or> ascii_between CHR ''0'' CHR ''9'' byte"

definition valid_key :: "string \<Rightarrow> bool" where
  "valid_key v \<longleftrightarrow> v \<noteq> [] \<and> length v \<le> 64
     \<and> list_all (\<lambda>byte. lowercase_or_digit byte \<or> byte \<in> set ''-_.'') v"

definition media_token_byte :: "char \<Rightarrow> bool" where
  "media_token_byte byte \<longleftrightarrow> lowercase_or_digit byte \<or> byte \<in> set ''!#$&^_.+-''"

definition to_ascii_lowercase :: "string \<Rightarrow> string" where
  "to_ascii_lowercase v =
     map (\<lambda>c. if ascii_between CHR ''A'' CHR ''Z'' c then char_of (of_char c + 32 :: nat) else c) v"

definition valid_media_type :: "string \<Rightarrow> bool" where
  "valid_media_type v \<longleftrightarrow>
     (if v = [] \<or> 127 < length v \<or> v \<noteq> to_ascii_lowercase v then False
      else case dropWhile (\<lambda>c. c \<noteq> CHR ''/'') v of
          [] \<Rightarrow> False
        | _ # subtype \<Rightarrow>
            let kind = takeWhile (\<lambda>c. c \<noteq> CHR ''/'') v in
            kind \<noteq> [] \<and> subtype \<noteq> [] \<and> list_all media_token_byte kind
            \<and> (subtype = ''*'' \<or> list_all media_token_byte subtype))"

section \<open>One requirement\<close>

text \<open>The quoted key of a message.\<close>

definition quoted :: "string \<Rightarrow> string" where
  "quoted key = CHR 0x27 # key @ [CHR 0x27]"

definition deliverable_error :: "string list \<Rightarrow> DeliverableValidationError + 'a" where
  "deliverable_error parts = Inl (DeliverableValidationError (concat parts))"

definition criterion_in_bounds :: "DeliverableCriterion \<Rightarrow> bool" where
  "criterion_in_bounds criterion \<longleftrightarrow> (case criterion of
      NonEmpty \<Rightarrow> True
    | DigestPresent \<Rightarrow> True
    | MinBytes v \<Rightarrow> v \<le> MAX_CRITERION_BYTES
    | MaxBytes v \<Rightarrow> 0 < v \<and> v \<le> MAX_CRITERION_BYTES
    | JsonDocument \<Rightarrow> True
    | TextContains text \<Rightarrow> \<not> trim_is_empty text \<and> length text \<le> 256
        \<and> \<not> list_ex is_control (utf8_chars text))"

primrec criterion_slot :: "DeliverableCriterion \<Rightarrow> string" where
  "criterion_slot NonEmpty = ''non-empty''"
| "criterion_slot (TextContains text) = ''text:'' @ text"
| "criterion_slot (MinBytes _) = ''min-bytes''"
| "criterion_slot (MaxBytes _) = ''max-bytes''"
| "criterion_slot DigestPresent = ''digest-present''"
| "criterion_slot JsonDocument = ''json-document''"

record criteria_scan =
  cs_min_bytes :: "u64 option"
  cs_max_bytes :: "u64 option"
  cs_criteria :: "string btree_set"

definition criterion_step ::
  "string \<Rightarrow> criteria_scan \<Rightarrow> DeliverableCriterion \<Rightarrow> DeliverableValidationError + criteria_scan" where
  "criterion_step key s criterion =
     (if \<not> criterion_in_bounds criterion
      then deliverable_error [''validation criterion for '', quoted key, '' is empty or outside its bound'']
      else let bounds = (case criterion of
                 MinBytes v \<Rightarrow> s\<lparr>cs_min_bytes := Some v\<rparr>
               | MaxBytes v \<Rightarrow> s\<lparr>cs_max_bytes := Some v\<rparr>
               | _ \<Rightarrow> s) in
           if bt_contains (cs_criteria s) (criterion_slot criterion)
           then deliverable_error [''validation criteria for '', quoted key, '' must be unique'']
           else Inr (bounds\<lparr>cs_criteria := bs_insert (criterion_slot criterion) (cs_criteria s)\<rparr>))"

definition media_step ::
  "string \<Rightarrow> string btree_set \<Rightarrow> string \<Rightarrow> DeliverableValidationError + string btree_set" where
  "media_step key media_types media_type =
     (if \<not> valid_media_type media_type \<or> bt_contains media_types media_type
      then deliverable_error [''media types for '', quoted key,
        '' must be unique lowercase MIME types or type/* ranges'']
      else Inr (bs_insert media_type media_types))"

definition bytes_contradict :: "u64 option \<Rightarrow> u64 option \<Rightarrow> bool" where
  "bytes_contradict min_bytes max_bytes \<longleftrightarrow> (case (min_bytes, max_bytes) of
      (Some minimum, Some maximum) \<Rightarrow> maximum < minimum
    | _ \<Rightarrow> False)"

definition validate_deliverable_requirement ::
  "DeliverableRequirement \<Rightarrow> DeliverableValidationError + unit" where
  "validate_deliverable_requirement r =
     (if \<not> valid_key (dr_key r)
      then deliverable_error [''deliverable requirement key '', quoted (dr_key r),
        '' must be a lowercase identifier of 1..64 characters'']
      else if trim_is_empty (dr_purpose r) \<or> 4096 < length (dr_purpose r) \<or> CHR 0x00 \<in> set (dr_purpose r)
      then deliverable_error [''purpose for deliverable requirement '', quoted (dr_key r),
        '' must contain 1..4096 bytes'']
      else if dr_max_count r < dr_min_count r \<or> MAX_REQUIREMENT_CARDINALITY < dr_max_count r
        \<or> dr_required r \<and> dr_min_count r = 0 \<or> \<not> dr_required r \<and> dr_min_count r \<noteq> 0
      then deliverable_error [''cardinality for '', quoted (dr_key r), '' must be 0..='',
        decimal (unat MAX_REQUIREMENT_CARDINALITY), '' and required must agree with a positive minimum'']
      else if MAX_REQUIREMENT_MEDIA_TYPES < length (dr_allowed_media_types r)
      then deliverable_error [''requirement '', quoted (dr_key r), '' has more than '',
        decimal MAX_REQUIREMENT_MEDIA_TYPES, '' media types'']
      else sum_bind (try_fold (media_step (dr_key r)) [] (dr_allowed_media_types r)) (\<lambda>_.
        if MAX_REQUIREMENT_CRITERIA < length (dr_criteria r)
        then deliverable_error [''requirement '', quoted (dr_key r), '' has more than '',
          decimal MAX_REQUIREMENT_CRITERIA, '' validation criteria'']
        else sum_bind (try_fold (criterion_step (dr_key r))
            \<lparr>cs_min_bytes = None, cs_max_bytes = None, cs_criteria = []\<rparr> (dr_criteria r)) (\<lambda>s.
          if bytes_contradict (cs_min_bytes s) (cs_max_bytes s)
          then deliverable_error [''minimum byte criterion exceeds maximum for '', quoted (dr_key r)]
          else Inr ())))"

definition requirement_key_step ::
  "string btree_set \<Rightarrow> DeliverableRequirement \<Rightarrow> DeliverableValidationError + string btree_set" where
  "requirement_key_step keys r =
     sum_bind (validate_deliverable_requirement r) (\<lambda>_.
       if bt_contains keys (dr_key r)
       then deliverable_error [''duplicate deliverable requirement key '', quoted (dr_key r)]
       else Inr (bs_insert (dr_key r) keys))"

definition validate_deliverable_requirements ::
  "DeliverableRequirement list \<Rightarrow> DeliverableValidationError + unit" where
  "validate_deliverable_requirements requirements =
     (if MAX_DELIVERABLE_REQUIREMENTS < length requirements
      then deliverable_error [''a work item may have at most '', decimal MAX_DELIVERABLE_REQUIREMENTS,
        '' deliverable requirements'']
      else sum_bind (try_fold requirement_key_step [] requirements) (\<lambda>_. Inr ()))"

section \<open>Input references\<close>

text \<open>A text field that must be neither blank nor longer than 255 bytes.\<close>

definition short_text :: "string \<Rightarrow> bool" where
  "short_text v \<longleftrightarrow> \<not> trim_is_empty v \<and> length v \<le> 255"

definition producer_incomplete :: "ArtifactProductionIdentity \<Rightarrow> bool" where
  "producer_incomplete identity \<longleftrightarrow> trim_is_empty (as_str (api_work_id identity))
     \<or> trim_is_empty (as_str (api_attempt_id identity)) \<or> \<not> short_text (api_result_id identity)"

definition accepted_mismatch :: "InputArtifactRef \<Rightarrow> AcceptedResultIdentity \<Rightarrow> bool" where
  "accepted_mismatch input accepted \<longleftrightarrow> iar_role input \<noteq> AcceptedInput
     \<or> iar_produced_by input \<noteq> Some (ari_producer accepted)
     \<or> \<not> short_text (ari_decision_id accepted) \<or> \<not> short_text (ari_submission_id accepted)
     \<or> \<not> short_text (ari_artifact_set_digest accepted)"

definition validate_input_artifact_ref ::
  "InputArtifactRef \<Rightarrow> ProjectId \<Rightarrow> DeliverableValidationError + unit" where
  "validate_input_artifact_ref input expected_project =
     (if case_option False (\<lambda>key. \<not> valid_key key) (iar_input_key input)
         \<or> iar_input_key input = None \<and> iar_required input
      then deliverable_error [''input references require a stable key when marked required'']
      else if iar_project_id input \<noteq> expected_project
      then deliverable_error [''input source '', as_str (iar_source_version_id input), '' belongs to project '',
        as_str (iar_project_id input), '', not '', as_str expected_project]
      else if trim_is_empty (as_str (iar_source_version_id input)) \<or> \<not> short_text (iar_content_digest input)
      then deliverable_error [''input reference requires an immutable source version and content digest'']
      else if case_option False producer_incomplete (iar_produced_by input)
      then deliverable_error [''input producer provenance requires both work and attempt identities'']
      else if case_option False (accepted_mismatch input) (iar_accepted_result input)
      then deliverable_error [''accepted input provenance must match its producer and include decision, '',
        ''submission, and artifact-set identities'']
      else if case_option False (\<lambda>v. \<not> valid_media_type v) (iar_media_type input)
         \<or> case_option False (\<lambda>v. trim_is_empty v \<or> 64 < length v \<or> CHR 0x00 \<in> set v) (iar_availability input)
         \<or> (iar_media_type input \<noteq> None) \<noteq> (iar_byte_count input \<noteq> None)
         \<or> (iar_media_type input \<noteq> None) \<noteq> (iar_availability input \<noteq> None)
      then deliverable_error [''input artifact metadata is outside its bound'']
      else Inr ())"

type_synonym input_scan = "string btree_set \<times> (string \<times> string) btree_set"

definition input_ref_step ::
  "ProjectId \<Rightarrow> input_scan \<Rightarrow> InputArtifactRef \<Rightarrow> DeliverableValidationError + input_scan" where
  "input_ref_step expected_project = (\<lambda>(keys, legacy_identities) input.
     sum_bind (validate_input_artifact_ref input expected_project) (\<lambda>_.
       case iar_input_key input of
         Some key \<Rightarrow>
           if bt_contains keys key then deliverable_error [''duplicate input key '', quoted key]
           else Inr (bs_insert key keys, legacy_identities)
       | None \<Rightarrow>
           let identity = (as_str (iar_source_version_id input), input_role_as_str (iar_role input)) in
           if bt_contains legacy_identities identity
           then deliverable_error [''legacy input references must not duplicate a source and role'']
           else Inr (keys, bs_insert identity legacy_identities)))"

definition validate_input_artifact_refs ::
  "InputArtifactRef list \<Rightarrow> ProjectId \<Rightarrow> DeliverableValidationError + unit" where
  "validate_input_artifact_refs inputs expected_project =
     (if MAX_INPUT_ARTIFACT_REFS < length inputs
      then deliverable_error [''a work item may have at most '', decimal MAX_INPUT_ARTIFACT_REFS,
        '' input references'']
      else sum_bind (try_fold (input_ref_step expected_project) ([], []) inputs) (\<lambda>_. Inr ()))"

end
