(* ===== verification/Deliverable_Facts.thy ===== *)
theory Deliverable_Facts
  imports Deliverables
begin

text \<open>
  The checks of output requirements and input references accept exactly the declarations that are
  bounded, unambiguous and free of contradictions.
\<close>

section \<open>Loops that collect keys\<close>

text \<open>A loop that checks each element and refuses a repeated key.\<close>

lemma unique_keys_step:
  fixes xs :: "'a list" and f :: "'a \<Rightarrow> 'k::linorder"
  assumes step: "\<And>keys x. g keys x = (if bad x \<or> bt_contains keys (f x) then Inl (err keys x)
      else Inr (bs_insert (f x) keys))"
  shows "(\<exists>s. try_fold g [] xs = Inr s) \<longleftrightarrow> list_all (\<lambda>x. \<not> bad x) xs \<and> distinct (map f xs)"
proof -
  let ?P = "\<lambda>ys s. bt_wf s \<and> bs_elems s = f ` set ys"
  have "if \<forall>i < length xs. \<not> bad (xs ! i) \<and> f (xs ! i) \<notin> f ` set ([] @ take i xs)
      then \<exists>s. try_fold g [] xs = Inr s \<and> ?P ([] @ xs) s else \<exists>e. try_fold g [] xs = Inl e"
    by (rule try_fold_prefix [where ok = "\<lambda>ys x. \<not> bad x \<and> f x \<notin> f ` set ys"])
      (auto simp: step bt_contains_bs)
  moreover have "(\<forall>i < length xs. \<not> bad (xs ! i) \<and> f (xs ! i) \<notin> f ` set ([] @ take i xs)) \<longleftrightarrow>
      list_all (\<lambda>x. \<not> bad x) xs \<and> distinct (map f xs)"
    using distinct_prefixes [of xs f] by (auto simp: list_all_length)
  ultimately show ?thesis by (auto split: if_splits)
qed

lemma deliverable_error_Inl [simp]: "deliverable_error ps = Inr x \<longleftrightarrow> False" "Inr x = deliverable_error ps \<longleftrightarrow> False"
  by (simp_all add: deliverable_error_def)

lemma guard_Inr: "(if c then deliverable_error ps else x) = Inr y \<longleftrightarrow> \<not> c \<and> x = Inr y"
  by simp

section \<open>Requirements\<close>

definition no_byte_contradiction :: "DeliverableCriterion list \<Rightarrow> bool" where
  "no_byte_contradiction cs \<longleftrightarrow> (\<forall>a b. MinBytes a \<in> set cs \<longrightarrow> MaxBytes b \<in> set cs \<longrightarrow> a \<le> b)"

text \<open>What a well formed declaration is, without the order of the checks.\<close>

definition requirement_wf :: "DeliverableRequirement \<Rightarrow> bool" where
  "requirement_wf r \<longleftrightarrow> valid_key (dr_key r)
     \<and> \<not> trim_is_empty (dr_purpose r) \<and> length (dr_purpose r) \<le> 4096 \<and> CHR 0x00 \<notin> set (dr_purpose r)
     \<and> dr_min_count r \<le> dr_max_count r \<and> dr_max_count r \<le> 100 \<and> (dr_required r \<longleftrightarrow> dr_min_count r \<noteq> 0)
     \<and> length (dr_allowed_media_types r) \<le> 32 \<and> list_all valid_media_type (dr_allowed_media_types r)
     \<and> distinct (dr_allowed_media_types r)
     \<and> length (dr_criteria r) \<le> 32 \<and> list_all criterion_in_bounds (dr_criteria r)
     \<and> distinct (map criterion_slot (dr_criteria r)) \<and> no_byte_contradiction (dr_criteria r)"

lemma media_types_ok:
  "(\<exists>s. try_fold (media_step key) [] ms = Inr s) \<longleftrightarrow> list_all valid_media_type ms \<and> distinct ms"
  using unique_keys_step [of "media_step key" "\<lambda>m. \<not> valid_media_type m" "\<lambda>m. m"
      "\<lambda>_ _. DeliverableValidationError (concat [''media types for '', quoted key,
        '' must be unique lowercase MIME types or type/* ranges''])" ms]
  by (simp add: media_step_def deliverable_error_def)

text \<open>The scan of the criteria: its set holds the slots, its bounds the byte criteria seen.\<close>

definition scanned :: "DeliverableCriterion list \<Rightarrow> criteria_scan \<Rightarrow> bool" where
  "scanned cs s \<longleftrightarrow> bt_wf (cs_criteria s) \<and> bs_elems (cs_criteria s) = criterion_slot ` set cs
     \<and> distinct (map criterion_slot cs)
     \<and> (\<forall>v. cs_min_bytes s = Some v \<longleftrightarrow> MinBytes v \<in> set cs)
     \<and> (\<forall>v. cs_max_bytes s = Some v \<longleftrightarrow> MaxBytes v \<in> set cs)"

lemma criterion_step_scanned:
  assumes "scanned cs s"
  shows "if criterion_in_bounds c \<and> criterion_slot c \<notin> criterion_slot ` set cs
     then \<exists>s'. criterion_step key s c = Inr s' \<and> scanned (cs @ [c]) s'
     else \<exists>e. criterion_step key s c = Inl e"
proof (cases "criterion_in_bounds c \<and> criterion_slot c \<notin> criterion_slot ` set cs")
  case True
  have new: "MinBytes v \<notin> set cs" if "c = MinBytes w" for v w
  proof
    assume "MinBytes v \<in> set cs"
    then have "criterion_slot (MinBytes v) \<in> criterion_slot ` set cs" by (rule imageI)
    with that True show False by simp
  qed
  have new': "MaxBytes v \<notin> set cs" if "c = MaxBytes w" for v w
  proof
    assume "MaxBytes v \<in> set cs"
    then have "criterion_slot (MaxBytes v) \<in> criterion_slot ` set cs" by (rule imageI)
    with that True show False by simp
  qed
  have "\<not> bt_contains (cs_criteria s) (criterion_slot c)"
    using assms True by (simp add: scanned_def bt_contains_bs)
  then show ?thesis
    using assms True new new'
    by (cases c) (simp_all add: criterion_step_def scanned_def Let_def, (blast | auto)+)
next
  case False
  with assms show ?thesis
    by (auto simp: criterion_step_def scanned_def bt_contains_bs deliverable_error_def Let_def)
qed

lemma criteria_scan:
  fixes key cs
  defines "r \<equiv> try_fold (criterion_step key) \<lparr>cs_min_bytes = None, cs_max_bytes = None, cs_criteria = []\<rparr> cs"
  shows "if list_all criterion_in_bounds cs \<and> distinct (map criterion_slot cs)
     then \<exists>s. r = Inr s \<and> scanned cs s else \<exists>e. r = Inl e"
proof -
  let ?ok = "\<lambda>ys c. criterion_in_bounds c \<and> criterion_slot c \<notin> criterion_slot ` set ys"
  have start: "scanned [] \<lparr>cs_min_bytes = None, cs_max_bytes = None, cs_criteria = []\<rparr>"
    by (simp add: scanned_def)
  have "if \<forall>i < length cs. ?ok ([] @ take i cs) (cs ! i) then \<exists>s. r = Inr s \<and> scanned ([] @ cs) s
      else \<exists>e. r = Inl e"
    unfolding r_def
    by (rule try_fold_prefix [where P = scanned and ok = ?ok, OF criterion_step_scanned start])
  moreover have "(\<forall>i < length cs. ?ok ([] @ take i cs) (cs ! i)) \<longleftrightarrow>
      list_all criterion_in_bounds cs \<and> distinct (map criterion_slot cs)"
    using distinct_prefixes [of cs criterion_slot] by (auto simp: list_all_length)
  ultimately show ?thesis by (simp only: append_Nil)
qed

lemma bytes_contradict_scanned:
  assumes "scanned cs s"
  shows "bytes_contradict (cs_min_bytes s) (cs_max_bytes s) \<longleftrightarrow> \<not> no_byte_contradiction cs"
proof -
  have seen: "MinBytes v \<in> set cs \<longleftrightarrow> cs_min_bytes s = Some v" "MaxBytes v \<in> set cs \<longleftrightarrow> cs_max_bytes s = Some v" for v
    using assms by (simp_all add: scanned_def)
  show ?thesis
    unfolding no_byte_contradiction_def seen
    by (cases "cs_min_bytes s"; cases "cs_max_bytes s") (auto simp: bytes_contradict_def)
qed

lemma requirement_accepted: "validate_deliverable_requirement r = Inr () \<longleftrightarrow> requirement_wf r"
proof -
  let ?scan = "try_fold (criterion_step (dr_key r))
    \<lparr>cs_min_bytes = None, cs_max_bytes = None, cs_criteria = []\<rparr> (dr_criteria r)"
  have criteria: "(\<exists>s. ?scan = Inr s \<and> \<not> bytes_contradict (cs_min_bytes s) (cs_max_bytes s)) \<longleftrightarrow>
      list_all criterion_in_bounds (dr_criteria r) \<and> distinct (map criterion_slot (dr_criteria r))
      \<and> no_byte_contradiction (dr_criteria r)"
    using criteria_scan [of "dr_criteria r" "dr_key r"] bytes_contradict_scanned [of "dr_criteria r"]
    by (auto split: if_splits)
  have "validate_deliverable_requirement r = Inr () \<longleftrightarrow>
      valid_key (dr_key r) \<and> \<not> (trim_is_empty (dr_purpose r) \<or> 4096 < length (dr_purpose r) \<or> CHR 0x00 \<in> set (dr_purpose r))
      \<and> \<not> (dr_max_count r < dr_min_count r \<or> MAX_REQUIREMENT_CARDINALITY < dr_max_count r
        \<or> dr_required r \<and> dr_min_count r = 0 \<or> \<not> dr_required r \<and> dr_min_count r \<noteq> 0)
      \<and> \<not> MAX_REQUIREMENT_MEDIA_TYPES < length (dr_allowed_media_types r)
      \<and> (\<exists>s. try_fold (media_step (dr_key r)) [] (dr_allowed_media_types r) = Inr s)
      \<and> \<not> MAX_REQUIREMENT_CRITERIA < length (dr_criteria r)
      \<and> (\<exists>s. ?scan = Inr s \<and> \<not> bytes_contradict (cs_min_bytes s) (cs_max_bytes s))"
    unfolding validate_deliverable_requirement_def guard_Inr sum_bind_Inr_iff by blast
  then show ?thesis
    unfolding media_types_ok criteria requirement_wf_def
    by (auto simp: MAX_REQUIREMENT_CARDINALITY_def MAX_REQUIREMENT_MEDIA_TYPES_def
        MAX_REQUIREMENT_CRITERIA_def not_less)
qed

text \<open>C35: The output requirements of a work item are accepted exactly when there are at most 64, their keys
  are distinct and each one is well formed: a bounded key and purpose, a count range up to 100 whose
  minimum is positive precisely for required outputs, at most 32 distinct valid media types, at most
  32 criteria in their bounds with one criterion per slot, and no minimum size above a maximum size.\<close>

theorem deliverable_requirements_accepted:
  "validate_deliverable_requirements requirements = Inr () \<longleftrightarrow>
     length requirements \<le> 64 \<and> list_all requirement_wf requirements \<and> distinct (map dr_key requirements)"
proof -
  have step: "requirement_key_step keys r = (if validate_deliverable_requirement r \<noteq> Inr () \<or> bt_contains keys (dr_key r)
      then Inl (case requirement_key_step keys r of Inl e \<Rightarrow> e | Inr _ \<Rightarrow> DeliverableValidationError [])
      else Inr (bs_insert (dr_key r) keys))" for keys r
    by (cases "validate_deliverable_requirement r")
      (simp_all add: requirement_key_step_def deliverable_error_def)
  have "(\<exists>s. try_fold requirement_key_step [] requirements = Inr s) \<longleftrightarrow>
      list_all requirement_wf requirements \<and> distinct (map dr_key requirements)"
    using unique_keys_step [of requirement_key_step "\<lambda>r. validate_deliverable_requirement r \<noteq> Inr ()" dr_key
        "\<lambda>keys r. case requirement_key_step keys r of Inl e \<Rightarrow> e | Inr _ \<Rightarrow> DeliverableValidationError []"
        requirements, OF step]
    by (simp add: requirement_accepted)
  then show ?thesis
    by (simp add: validate_deliverable_requirements_def sum_bind_Inr_iff MAX_DELIVERABLE_REQUIREMENTS_def not_less)
qed

end
