(* ===== verification/Planning.thy ===== *)
theory Planning
  imports Business_Time Actions Machines
begin

text \<open>
  Planning records and command vocabularies: cycle templates and instances, intake items and their
  promotion, container dispositions and the role boundary of project planning
  (\<open>crates/domain/src/work_model_v3.rs\<close>), typed completion commands (\<open>completion.rs\<close>) and the
  maintenance lifecycle (\<open>maintenance.rs\<close>).
\<close>

section \<open>Cycle templates and instances\<close>

datatype series_tag = SeriesTag
datatype template_tag = TemplateTag
datatype bucket_tag = BucketTag
datatype intake_tag = IntakeTag
datatype promotion_tag = PromotionTag

type_synonym CycleSeriesId = "series_tag ident"
type_synonym CycleTemplateVersionId = "template_tag ident"
type_synonym IntakeBucketId = "bucket_tag ident"
type_synonym IntakeItemId = "intake_tag ident"
type_synonym PromotionId = "promotion_tag ident"

record CycleTemplate =
  ct_id :: CycleTemplateVersionId
  ct_series_id :: CycleSeriesId
  ct_version :: u32
  ct_effective_from_slot_ordinal :: u64
  ct_name_pattern :: string
  ct_goal_template :: string
  ct_timezone :: string
  ct_recurrence :: WeeklyRecurrence

definition template_validate :: "CycleTemplate \<Rightarrow> ModelError + unit" where
  "template_validate t =
     (if ct_version t = 0 \<or> trim_is_empty (ct_timezone t)
      then Inl (InvalidRecurrence ''template version/timezone is missing'')
      else recurrence_validate (ct_recurrence t))"

definition slot_key_of :: "CycleSeriesId \<Rightarrow> u64 \<Rightarrow> string" where
  "slot_key_of series slot_ordinal =
     ''boreal.cycle-slot/1/'' @ as_str series @ ''/'' @ decimal (unat slot_ordinal)"

definition template_slot_key :: "CycleTemplate \<Rightarrow> u64 \<Rightarrow> string" where
  "template_slot_key t slot_ordinal = slot_key_of (ct_series_id t) slot_ordinal"

datatype CycleSeriesLifecycle = Active | Paused | Retired

record CycleSeries =
  cse_id :: CycleSeriesId
  cse_project_id :: ProjectId
  cse_name :: string
  cse_lifecycle :: CycleSeriesLifecycle
  cse_revision :: u64

definition can_materialize :: "CycleSeries \<Rightarrow> bool" where
  "can_materialize s \<longleftrightarrow> cse_lifecycle s = CycleSeriesLifecycle.Active"

record CycleInstance =
  cin_id :: CycleId
  cin_project_id :: ProjectId
  cin_series_id :: CycleSeriesId
  cin_template_version_id :: CycleTemplateVersionId
  cin_slot_ordinal :: u64
  cin_slot_key :: string
  cin_name :: string
  cin_scheduled_start :: TimeResolution
  cin_scheduled_end :: "TimeResolution option"

definition instance_validate :: "CycleInstance \<Rightarrow> ModelError + unit" where
  "instance_validate c =
     sum_bind (resolution_validate (cin_scheduled_start c)) (\<lambda>_.
     sum_bind (case cin_scheduled_end c of
         None \<Rightarrow> Inr ()
       | Some e \<Rightarrow> sum_bind (resolution_validate e) (\<lambda>_.
           if tz_utc_instant e \<le> tz_utc_instant (cin_scheduled_start c)
           then Inl (ModelError.InvalidSchedule ''cycle instance end must be after start'') else Inr ())) (\<lambda>_.
     if cin_slot_key c \<noteq> slot_key_of (cin_series_id c) (cin_slot_ordinal c) then Inl InvalidSlotKey
     else Inr ()))"

section \<open>Intake\<close>

record IntakeBucket =
  ibk_id :: IntakeBucketId
  ibk_project_id :: ProjectId
  ibk_name :: string
  ibk_archived :: bool

datatype IntakeKind = Note | Discovery | Question | Revisit

datatype IntakeLifecycle = Captured | Triaged | Deferred | Resolved | Archived

datatype IntakeStatus = Inbox | Attention | Waiting | RevisitDue | Resolved | Archived

record IntakeItem =
  ik_id :: IntakeItemId
  ik_bucket_id :: IntakeBucketId
  ik_project_id :: ProjectId
  ik_kind :: IntakeKind
  ik_lifecycle :: IntakeLifecycle
  ik_content :: string
  ik_content_revision :: u64
  ik_content_digest :: string
  ik_revisit_at :: "TimestampMs option"

definition intake_moves :: "IntakeLifecycle \<Rightarrow> IntakeLifecycle \<Rightarrow> bool" where
  "intake_moves prior after \<longleftrightarrow>
     prior = Captured \<and> after \<in> {Triaged, Deferred, IntakeLifecycle.Archived}
     \<or> prior = Triaged \<and> after \<in> {Deferred, IntakeLifecycle.Resolved, IntakeLifecycle.Archived}
     \<or> prior = Deferred \<and> after \<in> {Triaged, IntakeLifecycle.Resolved, IntakeLifecycle.Archived}
     \<or> prior = IntakeLifecycle.Resolved \<and> after \<in> {Triaged, IntakeLifecycle.Archived}
     \<or> prior = IntakeLifecycle.Archived \<and> after = Triaged"

text \<open>\<open>&mut self\<close>: an error leaves the item as it was.\<close>

definition intake_transition :: "IntakeItem \<Rightarrow> IntakeLifecycle \<Rightarrow> ModelError + IntakeItem" where
  "intake_transition item after =
     (if \<not> intake_moves (ik_lifecycle item) after then Inl IllegalIntakeTransition
      else if after = Deferred \<and> ik_revisit_at item = None then Inl DeferredWithoutRevisit
      else Inr (item\<lparr>ik_lifecycle := after\<rparr>))"

definition intake_status_at :: "IntakeItem \<Rightarrow> TimestampMs \<Rightarrow> IntakeStatus" where
  "intake_status_at item as_of = (case ik_lifecycle item of
      Captured \<Rightarrow> Inbox
    | Triaged \<Rightarrow> Attention
    | Deferred \<Rightarrow> (case ik_revisit_at item of
          Some at \<Rightarrow> if at \<le> as_of then RevisitDue else IntakeStatus.Waiting
        | None \<Rightarrow> IntakeStatus.Waiting)
    | IntakeLifecycle.Resolved \<Rightarrow> IntakeStatus.Resolved
    | IntakeLifecycle.Archived \<Rightarrow> IntakeStatus.Archived)"

datatype PromotionTargetKind = DraftWork | SourceVersion | MemoryDraft

record IntakePromotion =
  ip_id :: PromotionId
  ip_project_id :: ProjectId
  ip_intake_id :: IntakeItemId
  ip_intake_revision :: u64
  ip_intake_digest :: string
  ip_target_kind :: PromotionTargetKind
  ip_target_id :: string

definition validate_promotion :: "IntakeItem \<Rightarrow> IntakePromotion \<Rightarrow> ModelError + unit" where
  "validate_promotion item promotion =
     (if ik_project_id item \<noteq> ip_project_id promotion \<or> ik_id item \<noteq> ip_intake_id promotion
      then Inl PromotionSubjectMismatch
      else if ik_content_revision item \<noteq> ip_intake_revision promotion
         \<or> ik_content_digest item \<noteq> ip_intake_digest promotion
      then Inl PromotionSourceChanged
      else if trim_is_empty (ip_target_id promotion)
      then Inl (ModelError.InvalidIdentifier ''promotion.target_id'' (ip_target_id promotion))
      else Inr ())"

section \<open>Container dispositions\<close>

datatype DispositionKind = AcceptedClosed | AcceptedCancelled | Deferred | Replaced

record ContainerDisposition =
  cd_id :: CloseoutDispositionId
  cd_container_id :: WorkId
  cd_descendant_id :: WorkId
  cd_project_id :: ProjectId
  cd_kind :: DispositionKind
  cd_descendant_revision :: u64
  cd_descendant_outcome_digest :: string
  cd_replacement_id :: "WorkId option"
  cd_reason :: "string option"
  cd_supersedes_id :: "CloseoutDispositionId option"

definition reason_missing :: "ContainerDisposition \<Rightarrow> bool" where
  "reason_missing d \<longleftrightarrow> trim_is_empty (case_option [] id (cd_reason d))"

definition disposition_misshaped :: "ContainerDisposition \<Rightarrow> bool" where
  "disposition_misshaped d \<longleftrightarrow> (case cd_kind d of
      AcceptedClosed \<Rightarrow> cd_replacement_id d \<noteq> None
    | AcceptedCancelled \<Rightarrow> cd_replacement_id d \<noteq> None
    | DispositionKind.Deferred \<Rightarrow> reason_missing d \<or> cd_replacement_id d \<noteq> None
    | Replaced \<Rightarrow> cd_replacement_id d = None \<or> reason_missing d)"

definition disposition_step ::
  "WorkNode \<Rightarrow> WorkId btree_set \<Rightarrow> WorkId btree_set \<Rightarrow> ContainerDisposition \<Rightarrow> ModelError + WorkId btree_set" where
  "disposition_step container descendant_ids current d =
     (if cd_project_id d \<noteq> wn_project_id container \<or> cd_container_id d \<noteq> wn_id container
         \<or> \<not> bt_contains descendant_ids (cd_descendant_id d) \<or> cd_descendant_id d = wn_id container
      then Inl (InvalidDispositionSubject (cd_id d))
      else if bt_contains current (cd_descendant_id d) \<and> cd_supersedes_id d = None
      then Inl (DuplicateCurrentDisposition (cd_descendant_id d))
      else if disposition_misshaped d then Inl InvalidDispositionShape
      else Inr (bs_insert (cd_descendant_id d) current))"

definition validate_container_dispositions ::
  "WorkNode \<Rightarrow> WorkNode list \<Rightarrow> ContainerDisposition list \<Rightarrow> ModelError + unit" where
  "validate_container_dispositions container descendants dispositions =
     (if wn_execution_mode container \<noteq> Container then Inl (ContainerRequired (wn_id container))
      else sum_bind (try_fold (disposition_step container (foldl (\<lambda>s n. bs_insert (wn_id n) s) [] descendants))
          [] dispositions) (\<lambda>_. Inr ()))"

datatype ContainerCloseoutReadiness = Attention | Closing | ReadyToClose

definition evaluate_container_closeout ::
  "WorkId list \<Rightarrow> WorkId btree_set \<Rightarrow> bool \<Rightarrow> bool \<Rightarrow> bool \<Rightarrow> ContainerCloseoutReadiness" where
  "evaluate_container_closeout required_descendants accepted_dispositions unresolved_holds gates_satisfied
     summary_present =
     (if unresolved_holds \<or> \<not> list_all (bt_contains accepted_dispositions) required_descendants
      then ContainerCloseoutReadiness.Attention
      else if gates_satisfied \<and> summary_present then ReadyToClose
      else Closing)"

section \<open>Project planning\<close>

definition planning_role_allowed :: "ActorRole \<Rightarrow> bool" where
  "planning_role_allowed role \<longleftrightarrow> role \<in> {Agent, Operator}"

definition assignment_transition_allowed :: "string \<Rightarrow> string \<Rightarrow> bool" where
  "assignment_transition_allowed prior after \<longleftrightarrow>
     prior = ''planned'' \<and> after \<in> {''committed'', ''removed'', ''carried_over'', ''completed''}
     \<or> prior = ''committed'' \<and> after \<in> {''removed'', ''carried_over'', ''completed''}"

record ProjectPlanningAction =
  ppa_action :: string
  ppa_project_id :: ProjectId
  ppa_actor_id :: ActorId
  ppa_session_id :: "SessionId option"
  ppa_expected_project_revision :: Revision
  ppa_allowed :: bool
  ppa_denial_reason :: "string option"
  ppa_confirmation :: string

definition project_planning_actions ::
  "ProjectId \<Rightarrow> ActorContext \<Rightarrow> SessionId option \<Rightarrow> Revision \<Rightarrow> ProjectPlanningAction list" where
  "project_planning_actions project actor session revision = map (\<lambda>action.
     let denial = (if action = ''create_project''
           then Some (''Initialize a separate workspace with bwrk init; this connection already belongs ''
             @ ''to one project.'')
           else if session = None then Some ''A current authenticated project session is required.''
           else if \<not> planning_role_allowed (ac_role actor)
           then Some ''The current project principal cannot edit planning.''
           else None) in
     \<lparr>ppa_action = action, ppa_project_id = project, ppa_actor_id = ac_actor_id actor, ppa_session_id = session,
      ppa_expected_project_revision = revision, ppa_allowed = (denial = None), ppa_denial_reason = denial,
      ppa_confirmation = ''Confirm the project-scoped planning change at this revision.''\<rparr>)
     [''create_project'', ''create_work'', ''cycle_create'', ''cycle_change'', ''dependency_edit'']"

section \<open>Completion commands\<close>

datatype CompletionKind = Checkpoint | Approve | Reject | Return | RevokeReview | GateException
  | WaiveDependency | RevokeException | Reopen | Cancel | Retry | Publish

primrec completion_command :: "CompletionKind \<Rightarrow> string" where
  "completion_command Checkpoint = ''work.checkpoint''"
| "completion_command Approve = ''review.approve''"
| "completion_command Reject = ''review.reject''"
| "completion_command Return = ''review.return''"
| "completion_command RevokeReview = ''review.revoke''"
| "completion_command GateException = ''exception.grant''"
| "completion_command WaiveDependency = ''dep.waive''"
| "completion_command RevokeException = ''exception.revoke''"
| "completion_command Reopen = ''work.reopen''"
| "completion_command Cancel = ''work.cancel''"
| "completion_command Retry = ''work.retry''"
| "completion_command Publish = ''work.publish''"

definition completion_parse :: "string \<Rightarrow> CompletionKind option" where
  "completion_parse v =
     (if v = ''work.checkpoint'' then Some Checkpoint
      else if v = ''review.approve'' then Some Approve
      else if v = ''review.reject'' then Some Reject
      else if v = ''review.return'' then Some Return
      else if v = ''review.revoke'' then Some RevokeReview
      else if v = ''exception.grant'' then Some GateException
      else if v = ''dep.waive'' then Some WaiveDependency
      else if v = ''exception.revoke'' then Some RevokeException
      else if v = ''work.reopen'' then Some Reopen
      else if v = ''work.cancel'' then Some Cancel
      else if v = ''work.retry'' then Some Retry
      else if v = ''work.publish'' then Some Publish
      else None)"

primrec completion_action :: "CompletionKind \<Rightarrow> ActionKind" where
  "completion_action Checkpoint = ActionKind.Checkpoint"
| "completion_action Approve = ActionKind.Review"
| "completion_action Reject = ActionKind.Review"
| "completion_action Return = ActionKind.Review"
| "completion_action RevokeReview = ActionKind.RevokeReview"
| "completion_action GateException = ForceGate"
| "completion_action WaiveDependency = ActionKind.WaiveDependency"
| "completion_action RevokeException = ActionKind.RevokeException"
| "completion_action Reopen = ActionKind.Reopen"
| "completion_action Cancel = ActionKind.Cancel"
| "completion_action Retry = ActionKind.Retry"
| "completion_action Publish = ActionKind.Publish"

definition exception_reason :: "string \<Rightarrow> ExceptionReason option" where
  "exception_reason v =
     (if v = ''risk_accepted'' then Some RiskAccepted
      else if v = ''external_evidence'' then Some ExternalEvidence
      else if v = ''superseded_work'' then Some SupersededWork
      else if v = ''duplicate_work'' then Some DuplicateWork
      else if v = ''migration_disposition'' then Some MigrationDisposition
      else None)"

section \<open>Maintenance\<close>

definition maintenance_role_allowed :: "ActorRole \<Rightarrow> bool" where
  "maintenance_role_allowed role \<longleftrightarrow> role = Operator"

definition maintenance_transition_allowed :: "string \<Rightarrow> string \<Rightarrow> bool" where
  "maintenance_transition_allowed prior after \<longleftrightarrow>
     prior = ''registered'' \<and> after \<in> {''running'', ''rejected'', ''readback_required''}
     \<or> prior = ''running'' \<and> after \<in> {''committed'', ''rejected'', ''readback_required'', ''unknown''}
     \<or> prior = ''unknown'' \<and> after \<in> {''readback_required'', ''committed'', ''rejected''}
     \<or> prior = ''readback_required'' \<and> after \<in> {''committed'', ''rejected'', ''unknown''}"

section \<open>Round trips\<close>

text \<open>Parsing a completion command inverts its name: a text parses to a kind exactly when it is that
  kind's command, so no two kinds share a command and no other text parses.\<close>

lemma completion_round_trip:
  "completion_parse v = Some k \<longleftrightarrow> v = completion_command k"
  by (cases k) (auto simp: completion_parse_def)

section \<open>Intake runs\<close>

definition intake_frame :: "IntakeItem \<Rightarrow> IntakeItem" where
  "intake_frame item = item\<lparr>ik_lifecycle := Captured\<rparr>"

interpretation intake: framed_steps intake_transition intake_frame
  by unfold_locales (auto simp: intake_transition_def intake_frame_def split: if_splits)

text \<open>A run from a captured item changes nothing but the lifecycle, never captures again, and defers only
  items with a revisit date, so the waiting status always has an instant it ends at.\<close>

lemma intake_run:
  assumes "ik_lifecycle item = Captured" and run: "try_fold intake_transition item (x # xs) = Inr t"
  shows "intake_frame t = item" and "ik_lifecycle t \<noteq> Captured"
    and "intake_status_at t as_of = IntakeStatus.Waiting \<longleftrightarrow>
       ik_lifecycle t = IntakeLifecycle.Deferred \<and> (\<exists>at. ik_revisit_at t = Some at \<and> as_of < at)"
proof -
  have "intake_frame t = intake_frame item" by (rule intake.run_frame [OF run])
  then show "intake_frame t = item" using assms(1) by (simp add: intake_frame_def)
  have step: "ik_lifecycle b \<noteq> Captured
      \<and> (ik_lifecycle b = IntakeLifecycle.Deferred \<longrightarrow> ik_revisit_at b \<noteq> None)"
    if "intake_transition a y = Inr b" for a y b
    using that by (auto simp: intake_transition_def intake_moves_def split: if_splits)
  have "ik_lifecycle t \<noteq> Captured \<and> (ik_lifecycle t = IntakeLifecycle.Deferred \<longrightarrow> ik_revisit_at t \<noteq> None)"
    using run
  proof (induction xs arbitrary: item x)
    case Nil
    then show ?case using step by (auto split: sum.splits)
  next
    case (Cons z zs)
    then show ?case by (auto split: sum.splits)
  qed
  then show "ik_lifecycle t \<noteq> Captured"
    and "intake_status_at t as_of = IntakeStatus.Waiting \<longleftrightarrow>
       ik_lifecycle t = IntakeLifecycle.Deferred \<and> (\<exists>at. ik_revisit_at t = Some at \<and> as_of < at)"
    by (auto simp: intake_status_at_def not_le split: IntakeLifecycle.splits option.splits)
qed

end
