(* ===== verification/External_Jobs.thy ===== *)
theory External_Jobs
  imports Lifecycle Ordered_Map
begin

text \<open>
  Durable external jobs (\<open>crates/store/src/jobs.rs\<close>) and the publication readback that drives one to its
  end (\<open>crates/store/src/memory.rs\<close>).  The state is the content of the tables the statements read and
  write; a statement has its documented SQL meaning, and every writer runs inside a transaction, so an
  error leaves the tables as they were.  Failures of the database itself (busy, I/O) are left out.
\<close>

section \<open>Errors\<close>

datatype ConstraintKind = ForeignKey | Unique | AppendOnly | SelfReview | Check

datatype StoreError =
    Unavailable string
  | Busy string
  | Invalid string
  | Conflict string
  | StaleRevision u64 u64
  | StaleFence u64 u64
  | LeaseExpired
  | HardDeadlineElapsed
  | NotCurrent string
  | WrongSubject string string
  | WrongOwner string string
  | IllegalTransition AttemptPhase string
  | NotExpired
  | StopConfirmationRequired
  | Constraint ConstraintKind string
  | NotFound string string
  | UnsupportedSchema int
  | Corrupt string

section \<open>Records\<close>

definition JOB_STAGES :: "string list" where
  "JOB_STAGES = [''registered'', ''admitted'', ''running'', ''side_effect_started'', ''side_effect_finished'',
     ''readback_required'', ''committed'', ''rejected'', ''failed'', ''cancel_requested'', ''reconciled'']"

record ExternalJobInput =
  eji_job_id :: string
  eji_operation_id :: string
  eji_project_id :: string
  eji_subject_type :: string
  eji_subject_id :: string
  eji_kind :: string
  eji_request_digest :: string
  eji_source_identity :: "string option"
  eji_config_identity :: "string option"
  eji_actor_id :: string
  eji_session_id :: "string option"
  eji_deadline :: "string option"
  eji_created_at :: string

record ExternalJobRecord =
  ejr_job_id :: string
  ejr_operation_id :: string
  ejr_project_id :: string
  ejr_subject_type :: string
  ejr_subject_id :: string
  ejr_kind :: string
  ejr_request_digest :: string
  ejr_stage :: string
  ejr_side_effect_ref :: "string option"
  ejr_source_identity :: "string option"
  ejr_config_identity :: "string option"
  ejr_actor_id :: string
  ejr_session_id :: "string option"
  ejr_started_at :: "string option"
  ejr_deadline :: "string option"
  ejr_result_digest :: "string option"
  ejr_reconciliation_state :: string
  ejr_error_message :: "string option"
  ejr_created_at :: string
  ejr_updated_at :: string

record ExternalJobRegistration =
  ejg_job :: ExternalJobRecord
  ejg_replayed :: bool

record ExternalJobTransitionInput =
  ejt_project_id :: string
  ejt_job_id :: string
  ejt_expected_stage :: string
  ejt_next_stage :: string
  ejt_at :: string
  ejt_side_effect_ref :: "string option"
  ejt_result_digest :: "string option"
  ejt_error_message :: "string option"

text \<open>The tables: the jobs, the known projects, the project of each work item, and the projects the
  identity tables bind.\<close>

record JobStore =
  jst_jobs :: "ExternalJobRecord list"
  jst_projects :: "string list"
  jst_work_projects :: "(string \<times> string) list"
  jst_canonical_production :: bool
  jst_identity_bound :: "string list"

section \<open>Validation\<close>

definition require_text :: "string \<Rightarrow> string \<Rightarrow> StoreError + unit" where
  "require_text v label =
     (if trim_is_empty v then Inl (Invalid (label @ '' must not be empty'')) else Inr ())"

definition bounded_limit :: "u32 \<Rightarrow> StoreError + u32" where
  "bounded_limit v =
     (if v = 0 \<or> 500 < v then Inl (Invalid ''bounded query limit must be between 1 and 500'') else Inr v)"

definition validate_job_input :: "ExternalJobInput \<Rightarrow> StoreError + unit" where
  "validate_job_input input = try_fold (\<lambda>_ (v, label). require_text v label) ()
     [(eji_job_id input, ''job id''), (eji_operation_id input, ''operation id''),
      (eji_project_id input, ''project id''), (eji_subject_type input, ''subject type''),
      (eji_subject_id input, ''subject id''), (eji_kind input, ''job kind''),
      (eji_request_digest input, ''request digest''), (eji_actor_id input, ''job actor''),
      (eji_created_at input, ''creation timestamp'')]"

definition same_request :: "ExternalJobRecord \<Rightarrow> ExternalJobInput \<Rightarrow> bool" where
  "same_request existing input \<longleftrightarrow> ejr_job_id existing = eji_job_id input
     \<and> ejr_project_id existing = eji_project_id input
     \<and> ejr_subject_type existing = eji_subject_type input
     \<and> ejr_subject_id existing = eji_subject_id input
     \<and> ejr_kind existing = eji_kind input
     \<and> ejr_request_digest existing = eji_request_digest input
     \<and> ejr_source_identity existing = eji_source_identity input
     \<and> ejr_config_identity existing = eji_config_identity input
     \<and> ejr_actor_id existing = eji_actor_id input
     \<and> ejr_session_id existing = eji_session_id input
     \<and> ejr_deadline existing = eji_deadline input"

definition require_job_stage :: "string \<Rightarrow> StoreError + unit" where
  "require_job_stage v = (if v \<in> set JOB_STAGES then Inr ()
     else Inl (Invalid (''unsupported external job stage: '' @ v)))"

definition valid_transition :: "string \<Rightarrow> string \<Rightarrow> bool" where
  "valid_transition prior after \<longleftrightarrow>
     prior = ''registered'' \<and> after \<in> {''admitted'', ''rejected'', ''failed''}
     \<or> prior = ''admitted'' \<and> after \<in> {''running'', ''rejected'', ''failed''}
     \<or> prior = ''running'' \<and> after \<in> {''side_effect_started'', ''failed'', ''cancel_requested''}
     \<or> prior = ''side_effect_started'' \<and> after \<in> {''side_effect_finished'', ''readback_required'', ''failed''}
     \<or> prior = ''side_effect_finished'' \<and> after \<in> {''committed'', ''readback_required'', ''failed''}
     \<or> prior = ''readback_required'' \<and> after = ''reconciled''
     \<or> prior = ''cancel_requested'' \<and> after \<in> {''reconciled'', ''failed''}"

definition reconciliation_state :: "string \<Rightarrow> string" where
  "reconciliation_state stage =
     (if stage \<in> {''committed'', ''reconciled''} then ''resolved''
      else if stage \<in> {''rejected'', ''failed''} then ''terminal''
      else if stage = ''readback_required'' then ''required''
      else ''pending'')"

definition validate_transition_input :: "ExternalJobTransitionInput \<Rightarrow> StoreError + unit" where
  "validate_transition_input input =
     sum_bind (require_text (ejt_project_id input) ''job project id'') (\<lambda>_.
     sum_bind (require_text (ejt_job_id input) ''job id'') (\<lambda>_.
     sum_bind (require_job_stage (ejt_expected_stage input)) (\<lambda>_.
     sum_bind (require_job_stage (ejt_next_stage input)) (\<lambda>_.
     sum_bind (require_text (ejt_at input) ''job timestamp'') (\<lambda>_.
     if \<not> valid_transition (ejt_expected_stage input) (ejt_next_stage input)
     then Inl (Conflict (''illegal external job transition: '' @ ejt_expected_stage input @ '' -> ''
       @ ejt_next_stage input))
     else Inr ())))))"

definition validate_job_subject :: "JobStore \<Rightarrow> ExternalJobInput \<Rightarrow> StoreError + unit" where
  "validate_job_subject store input =
     (let project = map_of (jst_work_projects store) (eji_subject_id input) in
      if eji_subject_type input = ''work'' \<and> project \<noteq> Some (eji_project_id input)
      then Inl (WrongSubject (eji_project_id input) (case_option ''missing work'' id project))
      else Inr ())"

definition ensure_legacy_external_job_compatibility :: "JobStore \<Rightarrow> string \<Rightarrow> StoreError + unit" where
  "ensure_legacy_external_job_compatibility store project_id =
     (if jst_canonical_production store \<or> project_id \<in> set (jst_identity_bound store)
      then Inl (Conflict (''external job requires a current project identity and audited operation; ''
        @ ''use the identity-bound API''))
      else Inr ())"

section \<open>Reading\<close>

definition job_from_statement :: "ExternalJobRecord \<Rightarrow> StoreError + ExternalJobRecord" where
  "job_from_statement row = sum_bind (require_job_stage (ejr_stage row)) (\<lambda>_. Inr row)"

text \<open>A query that reads at most one row.\<close>

definition select_job ::
  "(ExternalJobRecord \<Rightarrow> bool) \<Rightarrow> ExternalJobRecord list \<Rightarrow> StoreError + ExternalJobRecord option" where
  "select_job P rows = (case find P rows of
      None \<Rightarrow> Inr None
    | Some row \<Rightarrow> sum_bind (job_from_statement row) (\<lambda>job. Inr (Some job)))"

definition external_job_row :: "JobStore \<Rightarrow> string \<Rightarrow> string \<Rightarrow> StoreError + ExternalJobRecord option" where
  "external_job_row store project_id job_id =
     select_job (\<lambda>r. ejr_project_id r = project_id \<and> ejr_job_id r = job_id) (jst_jobs store)"

definition external_job_by_operation_row ::
  "JobStore \<Rightarrow> string \<Rightarrow> string \<Rightarrow> StoreError + ExternalJobRecord option" where
  "external_job_by_operation_row store project_id operation_id =
     select_job (\<lambda>r. ejr_project_id r = project_id \<and> ejr_operation_id r = operation_id) (jst_jobs store)"

definition external_job :: "JobStore \<Rightarrow> string \<Rightarrow> string \<Rightarrow> StoreError + ExternalJobRecord option" where
  "external_job store project_id job_id =
     sum_bind (ensure_legacy_external_job_compatibility store project_id)
       (\<lambda>_. external_job_row store project_id job_id)"

definition external_job_by_operation ::
  "JobStore \<Rightarrow> string \<Rightarrow> string \<Rightarrow> StoreError + ExternalJobRecord option" where
  "external_job_by_operation store project_id operation_id =
     sum_bind (ensure_legacy_external_job_compatibility store project_id)
       (\<lambda>_. external_job_by_operation_row store project_id operation_id)"

definition listed_job :: "string \<Rightarrow> string option \<Rightarrow> ExternalJobRecord \<Rightarrow> bool" where
  "listed_job project_id after_id r \<longleftrightarrow> ejr_project_id r = project_id
     \<and> ejr_stage r \<notin> {''committed'', ''reconciled'', ''rejected'', ''failed''}
     \<and> case_option True (\<lambda>after. after < ejr_job_id r) after_id"

definition list_external_jobs ::
  "JobStore \<Rightarrow> string \<Rightarrow> string option \<Rightarrow> u32 \<Rightarrow> StoreError + ExternalJobRecord list" where
  "list_external_jobs store project_id after_id limit =
     sum_bind (ensure_legacy_external_job_compatibility store project_id) (\<lambda>_.
     sum_bind (bounded_limit limit) (\<lambda>limit.
     try_fold (\<lambda>jobs row. sum_bind (job_from_statement row) (\<lambda>job. Inr (jobs @ [job]))) []
       (take (unat limit) (sort_key ejr_job_id (filter (listed_job project_id after_id) (jst_jobs store))))))"

section \<open>Registering\<close>

text \<open>\<open>CHECK (trim(c) <> '')\<close>: SQL's \<open>trim\<close> removes spaces.\<close>

definition sql_blank :: "string \<Rightarrow> bool" where
  "sql_blank v \<longleftrightarrow> list_all (\<lambda>c. c = CHR '' '') v"

text \<open>The constraint the row violates, in the classification of the store.\<close>

definition insert_violation :: "JobStore \<Rightarrow> ExternalJobRecord \<Rightarrow> ConstraintKind option" where
  "insert_violation store row =
     (if list_ex sql_blank [ejr_subject_type row, ejr_subject_id row, ejr_kind row, ejr_request_digest row,
        ejr_actor_id row, ejr_reconciliation_state row] \<or> ejr_stage row \<notin> set JOB_STAGES
      then Some Check
      else if list_ex (\<lambda>r. ejr_job_id r = ejr_job_id row \<or> ejr_operation_id r = ejr_operation_id row) (jst_jobs store)
      then Some Unique
      else if ejr_project_id row \<notin> set (jst_projects store) then Some ForeignKey
      else None)"

definition registered_row :: "ExternalJobInput \<Rightarrow> ExternalJobRecord" where
  "registered_row input =
     \<lparr>ejr_job_id = eji_job_id input, ejr_operation_id = eji_operation_id input,
      ejr_project_id = eji_project_id input, ejr_subject_type = eji_subject_type input,
      ejr_subject_id = eji_subject_id input, ejr_kind = eji_kind input,
      ejr_request_digest = eji_request_digest input, ejr_stage = ''registered'', ejr_side_effect_ref = None,
      ejr_source_identity = eji_source_identity input, ejr_config_identity = eji_config_identity input,
      ejr_actor_id = eji_actor_id input, ejr_session_id = eji_session_id input, ejr_started_at = None,
      ejr_deadline = eji_deadline input, ejr_result_digest = None, ejr_reconciliation_state = ''pending'',
      ejr_error_message = None, ejr_created_at = eji_created_at input, ejr_updated_at = eji_created_at input\<rparr>"

text \<open>\<open>errmsg\<close> is the message \<open>sqlite3_errmsg\<close> gives for a violated constraint.\<close>

definition register_external_job_row ::
  "(ConstraintKind \<Rightarrow> string) \<Rightarrow> JobStore \<Rightarrow> ExternalJobInput \<Rightarrow>
     StoreError + (ExternalJobRegistration \<times> JobStore)" where
  "register_external_job_row errmsg store input =
     sum_bind (external_job_by_operation_row store (eji_project_id input) (eji_operation_id input)) (\<lambda>existing.
     case existing of
       Some job \<Rightarrow>
         if \<not> same_request job input
         then Inl (Conflict (''external job operation '' @ eji_operation_id input
           @ '' was reused with a different request''))
         else Inr (\<lparr>ejg_job = job, ejg_replayed = True\<rparr>, store)
     | None \<Rightarrow>
         case insert_violation store (registered_row input) of
           Some kind \<Rightarrow> Inl (Constraint kind (errmsg kind))
         | None \<Rightarrow>
             let after = store\<lparr>jst_jobs := jst_jobs store @ [registered_row input]\<rparr> in
             sum_bind (external_job_row after (eji_project_id input) (eji_job_id input)) (\<lambda>found.
             case found of
               None \<Rightarrow> Inl (Corrupt ''external job disappeared after registration'')
             | Some job \<Rightarrow> Inr (\<lparr>ejg_job = job, ejg_replayed = False\<rparr>, after)))"

definition register_external_job ::
  "(ConstraintKind \<Rightarrow> string) \<Rightarrow> JobStore \<Rightarrow> ExternalJobInput \<Rightarrow>
     StoreError + (ExternalJobRegistration \<times> JobStore)" where
  "register_external_job errmsg store input =
     sum_bind (validate_job_input input) (\<lambda>_.
     sum_bind (ensure_legacy_external_job_compatibility store (eji_project_id input)) (\<lambda>_.
     sum_bind (validate_job_subject store input) (\<lambda>_.
     register_external_job_row errmsg store input)))"

section \<open>Advancing\<close>

definition coalesce :: "'a option \<Rightarrow> 'a option \<Rightarrow> 'a option" where
  "coalesce x y = (case x of None \<Rightarrow> y | Some _ \<Rightarrow> x)"

text \<open>Both identities are given and differ.\<close>

definition identity_changes :: "string option \<Rightarrow> string option \<Rightarrow> bool" where
  "identity_changes existing candidate \<longleftrightarrow> (case (existing, candidate) of
      (Some e, Some c) \<Rightarrow> e \<noteq> c
    | _ \<Rightarrow> False)"

text \<open>The \<open>SET\<close> clause of the update, with the value bound to its third parameter.\<close>

definition advanced_row :: "ExternalJobTransitionInput \<Rightarrow> string option \<Rightarrow> ExternalJobRecord \<Rightarrow> ExternalJobRecord" where
  "advanced_row input started_at row =
     row\<lparr>ejr_stage := ejt_next_stage input,
       ejr_side_effect_ref := coalesce (ejt_side_effect_ref input) (ejr_side_effect_ref row),
       ejr_started_at := coalesce (ejr_started_at row) started_at,
       ejr_result_digest := coalesce (ejt_result_digest input) (ejr_result_digest row),
       ejr_error_message := ejt_error_message input,
       ejr_reconciliation_state := reconciliation_state (ejt_next_stage input),
       ejr_updated_at := ejt_at input\<rparr>"

definition advance_external_job_row ::
  "JobStore \<Rightarrow> ExternalJobTransitionInput \<Rightarrow> StoreError + (ExternalJobRecord \<times> JobStore)" where
  "advance_external_job_row store input =
     sum_bind (validate_transition_input input) (\<lambda>_.
     sum_bind (external_job_row store (ejt_project_id input) (ejt_job_id input)) (\<lambda>found.
     case found of
       None \<Rightarrow> Inl (NotFound ''external_job'' (ejt_job_id input))
     | Some current \<Rightarrow>
         if ejr_stage current \<noteq> ejt_expected_stage input
         then Inl (Conflict (''external job stage changed: expected '' @ ejt_expected_stage input
           @ '', actual '' @ ejr_stage current))
         else if identity_changes (ejr_side_effect_ref current) (ejt_side_effect_ref input)
         then Inl (Conflict ''external side-effect identity cannot be changed'')
         else if identity_changes (ejr_result_digest current) (ejt_result_digest input)
         then Inl (Conflict ''external result identity cannot be changed'')
         else if ejt_next_stage input = ''readback_required'' \<and> ejr_side_effect_ref current = None
           \<and> ejt_side_effect_ref input = None
         then Inl (Invalid ''readback-required job must retain a side-effect reference'')
         else if ejt_next_stage input \<in> {''committed'', ''reconciled''} \<and> ejr_result_digest current = None
           \<and> ejt_result_digest input = None
         then Inl (Invalid ''terminal external job state requires a result digest'')
         else
           let started_at = (if ejr_started_at current \<noteq> None then ejr_started_at current else Some (ejt_at input));
               after = store\<lparr>jst_jobs := map (\<lambda>row.
                 if ejr_project_id row = ejt_project_id input \<and> ejr_job_id row = ejt_job_id input
                   \<and> ejr_stage row = ejt_expected_stage input
                 then advanced_row input started_at row else row) (jst_jobs store)\<rparr> in
           sum_bind (external_job_row after (ejt_project_id input) (ejt_job_id input)) (\<lambda>found.
           case found of
             None \<Rightarrow> Inl (Corrupt ''external job disappeared after transition'')
           | Some job \<Rightarrow> Inr (job, after))))"

definition advance_external_job ::
  "JobStore \<Rightarrow> ExternalJobTransitionInput \<Rightarrow> StoreError + (ExternalJobRecord \<times> JobStore)" where
  "advance_external_job store input =
     sum_bind (validate_transition_input input) (\<lambda>_.
     sum_bind (ensure_legacy_external_job_compatibility store (ejt_project_id input)) (\<lambda>_.
     advance_external_job_row store input))"

definition mark_external_job_readback_required ::
  "JobStore \<Rightarrow> string \<Rightarrow> string \<Rightarrow> string \<Rightarrow> string \<Rightarrow> StoreError + (ExternalJobRecord \<times> JobStore)" where
  "mark_external_job_readback_required store project_id job_id side_effect_ref at =
     sum_bind (require_text side_effect_ref ''external side-effect reference'') (\<lambda>_.
     sum_bind (external_job store project_id job_id) (\<lambda>found.
     case found of
       None \<Rightarrow> Inl (NotFound ''external_job'' job_id)
     | Some current \<Rightarrow>
         if ejr_stage current = ''readback_required''
         then (if ejr_side_effect_ref current = Some side_effect_ref then Inr (current, store)
               else Inl (Conflict ''external readback side-effect identity changed during replay''))
         else advance_external_job store
           \<lparr>ejt_project_id = project_id, ejt_job_id = job_id, ejt_expected_stage = ejr_stage current,
            ejt_next_stage = ''readback_required'', ejt_at = at, ejt_side_effect_ref = Some side_effect_ref,
            ejt_result_digest = None, ejt_error_message = None\<rparr>))"

section \<open>Reconciling a publication\<close>

definition publication_next_stage :: "string \<Rightarrow> string option" where
  "publication_next_stage stage =
     (if stage = ''registered'' then Some ''admitted''
      else if stage = ''admitted'' then Some ''running''
      else if stage = ''running'' then Some ''side_effect_started''
      else if stage \<in> {''side_effect_started'', ''side_effect_finished''} then Some ''readback_required''
      else if stage \<in> {''readback_required'', ''cancel_requested''} then Some ''reconciled''
      else None)"

text \<open>The loop that walks the job to \<open>reconciled\<close> once Git has been read back.\<close>

primrec reconcile_loop ::
  "nat \<Rightarrow> JobStore \<Rightarrow> string \<Rightarrow> string \<Rightarrow> string \<Rightarrow> string \<Rightarrow> ExternalJobRecord \<Rightarrow> (StoreError + JobStore) run" where
  "reconcile_loop 0 store project_id now reference content current = OutOfFuel"
| "reconcile_loop (Suc fuel) store project_id now reference content current =
     (case publication_next_stage (ejr_stage current) of
        None \<Rightarrow> Return (Inl (Conflict ''terminal or unknown publication stage needs explicit investigation''))
      | Some after \<Rightarrow>
          case advance_external_job_row store
            \<lparr>ejt_project_id = project_id, ejt_job_id = ejr_job_id current, ejt_expected_stage = ejr_stage current,
             ejt_next_stage = after, ejt_at = now, ejt_side_effect_ref = Some reference,
             ejt_result_digest = Some content, ejt_error_message = None\<rparr> of
            Inl e \<Rightarrow> Return (Inl e)
          | Inr (job, store) \<Rightarrow>
              if ejr_stage job = ''reconciled'' then Return (Inr store)
              else reconcile_loop fuel store project_id now reference content job)"

text \<open>The readback of one publication, from the job of its operation on.\<close>

definition reconcile_publication_job ::
  "JobStore \<Rightarrow> string \<Rightarrow> string \<Rightarrow> string \<Rightarrow> string \<Rightarrow> ExternalJobRecord option \<Rightarrow> (StoreError + JobStore) run" where
  "reconcile_publication_job store project_id now git_revision content found = (case found of
      None \<Rightarrow> Return (Inl (Conflict ''publication job missing''))
    | Some current \<Rightarrow>
        let reference = ''git:'' @ git_revision in
        if ejr_kind current \<noteq> ''memory_publication'' then Return (Inl (Invalid ''not a memory publication''))
        else if ejr_stage current \<in> {''committed'', ''reconciled''}
        then (if ejr_side_effect_ref current \<noteq> Some reference \<or> ejr_result_digest current \<noteq> Some content
              then Return (Inl (Corrupt ''terminal publication disagrees with verified Git''))
              else Return (Inr store))
        else reconcile_loop 6 store project_id now reference content current)"

end
