(* ===== verification/Job_Facts.thy ===== *)
theory Job_Facts
  imports External_Jobs
begin

text \<open>
  External jobs move forward only: their identities never change, a recorded side effect or result is
  never replaced, a finished job never moves again, and the readback of a publication always ends.
\<close>

section \<open>The table's invariant\<close>

definition terminal_stage :: "string \<Rightarrow> bool" where
  "terminal_stage stage \<longleftrightarrow> stage \<in> {''committed'', ''reconciled'', ''rejected'', ''failed''}"

definition row_ok :: "ExternalJobRecord \<Rightarrow> bool" where
  "row_ok r \<longleftrightarrow> ejr_stage r \<in> set JOB_STAGES
     \<and> ejr_reconciliation_state r = reconciliation_state (ejr_stage r)
     \<and> (ejr_stage r \<in> {''committed'', ''reconciled''} \<longrightarrow> ejr_result_digest r \<noteq> None)
     \<and> (ejr_stage r = ''readback_required'' \<longrightarrow> ejr_side_effect_ref r \<noteq> None)
     \<and> (ejr_stage r \<noteq> ''registered'' \<longrightarrow> ejr_started_at r \<noteq> None)"

definition jobs_ok :: "JobStore \<Rightarrow> bool" where
  "jobs_ok s \<longleftrightarrow> distinct (map ejr_job_id (jst_jobs s)) \<and> distinct (map ejr_operation_id (jst_jobs s))
     \<and> (\<forall>r \<in> set (jst_jobs s). row_ok r)"

lemma stage_ok: "stage \<in> set JOB_STAGES \<Longrightarrow> require_job_stage stage = Inr ()"
  by (simp add: require_job_stage_def)

lemma find_split:
  "find P xs = Some x \<longleftrightarrow> (\<exists>ys zs. xs = ys @ x # zs \<and> P x \<and> (\<forall>y \<in> set ys. \<not> P y))"
proof (induction xs)
  case (Cons a xs)
  show ?case
  proof (cases "P a")
    case True
    then show ?thesis by (auto simp: Cons_eq_append_conv)
  next
    case False
    with Cons.IH show ?thesis
      by (auto simp: Cons_eq_append_conv) (metis False list.set_intros(1) set_ConsD)+
  qed
qed simp

lemma other_jobs:
  assumes "jobs_ok s" and "jst_jobs s = ys @ r # zs" and "y \<in> set ys \<union> set zs"
  shows "ejr_job_id y \<noteq> ejr_job_id r"
proof -
  have "ejr_job_id y \<in> ejr_job_id ` (set ys \<union> set zs)" using assms(3) by (rule imageI)
  then show ?thesis using assms(1,2) by (auto simp: jobs_ok_def)
qed

lemma job_row_split:
  assumes ok: "jobs_ok s"
  shows "external_job_row s p j = Inr (Some r) \<longleftrightarrow>
     (\<exists>ys zs. jst_jobs s = ys @ r # zs \<and> ejr_project_id r = p \<and> ejr_job_id r = j)"
proof
  assume "external_job_row s p j = Inr (Some r)"
  then have "find (\<lambda>r. ejr_project_id r = p \<and> ejr_job_id r = j) (jst_jobs s) = Some r"
    by (auto simp: external_job_row_def select_job_def job_from_statement_def sum_bind_Inr_iff split: option.splits)
  then show "\<exists>ys zs. jst_jobs s = ys @ r # zs \<and> ejr_project_id r = p \<and> ejr_job_id r = j"
    by (auto simp: find_split)
next
  assume "\<exists>ys zs. jst_jobs s = ys @ r # zs \<and> ejr_project_id r = p \<and> ejr_job_id r = j"
  then obtain ys zs where s: "jst_jobs s = ys @ r # zs" "ejr_project_id r = p" "ejr_job_id r = j" by blast
  with ok have "\<forall>y \<in> set ys. ejr_job_id y \<noteq> j" "row_ok r"
    using other_jobs [OF ok s(1)] by (auto simp: jobs_ok_def)
  with s have "find (\<lambda>r. ejr_project_id r = p \<and> ejr_job_id r = j) (jst_jobs s) = Some r"
    by (auto simp: find_split)
  then show "external_job_row s p j = Inr (Some r)"
    using \<open>row_ok r\<close> by (simp add: external_job_row_def select_job_def job_from_statement_def row_ok_def stage_ok)
qed

section \<open>One advance\<close>

text \<open>What the checks of an advance leave.\<close>

definition advance_admitted :: "ExternalJobTransitionInput \<Rightarrow> ExternalJobRecord \<Rightarrow> bool" where
  "advance_admitted input r \<longleftrightarrow> validate_transition_input input = Inr ()
     \<and> ejr_stage r = ejt_expected_stage input
     \<and> \<not> identity_changes (ejr_side_effect_ref r) (ejt_side_effect_ref input)
     \<and> \<not> identity_changes (ejr_result_digest r) (ejt_result_digest input)
     \<and> (ejt_next_stage input = ''readback_required'' \<longrightarrow>
          ejr_side_effect_ref r \<noteq> None \<or> ejt_side_effect_ref input \<noteq> None)
     \<and> (ejt_next_stage input \<in> {''committed'', ''reconciled''} \<longrightarrow>
          ejr_result_digest r \<noteq> None \<or> ejt_result_digest input \<noteq> None)"

definition advanced_job :: "ExternalJobTransitionInput \<Rightarrow> ExternalJobRecord \<Rightarrow> ExternalJobRecord" where
  "advanced_job input r = advanced_row input
     (if ejr_started_at r \<noteq> None then ejr_started_at r else Some (ejt_at input)) r"

lemma advanced_job_fields [simp]:
  "ejr_job_id (advanced_job i r) = ejr_job_id r" "ejr_operation_id (advanced_job i r) = ejr_operation_id r"
  "ejr_project_id (advanced_job i r) = ejr_project_id r" "ejr_stage (advanced_job i r) = ejt_next_stage i"
  "ejr_side_effect_ref (advanced_job i r) = coalesce (ejt_side_effect_ref i) (ejr_side_effect_ref r)"
  "ejr_result_digest (advanced_job i r) = coalesce (ejt_result_digest i) (ejr_result_digest r)"
  "ejr_kind (advanced_job i r) = ejr_kind r"
  by (simp_all add: advanced_job_def advanced_row_def)

lemma transition_stage: "validate_transition_input i = Inr () \<Longrightarrow>
   ejt_next_stage i \<in> set JOB_STAGES \<and> valid_transition (ejt_expected_stage i) (ejt_next_stage i)"
  by (auto simp: validate_transition_input_def sum_bind_Inr_iff require_job_stage_def split: if_splits)

lemma advanced_row_ok:
  assumes "advance_admitted i r"
  shows "row_ok (advanced_job i r)"
proof -
  have "ejr_started_at (advanced_job i r) \<noteq> None"
    by (simp add: advanced_job_def advanced_row_def coalesce_def split: option.splits)
  moreover have "ejr_reconciliation_state (advanced_job i r) = reconciliation_state (ejt_next_stage i)"
    by (simp add: advanced_job_def advanced_row_def)
  ultimately show ?thesis
    using assms transition_stage [of i]
    by (auto simp: row_ok_def advance_admitted_def coalesce_def split: option.splits)
qed

lemma jobs_ok_replace:
  assumes "jobs_ok s" and "jst_jobs s = ys @ r # zs" and "row_ok r'"
    and "ejr_job_id r' = ejr_job_id r" and "ejr_operation_id r' = ejr_operation_id r"
  shows "jobs_ok (s\<lparr>jst_jobs := ys @ r' # zs\<rparr>)"
  using assms by (auto simp: jobs_ok_def)

lemma advance_exact:
  assumes ok: "jobs_ok s"
  shows "advance_external_job_row s i = Inr (job, s') \<longleftrightarrow>
     (\<exists>ys r zs. jst_jobs s = ys @ r # zs \<and> ejr_project_id r = ejt_project_id i \<and> ejr_job_id r = ejt_job_id i
        \<and> advance_admitted i r \<and> job = advanced_job i r \<and> s' = s\<lparr>jst_jobs := ys @ job # zs\<rparr>)"
    (is "?L \<longleftrightarrow> ?R")
proof -
  have update: "advance_external_job_row s i = Inr (advanced_job i r, s\<lparr>jst_jobs := ys @ advanced_job i r # zs\<rparr>)"
    if r: "jst_jobs s = ys @ r # zs" "ejr_project_id r = ejt_project_id i" "ejr_job_id r = ejt_job_id i"
      and adm: "advance_admitted i r" for ys r zs
  proof -
    have others: "ejr_job_id y \<noteq> ejt_job_id i" if "y \<in> set ys \<union> set zs" for y
      using other_jobs [OF ok r(1) that] r(3) by simp
    let ?started = "if ejr_started_at r \<noteq> None then ejr_started_at r else Some (ejt_at i)"
    have rows: "map (\<lambda>row. if ejr_project_id row = ejt_project_id i \<and> ejr_job_id row = ejt_job_id i
          \<and> ejr_stage row = ejt_expected_stage i then advanced_row i ?started row else row) (jst_jobs s)
        = ys @ advanced_job i r # zs"
      using others r adm by (auto simp: advanced_job_def advance_admitted_def map_idI)
    have "jobs_ok (s\<lparr>jst_jobs := ys @ advanced_job i r # zs\<rparr>)"
      using jobs_ok_replace [OF ok r(1) advanced_row_ok [OF adm]] by simp
    then have "external_job_row (s\<lparr>jst_jobs := ys @ advanced_job i r # zs\<rparr>) (ejt_project_id i) (ejt_job_id i)
        = Inr (Some (advanced_job i r))"
      using r by (subst job_row_split) auto
    moreover have "external_job_row s (ejt_project_id i) (ejt_job_id i) = Inr (Some r)"
      using r ok by (subst job_row_split) auto
    ultimately show ?thesis
      using adm rows unfolding advance_external_job_row_def Let_def
      by (auto simp: advance_admitted_def)
  qed
  show ?thesis
  proof
    assume L: ?L
    then obtain r where r: "external_job_row s (ejt_project_id i) (ejt_job_id i) = Inr (Some r)"
      by (auto simp: advance_external_job_row_def sum_bind_Inr_iff split: option.splits)
    with L have adm: "advance_admitted i r"
      by (auto simp: advance_external_job_row_def advance_admitted_def sum_bind_Inr_iff split: if_splits)
    obtain ys zs where "jst_jobs s = ys @ r # zs" "ejr_project_id r = ejt_project_id i" "ejr_job_id r = ejt_job_id i"
      using r job_row_split [OF ok] by blast
    with update [OF this adm] L adm show ?R by auto
  next
    assume ?R
    then show ?L using update by blast
  qed
qed

section \<open>Histories\<close>

definition kept :: "'a option \<Rightarrow> 'a option \<Rightarrow> bool" where
  "kept x y \<longleftrightarrow> x = None \<or> y = x"

lemma coalesce_kept: "\<not> identity_changes x y \<Longrightarrow> kept x (coalesce y x)"
  by (auto simp: coalesce_def identity_changes_def kept_def split: option.splits)

lemma no_exit: "terminal_stage a \<Longrightarrow> \<not> valid_transition a b"
  by (auto simp: terminal_stage_def valid_transition_def)

text \<open>A registration appends a fresh row or replays an existing one.\<close>

lemma register_cases:
  assumes ok: "jobs_ok s" and r: "register_external_job_row errmsg s i = Inr (g, s')"
  shows "jobs_ok s' \<and> (s' = s \<or> jst_jobs s' = jst_jobs s @ [registered_row i])"
proof (cases "external_job_by_operation_row s (eji_project_id i) (eji_operation_id i)")
  case (Inr found)
  show ?thesis
  proof (cases found)
    case None
    with Inr r have "insert_violation s (registered_row i) = None"
      and s': "s' = s\<lparr>jst_jobs := jst_jobs s @ [registered_row i]\<rparr>"
      by (auto simp: register_external_job_row_def Let_def sum_bind_Inr_iff split: option.splits)
    moreover have "row_ok (registered_row i)"
      by (simp add: row_ok_def registered_row_def JOB_STAGES_def reconciliation_state_def)
    ultimately show ?thesis
      using ok by (auto simp: jobs_ok_def insert_violation_def list_ex_iff registered_row_def split: if_splits)
  next
    case (Some job)
    with Inr r ok show ?thesis by (auto simp: register_external_job_row_def split: if_splits)
  qed
qed (use r in \<open>simp add: register_external_job_row_def\<close>)

text \<open>Every way to change the table.\<close>

inductive job_step :: "(ConstraintKind \<Rightarrow> string) \<Rightarrow> JobStore \<Rightarrow> JobStore \<Rightarrow> bool" for errmsg where
  job_registers: "register_external_job_row errmsg s input = Inr (g, s') \<Longrightarrow> job_step errmsg s s'"
| job_advances: "advance_external_job_row s change = Inr (job, s') \<Longrightarrow> job_step errmsg s s'"

text \<open>What the later version of a job has kept of the earlier one.\<close>

definition same_job :: "ExternalJobRecord \<Rightarrow> ExternalJobRecord \<Rightarrow> bool" where
  "same_job a b \<longleftrightarrow> ejr_job_id b = ejr_job_id a \<and> ejr_operation_id b = ejr_operation_id a
     \<and> ejr_project_id b = ejr_project_id a \<and> ejr_subject_type b = ejr_subject_type a
     \<and> ejr_subject_id b = ejr_subject_id a \<and> ejr_kind b = ejr_kind a
     \<and> ejr_request_digest b = ejr_request_digest a \<and> ejr_source_identity b = ejr_source_identity a
     \<and> ejr_config_identity b = ejr_config_identity a \<and> ejr_actor_id b = ejr_actor_id a
     \<and> ejr_session_id b = ejr_session_id a \<and> ejr_deadline b = ejr_deadline a
     \<and> ejr_created_at b = ejr_created_at a"

definition job_history :: "ExternalJobRecord \<Rightarrow> ExternalJobRecord \<Rightarrow> bool" where
  "job_history a b \<longleftrightarrow> same_job a b \<and> (ejr_stage a, ejr_stage b) \<in> {(x, y). valid_transition x y}\<^sup>*
     \<and> kept (ejr_side_effect_ref a) (ejr_side_effect_ref b) \<and> kept (ejr_result_digest a) (ejr_result_digest b)
     \<and> kept (ejr_started_at a) (ejr_started_at b) \<and> (\<not> terminal_stage (ejr_stage a) \<or> b = a)"

lemma kept_trans: "kept x y \<Longrightarrow> kept y z \<Longrightarrow> kept x z"
  by (auto simp: kept_def)

lemma job_history_refl: "job_history r r"
  by (simp add: job_history_def same_job_def kept_def)

lemma job_history_trans:
  assumes "job_history a b" and "job_history b c"
  shows "job_history a c"
proof -
  have "same_job a c" using assms by (simp add: job_history_def same_job_def)
  moreover have "\<not> terminal_stage (ejr_stage a) \<or> c = a" using assms by (auto simp: job_history_def)
  ultimately show ?thesis
    using assms kept_trans [of "ejr_side_effect_ref a" "ejr_side_effect_ref b"]
      kept_trans [of "ejr_result_digest a" "ejr_result_digest b"]
      kept_trans [of "ejr_started_at a" "ejr_started_at b"]
    unfolding job_history_def by (meson rtrancl_trans)
qed

lemma advanced_history:
  assumes "advance_admitted i r"
  shows "job_history r (advanced_job i r)"
proof -
  have trans: "valid_transition (ejr_stage r) (ejt_next_stage i)"
    using assms transition_stage [of i] by (auto simp: advance_admitted_def)
  have "kept (ejr_side_effect_ref r) (coalesce (ejt_side_effect_ref i) (ejr_side_effect_ref r))"
    "kept (ejr_result_digest r) (coalesce (ejt_result_digest i) (ejr_result_digest r))"
    using assms by (simp_all add: advance_admitted_def coalesce_kept)
  moreover have "kept (ejr_started_at r) (ejr_started_at (advanced_job i r))"
    by (auto simp: advanced_job_def advanced_row_def kept_def coalesce_def)
  moreover have "same_job r (advanced_job i r)"
    by (simp add: same_job_def advanced_job_def advanced_row_def)
  ultimately show ?thesis
    using trans no_exit [of "ejr_stage r" "ejt_next_stage i"] by (auto simp: job_history_def)
qed

definition histories :: "JobStore \<Rightarrow> JobStore \<Rightarrow> bool" where
  "histories s t \<longleftrightarrow> (\<forall>a \<in> set (jst_jobs s). \<exists>b \<in> set (jst_jobs t). job_history a b)"

lemma histories_trans: "histories s t \<Longrightarrow> histories t u \<Longrightarrow> histories s u"
  unfolding histories_def by (meson job_history_trans)

lemma step_keeps:
  assumes "job_step errmsg s t" and ok: "jobs_ok s"
  shows "jobs_ok t \<and> histories s t"
  using assms(1)
proof cases
  case (job_registers i g)
  from register_cases [OF ok this] show ?thesis
    using job_history_refl by (fastforce simp: histories_def)
next
  case (job_advances i job)
  then obtain ys r zs where r: "jst_jobs s = ys @ r # zs" "advance_admitted i r" "job = advanced_job i r"
    "t = s\<lparr>jst_jobs := ys @ job # zs\<rparr>" unfolding advance_exact [OF ok] by blast
  then have "jobs_ok t" using jobs_ok_replace [OF ok r(1) advanced_row_ok [OF r(2)]] by simp
  moreover have "histories s t"
    using r advanced_history [OF r(2)] job_history_refl by (auto simp: histories_def)
  ultimately show ?thesis by simp
qed

lemma steps_keep: "(job_step errmsg)\<^sup>*\<^sup>* s t \<Longrightarrow> jobs_ok s \<Longrightarrow> jobs_ok t \<and> histories s t"
proof (induction rule: rtranclp_induct)
  case base
  then show ?case using job_history_refl by (auto simp: histories_def)
next
  case (step t u)
  then show ?case using step_keeps [of errmsg t u] histories_trans [of s t u] by blast
qed

text \<open>C9: Whatever sequence of registrations and advances runs from a well formed table, the table stays well
  formed (unique job and operation identifiers, a known stage with its reconciliation state, a result
  for committed and reconciled jobs, a side effect reference for a required readback, a start time for
  whatever left the registered stage), and no job is lost: its identity columns are unchanged, its
  stage moved along the transition table only, a recorded side effect reference, result digest and
  start time are never replaced, and a finished job is not changed at all.\<close>

theorem external_jobs_forward:
  assumes "(job_step errmsg)\<^sup>*\<^sup>* s t" and "jobs_ok s" and "a \<in> set (jst_jobs s)"
  shows "jobs_ok t \<and> (\<exists>b \<in> set (jst_jobs t). same_job a b
     \<and> (ejr_stage a, ejr_stage b) \<in> {(x, y). valid_transition x y}\<^sup>*
     \<and> kept (ejr_side_effect_ref a) (ejr_side_effect_ref b) \<and> kept (ejr_result_digest a) (ejr_result_digest b)
     \<and> kept (ejr_started_at a) (ejr_started_at b) \<and> (\<not> terminal_stage (ejr_stage a) \<or> b = a))"
  using steps_keep [OF assms(1,2)] assms(3) unfolding histories_def job_history_def by blast

definition sample_job_input :: ExternalJobInput where
  "sample_job_input = \<lparr>eji_job_id = ''j'', eji_operation_id = ''o'', eji_project_id = ''P'',
     eji_subject_type = ''project'', eji_subject_id = ''P'', eji_kind = ''memory_publication'',
     eji_request_digest = ''d'', eji_source_identity = None, eji_config_identity = None, eji_actor_id = ''a'',
     eji_session_id = None, eji_deadline = None, eji_created_at = ''0''\<rparr>"

definition sample_job_store :: JobStore where
  "sample_job_store = \<lparr>jst_jobs = [registered_row sample_job_input], jst_projects = [''P''],
     jst_work_projects = [], jst_canonical_production = False, jst_identity_bound = []\<rparr>"

definition sample_job_change :: ExternalJobTransitionInput where
  "sample_job_change = \<lparr>ejt_project_id = ''P'', ejt_job_id = ''j'', ejt_expected_stage = ''registered'',
     ejt_next_stage = ''rejected'', ejt_at = ''1'', ejt_side_effect_ref = None, ejt_result_digest = None,
     ejt_error_message = None\<rparr>"

lemma sample_jobs_ok: "jobs_ok sample_job_store"
  by (simp add: jobs_ok_def sample_job_store_def row_ok_def registered_row_def JOB_STAGES_def
      reconciliation_state_def)

lemma sample_filled: "\<not> trim_is_empty ''P''" "\<not> trim_is_empty ''j''" "\<not> trim_is_empty ''1''"
  by (simp_all add: trim_is_empty_def is_whitespace_def)

theorem external_jobs_forward_witness:
  "\<exists>t. job_step (\<lambda>_. []) sample_job_store t \<and> jobs_ok t
     \<and> (\<exists>b \<in> set (jst_jobs t). ejr_job_id b = ''j'')"
proof -
  let ?r = "registered_row sample_job_input"
  have "advance_admitted sample_job_change ?r"
    by (simp add: advance_admitted_def validate_transition_input_def require_text_def sample_filled
        sample_job_change_def registered_row_def identity_changes_def JOB_STAGES_def require_job_stage_def
        valid_transition_def)
  then have "\<exists>job t. advance_external_job_row sample_job_store sample_job_change = Inr (job, t)"
    unfolding advance_exact [OF sample_jobs_ok]
    by (intro exI conjI refl) (auto simp: sample_job_store_def sample_job_change_def registered_row_def
        sample_job_input_def intro: exI [of _ "[]"])
  then obtain job t where t: "advance_external_job_row sample_job_store sample_job_change = Inr (job, t)" by blast
  then have step: "job_step (\<lambda>_. []) sample_job_store t" by (rule job_advances)
  have "registered_row sample_job_input \<in> set (jst_jobs sample_job_store)" by (simp add: sample_job_store_def)
  from external_jobs_forward [OF r_into_rtranclp [of "job_step (\<lambda>_. [])", OF step] sample_jobs_ok this] step
  show ?thesis by (auto simp: same_job_def registered_row_def sample_job_input_def)
qed

section \<open>The readback of a publication\<close>

text \<open>How many advances are left.\<close>

definition publication_left :: "string \<Rightarrow> nat" where
  "publication_left stage =
     (if stage = ''registered'' then 5 else if stage = ''admitted'' then 4 else if stage = ''running'' then 3
      else if stage \<in> {''side_effect_started'', ''side_effect_finished''} then 2 else 1)"

lemma publication_stage:
  assumes "stage \<in> set JOB_STAGES" and "\<not> terminal_stage stage"
  shows "\<exists>after. publication_next_stage stage = Some after \<and> after \<in> set JOB_STAGES \<and> valid_transition stage after
     \<and> (after = ''reconciled'' \<or> \<not> terminal_stage after \<and> publication_left after < publication_left stage)"
  using assms by (auto simp: JOB_STAGES_def terminal_stage_def publication_next_stage_def valid_transition_def
      publication_left_def)

text \<open>Nothing recorded contradicts the readback.\<close>

definition readback_agrees :: "string \<Rightarrow> string \<Rightarrow> ExternalJobRecord \<Rightarrow> bool" where
  "readback_agrees reference content r \<longleftrightarrow> kept (ejr_side_effect_ref r) (Some reference)
     \<and> kept (ejr_result_digest r) (Some content)"

lemma kept_unchanged: "kept x (Some v) \<Longrightarrow> \<not> identity_changes x (Some v)"
  by (auto simp: kept_def identity_changes_def)

lemma reconcile_loop_ends:
  assumes filled: "\<not> trim_is_empty p" "\<not> trim_is_empty now"
  shows "jobs_ok s \<Longrightarrow> jst_jobs s = ys @ r # zs \<Longrightarrow> ejr_project_id r = p \<Longrightarrow> \<not> terminal_stage (ejr_stage r) \<Longrightarrow>
    readback_agrees reference content r \<Longrightarrow> publication_left (ejr_stage r) < fuel \<Longrightarrow>
    \<not> trim_is_empty (ejr_job_id r) \<Longrightarrow>
    \<exists>b. reconcile_loop fuel s p now reference content r = Return (Inr (s\<lparr>jst_jobs := ys @ b # zs\<rparr>))
      \<and> same_job r b \<and> ejr_stage b = ''reconciled'' \<and> ejr_side_effect_ref b = Some reference
      \<and> ejr_result_digest b = Some content"
proof (induction fuel arbitrary: s r)
  case (Suc fuel)
  have stage: "ejr_stage r \<in> set JOB_STAGES" using Suc.prems(1,2) by (auto simp: jobs_ok_def row_ok_def)
  from publication_stage [OF stage Suc.prems(4)] obtain after where
    after: "publication_next_stage (ejr_stage r) = Some after" "after \<in> set JOB_STAGES"
      "valid_transition (ejr_stage r) after"
      "after = ''reconciled'' \<or> \<not> terminal_stage after \<and> publication_left after < publication_left (ejr_stage r)"
    by blast
  define i where "i = \<lparr>ejt_project_id = p, ejt_job_id = ejr_job_id r, ejt_expected_stage = ejr_stage r,
    ejt_next_stage = after, ejt_at = now, ejt_side_effect_ref = Some reference,
    ejt_result_digest = Some content, ejt_error_message = None\<rparr>"
  have adm: "advance_admitted i r"
    using Suc.prems(5,7) filled stage after(2,3)
    by (auto simp: advance_admitted_def i_def validate_transition_input_def require_text_def stage_ok
        readback_agrees_def kept_unchanged)
  let ?job = "advanced_job i r" and ?s = "s\<lparr>jst_jobs := ys @ advanced_job i r # zs\<rparr>"
  have adv: "advance_external_job_row s i = Inr (?job, ?s)"
    using adm Suc.prems(1-3) unfolding advance_exact [OF Suc.prems(1)] by (auto simp: i_def)
  have refs: "ejr_side_effect_ref ?job = Some reference" "ejr_result_digest ?job = Some content"
    "ejr_stage ?job = after" "same_job r ?job"
    by (simp_all add: i_def coalesce_def same_job_def advanced_job_def advanced_row_def)
  show ?case
  proof (cases "after = ''reconciled''")
    case True
    then have "reconcile_loop (Suc fuel) s p now reference content r = Return (Inr ?s)"
      using after(1) adv refs(3) by (simp add: i_def)
    with refs True show ?thesis by blast
  next
    case False
    have ok: "jobs_ok ?s" using jobs_ok_replace [OF Suc.prems(1,2) advanced_row_ok [OF adm]] by simp
    have "\<exists>b. reconcile_loop fuel ?s p now reference content ?job
          = Return (Inr (?s\<lparr>jst_jobs := ys @ b # zs\<rparr>))
      \<and> same_job ?job b \<and> ejr_stage b = ''reconciled'' \<and> ejr_side_effect_ref b = Some reference
      \<and> ejr_result_digest b = Some content"
      by (rule Suc.IH [OF ok]) (use False after(4) refs Suc.prems(3,6,7) in \<open>auto simp: readback_agrees_def kept_def\<close>)
    then obtain b where b: "reconcile_loop fuel ?s p now reference content ?job
          = Return (Inr (s\<lparr>jst_jobs := ys @ b # zs\<rparr>))"
      "same_job ?job b" "ejr_stage b = ''reconciled''" "ejr_side_effect_ref b = Some reference"
      "ejr_result_digest b = Some content" by auto
    have "reconcile_loop (Suc fuel) s p now reference content r = Return (Inr (s\<lparr>jst_jobs := ys @ b # zs\<rparr>))"
      using after(1) adv refs(3) False b(1) by (simp add: i_def)
    moreover have "same_job r b" using refs(4) b(2) by (simp add: same_job_def)
    ultimately show ?thesis using b(3-5) by blast
  qed
qed simp

lemma contradicted_readback:
  assumes ok: "jobs_ok s" and r: "jst_jobs s = ys @ r # zs" "ejr_project_id r = p"
    and live: "\<not> terminal_stage (ejr_stage r)" and no: "\<not> readback_agrees reference content r"
    and filled: "\<not> trim_is_empty p" "\<not> trim_is_empty (ejr_job_id r)" "\<not> trim_is_empty now"
  shows "\<exists>m. reconcile_loop (Suc fuel) s p now reference content r = Return (Inl (Conflict m))"
proof -
  have stage: "ejr_stage r \<in> set JOB_STAGES" using ok r(1) by (auto simp: jobs_ok_def row_ok_def)
  from publication_stage [OF stage live] obtain after where
    after: "publication_next_stage (ejr_stage r) = Some after" "after \<in> set JOB_STAGES"
      "valid_transition (ejr_stage r) after" by blast
  define i where "i = \<lparr>ejt_project_id = p, ejt_job_id = ejr_job_id r, ejt_expected_stage = ejr_stage r,
    ejt_next_stage = after, ejt_at = now, ejt_side_effect_ref = Some reference,
    ejt_result_digest = Some content, ejt_error_message = None\<rparr>"
  have valid: "validate_transition_input i = Inr ()"
    using filled stage after(2,3)
    by (simp add: i_def validate_transition_input_def require_text_def stage_ok)
  have found: "external_job_row s p (ejr_job_id r) = Inr (Some r)"
    using r ok by (subst job_row_split) auto
  have "identity_changes (ejr_side_effect_ref r) (Some reference) \<or> identity_changes (ejr_result_digest r) (Some content)"
    using no by (auto simp: readback_agrees_def kept_def identity_changes_def split: option.split)
  then have "\<exists>m. advance_external_job_row s i = Inl (Conflict m)"
    using valid found by (auto simp: advance_external_job_row_def i_def)
  then show ?thesis using after(1) by (auto simp: i_def)
qed

text \<open>C11: Reading back a publication always ends, and its outcome is exactly determined, for every
  publication job of a well formed table with nonblank identities.  A committed or reconciled job is left
  as it is when its recorded side effect and result are those read back, and reported corrupt otherwise;
  a rejected or failed job, and a running one whose recorded side effect or result contradicts the
  readback, is a conflict; and every other job is reconciled within the six iterations, under the verified
  reference and content, with its identity kept and every other row untouched.\<close>

theorem publication_reconciles:
  assumes "jobs_ok s" and "jst_jobs s = ys @ r # zs" and "ejr_project_id r = p"
    and "ejr_kind r = ''memory_publication''"
    and "\<not> trim_is_empty p" and "\<not> trim_is_empty (ejr_job_id r)" and "\<not> trim_is_empty now"
  shows "if ejr_stage r \<in> {''committed'', ''reconciled''}
     then reconcile_publication_job s p now git_revision content (Some r) =
       Return (if ejr_side_effect_ref r = Some (''git:'' @ git_revision) \<and> ejr_result_digest r = Some content
         then Inr s else Inl (Corrupt ''terminal publication disagrees with verified Git''))
     else if ejr_stage r \<in> {''rejected'', ''failed''} \<or> \<not> readback_agrees (''git:'' @ git_revision) content r
     then \<exists>m. reconcile_publication_job s p now git_revision content (Some r) = Return (Inl (Conflict m))
     else \<exists>b. reconcile_publication_job s p now git_revision content (Some r) = Return (Inr (s\<lparr>jst_jobs := ys @ b # zs\<rparr>))
       \<and> same_job r b \<and> ejr_stage b = ''reconciled'' \<and> ejr_side_effect_ref b = Some (''git:'' @ git_revision)
       \<and> ejr_result_digest b = Some content"
proof -
  have loop: "ejr_stage r \<notin> {''committed'', ''reconciled''} \<Longrightarrow>
      reconcile_publication_job s p now git_revision content (Some r)
        = reconcile_loop 6 s p now (''git:'' @ git_revision) content r"
    by (simp add: reconcile_publication_job_def assms(4) Let_def del: reconcile_loop.simps)
  have six: "6 = Suc 5" by simp
  consider "ejr_stage r \<in> {''committed'', ''reconciled''}" | "ejr_stage r \<in> {''rejected'', ''failed''}"
    | "\<not> terminal_stage (ejr_stage r)" "\<not> readback_agrees (''git:'' @ git_revision) content r"
    | "\<not> terminal_stage (ejr_stage r)" "readback_agrees (''git:'' @ git_revision) content r"
    by (auto simp: terminal_stage_def)
  then show ?thesis
  proof cases
    case 1
    then show ?thesis by (simp add: reconcile_publication_job_def assms(4) Let_def)
  next
    case 2
    then have "publication_next_stage (ejr_stage r) = None" by (auto simp: publication_next_stage_def)
    then have "reconcile_loop (Suc n) s p now (''git:'' @ git_revision) content r
        = Return (Inl (Conflict ''terminal or unknown publication stage needs explicit investigation''))" for n
      by simp
    from this [of 5] have "reconcile_loop 6 s p now (''git:'' @ git_revision) content r
        = Return (Inl (Conflict ''terminal or unknown publication stage needs explicit investigation''))"
      unfolding six .
    moreover have "ejr_stage r \<notin> {''committed'', ''reconciled''}" using 2 by auto
    ultimately show ?thesis using 2 loop by auto
  next
    case 3
    from contradicted_readback [OF assms(1-3) 3 assms(5-7), where fuel = 5] 3 loop show ?thesis
      unfolding six [symmetric] by (auto simp: terminal_stage_def)
  next
    case 4
    have "publication_left (ejr_stage r) < 6" by (simp add: publication_left_def)
    from reconcile_loop_ends [OF assms(5,7,1-3) 4 this assms(6)] 4(1) loop 4(2) show ?thesis
      by (simp add: terminal_stage_def del: reconcile_loop.simps)
  qed
qed

theorem publication_reconciles_witness:
  "\<exists>b. reconcile_publication_job sample_job_store ''P'' ''1'' ''f00'' ''c'' (Some (registered_row sample_job_input))
       = Return (Inr (sample_job_store\<lparr>jst_jobs := [b]\<rparr>))
     \<and> ejr_stage b = ''reconciled'' \<and> ejr_side_effect_ref b = Some ''git:f00''"
proof -
  let ?r = "registered_row sample_job_input"
  have "jst_jobs sample_job_store = [] @ ?r # []" by (simp add: sample_job_store_def)
  from publication_reconciles [OF sample_jobs_ok this, of "''P''" "''1''" "''f00''" "''c''"]
  show ?thesis
    by (auto simp: registered_row_def sample_job_input_def readback_agrees_def kept_def sample_filled)
qed

end
