(* ===== verification/Spec2Isabelle.thy ===== *)
theory Spec2Isabelle
  imports Dep_Impact Time_Policy Recurrence Cycles Rollup_Facts Legacy_Due Status_Timers Acceptance_Facts
    Paired_Decision Manager_Facts Deliverable_Facts Planning Job_Facts
begin

text \<open>
  Boreal Work: the domain core
  ============================

  Boreal Work plans, dispatches and accepts work items executed by agents under the supervision of
  operators.  All of its decisions are made by the pure crate \<open>crates/domain\<close>; the other crates load
  rows, call these functions and store the results.  This library models that crate, and of the store the table of
  external jobs, whose stages are a state machine of their own.  An evaluation
  starts from one snapshot: the canonical facts (\<open>DecisionInputs\<close>) and the status context are bound to each
  other (\<open>decision_api.rs\<close>), the status evaluator decides what the work is waiting for, the action policy decides
  what the actor may do, the acceptance interpreter decides whether proof allows closing, and the
  dependency graph, cycles and rollups decide how one item's state affects the others.

  Theories and sources (under \<open>crates/domain/src\<close> where no other path is given)
  -------------------------------------------------------------------------

  \<^item> \<open>Prelude\<close>: machine integers (\<open>u8 .. u64\<close> as words; checked and saturating operations), identifiers,
    \<open>Result\<close> as a sum, loops that stop early, and runs (\<open>Return\<close>, \<open>Panic\<close>, \<open>OutOfFuel\<close>).
  \<^item> \<open>Machines\<close>, \<open>Graph_Search\<close>, \<open>Stack_Search\<close>, \<open>Ordered_Map\<close>: the interfaces.  A machine with a partial step and
    its runs; depth-first searches with a path or a stack; ordered maps and sets
    (\<open>BTreeMap\<close>, \<open>BTreeSet\<close>).  Each is a locale, interpreted by the components below.
  \<^item> \<open>Lifecycle\<close>, \<open>Work_Items\<close> (\<open>lib.rs\<close>): attempts, leases and fences, gates and closing; work items,
    hierarchy, dependency edges, reason codes and status counts.
  \<^item> \<open>Dep_Graph\<close>, \<open>Dep_Eval\<close>, \<open>Dep_Impact\<close> (\<open>dependencies.rs\<close>): validation of the dependency graph, satisfaction
    of its edges under waivers and observations, and the preview of what a change affects.
  \<^item> \<open>Time_Policy\<close> (\<open>time_policy.rs\<close>): clocks across restarts, expiry, authority, renewal, schedules, retries.
  \<^item> \<open>Calendar\<close>, \<open>Recurrence\<close>, \<open>Work_Model\<close>, \<open>Cycles\<close>, \<open>Business_Time\<close>, \<open>Legacy_Due\<close>, \<open>External_Waits\<close>
    (\<open>work_model_v3.rs\<close>): civil dates, weekly slots, the forest of work nodes and direct dependencies, cycles and
    their assignments, business schedules, the parser of legacy due values, and waits.
  \<^item> \<open>Rollups\<close>, \<open>Rollup_Facts\<close> (\<open>rollups.rs\<close>): task, container and cycle rollups.
  \<^item> \<open>Decision_Inputs\<close>, \<open>Inputs_Facts\<close> (\<open>decision_inputs.rs\<close>): the facts of a decision and their validation.
  \<^item> \<open>Status_Evaluator\<close>, \<open>Status_Facts\<close>, \<open>Status_Timers\<close> (\<open>status_evaluator.rs\<close>): the status decision, what makes work
    claimable, the reported reasons, and the announced next change.
  \<^item> \<open>Acceptance\<close>, \<open>Acceptance_Facts\<close> (\<open>acceptance.rs\<close>): evidence, reviews, exceptions and closeout.
  \<^item> \<open>Actions\<close>, \<open>Actions_Facts\<close> (\<open>actions.rs\<close>) and \<open>Decision_Api\<close>, \<open>Paired_Decision\<close> (\<open>decision_api.rs\<close>): the action policy and
    the paired decision.
  \<^item> \<open>Global_Manager\<close>, \<open>Manager_Facts\<close> (\<open>global_manager.rs\<close>): management records and their two dependency checks.
  \<^item> \<open>Deliverables\<close>, \<open>Deliverable_Facts\<close> (\<open>deliverables.rs\<close>): output requirements and input references.
  \<^item> \<open>Planning\<close> (the rest of \<open>work_model_v3.rs\<close>, \<open>completion.rs\<close>, \<open>maintenance.rs\<close>): cycle templates and instances, intake,
    dispositions, planning permissions and command vocabularies.
  \<^item> \<open>External_Jobs\<close>, \<open>Job_Facts\<close> (\<open>crates/store/src/jobs.rs\<close>, the loop of \<open>crates/store/src/memory.rs\<close>): the job table, the
    statements that register, read and advance a job, and the readback of a publication.
  Correspondence
  --------------

  A struct is a record (fields carry a short prefix), an enum a datatype with the source's
  constructors, a \<open>Result\<close> a sum with the error on the left, a \<open>String\<close> the list of its UTF-8 bytes, a timestamp a
  64-bit word.  Vectors are lists; \<open>sort\<close> and \<open>dedup\<close> are the stable sort and the removal of adjacent repetitions.
  A panic (\<open>unreachable!\<close>, \<open>expect\<close>) is the value \<open>Panic\<close>, and the theorems about functions that could
  panic show that they return.  A long function body is split along its bindings and loops into one
  definition each; the manifest names the lines of every definition.  Unchecked \<open>i64\<close> additions of the calendar wrap as in
  a release build (all but the shift of the day number in \<open>civil_from_days\<close>, whose difference only wraps near the
  least 64-bit value, far outside the dates); counters of type \<open>usize\<close> are natural numbers.  A definition that a statement introduces to describe a result (for example
  \<open>proven\<close>, \<open>decided_by\<close>, \<open>role_may\<close>, \<open>applicable\<close> or \<open>request_binds\<close>) is a specification and has no source line.

  Fuel
  ----

  Recursions of the source that are not structural run with fuel, and each is shown not to
  exhaust it: \<open>reaches\<close> has two more than the number of edges, \<open>visit_cycle\<close> one more than the numbers of nodes and
  edges together, the affected-work walk as many as roots and edges, the propagation of
  invalidations \<open>n * (n + 3)\<close>, the walks to the root of a decomposition three more than the nodes, the stack
  searches two more than the arcs, the lineage walks two more than the assignments, the topological visit one
  more than the nodes, and the publication loop six, one more than the stages it can still pass.

  What the lemmas show
  --------------------

  Validators are characterised exactly (accepted inputs and errors); searches always return and
  compute reachability; evaluators are total, their positive results are sound, and their
  announced timers are complete under the conditions their properties state; an action is authorized exactly
  when a policy written a second time, as positive conditions, admits it; the projection of actions and the authorization of a request
  decide alike; only the latest current observation of exactly the subject proves a requirement; a claim offered by the paired decision is one the status evaluator offers; a ready
  closeout rests on proof, independent review or an operator's exception; and jobs move forward only.

  Parameters
  ----------

  \<open>printable\<close> (in \<open>Dep_Eval\<close>) stands for the Unicode table behind Rust's \<open>Debug\<close> escapes, which decides the order of diagnostics
  only; no theorem depends on its value.  \<open>errmsg\<close> (in \<open>External_Jobs\<close>) stands for the text SQLite gives for a violated
  constraint.

  Not modelled
  ------------

  The rest of the SQLite store, the application services, command line, service host, MCP server, memory index,
  source snapshots, migrations and wire protocol are input and output around this core and depend on
  a database, processes, sockets and files that are not in the sources; the terminal interfaces are
  TypeScript.  In the domain crate, \<open>Display\<close> texts, the generated conversions of identifiers and derived
  instances are left out.  Of the external jobs, the identity-bound variants are left out, since their checks
  read the identity and audit tables, and so are failures of the database itself; a transaction that fails is
  taken to leave the tables unchanged.
\<close>

end
